(* ===== verification/Prelude.thy ===== *)
theory Prelude
  imports Complex_Main "HOL-Library.List_Lexorder" "HOL-Library.Char_ord"
    "HOL-Library.Product_Lexorder"
begin

section \<open>Shared vocabulary of the gateway development\<close>

text \<open>
  What every component theory uses: results with errors as values, the parts of Python's
  built-in \<^verbatim>\<open>str\<close>, \<^verbatim>\<open>min\<close>, \<^verbatim>\<open>sorted\<close> and
  \<^verbatim>\<open>dict\<close> that the gateway calls, and the lemma collections the
  component proofs rewrite with.

  A Python \<^verbatim>\<open>str\<close> is a \<^typ>\<open>string\<close>: a list of code points below 256, on
  which the character classes below are Python's own (\<^verbatim>\<open>str.isspace\<close>,
  \<^verbatim>\<open>str.lower\<close>). Finite Python floats are rationals: the gateway only
  compares, adds and multiplies them, and where a conversion to a float rounds (from
  \<^verbatim>\<open>int\<close> or \<^verbatim>\<open>Decimal\<close>) the rounding is written out in the theory that needs it.
\<close>

named_theorems result_simps \<open>equations of results with errors as values\<close>
named_theorems enum_simps \<open>evaluation of the enumerations of the source\<close>
named_theorems frame_simps \<open>what an operation leaves unchanged\<close>

subsection \<open>Results: an exception or a value\<close>

type_synonym ('e, 'a) result = "'e + 'a"

definition rbind :: "('e, 'a) result \<Rightarrow> ('a \<Rightarrow> ('e, 'b) result) \<Rightarrow> ('e, 'b) result" where
  "rbind r f = (case r of Inl e \<Rightarrow> Inl e | Inr a \<Rightarrow> f a)"

fun mapM :: "('a \<Rightarrow> ('e, 'b) result) \<Rightarrow> 'a list \<Rightarrow> ('e, 'b list) result" where
  "mapM f [] = Inr []"
| "mapM f (x # xs) = rbind (f x) (\<lambda>y. rbind (mapM f xs) (\<lambda>ys. Inr (y # ys)))"

lemma rbind_Inl [simp, result_simps]: "rbind (Inl e) f = Inl e"
  by (simp add: rbind_def)

lemma rbind_Inr [simp, result_simps]: "rbind (Inr a) f = f a"
  by (simp add: rbind_def)

lemma rbind_eq_Inr [result_simps]: "rbind r f = Inr b \<longleftrightarrow> (\<exists>a. r = Inr a \<and> f a = Inr b)"
  by (cases r) auto

lemma rbind_eq_Inl [result_simps]:
  "rbind r f = Inl e \<longleftrightarrow> r = Inl e \<or> (\<exists>a. r = Inr a \<and> f a = Inl e)"
  by (cases r) auto

lemma mapM_Inr_iff:
  "mapM f xs = Inr ys \<longleftrightarrow> list_all2 (\<lambda>x y. f x = Inr y) xs ys"
proof (induction xs arbitrary: ys)
  case Nil
  then show ?case by auto
next
  case (Cons x xs)
  then show ?case by (cases ys) (auto simp: rbind_eq_Inr)
qed

lemma mapM_Inr_length: "mapM f xs = Inr ys \<Longrightarrow> length ys = length xs"
  by (auto simp: mapM_Inr_iff dest: list_all2_lengthD)

lemma mapM_Inr_mem: "mapM f xs = Inr ys \<Longrightarrow> y \<in> set ys \<Longrightarrow> \<exists>x\<in>set xs. f x = Inr y"
  by (auto simp: mapM_Inr_iff list_all2_conv_all_nth in_set_conv_nth) (metis nth_mem)

lemma mapM_total: "(\<And>x. x \<in> set xs \<Longrightarrow> \<exists>y. f x = Inr y) \<Longrightarrow> \<exists>ys. mapM f xs = Inr ys"
proof (induction xs)
  case Nil
  then show ?case by simp
next
  case (Cons x xs)
  then obtain y ys where "f x = Inr y" "mapM f xs = Inr ys" by force
  then show ?case by simp
qed

lemma mapM_cong_Inr: "(\<And>x. x \<in> set xs \<Longrightarrow> f x = Inr (g x)) \<Longrightarrow> mapM f xs = Inr (map g xs)"
  by (induction xs) auto

subsection \<open>min with a key: the first element of least key\<close>

fun min_by :: "('a \<Rightarrow> 'k::linorder) \<Rightarrow> 'a \<Rightarrow> 'a list \<Rightarrow> 'a" where
  "min_by key x [] = x"
| "min_by key x (y # ys) = min_by key (if key y < key x then y else x) ys"

lemma min_by_in_set: "min_by key x xs \<in> set (x # xs)"
  by (induction key x xs rule: min_by.induct) (auto split: if_splits)

lemma min_by_le: "y \<in> set (x # xs) \<Longrightarrow> key (min_by key x xs) \<le> key y"
proof (induction key x xs arbitrary: y rule: min_by.induct)
  case (1 key x)
  then show ?case by simp
next
  case (2 key x z zs)
  let ?m = "if key z < key x then z else x"
  have m: "key (min_by key ?m zs) \<le> key ?m" by (rule "2.IH") simp
  show ?case
  proof (cases "y \<in> set zs")
    case True
    then show ?thesis using "2.IH" [of y] by simp
  next
    case False
    then have "y = x \<or> y = z" using "2.prems" by auto
    with m show ?thesis by (auto split: if_splits)
  qed
qed

lemma min_by_unique:
  assumes "inj_on key (set (x # xs))" and "y \<in> set (x # xs)"
    and "\<And>z. z \<in> set (x # xs) \<Longrightarrow> key y \<le> key z"
  shows "min_by key x xs = y"
proof -
  have "key (min_by key x xs) = key y"
    using assms(3) [OF min_by_in_set] min_by_le [OF assms(2)] by (rule order.antisym [OF _ _, rotated])
  then show ?thesis using assms(1) min_by_in_set [of key x xs] assms(2) by (simp only: inj_on_eq_iff)
qed

subsection \<open>Strings\<close>

definition isspace :: "char \<Rightarrow> bool" where
  "isspace c = (let n = (of_char c :: nat) in
     (9 \<le> n \<and> n \<le> 13) \<or> (28 \<le> n \<and> n \<le> 32) \<or> n = 133 \<or> n = 160)"

definition lstrip :: "string \<Rightarrow> string" where
  "lstrip s = dropWhile isspace s"

definition strip :: "string \<Rightarrow> string" where
  "strip s = rev (dropWhile isspace (rev (dropWhile isspace s)))"

function split_ws :: "string \<Rightarrow> string list" where
  "split_ws s =
     (let t = dropWhile isspace s in
      if t = [] then []
      else takeWhile (\<lambda>c. \<not> isspace c) t # split_ws (dropWhile (\<lambda>c. \<not> isspace c) t))"
  by pat_completeness auto
termination
proof (relation "measure length")
  show "wf (measure length)" by simp
next
  fix s t
  assume t: "t = dropWhile isspace s" and ne: "t \<noteq> []"
  from ne obtain c r where cr: "t = c # r" by (auto simp: neq_Nil_conv)
  with t have "\<not> isspace c" by (metis hd_dropWhile list.discI list.sel(1))
  then have "length (dropWhile (\<lambda>c. \<not> isspace c) t) \<le> length r"
    by (simp add: cr length_dropWhile_le)
  moreover have "length t \<le> length s" by (simp add: t length_dropWhile_le)
  ultimately show "(dropWhile (\<lambda>c. \<not> isspace c) t, s) \<in> measure length"
    by (simp add: cr)
qed

declare split_ws.simps [simp del]

fun join :: "string \<Rightarrow> string list \<Rightarrow> string" where
  "join sep [] = ''''"
| "join sep [w] = w"
| "join sep (w # v # ws) = w @ sep @ join sep (v # ws)"

definition lower_char :: "char \<Rightarrow> char" where
  "lower_char c = (let n = (of_char c :: nat) in
     if (65 \<le> n \<and> n \<le> 90) \<or> (192 \<le> n \<and> n \<le> 222 \<and> n \<noteq> 215) then char_of (n + 32) else c)"

definition lower :: "string \<Rightarrow> string" where
  "lower s = map lower_char s"

text \<open>\<^verbatim>\<open>str(n)\<close> of a natural number and \<^verbatim>\<open>str(b).lower()\<close> of a boolean.\<close>

fun show_nat :: "nat \<Rightarrow> string" where
  "show_nat n = (if n < 10 then [char_of (48 + n)] else show_nat (n div 10) @ [char_of (48 + n mod 10)])"

declare show_nat.simps [simp del]

definition show_bool :: "bool \<Rightarrow> string" where
  "show_bool b = (if b then ''true'' else ''false'')"

lemma isspace_space [simp]: "isspace CHR '' ''"
  by (simp add: isspace_def)

lemma strip_Nil [simp]: "strip [] = []"
  by (simp add: strip_def)

lemma strip_eq_Nil_iff: "strip s = [] \<longleftrightarrow> (\<forall>c\<in>set s. isspace c)"
proof -
  have "strip s = [] \<longleftrightarrow> (\<forall>c\<in>set (dropWhile isspace s). isspace c)"
    by (auto simp: strip_def dropWhile_eq_Nil_conv)
  also have "\<dots> \<longleftrightarrow> (\<forall>c\<in>set s. isspace c)"
    by (induction s) auto
  finally show ?thesis .
qed

lemma dropWhile_id: "(xs = [] \<or> \<not> P (hd xs)) \<Longrightarrow> dropWhile P xs = xs"
  by (cases xs) auto

lemma strip_ends:
  assumes "strip s \<noteq> []"
  shows "\<not> isspace (hd (strip s))" and "\<not> isspace (last (strip s))"
proof -
  let ?u = "dropWhile isspace s"
  let ?v = "dropWhile isspace (rev ?u)"
  have v: "strip s = rev ?v" "?v \<noteq> []" using assms by (auto simp: strip_def)
  show "\<not> isspace (last (strip s))"
    using v hd_dropWhile [OF v(2)] by (simp add: last_rev)
  have u: "?u \<noteq> []" using v(2) by (cases ?u) auto
  have split: "rev ?u = takeWhile isspace (rev ?u) @ ?v" by simp
  have "last (rev ?u) = last ?v" by (subst split) (rule last_appendR [OF v(2)])
  then have "hd (strip s) = hd ?u" using v u by (simp add: hd_rev last_rev)
  then show "\<not> isspace (hd (strip s))" using hd_dropWhile [OF u] by simp
qed

lemma strip_strip [simp]: "strip (strip s) = strip s"
proof (cases "strip s = []")
  case True
  then show ?thesis by simp
next
  case False
  then have "dropWhile isspace (strip s) = strip s"
    using strip_ends(1) by (intro dropWhile_id) simp
  moreover have "dropWhile isspace (rev (strip s)) = rev (strip s)"
    using False strip_ends(2) by (intro dropWhile_id) (simp add: hd_rev)
  ultimately show ?thesis by (simp add: strip_def [of "strip s"])
qed

lemma split_ws_blank: "(\<forall>c\<in>set s. isspace c) \<Longrightarrow> split_ws s = []"
  by (subst split_ws.simps) (simp add: Let_def dropWhile_eq_Nil_conv)

lemma split_ws_Nil [simp]: "split_ws [] = []"
  by (simp add: split_ws_blank)

lemma split_ws_space [simp]: "isspace c \<Longrightarrow> split_ws (c # s) = split_ws s"
  by (subst (1 2) split_ws.simps) simp

lemma split_ws_words:
  "w \<in> set (split_ws s) \<Longrightarrow> w \<noteq> [] \<and> (\<forall>c\<in>set w. \<not> isspace c)"
proof (induction s rule: split_ws.induct)
  case (1 s)
  let ?t = "dropWhile isspace s"
  show ?case
  proof (cases "?t = []")
    case True
    with "1.prems" show ?thesis by (subst (asm) split_ws.simps) simp
  next
    case False
    have first: "takeWhile (\<lambda>c. \<not> isspace c) ?t \<noteq> []"
      using False hd_dropWhile [OF False] by (cases ?t) auto
    have "split_ws s = takeWhile (\<lambda>c. \<not> isspace c) ?t #
        split_ws (dropWhile (\<lambda>c. \<not> isspace c) ?t)"
      using False by (subst split_ws.simps) (simp only: Let_def if_False)
    then have "w = takeWhile (\<lambda>c. \<not> isspace c) ?t
        \<or> w \<in> set (split_ws (dropWhile (\<lambda>c. \<not> isspace c) ?t))"
      using "1.prems" by simp
    then show ?thesis
    proof
      assume "w = takeWhile (\<lambda>c. \<not> isspace c) ?t"
      then show ?thesis using first by (auto dest: set_takeWhileD)
    next
      assume "w \<in> set (split_ws (dropWhile (\<lambda>c. \<not> isspace c) ?t))"
      then show ?thesis by (rule "1.IH" [OF refl False])
    qed
  qed
qed

lemma split_ws_word_append:
  assumes "w \<noteq> []" "\<forall>c\<in>set w. \<not> isspace c" "s = [] \<or> isspace (hd s)"
  shows "split_ws (w @ s) = w # split_ws s"
proof -
  obtain c r where w: "w = c # r" using assms(1) by (cases w) auto
  have d: "dropWhile isspace (w @ s) = w @ s" using assms(2) w by simp
  have t: "takeWhile (\<lambda>c. \<not> isspace c) (w @ s) = w"
    using assms(2,3) by (cases s) (auto simp: takeWhile_append)
  have r: "dropWhile (\<lambda>c. \<not> isspace c) (w @ s) = s"
    using assms(2,3) by (cases s) (auto simp: dropWhile_append)
  show ?thesis
    by (subst split_ws.simps) (simp only: Let_def d t r, simp add: w)
qed

text \<open>Splitting what was joined with blanks gives the words back.\<close>

lemma split_ws_join:
  "(\<And>w. w \<in> set ws \<Longrightarrow> w \<noteq> [] \<and> (\<forall>c\<in>set w. \<not> isspace c)) \<Longrightarrow> split_ws (join '' '' ws) = ws"
proof (induction "'' ''" ws rule: join.induct)
  case 1
  then show ?case by simp
next
  case (2 w)
  then show ?case using split_ws_word_append [of w "[]"] by simp
next
  case (3 w v ws)
  have "split_ws (join '' '' (v # ws)) = v # ws"
    by (rule "3.hyps") (use "3.prems" in auto)
  moreover have "split_ws (w @ '' '' @ join '' '' (v # ws)) = w # split_ws ('' '' @ join '' '' (v # ws))"
    using "3.prems" by (intro split_ws_word_append) auto
  ultimately show ?case by simp
qed

subsection \<open>Insertion-ordered dictionaries\<close>

text \<open>
  A Python dict keeps the order of first insertion. Overwriting a key keeps its place.
\<close>

type_synonym 'v dict = "(string \<times> 'v) list"

fun dict_set :: "'v dict \<Rightarrow> string \<Rightarrow> 'v \<Rightarrow> 'v dict" where
  "dict_set [] k v = [(k, v)]"
| "dict_set ((k', v') # d) k v = (if k' = k then (k, v) # d else (k', v') # dict_set d k v)"

lemma dict_set_lookup [simp]: "map_of (dict_set d k v) = (map_of d)(k \<mapsto> v)"
  by (induction d k v rule: dict_set.induct) auto

lemma dict_set_keys: "map fst (dict_set d k v) = (if k \<in> fst ` set d then map fst d else map fst d @ [k])"
  by (induction d k v rule: dict_set.induct) auto

lemma dict_set_key_set: "fst ` set (dict_set d k v) = insert k (fst ` set d)"
  by (induction d k v rule: dict_set.induct) auto

lemma dict_set_distinct: "distinct (map fst d) \<Longrightarrow> distinct (map fst (dict_set d k v))"
  by (simp add: dict_set_keys)

lemma dict_set_new: "k \<notin> fst ` set d \<Longrightarrow> dict_set d k v = d @ [(k, v)]"
  by (induction d k v rule: dict_set.induct) auto

lemma dict_set_new_values: "k \<notin> fst ` set d \<Longrightarrow> map snd (dict_set d k v) = map snd d @ [v]"
  by (simp add: dict_set_new)

lemma dict_set_new_items: "k \<notin> fst ` set d \<Longrightarrow> set (dict_set d k v) = insert (k, v) (set d)"
  by (simp add: dict_set_new)

lemmas dict_new = dict_set_new_values dict_set_new_items dict_set_distinct

subsection \<open>Sequences without duplicates\<close>

text \<open>The source tests \<^verbatim>\<open>len(xs) != len(set(xs))\<close>.\<close>

definition has_duplicates :: "'a list \<Rightarrow> bool" where
  "has_duplicates xs = (length xs \<noteq> length (remdups xs))"

lemma has_duplicates_iff [simp]: "has_duplicates xs \<longleftrightarrow> \<not> distinct xs"
  by (metis has_duplicates_def distinct_card distinct_remdups length_remdups_card_conv
      card_distinct)

lemma filter_key_at_most_one:
  "distinct (map f xs) \<Longrightarrow> length (filter (\<lambda>a. f a = k) xs) \<le> 1"
proof (induction xs)
  case Nil
  then show ?case by simp
next
  case (Cons x xs)
  show ?case
  proof (cases "f x = k")
    case True
    then have "k \<notin> f ` set xs" using Cons.prems by simp
    then have "\<forall>y\<in>set xs. f y \<noteq> k" by blast
    then show ?thesis by (simp add: True filter_empty_conv)
  qed (use Cons in simp)
qed

lemma filter_key_cases:
  assumes "distinct (map f xs)"
  shows "filter (\<lambda>a. f a = k) xs = [] \<or> (\<exists>x\<in>set xs. f x = k \<and> filter (\<lambda>a. f a = k) xs = [x])"
proof (cases "filter (\<lambda>a. f a = k) xs")
  case (Cons y ys)
  then have "y \<in> set xs \<and> f y = k" by (metis (mono_tags) filter_eq_ConsD in_set_conv_decomp)
  moreover have "ys = []" using filter_key_at_most_one [OF assms, of k] Cons by simp
  ultimately show ?thesis using Cons by auto
qed simp

end
