(* ===== verification/Decimal_Arith.thy ===== *)
theory Decimal_Arith
  imports Errors
begin

section \<open>Python's decimal arithmetic\<close>

text \<open>
  The part of \<^verbatim>\<open>decimal.Decimal\<close> the gateway computes money with: non-negative finite
  numbers as a coefficient and an exponent, the context operations \<^verbatim>\<open>+\<close>,
  \<^verbatim>\<open>*\<close> and \<^verbatim>\<open>/\<close>, which compute an exact result and then
  round it to the context precision (\<open>dec_fix\<close>: half-even, exponent range
  \<open>-999999 .. 999999\<close>, an overflow traps). Rounding is part of the model, so that "no digit is
  lost" is a theorem about the precision a caller chose (\<open>dec_fix_exact\<close>,
  \<open>dec_div_million\<close>) and not an assumption.
\<close>

record dec =
  coeff :: nat
  expo :: int

text \<open>The number a decimal denotes.\<close>

definition pow10 :: "int \<Rightarrow> rat" where
  "pow10 e = (if 0 \<le> e then 10 ^ nat e else 1 / 10 ^ nat (- e))"

definition dval :: "dec \<Rightarrow> rat" where
  "dval d = of_nat (coeff d) * pow10 (expo d)"

definition dec_of_int :: "nat \<Rightarrow> dec" where
  "dec_of_int n = \<lparr>coeff = n, expo = 0\<rparr>"

text \<open>Number of decimal digits of a coefficient; zero has one digit.\<close>

fun ndigits :: "nat \<Rightarrow> nat" where
  "ndigits n = (if n < 10 then 1 else Suc (ndigits (n div 10)))"

declare ndigits.simps [simp del]

definition Emax :: int where "Emax = 999999"
definition Emin :: int where "Emin = -999999"

definition Etiny :: "nat \<Rightarrow> int" where "Etiny prec = Emin - int prec + 1"
definition Etop :: "nat \<Rightarrow> int" where "Etop prec = Emax - int prec + 1"

definition round_half_even :: "nat \<Rightarrow> nat \<Rightarrow> nat" where
  "round_half_even n d =
     (let q = n div d; r = n mod d in
      if 2 * r < d then q else if d < 2 * r then q + 1 else if even q then q else q + 1)"

text \<open>
  \<^verbatim>\<open>Decimal._fix\<close>: round to \<open>prec\<close> digits and to the exponent range.
\<close>

definition dec_fix :: "nat \<Rightarrow> dec \<Rightarrow> exn_class + dec" where
  "dec_fix prec d =
     (if coeff d = 0 then
        Inr (d\<lparr>expo := min (max (expo d) (Etiny prec)) Emax\<rparr>)
      else
        let exp_min0 = int (ndigits (coeff d)) + expo d - int prec in
        if exp_min0 > Etop prec then Inl DecimalOverflowC
        else
          let exp_min = max exp_min0 (Etiny prec) in
          if expo d < exp_min then
            (let c = round_half_even (coeff d) (10 ^ nat (exp_min - expo d)) in
             let (c', e') = (if ndigits c > prec then (c div 10, exp_min + 1) else (c, exp_min)) in
             if e' > Etop prec then Inl DecimalOverflowC
             else Inr \<lparr>coeff = c', expo = e'\<rparr>)
          else Inr d)"

definition dec_add_exact :: "dec \<Rightarrow> dec \<Rightarrow> dec" where
  "dec_add_exact a b =
     (let e = min (expo a) (expo b) in
      \<lparr>coeff = coeff a * 10 ^ nat (expo a - e) + coeff b * 10 ^ nat (expo b - e), expo = e\<rparr>)"

definition dec_add :: "nat \<Rightarrow> dec \<Rightarrow> dec \<Rightarrow> exn_class + dec" where
  "dec_add prec a b = dec_fix prec (dec_add_exact a b)"

definition dec_mul :: "nat \<Rightarrow> dec \<Rightarrow> dec \<Rightarrow> exn_class + dec" where
  "dec_mul prec a b = dec_fix prec \<lparr>coeff = coeff a * coeff b, expo = expo a + expo b\<rparr>"

text \<open>
  The loop at the end of \<^verbatim>\<open>Decimal.__truediv__\<close> that moves an exact quotient towards
  its ideal exponent. It runs at most \<open>ideal - e\<close> times.
\<close>

function strip_zeros :: "int \<Rightarrow> nat \<Rightarrow> int \<Rightarrow> nat \<times> int" where
  "strip_zeros ideal c e =
     (if e < ideal \<and> 10 dvd c then strip_zeros ideal (c div 10) (e + 1) else (c, e))"
  by pat_completeness auto
termination
  by (relation "measure (\<lambda>(ideal, c, e). nat (ideal - e))") auto

declare strip_zeros.simps [simp del]

definition dec_div :: "nat \<Rightarrow> dec \<Rightarrow> dec \<Rightarrow> exn_class + dec" where
  "dec_div prec a b =
     (if coeff b = 0 then Inl ArithmeticErrorC
      else if coeff a = 0 then dec_fix prec \<lparr>coeff = 0, expo = expo a - expo b\<rparr>
      else
        let shift = int (ndigits (coeff b)) - int (ndigits (coeff a)) + int prec + 1;
            e = expo a - expo b - shift;
            num = (if 0 \<le> shift then coeff a * 10 ^ nat shift else coeff a);
            den = (if 0 \<le> shift then coeff b else coeff b * 10 ^ nat (- shift));
            c = num div den in
        if num mod den \<noteq> 0 then
          dec_fix prec \<lparr>coeff = (if c mod 5 = 0 then c + 1 else c), expo = e\<rparr>
        else
          let (c', e') = strip_zeros (expo a - expo b) c e in
          dec_fix prec \<lparr>coeff = c', expo = e'\<rparr>)"

text \<open>\<^verbatim>\<open>sum(values, start=Decimal(0))\<close>.\<close>

fun dec_sum :: "nat \<Rightarrow> dec \<Rightarrow> dec list \<Rightarrow> exn_class + dec" where
  "dec_sum prec acc [] = Inr acc"
| "dec_sum prec acc (d # ds) = rbind (dec_add prec acc d) (\<lambda>acc'. dec_sum prec acc' ds)"

subsection \<open>Digits and powers of ten\<close>

lemma ndigits_pos [simp]: "0 < ndigits n"
  by (subst ndigits.simps) simp

lemma ndigits_less: "n < 10 ^ ndigits n"
proof (induction n rule: ndigits.induct)
  case (1 n)
  show ?case
  proof (cases "n < 10")
    case True
    then show ?thesis by (subst ndigits.simps) simp
  next
    case False
    then have "n div 10 < 10 ^ ndigits (n div 10)" by (rule "1.IH")
    then have "n < 10 * 10 ^ ndigits (n div 10)"
      by (metis div_less_iff_less_mult mult.commute zero_less_numeral)
    then show ?thesis using False by (subst ndigits.simps) simp
  qed
qed

lemma ndigits_le_iff: "0 < k \<Longrightarrow> ndigits n \<le> k \<longleftrightarrow> n < 10 ^ k"
proof
  assume "ndigits n \<le> k"
  then have "(10::nat) ^ ndigits n \<le> 10 ^ k" by (simp add: power_increasing)
  with ndigits_less [of n] show "n < 10 ^ k" by (rule less_le_trans)
next
  show "0 < k \<Longrightarrow> n < 10 ^ k \<Longrightarrow> ndigits n \<le> k"
  proof (induction n arbitrary: k rule: ndigits.induct)
    case (1 n)
    show ?case
    proof (cases "n < 10")
      case True
      then show ?thesis using "1.prems" by (subst ndigits.simps) simp
    next
      case False
      then obtain j where j: "k = Suc j" "0 < j"
        using "1.prems" by (cases k; cases "k - 1") auto
      then have "n div 10 < 10 ^ j" using "1.prems" by auto
      then show ?thesis using "1.IH" [OF False j(2)] False j by (subst ndigits.simps) simp
    qed
  qed
qed

lemma pow10_pos [simp]: "0 < pow10 e"
  by (simp add: pow10_def)

lemma pow10_nonzero [simp]: "pow10 e \<noteq> 0"
  using pow10_pos [of e] by linarith

lemma pow10_add: "pow10 (a + b) = pow10 a * pow10 b"
proof -
  have p: "pow10 e = 10 powi e" for e
    by (simp add: pow10_def power_int_def divide_simps)
  show ?thesis unfolding p by (simp add: power_int_add)
qed

lemma pow10_nat: "pow10 (int n) = 10 ^ n"
  by (simp add: pow10_def)

lemma pow10_diff: "pow10 (a - b) = pow10 a / pow10 b"
  using pow10_add [of "a - b" b] by (simp add: field_simps)

lemma pow10_minus6: "pow10 (a - 6) = pow10 a / 1000000"
  by (subst pow10_diff) (simp add: pow10_def)

lemma dval_nonneg [simp]: "0 \<le> dval d"
  by (simp add: dval_def less_imp_le)

lemma dval_of_int [simp]: "dval (dec_of_int n) = of_nat n"
  by (simp add: dval_def dec_of_int_def pow10_def)

lemma dval_shift: "of_nat (c * 10 ^ nat (a - e)) * pow10 e = of_nat c * pow10 a" if "e \<le> a"
proof -
  have "pow10 a = pow10 (a - e) * pow10 e" using pow10_add [of "a - e" e] by simp
  moreover have "pow10 (a - e) = 10 ^ nat (a - e)" using that by (simp add: pow10_def)
  ultimately show ?thesis by simp
qed

lemma dval_add_exact: "dval (dec_add_exact a b) = dval a + dval b"
proof -
  let ?e = "min (expo a) (expo b)"
  have "dval (dec_add_exact a b) =
      of_nat (coeff a * 10 ^ nat (expo a - ?e)) * pow10 ?e
      + of_nat (coeff b * 10 ^ nat (expo b - ?e)) * pow10 ?e"
    unfolding dval_def dec_add_exact_def Let_def
    by (simp only: dec.simps of_nat_add distrib_right)
  also have "\<dots> = dval a + dval b"
    by (subst (1 2) dval_shift) (simp_all add: dval_def)
  finally show ?thesis .
qed

subsection \<open>When rounding is exact\<close>

text \<open>
  A decimal fits a precision when its digits do and its exponents are inside the context
  range: then \<open>dec_fix\<close> returns it unchanged.
\<close>

definition dec_fits :: "nat \<Rightarrow> dec \<Rightarrow> bool" where
  "dec_fits prec d \<longleftrightarrow> ndigits (coeff d) \<le> prec \<and> Emin \<le> expo d \<and>
     int (ndigits (coeff d)) + expo d \<le> Emax"

lemma dec_fix_exact:
  assumes "dec_fits prec d"
  shows "dec_fix prec d = Inr d"
proof -
  let ?m = "int (ndigits (coeff d)) + expo d - int prec"
  have "0 < prec" using assms order.strict_trans2 [OF ndigits_pos] by (auto simp: dec_fits_def)
  then have tiny: "Etiny prec \<le> expo d" and top: "?m \<le> Etop prec" and m: "?m \<le> expo d"
    and clamp: "expo d \<le> Emax"
    using assms by (auto simp: dec_fits_def Etiny_def Etop_def Emax_def Emin_def)
  show ?thesis
  proof (cases "coeff d = 0")
    case True
    have "min (max (expo d) (Etiny prec)) Emax = expo d" using tiny clamp by linarith
    with True show ?thesis by (simp add: dec_fix_def)
  next
    case False
    have "\<not> expo d < max ?m (Etiny prec)" using tiny m by linarith
    with False top show ?thesis by (simp add: dec_fix_def Let_def)
  qed
qed

lemma strip_zeros_spec:
  "strip_zeros ideal c e = (c', e') \<Longrightarrow> e \<le> ideal \<Longrightarrow>
     e \<le> e' \<and> e' \<le> ideal \<and> c = c' * 10 ^ nat (e' - e) \<and> (e' = ideal \<or> \<not> 10 dvd c')"
proof (induction ideal c e arbitrary: c' e' rule: strip_zeros.induct)
  case (1 ideal c e)
  show ?case
  proof (cases "e < ideal \<and> 10 dvd c")
    case True
    with "1.prems" have step: "strip_zeros ideal (c div 10) (e + 1) = (c', e')"
      by (subst (asm) strip_zeros.simps) simp
    have IH: "e + 1 \<le> e' \<and> e' \<le> ideal \<and> c div 10 = c' * 10 ^ nat (e' - (e + 1))
        \<and> (e' = ideal \<or> \<not> 10 dvd c')"
      using "1.IH" [OF True step] True by simp
    then have "nat (e' - e) = Suc (nat (e' - (e + 1)))" by linarith
    moreover have "c = c div 10 * 10" using True by simp
    ultimately show ?thesis using IH by auto
  next
    case False
    with "1.prems" show ?thesis by (subst (asm) strip_zeros.simps) auto
  qed
qed

lemma ndigits_mono: "c \<le> d \<Longrightarrow> ndigits c \<le> ndigits d"
  using ndigits_less [of d] by (simp add: ndigits_le_iff)

lemma ndigits_million: "ndigits 1000000 = 7"
  by (simp add: ndigits.simps)

text \<open>
  The quotient by \<open>10\<^sup>6\<close> of a decimal whose coefficient fits the precision: the shifted
  numerator is a multiple of the denominator, and what stripping zeros leaves divides the
  original coefficient, so nothing is rounded.
\<close>

lemma strip_million:
  assumes strip: "strip_zeros ideal (n * 10 ^ nat (sh - 6)) (ideal - sh) = (c', e')"
    and "6 \<le> sh" "0 < n"
  shows "ideal - 6 \<le> e'" and "e' \<le> ideal" and "n = c' * 10 ^ nat (e' - (ideal - 6))"
proof -
  let ?e = "ideal - sh"
  have spec: "?e \<le> e'" "e' \<le> ideal" "n * 10 ^ nat (sh - 6) = c' * 10 ^ nat (e' - ?e)"
      "e' = ideal \<or> \<not> 10 dvd c'"
    using strip_zeros_spec [OF strip] assms(2) by auto
  show le: "ideal - 6 \<le> e'"
  proof (rule ccontr)
    assume "\<not> ideal - 6 \<le> e'"
    then have k: "nat (sh - 6) = nat (e' - ?e) + Suc (nat (ideal - 7 - e'))"
      using spec(1,2) assms(2) by linarith
    have "c' = n * 10 ^ Suc (nat (ideal - 7 - e'))"
      using spec(3) unfolding k power_add by (simp add: mult.assoc [symmetric])
    then have "10 dvd c'" by simp
    moreover have "e' \<noteq> ideal" using \<open>\<not> ideal - 6 \<le> e'\<close> by simp
    ultimately show False using spec(4) by simp
  qed
  show "e' \<le> ideal" by (rule spec(2))
  have k: "nat (e' - ?e) = nat (sh - 6) + nat (e' - (ideal - 6))"
    using le assms(2) by linarith
  show "n = c' * 10 ^ nat (e' - (ideal - 6))"
    using spec(3) unfolding k power_add by (simp add: mult.left_commute)
qed

lemma dec_div_million:
  assumes nd: "ndigits (coeff a) \<le> prec" and lo: "Emin \<le> expo a - 6"
    and hi: "int (ndigits (coeff a)) + expo a \<le> Emax"
  shows "\<exists>d. dec_div prec a (dec_of_int 1000000) = Inr d \<and> dval d = dval a / 1000000"
proof (cases "coeff a = 0")
  case True
  then have "dec_fits prec \<lparr>coeff = 0, expo = expo a\<rparr>" using assms by (simp add: dec_fits_def)
  then show ?thesis using True by (simp add: dec_div_def dec_of_int_def dec_fix_exact dval_def)
next
  case False
  define sh where "sh = 8 - int (ndigits (coeff a)) + int prec"
  have sh: "8 \<le> sh" using nd by (simp add: sh_def)
  have num: "coeff a * 10 ^ nat sh = coeff a * 10 ^ nat (sh - 6) * 1000000"
  proof -
    have "nat sh = nat (sh - 6) + 6" using sh by linarith
    then show ?thesis by (simp add: power_add)
  qed
  obtain c' e' where strip:
    "strip_zeros (expo a) (coeff a * 10 ^ nat (sh - 6)) (expo a - sh) = (c', e')"
    by fastforce
  note facts = strip_million [OF strip] 
  have e': "expo a - 6 \<le> e'" "e' \<le> expo a" and c': "coeff a = c' * 10 ^ nat (e' - (expo a - 6))"
    using facts sh False by auto
  have small: "c' \<le> coeff a" unfolding c' by simp
  have fits: "dec_fits prec \<lparr>coeff = c', expo = e'\<rparr>"
    using ndigits_mono [OF small] e' assms by (auto simp: dec_fits_def)
  have "dec_div prec a (dec_of_int 1000000) = dec_fix prec \<lparr>coeff = c', expo = e'\<rparr>"
  proof -
    have shift: "int (ndigits 1000000) - int (ndigits (coeff a)) + int prec + 1 = sh"
      by (simp add: sh_def ndigits_million)
    have "0 \<le> sh" using sh by simp
    then show ?thesis
      unfolding dec_div_def dec_of_int_def dec.select_convs Let_def shift diff_0_right
      using False strip by (simp add: num)
  qed
  moreover have "dval \<lparr>coeff = c', expo = e'\<rparr> = dval a / 1000000"
  proof -
    have "dval \<lparr>coeff = c', expo = e'\<rparr> = of_nat (c' * 10 ^ nat (e' - (expo a - 6))) * pow10 (expo a - 6)"
      unfolding dval_def dec.select_convs by (rule dval_shift [OF e'(1), symmetric])
    then show ?thesis by (simp only: c' [symmetric] pow10_minus6 dval_def times_divide_eq_right)
  qed
  ultimately show ?thesis using dec_fix_exact [OF fits] by auto
qed

end
