(* ===== verification/Py_Float.thy ===== *)
theory Py_Float
  imports Decimal_Arith "HOL-Library.Log_Nat"
begin

section \<open>Conversion to binary floating point\<close>

text \<open>
  \<^verbatim>\<open>float(x)\<close> of an integer or a decimal is the nearest IEEE 754 double, ties to
  even. A finite double is a rational, so the conversion is a function on the rationals:
  \<open>float_of x\<close> scales \<open>x\<close> to a 53-bit integer (fewer bits for subnormal numbers), rounds half
  to even and scales back; it is \<open>None\<close> when the result leaves the range, where Python raises
  \<^verbatim>\<open>OverflowError\<close> for an integer and gives an infinity for a decimal.
\<close>

definition pow2 :: "int \<Rightarrow> rat" where
  "pow2 k = (if 0 \<le> k then 2 ^ nat k else 1 / 2 ^ nat (- k))"

definition round_even :: "rat \<Rightarrow> int" where
  "round_even x =
     (let f = \<lfloor>x\<rfloor>; r = x - of_int f in
      if r < 1 / 2 then f else if 1 / 2 < r then f + 1 else if even f then f else f + 1)"

text \<open>The position of the leading bit of a positive rational.\<close>

definition leading_bit :: "rat \<Rightarrow> int" where
  "leading_bit x =
     (let (p, q) = quotient_of x; k = bitlen p - bitlen q in
      if pow2 k \<le> x then k else k - 1)"

definition unit_exponent :: "rat \<Rightarrow> int" where
  "unit_exponent x = (if x = 0 then -1074 else max (-1074) (leading_bit \<bar>x\<bar> - 52))"

definition float_limit :: rat where "float_limit = 2 ^ 1024"

definition float_of :: "rat \<Rightarrow> rat option" where
  "float_of x =
     (let u = pow2 (unit_exponent x); y = of_int (round_even (x / u)) * u in
      if \<bar>y\<bar> < float_limit then Some y else None)"

lemma pow2_pos [simp]: "0 < pow2 k"
  by (simp add: pow2_def)

lemma pow2_nz: "pow2 k \<noteq> 0" and pow2_nonneg: "0 \<le> pow2 k" and pow2_abs: "\<bar>pow2 k\<bar> = pow2 k"
  by (simp_all add: pow2_def)

lemma round_even_of_int [simp]: "round_even (of_int n) = n"
  by (simp add: round_even_def)

lemma round_even_ge: "of_int n \<le> x \<Longrightarrow> n \<le> round_even x"
  using le_floor_iff [of n x] by (auto simp: round_even_def Let_def)

lemma round_even_le: "x \<le> of_int n \<Longrightarrow> round_even x \<le> n"
proof -
  assume le: "x \<le> of_int n"
  show ?thesis
  proof (cases "x = of_int n")
    case False
    with le have "\<lfloor>x\<rfloor> < n" by (simp add: floor_less_iff)
    then show ?thesis by (auto simp: round_even_def Let_def)
  qed simp
qed

lemma round_even_near: "\<bar>of_int (round_even x) - x\<bar> \<le> 1 / 2"
proof -
  define f where "f = (of_int \<lfloor>x\<rfloor> :: rat)"
  have f: "f \<le> x" "x < f + 1" unfolding f_def by linarith+
  have "(of_int (round_even x) = f \<and> x - f \<le> 1 / 2) \<or> (of_int (round_even x) = f + 1 \<and> 1 / 2 \<le> x - f)"
    by (auto simp: round_even_def Let_def f_def)
  then show ?thesis using f by (auto simp: abs_le_iff)
qed

lemma pow2_le_1_int: "k \<le> 0 \<Longrightarrow> \<exists>n. 1 / pow2 k = of_int n"
proof (cases "k = 0")
  case False
  assume "k \<le> 0"
  with False have "1 / pow2 k = of_int (2 ^ nat (- k))" by (simp add: pow2_def)
  then show ?thesis ..
qed (auto simp: pow2_def intro: exI [of _ 1])

lemma float_of_zero [simp]: "float_of 0 = Some 0"
  using round_even_of_int [of 0] by (simp add: float_of_def float_limit_def)

lemma float_of_near:
  "float_of x = Some y \<Longrightarrow> \<bar>y - x\<bar> \<le> pow2 (unit_exponent x) / 2"
proof -
  assume y: "float_of x = Some y"
  let ?u = "pow2 (unit_exponent x)"
  have "y = of_int (round_even (x / ?u)) * ?u"
    using y by (simp add: float_of_def Let_def split: if_splits)
  then have "y - x = (of_int (round_even (x / ?u)) - x / ?u) * ?u"
    by (simp add: left_diff_distrib pow2_nz)
  then have "\<bar>y - x\<bar> = \<bar>of_int (round_even (x / ?u)) - x / ?u\<bar> * ?u"
    by (simp add: abs_mult pow2_abs)
  also have "\<dots> \<le> 1 / 2 * ?u"
    by (rule mult_right_mono [OF round_even_near pow2_nonneg])
  finally show ?thesis by simp
qed

text \<open>The sign survives, and numbers up to 1 stay up to 1.\<close>

lemma float_of_value:
  "float_of x = Some y \<Longrightarrow> y = of_int (round_even (x / pow2 (unit_exponent x))) * pow2 (unit_exponent x)"
  by (simp add: float_of_def Let_def split: if_splits)

lemma float_of_nonneg: "float_of x = Some y \<Longrightarrow> 0 \<le> x \<Longrightarrow> 0 \<le> y"
proof -
  assume "float_of x = Some y" "0 \<le> x"
  moreover have "0 \<le> round_even (x / pow2 (unit_exponent x))"
    using round_even_ge [of 0 "x / pow2 (unit_exponent x)"] \<open>0 \<le> x\<close>
    by (simp add: pow2_nonneg)
  ultimately show ?thesis using float_of_value [of x y] by (simp add: pow2_nonneg)
qed

lemma float_of_nonpos: "float_of x = Some y \<Longrightarrow> x \<le> 0 \<Longrightarrow> y \<le> 0"
proof -
  assume "float_of x = Some y" "x \<le> 0"
  moreover have "x / pow2 (unit_exponent x) \<le> of_int 0"
    using \<open>x \<le> 0\<close> by (simp add: divide_nonpos_pos)
  ultimately show ?thesis
    using round_even_le [of "x / pow2 (unit_exponent x)" 0] float_of_value [of x y]
    by (simp add: mult_nonpos_nonneg pow2_nonneg)
qed

text \<open>Powers of two convert exactly, up to the limit.\<close>

lemma leading_bit_pow2: "leading_bit (2 ^ k) = int k"
proof -
  have "quotient_of (2 ^ k) = (2 ^ k, 1)"
    using quotient_of_int [of "2 ^ k"] by (simp add: Rat.of_int_def)
  moreover have "bitlen (2 ^ k) = 1 + int k" "bitlen 1 = 1"
    using bitlen_pow2 [of 1 k] by (simp_all add: compute_bitlen [of 1])
  ultimately show ?thesis by (simp add: leading_bit_def pow2_def)
qed

lemma float_of_pow2:
  "float_of (of_int (2 ^ k)) = (if 2 ^ k < float_limit then Some (2 ^ k) else None)"
proof -
  have e: "unit_exponent (2 ^ k) = int k - 52"
    by (simp add: unit_exponent_def leading_bit_pow2)
  have q: "2 ^ k / pow2 (int k - 52) = (2 ^ 52 :: rat)"
  proof (cases "52 \<le> k")
    case True
    then obtain j where "k = 52 + j" by (auto simp: le_iff_add)
    then show ?thesis by (simp add: pow2_def power_add)
  next
    case False
    then obtain j where "52 = k + j" "0 < j" by (metis less_imp_add_positive not_le)
    then have "int k - 52 = - int j" by linarith
    moreover have "(2 :: rat) ^ k * 2 ^ j = 2 ^ 52"
      unfolding \<open>52 = k + j\<close> by (simp add: power_add)
    ultimately show ?thesis using \<open>0 < j\<close> by (simp add: pow2_def)
  qed
  have "of_int (round_even (2 ^ k / pow2 (int k - 52))) * pow2 (int k - 52) = (2 ^ k :: rat)"
  proof -
    have "round_even (2 ^ 52) = 2 ^ 52" using round_even_of_int [of "2 ^ 52"] by simp
    then have "of_int (round_even (2 ^ k / pow2 (int k - 52))) = (2 ^ k / pow2 (int k - 52) :: rat)"
      unfolding q by simp
    then show ?thesis by (simp add: pow2_nz)
  qed
  then show ?thesis by (simp add: float_of_def e Let_def)
qed

text \<open>Integers of at most 53 bits convert exactly.\<close>

lemma float_of_small_int: "0 \<le> n \<Longrightarrow> n < 2 ^ 53 \<Longrightarrow> float_of (of_int n) = Some (of_int n)"
proof (cases "n = 0")
  case False
  assume n: "0 \<le> n" "n < 2 ^ 53"
  have q: "quotient_of (of_int n) = (n, 1)"
    using quotient_of_int [of n] by (simp add: Rat.of_int_def)
  have "bitlen n \<le> 53" using n bitlen_le_iff_power [of n 53] by simp
  moreover have "bitlen 1 = 1" by (simp add: compute_bitlen [of 1])
  ultimately have "leading_bit (of_int n) \<le> 52" by (simp add: leading_bit_def q Let_def)
  then have u: "unit_exponent (of_int n) \<le> 0" using n by (simp add: unit_exponent_def)
  obtain j where j: "1 / pow2 (unit_exponent (of_int n)) = of_int j" using pow2_le_1_int [OF u] by blast
  let ?u = "pow2 (unit_exponent (of_int n))"
  have "of_int n / ?u = of_int n * (1 / ?u)" by simp
  then have "of_int n / ?u = (of_int (n * j) :: rat)" unfolding j by simp
  then have "of_int (round_even (of_int n / ?u)) * ?u = of_int n"
    using round_even_of_int [of "n * j"] by (metis nonzero_eq_divide_eq pow2_nz)
  moreover have "(of_int n :: rat) < float_limit"
  proof -
    have "(of_int n :: rat) < of_int (2 ^ 53)" using n(2) of_int_less_iff by blast
    also have "\<dots> < float_limit" by (simp add: float_limit_def)
    finally show ?thesis .
  qed
  ultimately show ?thesis using n by (simp add: float_of_def Let_def)
qed simp

end
