(* ===== verification/Schemas.thy ===== *)
theory Schemas
  imports Decimal_Arith
begin

section \<open>Validated domain data\<close>

text \<open>
  \<^verbatim>\<open>models/schemas.py\<close>: the enumerations and the frozen Pydantic models of the
  domain. A Pydantic class is a \<^theory_text>\<open>record\<close> of its fields; constructing an
  instance runs the field constraints and the model validators, so each class has a
  predicate \<open>\<dots>_valid\<close> (its constraints, in the order of the class) and values that reach
  the services satisfy it. The exception values of the gateway are at the end, because a
  rejected completion carries a response.
\<close>

subsection \<open>Enumerations\<close>

datatype reasoning_behavior = RB_UNSUPPORTED | RB_PROVIDER_DEFAULT | RB_ADAPTIVE

datatype reasoning_effort = RE_NONE | RE_MINIMAL | RE_LOW | RE_MEDIUM | RE_HIGH | RE_XHIGH

fun reasoning_effort_value :: "reasoning_effort \<Rightarrow> string" where
  "reasoning_effort_value RE_NONE = ''none''"
| "reasoning_effort_value RE_MINIMAL = ''minimal''"
| "reasoning_effort_value RE_LOW = ''low''"
| "reasoning_effort_value RE_MEDIUM = ''medium''"
| "reasoning_effort_value RE_HIGH = ''high''"
| "reasoning_effort_value RE_XHIGH = ''xhigh''"

datatype reasoning_control_mechanism = GATEWAY_SHARED | GOOGLE_PROVIDER_NATIVE

datatype output_token_accounting = VISIBLE_ONLY | REASONING_AND_VISIBLE

datatype termination_reason =
  TR_COMPLETE | TR_LENGTH | TR_TOOL_CALL | TR_CONTENT_FILTER | TR_OTHER | TR_UNKNOWN

fun termination_reason_value :: "termination_reason \<Rightarrow> string" where
  "termination_reason_value TR_COMPLETE = ''complete''"
| "termination_reason_value TR_LENGTH = ''length''"
| "termination_reason_value TR_TOOL_CALL = ''tool_call''"
| "termination_reason_value TR_CONTENT_FILTER = ''content_filter''"
| "termination_reason_value TR_OTHER = ''other''"
| "termination_reason_value TR_UNKNOWN = ''unknown''"

subsection \<open>Constrained scalar types\<close>

text \<open>
  \<^verbatim>\<open>Identifier\<close> strips its input and wants at least one character, so an identifier
  that was accepted equals its own \<open>strip\<close>. \<^verbatim>\<open>Money\<close> is a finite
  non-negative \<^verbatim>\<open>Decimal\<close>: the type \<open>dec\<close> has no other values.
\<close>

definition Identifier :: "string \<Rightarrow> exn_class + string" where
  "Identifier s = (if strip s = [] then Inl ValidationErrorC else Inr (strip s))"

definition is_identifier :: "string \<Rightarrow> bool" where
  "is_identifier s \<longleftrightarrow> s \<noteq> [] \<and> strip s = s"

definition positive_token_count :: "int \<Rightarrow> bool" where
  "positive_token_count n \<longleftrightarrow> 0 < n"

definition token_count :: "int \<Rightarrow> bool" where
  "token_count n \<longleftrightarrow> 0 \<le> n"

subsection \<open>Model configuration\<close>

record model_capabilities =
  supports_temperature :: bool
  supports_structured_output :: bool
  cap_reasoning :: reasoning_behavior
  cap_output_token_accounting :: output_token_accounting

definition default_capabilities :: model_capabilities where
  "default_capabilities = \<lparr>supports_temperature = True, supports_structured_output = False,
     cap_reasoning = RB_UNSUPPORTED, cap_output_token_accounting = VISIBLE_ONLY\<rparr>"

record category_output_token_allowance =
  al_category :: string
  al_max_output_tokens :: int

record output_token_policy =
  category_overrides :: "category_output_token_allowance list"
  reasoning_headroom_tokens :: int
  expected_reasoning_tokens :: int

definition default_output_token_policy :: output_token_policy where
  "default_output_token_policy =
     \<lparr>category_overrides = [], reasoning_headroom_tokens = 0, expected_reasoning_tokens = 0\<rparr>"

definition output_token_policy_valid :: "output_token_policy \<Rightarrow> bool" where
  "output_token_policy_valid p \<longleftrightarrow>
     list_all (\<lambda>a. is_identifier (al_category a) \<and> positive_token_count (al_max_output_tokens a))
       (category_overrides p)
   \<and> 0 \<le> reasoning_headroom_tokens p \<and> reasoning_headroom_tokens p \<le> 1024
   \<and> 0 \<le> expected_reasoning_tokens p \<and> expected_reasoning_tokens p \<le> 1024
   \<and> \<not> has_duplicates (map al_category (category_overrides p))
   \<and> \<not> expected_reasoning_tokens p > reasoning_headroom_tokens p"

record model_config =
  mc_model_id :: string
  mc_provider :: string
  mc_provider_model_name :: string
  mc_input_cost_per_1m_tokens :: dec
  mc_output_cost_per_1m_tokens :: dec
  mc_context_window :: int
  mc_enabled :: bool
  mc_capabilities :: model_capabilities
  mc_reasoning_effort :: "reasoning_effort option"
  mc_reasoning_control :: reasoning_control_mechanism
  mc_output_token_policy :: output_token_policy

definition startswith :: "string \<Rightarrow> string \<Rightarrow> bool" where
  "startswith s p = (take (length p) s = p)"

text \<open>\<^verbatim>\<open>reject_unsupported_reasoning_effort\<close>, and the field constraints before it.\<close>

definition reject_unsupported_reasoning_effort :: "model_config \<Rightarrow> bool" where
  "reject_unsupported_reasoning_effort m \<longleftrightarrow>
     \<not> (mc_reasoning_effort m \<noteq> None \<and> cap_reasoning (mc_capabilities m) = RB_UNSUPPORTED)
   \<and> (mc_reasoning_control m = GOOGLE_PROVIDER_NATIVE \<longrightarrow>
        startswith (mc_provider_model_name m) ''google/''
        \<and> mc_reasoning_effort m \<noteq> None \<and> mc_reasoning_effort m \<noteq> Some RE_NONE)
   \<and> \<not> (cap_output_token_accounting (mc_capabilities m) = VISIBLE_ONLY
        \<and> reasoning_headroom_tokens (mc_output_token_policy m) \<noteq> 0)"

definition model_config_valid :: "model_config \<Rightarrow> bool" where
  "model_config_valid m \<longleftrightarrow>
     is_identifier (mc_model_id m) \<and> is_identifier (mc_provider m)
   \<and> is_identifier (mc_provider_model_name m) \<and> positive_token_count (mc_context_window m)
   \<and> output_token_policy_valid (mc_output_token_policy m)
   \<and> reject_unsupported_reasoning_effort m"

definition provider_output_allowance :: "model_config \<Rightarrow> int \<Rightarrow> string \<Rightarrow> exn_class + int" where
  "provider_output_allowance m visible_output_tokens category =
     (if visible_output_tokens \<le> 0 then Inl ValueErrorC
      else
        let matching = map al_max_output_tokens
              (filter (\<lambda>a. al_category a = category) (category_overrides (mc_output_token_policy m)))
        in if length matching > 1 then Inl ValueErrorC
           else
             let visible_requirement =
                   (case matching of [] \<Rightarrow> visible_output_tokens | x # _ \<Rightarrow> x)
             in if cap_output_token_accounting (mc_capabilities m) = REASONING_AND_VISIBLE
                then Inr (visible_requirement + reasoning_headroom_tokens (mc_output_token_policy m))
                else Inr visible_requirement)"

subsection \<open>Requests and responses\<close>

record inference_request =
  rq_prompt :: string
  rq_system_prompt :: "string option"
  rq_max_output_tokens :: int
  rq_temperature :: rat

definition inference_request_valid :: "inference_request \<Rightarrow> bool" where
  "inference_request_valid r \<longleftrightarrow>
     length (rq_prompt r) \<ge> 1 \<and> strip (rq_prompt r) \<noteq> []
   \<and> (case rq_system_prompt r of None \<Rightarrow> True | Some s \<Rightarrow> strip s \<noteq> [])
   \<and> positive_token_count (rq_max_output_tokens r)
   \<and> 0 \<le> rq_temperature r \<and> rq_temperature r \<le> 2"

text \<open>\<^verbatim>\<open>request.system_prompt or ""\<close>.\<close>

definition system_text :: "inference_request \<Rightarrow> string" where
  "system_text r = (case rq_system_prompt r of None \<Rightarrow> '''' | Some s \<Rightarrow> s)"

record inference_response =
  rs_text :: string
  rs_model_id :: string
  rs_provider :: string
  rs_input_tokens :: int
  rs_output_tokens :: int
  rs_latency_ms :: rat
  rs_estimated_cost_usd :: dec
  rs_termination_reason :: termination_reason
  rs_provider_termination_reason :: "string option"

text \<open>The ASCII classes of the identifier patterns, e.g.
  \<^verbatim>\<open>^[A-Za-z0-9][A-Za-z0-9._:/-]{0,63}$\<close>.\<close>

definition ascii_alnum :: "char \<Rightarrow> bool" where
  "ascii_alnum c = (let n = (of_char c :: nat) in
     (48 \<le> n \<and> n \<le> 57) \<or> (65 \<le> n \<and> n \<le> 90) \<or> (97 \<le> n \<and> n \<le> 122))"

definition safe_label :: "string \<Rightarrow> nat \<Rightarrow> string \<Rightarrow> bool" where
  "safe_label punct limit s =
     (case s of [] \<Rightarrow> False
      | c # cs \<Rightarrow> ascii_alnum c \<and> length cs \<le> limit
          \<and> list_all (\<lambda>d. ascii_alnum d \<or> d \<in> set punct) cs)"

definition inference_response_valid :: "inference_response \<Rightarrow> bool" where
  "inference_response_valid r \<longleftrightarrow>
     is_identifier (rs_model_id r) \<and> is_identifier (rs_provider r)
   \<and> token_count (rs_input_tokens r) \<and> token_count (rs_output_tokens r)
   \<and> 0 \<le> rs_latency_ms r
   \<and> (case rs_provider_termination_reason r of None \<Rightarrow> True
      | Some p \<Rightarrow> safe_label ''._:/-'' 63 p)"

subsection \<open>Exception values\<close>

datatype diag = DStr string | DInt int | DBool bool | DNum rat

datatype exn =
    Exn exn_class
  | GatewayErr gateway_error_category "diag dict"
  | CompletionRejected gateway_error_category inference_response "diag dict"
  | RateLimitExceeded int string

fun class_of :: "exn \<Rightarrow> exn_class" where
  "class_of (Exn c) = c"
| "class_of (GatewayErr c d) = GatewayErrorC"
| "class_of (CompletionRejected c r d) = CompletionRejectedErrorC"
| "class_of (RateLimitExceeded n s) = RateLimitExceededErrorC"

definition isinstance :: "exn \<Rightarrow> exn_class \<Rightarrow> bool" where
  "isinstance e c = issubclass (class_of e) c"

definition completion_rejected_error ::
  "gateway_error_category \<Rightarrow> inference_response \<Rightarrow> diag dict \<Rightarrow> exn" where
  "completion_rejected_error c r d =
     (if c \<noteq> EMPTY_RESPONSE \<and> c \<noteq> OUTPUT_BUDGET_EXHAUSTION then Exn ValueErrorC
      else CompletionRejected c r d)"

text \<open>
  The attributes the services read: \<^verbatim>\<open>exc.category.value\<close> of a
  \<^verbatim>\<open>GatewayError\<close> and \<^verbatim>\<open>exc.completion\<close> of a
  \<^verbatim>\<open>CompletionRejectedError\<close>.
\<close>

fun exn_category :: "exn \<Rightarrow> gateway_error_category option" where
  "exn_category (GatewayErr c d) = Some c"
| "exn_category (CompletionRejected c r d) = Some c"
| "exn_category _ = None"

fun exn_completion :: "exn \<Rightarrow> inference_response option" where
  "exn_completion (CompletionRejected c r d) = Some r"
| "exn_completion _ = None"

text \<open>
  A plain \<open>Exn\<close> carries no attributes, so it never stands for one of the three classes
  whose instances have them.
\<close>

definition exn_wf :: "exn \<Rightarrow> bool" where
  "exn_wf e = (case e of
       Exn c \<Rightarrow> c \<notin> {GatewayErrorC, CompletionRejectedErrorC, RateLimitExceededErrorC}
     | CompletionRejected c r d \<Rightarrow> c \<in> {EMPTY_RESPONSE, OUTPUT_BUDGET_EXHAUSTION}
     | _ \<Rightarrow> True)"

subsection \<open>Facts the components share\<close>

lemma Identifier_Inr: "Identifier s = Inr t \<Longrightarrow> is_identifier t \<and> t = strip s"
  by (auto simp: Identifier_def is_identifier_def split: if_splits)

lemma Identifier_idem: "is_identifier s \<Longrightarrow> Identifier s = Inr s"
  by (simp add: Identifier_def is_identifier_def)

lemma isinstance_Gateway_iff:
  "exn_wf e \<Longrightarrow> isinstance e GatewayErrorC \<longleftrightarrow> exn_category e \<noteq> None"
proof (cases e)
  case (Exn c)
  assume "exn_wf e"
  with Exn show ?thesis
    by (cases c) (simp_all add: exn_wf_def isinstance_def issubclass_eval)
qed (simp_all add: isinstance_def issubclass_eval)

lemma isinstance_Rejected_iff:
  "exn_wf e \<Longrightarrow> isinstance e CompletionRejectedErrorC \<longleftrightarrow> exn_completion e \<noteq> None"
proof (cases e)
  case (Exn c)
  assume "exn_wf e"
  with Exn show ?thesis
    by (cases c) (simp_all add: exn_wf_def isinstance_def issubclass_eval)
qed (simp_all add: isinstance_def issubclass_eval)

end
