(* ===== verification/Policy.thy ===== *)
theory Policy
  imports Py_Float Schemas "HOL-Library.Multiset"
begin

section \<open>The cost-aware routing policy\<close>

text \<open>
  \<^verbatim>\<open>routing/policy.py\<close>. Probabilities are doubles, so rationals; a threshold may
  come in as any Python value. \<open>py_value\<close> has the cases the validator distinguishes; a
  float that is not finite is \<open>PyNonFinite\<close>, and so is a decimal infinity or NaN.
\<close>

datatype py_value = PyBool bool | PyInt int | PyFloat rat | PyNonFinite | PyDecimal rat | PyOther

definition in_unit :: "rat \<Rightarrow> bool" where
  "in_unit x \<longleftrightarrow> 0 \<le> x \<and> x \<le> 1"

definition py_float :: "py_value \<Rightarrow> exn_class + rat option" where
  "py_float v =
     (case v of
        PyInt n \<Rightarrow> (case float_of (of_int n) of Some y \<Rightarrow> Inr (Some y) | None \<Rightarrow> Inl OverflowErrorC)
      | PyFloat x \<Rightarrow> Inr (Some x)
      | PyDecimal x \<Rightarrow> Inr (float_of x)
      | _ \<Rightarrow> Inr None)"

definition validated_probability :: "py_value \<Rightarrow> exn_class + rat" where
  "validated_probability v =
     (case v of
        PyBool b \<Rightarrow> Inl ValueErrorC
      | PyOther \<Rightarrow> Inl ValueErrorC
      | _ \<Rightarrow> rbind (py_float v) (\<lambda>r. case r of
               None \<Rightarrow> Inl ValueErrorC
             | Some x \<Rightarrow> if in_unit x then Inr x else Inl ValueErrorC))"

definition validate_quality_threshold :: "py_value \<Rightarrow> exn_class + rat" where
  "validate_quality_threshold v =
     (case validated_probability v of
        Inl c \<Rightarrow> Inl (if issubclass c ValueErrorC then InvalidQualityThresholdErrorC else c)
      | Inr x \<Rightarrow> Inr x)"

record model_acceptability_prediction =
  mp_model_id :: string
  mp_predicted_acceptability :: rat

definition ModelAcceptabilityPrediction ::
  "string \<Rightarrow> py_value \<Rightarrow> exn_class + model_acceptability_prediction" where
  "ModelAcceptabilityPrediction model_id p =
     (case validated_probability p of
        Inl c \<Rightarrow> Inl (if issubclass c ValueErrorC then ValidationErrorC else c)
      | Inr x \<Rightarrow> rbind (Identifier model_id) (\<lambda>i.
          Inr \<lparr>mp_model_id = i, mp_predicted_acceptability = x\<rparr>))"

record candidate_prediction =
  cp_model_id :: string
  cp_predicted_acceptability :: rat
  cp_projected_cost_usd :: dec

datatype routing_decision_reason = QUALITY_THRESHOLD_MET | NO_MODEL_MET_THRESHOLD_FALLBACK

fun routing_decision_reason_value :: "routing_decision_reason \<Rightarrow> string" where
  "routing_decision_reason_value QUALITY_THRESHOLD_MET = ''quality_threshold_met''"
| "routing_decision_reason_value NO_MODEL_MET_THRESHOLD_FALLBACK = ''no_model_met_threshold_fallback''"

record routing_decision =
  dc_selected_model_id :: string
  dc_selected_predicted_acceptability :: rat
  dc_selected_projected_cost_usd :: dec
  dc_quality_threshold :: rat
  dc_threshold_satisfied :: bool
  dc_fallback_used :: bool
  dc_eligible_candidate_count :: nat
  dc_qualifying_candidate_count :: nat
  dc_reason :: routing_decision_reason

text \<open>The sort keys; Python compares decimals by value and strings by code point.\<close>

definition cost_key :: "candidate_prediction \<Rightarrow> rat \<times> string" where
  "cost_key c = (dval (cp_projected_cost_usd c), cp_model_id c)"

definition fallback_key :: "candidate_prediction \<Rightarrow> rat \<times> rat \<times> string" where
  "fallback_key c = (- cp_predicted_acceptability c, dval (cp_projected_cost_usd c), cp_model_id c)"

definition policy_route :: "candidate_prediction list \<Rightarrow> py_value \<Rightarrow> exn_class + routing_decision" where
  "policy_route candidates quality_threshold =
     (case candidates of
        [] \<Rightarrow> Inl NoEligibleCandidatesErrorC
      | first # others \<Rightarrow>
          rbind (validate_quality_threshold quality_threshold) (\<lambda>threshold.
          if has_duplicates (map cp_model_id candidates) then Inl DuplicateCandidatePredictionErrorC
          else
            let qualifying = filter (\<lambda>c. threshold \<le> cp_predicted_acceptability c) candidates;
                (selected, reason, fallback_used) =
                  (case qualifying of
                     q # qs \<Rightarrow> (min_by cost_key q qs, QUALITY_THRESHOLD_MET, False)
                   | [] \<Rightarrow> (min_by fallback_key first others, NO_MODEL_MET_THRESHOLD_FALLBACK, True))
            in Inr \<lparr>dc_selected_model_id = cp_model_id selected,
                    dc_selected_predicted_acceptability = cp_predicted_acceptability selected,
                    dc_selected_projected_cost_usd = cp_projected_cost_usd selected,
                    dc_quality_threshold = threshold, dc_threshold_satisfied = (\<not> fallback_used),
                    dc_fallback_used = fallback_used,
                    dc_eligible_candidate_count = length candidates,
                    dc_qualifying_candidate_count = length qualifying, dc_reason = reason\<rparr>))"

subsection \<open>What a decision promises\<close>

text \<open>
  The abstract specification: the selected candidate is one of the candidates, and it is the
  cheapest qualifying one (the smallest identifier breaks a tie) or, when none qualifies, the
  most acceptable one (then the cheapest, then the smallest identifier).
\<close>

definition decision_spec :: "candidate_prediction list \<Rightarrow> rat \<Rightarrow> routing_decision \<Rightarrow> bool" where
  "decision_spec cs t d \<longleftrightarrow>
     (\<exists>c\<in>set cs. dc_selected_model_id d = cp_model_id c
        \<and> dc_selected_predicted_acceptability d = cp_predicted_acceptability c
        \<and> dc_selected_projected_cost_usd d = cp_projected_cost_usd c
        \<and> dc_quality_threshold d = t
        \<and> dc_fallback_used d = list_all (\<lambda>x. cp_predicted_acceptability x < t) cs
        \<and> dc_threshold_satisfied d = (\<not> dc_fallback_used d)
        \<and> (dc_reason d = (if dc_fallback_used d then NO_MODEL_MET_THRESHOLD_FALLBACK else QUALITY_THRESHOLD_MET))
        \<and> dc_eligible_candidate_count d = length cs
        \<and> dc_qualifying_candidate_count d = length (filter (\<lambda>x. t \<le> cp_predicted_acceptability x) cs)
        \<and> (if dc_fallback_used d
           then list_all (\<lambda>x. fallback_key c \<le> fallback_key x) cs
           else t \<le> cp_predicted_acceptability c
              \<and> list_all (\<lambda>x. cost_key c \<le> cost_key x)
                  (filter (\<lambda>x. t \<le> cp_predicted_acceptability x) cs)))"

subsection \<open>Laws\<close>

lemma validate_quality_threshold_unit: "validate_quality_threshold v = Inr t \<Longrightarrow> in_unit t"
  by (auto simp: validate_quality_threshold_def validated_probability_def rbind_eq_Inr
      split: sum.splits py_value.splits option.splits if_splits)

lemma prediction_Inr:
  "ModelAcceptabilityPrediction i v = Inr x \<longleftrightarrow>
     validated_probability v = Inr (mp_predicted_acceptability x) \<and> Identifier i = Inr (mp_model_id x)"
  by (cases x) (auto simp: ModelAcceptabilityPrediction_def rbind_eq_Inr split: sum.splits)

lemma validated_probability_unit: "validated_probability v = Inr t \<Longrightarrow> in_unit t"
  by (auto simp: validated_probability_def rbind_eq_Inr
      split: sum.splits py_value.splits option.splits if_splits)

lemma policy_route_Inr:
  assumes "policy_route cs v = Inr d"
  shows "cs \<noteq> [] \<and> distinct (map cp_model_id cs)
    \<and> (\<exists>t. validate_quality_threshold v = Inr t \<and> decision_spec cs t d)"
proof -
  obtain first others where cs: "cs = first # others"
    using assms by (cases cs) (simp_all add: policy_route_def)
  obtain t where t: "validate_quality_threshold v = Inr t" and dist: "distinct (map cp_model_id cs)"
    using assms cs by (auto simp: policy_route_def rbind_eq_Inr split: if_splits)
  let ?qual = "filter (\<lambda>c. t \<le> cp_predicted_acceptability c) cs"
  have "decision_spec cs t d"
  proof (cases ?qual)
    case Nil
    let ?c = "min_by fallback_key first others"
    have "?c \<in> set cs" using min_by_in_set [of fallback_key first others] by (simp add: cs)
    moreover have "list_all (\<lambda>x. fallback_key ?c \<le> fallback_key x) cs"
      using min_by_le [of _ first others fallback_key] by (simp add: list_all_iff cs)
    moreover have "list_all (\<lambda>x. cp_predicted_acceptability x < t) cs"
      using Nil by (auto simp: list_all_iff filter_empty_conv)
    ultimately show ?thesis
      using assms t dist Nil unfolding decision_spec_def
      by (intro bexI [of _ ?c]) (auto simp: policy_route_def cs Let_def)
  next
    case (Cons q qs)
    let ?c = "min_by cost_key q qs"
    have "?c \<in> set ?qual" using min_by_in_set [of cost_key q qs] by (simp add: Cons)
    then have c: "?c \<in> set cs" "t \<le> cp_predicted_acceptability ?c" by simp_all
    moreover have "list_all (\<lambda>x. cost_key ?c \<le> cost_key x) ?qual"
      using min_by_le [of _ q qs cost_key] by (simp add: list_all_iff Cons)
    moreover have "\<not> list_all (\<lambda>x. cp_predicted_acceptability x < t) cs"
      using c by (auto simp: list_all_iff not_less)
    ultimately show ?thesis
      using assms t dist Cons unfolding decision_spec_def
      by (intro bexI [of _ ?c]) (auto simp: policy_route_def cs Let_def)
  qed
  then show ?thesis using cs t dist by auto
qed

lemma policy_route_total:
  "cs \<noteq> [] \<Longrightarrow> distinct (map cp_model_id cs) \<Longrightarrow> validate_quality_threshold v = Inr t \<Longrightarrow>
     \<exists>d. policy_route cs v = Inr d"
  by (cases cs) (auto simp: policy_route_def Let_def split: prod.split)

text \<open>Keys that hold the identifier are injective on candidates with distinct identifiers.\<close>

lemma same_id: "distinct (map cp_model_id cs) \<Longrightarrow> a \<in> set cs \<Longrightarrow> b \<in> set cs \<Longrightarrow>
    cp_model_id a = cp_model_id b \<Longrightarrow> a = b"
  by (meson distinct_map inj_onD)

lemma decision_spec_unique:
  assumes dist: "distinct (map cp_model_id cs)" and d: "decision_spec cs t d" and d': "decision_spec cs t d'"
  shows "d' = d"
proof -
  obtain c where c: "c \<in> set cs"
    "dc_selected_model_id d = cp_model_id c"
    "dc_selected_predicted_acceptability d = cp_predicted_acceptability c"
    "dc_selected_projected_cost_usd d = cp_projected_cost_usd c"
    and cmin: "if dc_fallback_used d then list_all (\<lambda>x. fallback_key c \<le> fallback_key x) cs
       else t \<le> cp_predicted_acceptability c
          \<and> list_all (\<lambda>x. cost_key c \<le> cost_key x) (filter (\<lambda>x. t \<le> cp_predicted_acceptability x) cs)"
    using d by (auto simp: decision_spec_def)
  obtain c' where c': "c' \<in> set cs"
    "dc_selected_model_id d' = cp_model_id c'"
    "dc_selected_predicted_acceptability d' = cp_predicted_acceptability c'"
    "dc_selected_projected_cost_usd d' = cp_projected_cost_usd c'"
    and cmin': "if dc_fallback_used d' then list_all (\<lambda>x. fallback_key c' \<le> fallback_key x) cs
       else t \<le> cp_predicted_acceptability c'
          \<and> list_all (\<lambda>x. cost_key c' \<le> cost_key x) (filter (\<lambda>x. t \<le> cp_predicted_acceptability x) cs)"
    using d' by (auto simp: decision_spec_def)
  have fb: "dc_fallback_used d' = dc_fallback_used d"
    using d d' unfolding decision_spec_def by metis
  have "cp_model_id c' = cp_model_id c"
  proof (cases "dc_fallback_used d")
    case True
    then have "fallback_key c \<le> fallback_key c'" "fallback_key c' \<le> fallback_key c"
      using cmin cmin' c(1) c'(1) fb by (auto simp: list_all_iff)
    then have "fallback_key c = fallback_key c'" by (rule order.antisym)
    then show ?thesis by (simp add: fallback_key_def)
  next
    case False
    then have "cost_key c \<le> cost_key c'" "cost_key c' \<le> cost_key c"
      using cmin cmin' c(1) c'(1) fb by (auto simp: list_all_iff)
    then have "cost_key c = cost_key c'" by (rule order.antisym)
    then show ?thesis by (simp add: cost_key_def)
  qed
  then have "c' = c" using same_id [OF dist c'(1) c(1)] by simp
  then show ?thesis
    using c c' fb d d' unfolding decision_spec_def by (auto intro!: routing_decision.equality)
qed

lemma decision_spec_mset: "mset cs = mset cs' \<Longrightarrow> decision_spec cs t d = decision_spec cs' t d"
proof -
  assume eq: "mset cs = mset cs'"
  have s: "set cs = set cs'" using eq by (rule mset_eq_setD)
  have l: "length cs = length cs'" using eq by (rule mset_eq_length)
  have f: "length (filter P cs) = length (filter P cs')" for P
    using eq by (metis mset_filter size_mset)
  show ?thesis unfolding decision_spec_def list_all_iff set_filter s l f ..
qed

subsection \<open>Properties\<close>


text \<open>
  Claim C23. The order in which candidates are presented never matters: permuting them changes
  neither the decision nor the error.
\<close>

theorem routing_ignores_candidate_order:
  assumes "mset cs = mset cs'"
  shows "policy_route cs v = policy_route cs' v"
proof (cases "cs = []")
  case True
  then show ?thesis using assms by simp
next
  case False
  then have ne: "cs' \<noteq> []" using assms by auto
  have dist: "distinct (map cp_model_id cs) \<longleftrightarrow> distinct (map cp_model_id cs')"
    using assms by (metis mset_map mset_eq_imp_distinct_iff)
  show ?thesis
  proof (cases "\<exists>t. validate_quality_threshold v = Inr t \<and> distinct (map cp_model_id cs)")
    case True
    then obtain t where t: "validate_quality_threshold v = Inr t" and dcs: "distinct (map cp_model_id cs)"
      by blast
    obtain d d' where d: "policy_route cs v = Inr d" "policy_route cs' v = Inr d'"
      using policy_route_total False ne t dcs dist by blast
    have "decision_spec cs t d" "decision_spec cs' t d'"
      using policy_route_Inr [OF d(1)] policy_route_Inr [OF d(2)] t by auto
    then have "d' = d" using decision_spec_unique [OF dcs] decision_spec_mset [OF assms] by blast
    then show ?thesis using d by simp
  next
    case bad: False
    obtain a as b bs where "cs = a # as" "cs' = b # bs" using False ne by (cases cs; cases cs') auto
    then show ?thesis using bad dist
      by (cases "validate_quality_threshold v") (auto simp: policy_route_def)
  qed
qed

text \<open>
  The threshold contract: a value is accepted as a number between 0 and 1, or
  refused with the policy's own error; the one exception is an integer too large for a
  double, which escapes as \<^verbatim>\<open>OverflowError\<close>.
\<close>

theorem threshold_contract:
  "(\<exists>t. validate_quality_threshold v = Inr t \<and> in_unit t)
   \<or> validate_quality_threshold v = Inl InvalidQualityThresholdErrorC
   \<or> (\<exists>n. v = PyInt n \<and> float_of (of_int n) = None \<and> validate_quality_threshold v = Inl OverflowErrorC)"
  by (auto simp: validate_quality_threshold_def validated_probability_def py_float_def
      issubclass_eval split: py_value.split option.split)

lemma float_of_limit: "float_of (of_int (2 ^ 1024)) = None"
  using float_of_pow2 [of 1024] by (simp add: float_limit_def)

text \<open>
  The exception of the contract is real: an integer threshold of 2 to the power
  1024 raises \<^verbatim>\<open>OverflowError\<close>, which is neither the policy error nor a
  \<^verbatim>\<open>ValueError\<close>.
\<close>

theorem huge_integer_threshold_escapes:
  "validate_quality_threshold (PyInt (2 ^ 1024)) = Inl OverflowErrorC
   \<and> \<not> issubclass OverflowErrorC RoutingPolicyErrorC \<and> \<not> issubclass OverflowErrorC ValueErrorC"
  using float_of_limit
  by (simp add: validate_quality_threshold_def validated_probability_def py_float_def issubclass_eval)

end
