(* ===== verification/Py_Regex.thy ===== *)
theory Py_Regex
  imports Prelude
begin

section \<open>The regular expressions of the feature extractors\<close>

text \<open>
  Python's \<^verbatim>\<open>re\<close> is a backtracking matcher: at a position it tries the
  alternatives in order and a greedy repetition longest first, and the first success is the
  match. \<open>rm\<close> is that matcher as a list of successes, in the order in which the engine would
  find them; its head is the match. A position is the previous character (if any) and the
  rest of the text, which is all that \<^verbatim>\<open>\b\<close> and the look-arounds of the patterns
  read. Characters are Latin-1.

  \<open>matches\<close> is the declarative relation (what a pattern denotes, without any order), and
  \<open>rm_iff_matches\<close> says that the engine finds exactly the denoted matches: backtracking
  loses nothing and invents nothing.
\<close>

datatype regex =
    RClass "char \<Rightarrow> bool"
  | REmpty
  | RSeq regex regex
  | RAlt regex regex
  | RStar regex
  | RBoundary
  | RNotBehind "char \<Rightarrow> bool"
  | RNotAhead "char \<Rightarrow> bool"

type_synonym position = "char option \<times> string"

definition ascii_range :: "nat \<Rightarrow> nat \<Rightarrow> nat \<Rightarrow> bool" where
  "ascii_range a b n \<longleftrightarrow> a \<le> n \<and> n \<le> b"

text \<open>\<^verbatim>\<open>\w\<close>: letters, digits, the numeric signs of Latin-1 and the underscore.\<close>

definition word_char :: "char \<Rightarrow> bool" where
  "word_char c = (let n = (of_char c :: nat) in
     ascii_range 48 57 n \<or> ascii_range 65 90 n \<or> ascii_range 97 122 n \<or> n = 95
     \<or> n \<in> {170, 178, 179, 181, 185, 186, 188, 189, 190}
     \<or> (192 \<le> n \<and> n \<noteq> 215 \<and> n \<noteq> 247))"

definition digit_char :: "char \<Rightarrow> bool" where
  "digit_char c = ascii_range 48 57 (of_char c :: nat)"

definition opt_word :: "char option \<Rightarrow> bool" where
  "opt_word p = (case p of None \<Rightarrow> False | Some c \<Rightarrow> word_char c)"

definition next_char :: "string \<Rightarrow> char option" where
  "next_char s = (case s of [] \<Rightarrow> None | c # _ \<Rightarrow> Some c)"

definition at_boundary :: "position \<Rightarrow> bool" where
  "at_boundary = (\<lambda>(p, s). opt_word p \<noteq> opt_word (next_char s))"

text \<open>
  The repetition, over the successes \<open>f\<close> of its body: a round that consumes nothing is
  dropped (it could be repeated forever), so the length of the rest bounds the rounds.
\<close>

fun star_from :: "nat \<Rightarrow> (position \<Rightarrow> position list) \<Rightarrow> position \<Rightarrow> position list" where
  "star_from 0 f st = [st]"
| "star_from (Suc n) f st =
     concat (map (star_from n f) (filter (\<lambda>st'. length (snd st') < length (snd st)) (f st))) @ [st]"

fun rm :: "regex \<Rightarrow> position \<Rightarrow> position list" where
  "rm (RClass k) (p, s) = (case s of [] \<Rightarrow> [] | c # cs \<Rightarrow> if k c then [(Some c, cs)] else [])"
| "rm REmpty st = [st]"
| "rm (RSeq a b) st = concat (map (rm b) (rm a st))"
| "rm (RAlt a b) st = rm a st @ rm b st"
| "rm (RStar a) st = star_from (length (snd st)) (rm a) st"
| "rm RBoundary st = (if at_boundary st then [st] else [])"
| "rm (RNotBehind k) (p, s) = (case p of Some c \<Rightarrow> if k c then [] else [(p, s)] | None \<Rightarrow> [(p, s)])"
| "rm (RNotAhead k) (p, s) = (case s of c # _ \<Rightarrow> if k c then [] else [(p, s)] | [] \<Rightarrow> [(p, s)])"

subsection \<open>Pattern notation\<close>

text \<open>A literal under \<^verbatim>\<open>re.I\<close>, \<open>a|b|c\<close>, \<open>r+\<close>, \<open>r?\<close>.\<close>

definition rchar :: "char \<Rightarrow> regex" where
  "rchar c = RClass (\<lambda>d. lower_char d = lower_char c)"

fun rlit :: "string \<Rightarrow> regex" where
  "rlit [] = REmpty"
| "rlit (c # cs) = RSeq (rchar c) (rlit cs)"

fun ralts :: "regex list \<Rightarrow> regex" where
  "ralts [] = RClass (\<lambda>_. False)"
| "ralts [r] = r"
| "ralts (r # rs) = RAlt r (ralts rs)"

fun rseqs :: "regex list \<Rightarrow> regex" where
  "rseqs [] = REmpty"
| "rseqs [r] = r"
| "rseqs (r # rs) = RSeq r (rseqs rs)"

definition rplus :: "regex \<Rightarrow> regex" where
  "rplus r = RSeq r (RStar r)"

definition ropt :: "regex \<Rightarrow> regex" where
  "ropt r = RAlt r REmpty"

definition rwords :: "string list \<Rightarrow> regex" where
  "rwords ws = rseqs [RBoundary, ralts (map rlit ws), RBoundary]"

subsection \<open>search and findall\<close>

text \<open>
  \<^verbatim>\<open>search\<close> tries every start from the left; \<^verbatim>\<open>findall\<close> resumes after
  each match (one character later when the match was empty).
\<close>

fun search_from :: "regex \<Rightarrow> char option \<Rightarrow> string \<Rightarrow> bool" where
  "search_from r p [] = (rm r (p, []) \<noteq> [])"
| "search_from r p (c # cs) = (rm r (p, c # cs) \<noteq> [] \<or> search_from r (Some c) cs)"

definition re_search :: "regex \<Rightarrow> string \<Rightarrow> bool" where
  "re_search r s = search_from r None s"

fun count_from :: "nat \<Rightarrow> regex \<Rightarrow> position \<Rightarrow> nat" where
  "count_from 0 r st = 0"
| "count_from (Suc n) r (p, s) =
     (case rm r (p, s) of
        st # _ \<Rightarrow>
          if length (snd st) < length s then Suc (count_from n r st)
          else Suc (case s of [] \<Rightarrow> 0 | c # cs \<Rightarrow> count_from n r (Some c, cs))
      | [] \<Rightarrow> (case s of [] \<Rightarrow> 0 | c # cs \<Rightarrow> count_from n r (Some c, cs)))"

definition re_findall_count :: "regex \<Rightarrow> string \<Rightarrow> nat" where
  "re_findall_count r s = count_from (Suc (length s)) r (None, s)"

subsection \<open>What a pattern denotes\<close>

inductive matches :: "regex \<Rightarrow> position \<Rightarrow> position \<Rightarrow> bool" where
  MClass: "k c \<Longrightarrow> matches (RClass k) (p, c # cs) (Some c, cs)"
| MEmpty: "matches REmpty st st"
| MSeq: "matches a st st1 \<Longrightarrow> matches b st1 st2 \<Longrightarrow> matches (RSeq a b) st st2"
| MLeft: "matches a st st1 \<Longrightarrow> matches (RAlt a b) st st1"
| MRight: "matches b st st1 \<Longrightarrow> matches (RAlt a b) st st1"
| MStop: "matches (RStar a) st st"
| MStep: "matches a st st1 \<Longrightarrow> matches (RStar a) st1 st2 \<Longrightarrow> matches (RStar a) st st2"
| MBoundary: "at_boundary st \<Longrightarrow> matches RBoundary st st"
| MNotBehind: "(\<forall>c. p = Some c \<longrightarrow> \<not> k c) \<Longrightarrow> matches (RNotBehind k) (p, s) (p, s)"
| MNotAhead: "(\<forall>c cs. s = c # cs \<longrightarrow> \<not> k c) \<Longrightarrow> matches (RNotAhead k) (p, s) (p, s)"

inductive_cases matches_elims:
  "matches (RClass k) st st'" "matches REmpty st st'" "matches (RSeq a b) st st'"
  "matches (RAlt a b) st st'" "matches RBoundary st st'"
  "matches (RNotBehind k) st st'" "matches (RNotAhead k) st st'"

text \<open>A match consumes a prefix of the rest, and an empty match does not move.\<close>

definition moves :: "position \<Rightarrow> position \<Rightarrow> bool" where
  "moves st st' \<longleftrightarrow> st' = st \<or> (\<exists>w c. snd st = w @ [c] @ snd st' \<and> fst st' = Some c)"

lemma moves_refl [simp]: "moves st st"
  by (simp add: moves_def)

lemma moves_trans: "moves a b \<Longrightarrow> moves b c \<Longrightarrow> moves a c"
  unfolding moves_def by (metis append.assoc)

lemma moves_length: "moves st st' \<Longrightarrow> length (snd st') \<le> length (snd st)"
  by (auto simp: moves_def)

lemma moves_same: "moves st st' \<Longrightarrow> \<not> length (snd st') < length (snd st) \<Longrightarrow> st' = st"
  by (auto simp: moves_def)

lemma matches_moves: "matches r st st' \<Longrightarrow> moves st st'"
  by (induction rule: matches.induct) (auto intro: moves_trans simp: moves_def)

subsection \<open>The engine finds exactly the denoted matches\<close>

lemma star_split:
  "matches (RStar a) st st' \<Longrightarrow>
     st' = st \<or> (\<exists>st1. matches a st st1 \<and> length (snd st1) < length (snd st) \<and> matches (RStar a) st1 st')"
proof (induction "RStar a" st st' rule: matches.induct)
  case (MStep st st1 st2)
  then show ?case using moves_same [OF matches_moves [OF MStep.hyps(1)]] by metis
qed simp

lemma star_from_sound:
  "(\<And>s s'. s' \<in> set (f s) \<Longrightarrow> matches a s s') \<Longrightarrow> st' \<in> set (star_from n f st) \<Longrightarrow> matches (RStar a) st st'"
proof (induction n f st arbitrary: st' rule: star_from.induct)
  case (2 n f st)
  show ?case
  proof (cases "st' = st")
    case True
    then show ?thesis by (simp add: MStop)
  next
    case False
    then obtain st1 where "st1 \<in> set (f st)" "length (snd st1) < length (snd st)"
        "st' \<in> set (star_from n f st1)"
      using "2.prems"(2) by auto
    then have "matches a st st1" "matches (RStar a) st1 st'"
      using "2.prems"(1) "2.IH" by auto
    then show ?thesis by (rule MStep)
  qed
qed (auto intro: MStop)

lemma star_from_complete:
  "(\<And>s s'. matches a s s' \<Longrightarrow> s' \<in> set (f s)) \<Longrightarrow> length (snd st) \<le> n \<Longrightarrow>
     matches (RStar a) st st' \<Longrightarrow> st' \<in> set (star_from n f st)"
proof (induction n f st arbitrary: st' rule: star_from.induct)
  case (1 f st)
  then show ?case using star_split [OF 1(3)] by auto
next
  case (2 n f st)
  from star_split [OF "2.prems"(3)] show ?case
  proof
    assume "st' = st" then show ?thesis by simp
  next
    assume "\<exists>st1. matches a st st1 \<and> length (snd st1) < length (snd st) \<and> matches (RStar a) st1 st'"
    then obtain st1 where st1: "matches a st st1" "length (snd st1) < length (snd st)" "matches (RStar a) st1 st'"
      by blast
    have "st1 \<in> set (filter (\<lambda>st'. length (snd st') < length (snd st)) (f st))"
      using st1 "2.prems"(1) by simp
    moreover have "st' \<in> set (star_from n f st1)"
      by (rule "2.IH") (use calculation st1 "2.prems" in auto)
    ultimately have "st' \<in> (\<Union>x\<in>set (filter (\<lambda>st'. length (snd st') < length (snd st)) (f st)).
        set (star_from n f x))"
      by (rule UN_I)
    then show ?thesis by (simp only: star_from.simps set_append simp_thms set_concat set_map image_image Un_iff simp_thms)
  qed
qed

lemma rm_sound: "st' \<in> set (rm r st) \<Longrightarrow> matches r st st'"
proof (induction r st arbitrary: st' rule: rm.induct)
  case (5 a st)
  show ?case by (rule star_from_sound [of "rm a"]) (use 5 in auto)
next
  case (3 a b st)
  then obtain st1 where "st1 \<in> set (rm a st)" "st' \<in> set (rm b st1)" by auto
  then show ?case using 3 by (blast intro: MSeq)
qed (auto split: list.splits option.splits if_splits intro: matches.intros)

lemma rm_complete: "matches r st st' \<Longrightarrow> st' \<in> set (rm r st)"
proof (induction r arbitrary: st st')
  case (RStar a)
  have "st' \<in> set (star_from (length (snd st)) (rm a) st)"
    by (rule star_from_complete [of a]) (use RStar in auto)
  then show ?case by simp
next
  case (RSeq a b)
  from RSeq.prems obtain st1 where "matches a st st1" "matches b st1 st'"
    by (rule matches_elims(3))
  then have "st1 \<in> set (rm a st)" "st' \<in> set (rm b st1)" using RSeq.IH by blast+
  then show ?case by (simp del: split_paired_Ex) blast
next
  case (RClass k)
  then show ?case by (auto elim: matches_elims)
next
  case (RNotBehind k)
  then show ?case by (auto elim!: matches_elims split: option.splits)
next
  case (RNotAhead k)
  then show ?case by (auto elim!: matches_elims split: list.splits)
qed (auto elim: matches_elims)

lemma rm_iff_matches: "st' \<in> set (rm r st) \<longleftrightarrow> matches r st st'"
  using rm_sound rm_complete by blast

lemma rm_Nil_iff: "rm r st = [] \<longleftrightarrow> (\<forall>st'. \<not> matches r st st')"
  unfolding rm_iff_matches [symmetric] by (metis list.set_intros(1) neq_Nil_conv equals0D set_empty)

lemma search_from_iff:
  "search_from r p s \<longleftrightarrow> (\<exists>u v st'. s = u @ v \<and> matches r (if u = [] then p else Some (last u), v) st')"
proof (induction r p s rule: search_from.induct)
  case (1 r p)
  show ?case by (simp add: rm_Nil_iff)
next
  case (2 r p c cs)
  have now: "rm r (p, c # cs) \<noteq> [] \<longleftrightarrow> (\<exists>st'. matches r (p, c # cs) st')"
    by (simp add: rm_Nil_iff)
  show ?case
  proof
    assume "search_from r p (c # cs)"
    then consider st' where "matches r (p, c # cs) st'" | "search_from r (Some c) cs" using now by auto
    then show "\<exists>u v st'. c # cs = u @ v \<and> matches r (if u = [] then p else Some (last u), v) st'"
    proof cases
      case 1
      then show ?thesis by (intro exI [of _ "[]"] exI [of _ "c # cs"] exI [of _ st']) simp
    next
      case 2
      then obtain u v st' where "cs = u @ v" "matches r (if u = [] then Some c else Some (last u), v) st'"
        using "2.IH" by blast
      then show ?thesis by (intro exI [of _ "c # u"] exI [of _ v] exI [of _ st']) auto
    qed
  next
    assume "\<exists>u v st'. c # cs = u @ v \<and> matches r (if u = [] then p else Some (last u), v) st'"
    then obtain u v st' where uv: "c # cs = u @ v" "matches r (if u = [] then p else Some (last u), v) st'" by blast
    show "search_from r p (c # cs)"
    proof (cases u)
      case Nil
      then have "matches r (p, c # cs) st'" using uv by simp
      then show ?thesis using now unfolding search_from.simps by blast
    next
      case (Cons d u')
      then have "cs = u' @ v \<and> matches r (if u' = [] then Some c else Some (last u'), v) st'"
        using uv by (auto split: if_splits)
      then have "search_from r (Some c) cs" unfolding "2.IH" by blast
      then show ?thesis unfolding search_from.simps by blast
    qed
  qed
qed

subsection \<open>Case insensitivity\<close>

fun caseless :: "regex \<Rightarrow> bool" where
  "caseless (RClass k) = (\<forall>c. k (lower_char c) = k c)"
| "caseless REmpty = True"
| "caseless (RSeq a b) = (caseless a \<and> caseless b)"
| "caseless (RAlt a b) = (caseless a \<and> caseless b)"
| "caseless (RStar a) = caseless a"
| "caseless RBoundary = True"
| "caseless (RNotBehind k) = (\<forall>c. k (lower_char c) = k c)"
| "caseless (RNotAhead k) = (\<forall>c. k (lower_char c) = k c)"

definition lower_pos :: "position \<Rightarrow> position" where
  "lower_pos = (\<lambda>(p, s). (map_option lower_char p, lower s))"

lemma lower_Nil [simp]: "lower [] = []" and lower_Cons [simp]: "lower (c # s) = lower_char c # lower s"
  and lower_length [simp]: "length (lower s) = length s"
  by (simp_all add: lower_def)

lemma lower_pos_length [simp]: "length (snd (lower_pos st)) = length (snd st)"
  by (cases st) (simp add: lower_pos_def)

lemma of_char_lower_char:
  "(of_char (lower_char c) :: nat) =
     (let n = (of_char c :: nat) in
      if (65 \<le> n \<and> n \<le> 90) \<or> (192 \<le> n \<and> n \<le> 222 \<and> n \<noteq> 215) then n + 32 else n)"
proof -
  have "of_char (char_of (m :: nat)) = (m :: nat)" if "m < 256" for m
    using that by simp
  then show ?thesis by (simp add: lower_char_def Let_def)
qed

lemma lower_char_idem [simp]: "lower_char (lower_char c) = lower_char c"
  by (subst lower_char_def) (auto simp: of_char_lower_char Let_def)

lemma word_char_lower [simp]: "word_char (lower_char c) = word_char c"
  by (simp add: word_char_def of_char_lower_char Let_def ascii_range_def)

lemma digit_char_lower [simp]: "digit_char (lower_char c) = digit_char c"
  by (simp add: digit_char_def of_char_lower_char Let_def ascii_range_def)

lemma isspace_lower [simp]: "isspace (lower_char c) = isspace c"
  by (simp add: isspace_def of_char_lower_char Let_def)

lemma at_boundary_lower [simp]: "at_boundary (lower_pos st) = at_boundary st"
  by (cases st) (auto simp: at_boundary_def lower_pos_def opt_word_def next_char_def
      split: option.splits list.splits)

lemma star_from_lower:
  "(\<And>s. f (lower_pos s) = map lower_pos (f s)) \<Longrightarrow>
     star_from n f (lower_pos st) = map lower_pos (star_from n f st)"
proof (induction n f st rule: star_from.induct)
  case (2 n f st)
  have "star_from n f (lower_pos s) = map lower_pos (star_from n f s)"
    if "s \<in> set (filter (\<lambda>st'. length (snd st') < length (snd st)) (f st))" for s
    by (rule "2.IH") (use that "2.prems" in auto)
  then have "map (star_from n f \<circ> lower_pos) (filter (\<lambda>st'. length (snd st') < length (snd st)) (f st))
      = map (map lower_pos \<circ> star_from n f) (filter (\<lambda>st'. length (snd st') < length (snd st)) (f st))"
    by (intro map_cong) auto
  moreover have "filter (\<lambda>st'. length (snd st') < length (snd (lower_pos st))) (map lower_pos (f st))
      = map lower_pos (filter (\<lambda>st'. length (snd st') < length (snd st)) (f st))"
    by (simp add: filter_map comp_def)
  ultimately show ?case
    by (simp only: star_from.simps "2.prems" map_append map_concat map_map list.map)
qed simp

lemma rm_lower: "caseless r \<Longrightarrow> rm r (lower_pos st) = map lower_pos (rm r st)"
proof (induction r arbitrary: st)
  case (RSeq a b)
  then show ?case by (simp add: map_concat comp_def)
next
  case (RStar a)
  then show ?case by (simp add: star_from_lower)
next
  case RBoundary
  then show ?case by simp
qed (auto simp: lower_pos_def split: prod.splits list.splits option.splits)

lemma caseless_rchar [simp]: "caseless (rchar c)"
  by (simp add: rchar_def)

lemma caseless_rlit [simp]: "caseless (rlit s)"
  by (induction s) simp_all

lemma caseless_ralts: "(\<And>r. r \<in> set rs \<Longrightarrow> caseless r) \<Longrightarrow> caseless (ralts rs)"
  by (induction rs rule: ralts.induct) auto

lemma caseless_rwords [simp]: "caseless (rwords ws)"
  by (auto simp: rwords_def intro!: caseless_ralts)

lemma search_lower: "caseless r \<Longrightarrow> search_from r (map_option lower_char p) (lower s) = search_from r p s"
proof (induction r p s rule: search_from.induct)
  case (1 r p)
  then show ?case using rm_lower [of r "(p, [])"] by (simp add: lower_pos_def)
next
  case (2 r p c cs)
  then show ?case using rm_lower [of r "(p, c # cs)"] by (simp add: lower_pos_def)
qed

lemma count_lower: "caseless r \<Longrightarrow> count_from n r (lower_pos st) = count_from n r st"
proof (induction n r st rule: count_from.induct)
  case (2 n r p s)
  have *: "rm r (lower_pos (p, s)) = map lower_pos (rm r (p, s))" using rm_lower 2(4) by blast
  obtain q t where lp: "lower_pos (p, s) = (q, t)" "t = lower s" by (simp add: lower_pos_def)
  have tail: "count_from n r (Some (lower_char c), lower cs) = count_from n r (Some c, cs)"
    if "s = c # cs" "rm r (p, s) = []" for c cs
    using 2(1) [OF that(2) that(1)] 2(4) by (simp add: lower_pos_def)
  show ?case
  proof (cases "rm r (p, s)")
    case Nil
    then show ?thesis using * lp tail by (cases s) simp_all
  next
    case (Cons st sts)
    show ?thesis
    proof (cases "length (snd st) < length s")
      case True
      then show ?thesis using 2(2) [OF Cons True] 2(4) * lp Cons by simp
    next
      case False
      have "count_from n r (Some (lower_char c), lower cs) = count_from n r (Some c, cs)"
        if "s = c # cs" for c cs
        using 2(3) [OF Cons False that] 2(4) by (simp add: lower_pos_def)
      then show ?thesis using * lp Cons False by (cases s) simp_all
    qed
  qed
qed simp

lemma re_findall_count_lower: "caseless r \<Longrightarrow> re_findall_count r (lower s) = re_findall_count r s"
  using count_lower [of r "Suc (length s)" "(None, s)"] by (simp add: re_findall_count_def lower_pos_def)

lemma re_search_lower: "caseless r \<Longrightarrow> re_search r (lower s) = re_search r s"
  using search_lower [of r None s] by (simp add: re_search_def)

subsection \<open>How many matches a text can hold\<close>

lemma count_from_le: "count_from n r st \<le> Suc (length (snd st))"
proof (induction n r st rule: count_from.induct)
  case (2 n r p s)
  show ?case
  proof (cases "rm r (p, s)")
    case Nil
    then show ?thesis using 2(1) by (cases s) (simp_all add: le_SucI)
  next
    case (Cons st sts)
    then show ?thesis using 2(2,3) by (cases "length (snd st) < length s"; cases s) fastforce+
  qed
qed simp

end
