(* ===== verification/Features.thy ===== *)
theory Features
  imports Py_Regex Schemas
begin

section \<open>Request features available before routing\<close>

text \<open>
  \<^verbatim>\<open>routing/features.py\<close>, \<^verbatim>\<open>routing/bounded_features.py\<close> and
  \<^verbatim>\<open>benchmarks/features.py\<close>: the category taxonomy, the three frozen patterns and
  the extractor. The governance tables of the module are translated as tables; their entries
  are checked against the record of the features.
\<close>

subsection \<open>The taxonomy\<close>

datatype routing_category =
  RC_CLASSIFICATION | RC_CODING | RC_EXTRACTION | RC_STRUCTURED_JSON | RC_QA | RC_REASONING
| RC_SUMMARIZATION

fun routing_category_value :: "routing_category \<Rightarrow> string" where
  "routing_category_value RC_CLASSIFICATION = ''classification''"
| "routing_category_value RC_CODING = ''coding''"
| "routing_category_value RC_EXTRACTION = ''extraction''"
| "routing_category_value RC_STRUCTURED_JSON = ''structured_json''"
| "routing_category_value RC_QA = ''qa''"
| "routing_category_value RC_REASONING = ''reasoning''"
| "routing_category_value RC_SUMMARIZATION = ''summarization''"

definition routing_categories :: "routing_category list" where
  "routing_categories = [RC_CLASSIFICATION, RC_CODING, RC_EXTRACTION, RC_STRUCTURED_JSON, RC_QA,
     RC_REASONING, RC_SUMMARIZATION]"

text \<open>\<^verbatim>\<open>RoutingCategory(value)\<close>: look the value up or raise
  \<^verbatim>\<open>ValueError\<close>.\<close>

definition RoutingCategory :: "string \<Rightarrow> exn_class + routing_category" where
  "RoutingCategory s =
     (case find (\<lambda>c. routing_category_value c = s) routing_categories of
        Some c \<Rightarrow> Inr c | None \<Rightarrow> Inl ValueErrorC)"

datatype category_provenance = CP_CLIENT_HINT | CP_INFERRED | CP_ABSENT

record routing_request_features =
  rf_category :: "routing_category option"
  rf_category_provenance :: category_provenance
  rf_prompt_characters :: int
  rf_system_prompt_characters :: int
  rf_message_count :: int
  rf_system_prompt_present :: bool
  rf_approximate_input_tokens :: int
  rf_contains_code :: bool
  rf_requests_structured_output :: bool
  rf_max_output_tokens :: int
  rf_constraint_indicator_count :: int
  rf_reasoning_indicator_count :: int

definition features_fields_ok :: "routing_request_features \<Rightarrow> bool" where
  "features_fields_ok f \<longleftrightarrow>
     0 \<le> rf_prompt_characters f \<and> 0 \<le> rf_system_prompt_characters f
   \<and> 1 \<le> rf_message_count f \<and> rf_message_count f \<le> 2
   \<and> 0 \<le> rf_approximate_input_tokens f \<and> 0 < rf_max_output_tokens f
   \<and> 0 \<le> rf_constraint_indicator_count f \<and> 0 \<le> rf_reasoning_indicator_count f"

definition metadata_is_consistent :: "routing_request_features \<Rightarrow> bool" where
  "metadata_is_consistent f \<longleftrightarrow>
     (rf_category f = None) = (rf_category_provenance f = CP_ABSENT)
   \<and> \<not> (rf_category f \<noteq> None \<and> rf_category_provenance f = CP_ABSENT)
   \<and> rf_system_prompt_present f = (rf_system_prompt_characters f > 0)
   \<and> rf_message_count f = (if rf_system_prompt_present f then 2 else 1)"

text \<open>Constructing the model: field constraints, then the validator.\<close>

definition RoutingRequestFeatures ::
  "routing_request_features \<Rightarrow> exn_class + routing_request_features" where
  "RoutingRequestFeatures f =
     (if features_fields_ok f \<and> metadata_is_consistent f then Inr f else Inl ValidationErrorC)"

text \<open>
  The defaults a caller may leave out (\<^verbatim>\<open>supply_compatible_metadata_defaults\<close>): the
  provenance follows the category, presence and message count follow the system prompt.
\<close>

definition features_with_defaults ::
  "string option \<Rightarrow> category_provenance option \<Rightarrow> int \<Rightarrow> bool option \<Rightarrow> int option \<Rightarrow>
   string option \<times> category_provenance \<times> bool \<times> int" where
  "features_with_defaults category provenance system_characters present messages =
     (map_option strip category,
      (case provenance of Some p \<Rightarrow> p | None \<Rightarrow> if category \<noteq> None then CP_CLIENT_HINT else CP_ABSENT),
      (case present of Some p \<Rightarrow> p | None \<Rightarrow> system_characters \<noteq> 0),
      (case messages of Some n \<Rightarrow> n | None \<Rightarrow> if system_characters \<noteq> 0 then 2 else 1))"

subsection \<open>The frozen patterns\<close>

definition CONSTRAINTS :: regex where
  "CONSTRAINTS = rwords [''must'', ''only'', ''exactly'', ''exclude'', ''include'', ''return'',
     ''output'', ''do not'', ''at most'', ''no more than'']"

definition REASONING :: regex where
  "REASONING = rwords [''infer'', ''determine'', ''deduce'', ''calculate'', ''after'', ''before'',
     ''unless'', ''if'', ''therefore'']"

definition spaces1 :: regex where "spaces1 = rplus (RClass isspace)"
definition spaces0 :: regex where "spaces0 = RStar (RClass isspace)"
definition word1 :: regex where "word1 = rplus (RClass word_char)"
definition open_paren :: regex where "open_paren = rchar CHR ''(''"

definition CODE :: regex where
  "CODE = ralts
     [rseqs [rchar CHR 0x60, rchar CHR 0x60, rchar CHR 0x60],
      rseqs [RBoundary, rlit ''python code'', RBoundary],
      rseqs [RBoundary, rlit ''def'', spaces1, word1, spaces0, open_paren],
      rseqs [RBoundary, rlit ''defin'', ralts [rlit ''e'', rlit ''ing''], spaces1, word1, spaces0, open_paren],
      rseqs [RBoundary, rlit ''function'', spaces1, word1, spaces0, open_paren],
      rseqs [RBoundary, rlit ''class'', spaces1, word1]]"

text \<open>\<^verbatim>\<open>" ".join(part for part in (system, prompt) if part)\<close>.\<close>

definition request_text :: "inference_request \<Rightarrow> string" where
  "request_text r = join '' '' (filter (\<lambda>p. p \<noteq> []) [system_text r, rq_prompt r])"

definition approximate_input_tokens :: "inference_request \<Rightarrow> int" where
  "approximate_input_tokens r = int (length (split_ws (request_text r)))"

definition text_contains_code :: "string \<Rightarrow> bool" where
  "text_contains_code s = re_search CODE s"

definition constraint_indicator_count :: "string \<Rightarrow> int" where
  "constraint_indicator_count s = int (re_findall_count CONSTRAINTS s)"

definition reasoning_indicator_count :: "string \<Rightarrow> int" where
  "reasoning_indicator_count s = int (re_findall_count REASONING s)"

subsection \<open>ProductionRequestFeatureExtractor\<close>

definition extract_features ::
  "inference_request \<Rightarrow> string option \<Rightarrow> bool \<Rightarrow> exn_class + routing_request_features" where
  "extract_features request category_hint structured_output_required =
     rbind (case category_hint of None \<Rightarrow> Inr None
            | Some h \<Rightarrow> rbind (RoutingCategory (strip h)) (\<lambda>c. Inr (Some c))) (\<lambda>category.
       let text = request_text request; system_present = rq_system_prompt request \<noteq> None in
       RoutingRequestFeatures
         \<lparr>rf_category = category,
          rf_category_provenance = (if category = None then CP_ABSENT else CP_CLIENT_HINT),
          rf_prompt_characters = int (length (rq_prompt request)),
          rf_system_prompt_characters = int (length (system_text request)),
          rf_message_count = (if system_present then 2 else 1),
          rf_system_prompt_present = system_present,
          rf_approximate_input_tokens = approximate_input_tokens request,
          rf_contains_code = text_contains_code text,
          rf_requests_structured_output = structured_output_required,
          rf_max_output_tokens = rq_max_output_tokens request,
          rf_constraint_indicator_count = constraint_indicator_count text,
          rf_reasoning_indicator_count = reasoning_indicator_count text\<rparr>)"

subsection \<open>The benchmark extractor and the bounded structural features\<close>

record benchmark_features =
  bf_category :: "string option"
  bf_prompt_characters :: int
  bf_system_prompt_characters :: int
  bf_approximate_input_tokens :: int
  bf_contains_code :: bool
  bf_requests_structured_output :: bool
  bf_max_output_tokens :: int
  bf_constraint_indicator_count :: int
  bf_reasoning_indicator_count :: int

text \<open>
  The request may be a benchmark task, which also has a category and an expected output type;
  a plain request has neither and counts as text.
\<close>

definition extract_request_features ::
  "inference_request \<Rightarrow> string option \<Rightarrow> string option \<Rightarrow> benchmark_features" where
  "extract_request_features request category expected_output_type =
     (let text = request_text request;
          output_type = (case expected_output_type of None \<Rightarrow> ''text'' | Some t \<Rightarrow> t) in
      \<lparr>bf_category = category,
       bf_prompt_characters = int (length (rq_prompt request)),
       bf_system_prompt_characters = int (length (system_text request)),
       bf_approximate_input_tokens = approximate_input_tokens request,
       bf_contains_code = text_contains_code text,
       bf_requests_structured_output = (output_type \<in> {''json'', ''code''}),
       bf_max_output_tokens = rq_max_output_tokens request,
       bf_constraint_indicator_count = constraint_indicator_count text,
       bf_reasoning_indicator_count = reasoning_indicator_count text\<rparr>)"

definition ascii_word :: "char \<Rightarrow> bool" where
  "ascii_word c \<longleftrightarrow> ascii_alnum c \<or> c = CHR ''_''"

definition exactly :: "char \<Rightarrow> regex" where
  "exactly c = RClass (\<lambda>d. d = c)"

definition one_of :: "string \<Rightarrow> regex" where
  "one_of cs = RClass (\<lambda>d. d \<in> set cs)"

definition NUMERIC_QUANTITY :: regex where
  "NUMERIC_QUANTITY = rseqs
     [RNotBehind ascii_word, ropt (one_of ''+-''),
      ralts [rseqs [rplus (RClass digit_char),
                    ropt (rseqs [exactly CHR ''.'', rplus (RClass digit_char)])],
             rseqs [exactly CHR ''.'', rplus (RClass digit_char)]],
      ropt (exactly CHR ''%''), RNotAhead ascii_word]"

definition CONDITIONAL_OPERATOR :: regex where
  "CONDITIONAL_OPERATOR = rseqs
     [RBoundary,
      ralts [rlit ''if'', rlit ''unless'', rlit ''otherwise'', rlit ''except'', rlit ''when'',
             rseqs [rlit ''provided'', spaces1, rlit ''that''], rlit ''either'', rlit ''neither''],
      RBoundary]"

definition SYMBOLIC_MATH_OPERATOR :: regex where
  "SYMBOLIC_MATH_OPERATOR = ralts
     [rseqs [exactly CHR ''<'', exactly CHR ''=''], rseqs [exactly CHR ''>'', exactly CHR ''=''],
      rseqs [exactly CHR ''='', exactly CHR ''=''], rseqs [exactly CHR ''!'', exactly CHR ''=''],
      one_of ''=<>+*/%'']"

definition two_words :: "string \<Rightarrow> string \<Rightarrow> regex" where
  "two_words a b = rseqs [rlit a, spaces1, rlit b]"

definition COMPARISON_STRUCTURE :: regex where
  "COMPARISON_STRUCTURE = rseqs
     [RBoundary,
      ralts [two_words ''at'' ''least'', two_words ''at'' ''most'', two_words ''more'' ''than'',
             two_words ''less'' ''than'', two_words ''fewer'' ''than'', two_words ''greater'' ''than'',
             rlit ''above'', rlit ''below'',
             rseqs [rlit ''exceed'', ropt (ralts [rlit ''s'', rlit ''ed'', rlit ''ing''])],
             rlit ''highest'', rlit ''lowest'', rlit ''maximum'', rlit ''minimum'', rlit ''before'',
             rlit ''after''],
      RBoundary]"

record bounded_structural_features =
  bs_numeric_quantity_count :: nat
  bs_conditional_operator_count :: nat
  bs_symbolic_math_operator_count :: nat
  bs_comparison_structure_count :: nat

definition extract_bounded_structural_features :: "inference_request \<Rightarrow> bounded_structural_features" where
  "extract_bounded_structural_features request =
     (let text = request_text request in
      \<lparr>bs_numeric_quantity_count = re_findall_count NUMERIC_QUANTITY text,
       bs_conditional_operator_count = re_findall_count CONDITIONAL_OPERATOR text,
       bs_symbolic_math_operator_count = re_findall_count SYMBOLIC_MATH_OPERATOR text,
       bs_comparison_structure_count = re_findall_count COMPARISON_STRUCTURE text\<rparr>)"

subsection \<open>Laws\<close>

lemma RoutingCategory_value [simp]: "RoutingCategory (routing_category_value c) = Inr c"
  by (cases c) (simp_all add: RoutingCategory_def routing_categories_def)

lemma RoutingCategory_Inr: "RoutingCategory s = Inr c \<longleftrightarrow> s = routing_category_value c"
proof
  assume "RoutingCategory s = Inr c"
  then show "s = routing_category_value c"
    by (auto simp: RoutingCategory_def find_Some_iff split: option.splits)
qed simp

lemma RoutingCategory_cases: "RoutingCategory s = Inl ValueErrorC \<or> (\<exists>c. RoutingCategory s = Inr c)"
  by (simp add: RoutingCategory_def split: option.split)

lemma valid_system_text:
  "inference_request_valid r \<Longrightarrow> rq_system_prompt r \<noteq> None \<longleftrightarrow> 0 < length (system_text r)"
  by (auto simp: inference_request_valid_def system_text_def strip_def split: option.splits)

lemma caseless_code: "caseless CODE"
  by (simp add: CODE_def spaces1_def spaces0_def word1_def open_paren_def rplus_def)

lemma caseless_constraints: "caseless CONSTRAINTS" and caseless_reasoning: "caseless REASONING"
  by (simp_all add: CONSTRAINTS_def REASONING_def)

text \<open>
  Extraction from a valid request: it fails only with \<^verbatim>\<open>ValueError\<close> on
  an unknown category hint; otherwise the features satisfy every field constraint and the
  consistency validator, the category is the one the stripped hint names, and its provenance is
  the client's.
\<close>

theorem extraction_is_total_and_consistent:
  assumes "inference_request_valid rq"
  shows "case hint of
      None \<Rightarrow> (\<exists>f. extract_features rq hint structured = Inr f \<and> features_fields_ok f
                 \<and> metadata_is_consistent f \<and> rf_category f = None)
    | Some h \<Rightarrow> (if strip h \<in> set (map routing_category_value routing_categories)
                 then \<exists>f c. extract_features rq hint structured = Inr f \<and> features_fields_ok f
                      \<and> metadata_is_consistent f \<and> rf_category f = Some c
                      \<and> routing_category_value c = strip h \<and> rf_category_provenance f = CP_CLIENT_HINT
                 else extract_features rq hint structured = Inl ValueErrorC)"
proof -
  have sys: "rq_system_prompt rq \<noteq> None \<longleftrightarrow> 0 < length (system_text rq)"
    using valid_system_text [OF assms] .
  have tok: "0 < rq_max_output_tokens rq"
    using assms by (simp add: inference_request_valid_def positive_token_count_def)
  show ?thesis
  proof (cases hint)
    case None
    then show ?thesis using sys tok
      by (simp add: extract_features_def Let_def RoutingRequestFeatures_def features_fields_ok_def
          metadata_is_consistent_def approximate_input_tokens_def constraint_indicator_count_def
          reasoning_indicator_count_def)
  next
    case (Some h)
    show ?thesis
    proof (cases "strip h \<in> set (map routing_category_value routing_categories)")
      case True
      then obtain c where "strip h = routing_category_value c" by auto
      then show ?thesis using Some sys tok True
        by (simp add: extract_features_def Let_def RoutingRequestFeatures_def features_fields_ok_def
            metadata_is_consistent_def approximate_input_tokens_def constraint_indicator_count_def
            reasoning_indicator_count_def)
    next
      case False
      then have "find (\<lambda>c. routing_category_value c = strip h) routing_categories = None"
        unfolding find_None_iff set_map by (metis image_eqI)
      then have "RoutingCategory (strip h) = Inl ValueErrorC" by (simp add: RoutingCategory_def)
      then show ?thesis using Some False by (simp add: extract_features_def)
    qed
  qed
qed

text \<open>
  The three indicators ignore case: writing the text in lower case changes neither
  the code indicator nor the two counts.
\<close>

theorem indicators_ignore_case:
  "text_contains_code (lower s) = text_contains_code s
   \<and> constraint_indicator_count (lower s) = constraint_indicator_count s
   \<and> reasoning_indicator_count (lower s) = reasoning_indicator_count s"
  by (simp add: text_contains_code_def constraint_indicator_count_def reasoning_indicator_count_def
      re_search_lower re_findall_count_lower caseless_code caseless_constraints caseless_reasoning)

text \<open>
  The code indicator means what the pattern says: it is set exactly when the text
  splits so that the pattern matches at the split, in the declarative semantics of patterns.
\<close>

theorem code_indicator_is_a_match:
  "text_contains_code s \<longleftrightarrow>
     (\<exists>u v st. s = u @ v \<and> matches CODE (if u = [] then None else Some (last u), v) st)"
  by (simp add: text_contains_code_def re_search_def search_from_iff)

end
