(* ===== verification/Json.thy ===== *)
theory Json
  imports Prelude
begin

section \<open>JSON decoding as the gateway configures it\<close>

text \<open>
  \<^verbatim>\<open>json.loads(text, object_pairs_hook=_pairs, parse_constant=_constant,
  parse_int=Decimal, parse_float=Decimal)\<close> of Python's standard library with the hooks of
  \<^verbatim>\<open>validation/validator.py\<close>: duplicate keys and the constants
  \<^verbatim>\<open>NaN\<close>, \<^verbatim>\<open>Infinity\<close> are refused, and every number is a
  decimal (sign, coefficient, exponent). Strings decode to code points, so that
  \<^verbatim>\<open>\u\<close> escapes are exact.

  The recursive descent carries fuel; running out of it is the separate outcome
  \<open>OutOfFuel\<close>, and \<open>json_loads_fuel\<close> shows that \<open>2 * length text + 2\<close> units are always
  enough, so that outcome never reaches a caller.
\<close>

datatype json =
    JNull | JBool bool | JNum bool nat int | JStr "nat list"
  | JArr "json list" | JObj "(nat list \<times> json) list"

datatype 'a parse = OutOfFuel | Bad | Good 'a string

definition json_ws :: "char \<Rightarrow> bool" where
  "json_ws c \<longleftrightarrow> c = CHR '' '' \<or> c = CHR 0x09 \<or> c = CHR 0x0A \<or> c = CHR 0x0D"

definition skip_ws :: "string \<Rightarrow> string" where
  "skip_ws s = dropWhile json_ws s"

definition is_digit :: "char \<Rightarrow> bool" where
  "is_digit c \<longleftrightarrow> 48 \<le> (of_char c :: nat) \<and> (of_char c :: nat) \<le> 57"

definition digit_val :: "char \<Rightarrow> nat" where
  "digit_val c = of_char c - 48"

definition digits_val :: "string \<Rightarrow> nat" where
  "digits_val s = foldl (\<lambda>n c. 10 * n + digit_val c) 0 s"

subsection \<open>Strings\<close>

definition hex_val :: "char \<Rightarrow> nat option" where
  "hex_val c = (let n = of_char c in
     if 48 \<le> n \<and> n \<le> 57 then Some (n - 48)
     else if 65 \<le> n \<and> n \<le> 70 then Some (n - 55)
     else if 97 \<le> n \<and> n \<le> 102 then Some (n - 87) else None)"

definition hex4 :: "char \<Rightarrow> char \<Rightarrow> char \<Rightarrow> char \<Rightarrow> nat option" where
  "hex4 a b c d = (case (hex_val a, hex_val b, hex_val c, hex_val d) of
     (Some w, Some x, Some y, Some z) \<Rightarrow> Some (((w * 16 + x) * 16 + y) * 16 + z) | _ \<Rightarrow> None)"

definition escape_val :: "char \<Rightarrow> nat option" where
  "escape_val c =
     (if c = CHR 0x22 then Some 34 else if c = CHR 0x5C then Some 92
      else if c = CHR ''/'' then Some 47 else if c = CHR ''b'' then Some 8
      else if c = CHR ''f'' then Some 12 else if c = CHR ''n'' then Some 10
      else if c = CHR ''r'' then Some 13 else if c = CHR ''t'' then Some 9 else None)"

definition push :: "nat \<Rightarrow> (nat list \<times> string) option \<Rightarrow> (nat list \<times> string) option" where
  "push n r = map_option (\<lambda>(s, t). (n # s, t)) r"

fun low_surrogate :: "string \<Rightarrow> nat option" where
  "low_surrogate (bs # u # a # b # c # d # r) =
     (if bs = CHR 0x5C \<and> u = CHR ''u'' then
        (case hex4 a b c d of Some n \<Rightarrow> if 56320 \<le> n \<and> n \<le> 57343 then Some n else None
         | None \<Rightarrow> None)
      else None)"
| "low_surrogate _ = None"

fun scanstring :: "string \<Rightarrow> (nat list \<times> string) option" where
  "scanstring [] = None"
| "scanstring (c # r) =
     (if c = CHR 0x22 then Some ([], r)
      else if (of_char c :: nat) < 32 then None
      else if c \<noteq> CHR 0x5C then push (of_char c) (scanstring r)
      else (case r of
          [] \<Rightarrow> None
        | e # r1 \<Rightarrow>
            if e \<noteq> CHR ''u'' then
              (case escape_val e of None \<Rightarrow> None | Some n \<Rightarrow> push n (scanstring r1))
            else (case r1 of
                h1 # h2 # h3 # h4 # r2 \<Rightarrow>
                  (case hex4 h1 h2 h3 h4 of
                     None \<Rightarrow> None
                   | Some n \<Rightarrow>
                       if 55296 \<le> n \<and> n \<le> 56319 then
                         (case low_surrogate r2 of
                            Some n2 \<Rightarrow>
                              push (65536 + (n - 55296) * 1024 + (n2 - 56320)) (scanstring (drop 6 r2))
                          | None \<Rightarrow> push n (scanstring r2))
                       else push n (scanstring r2))
              | _ \<Rightarrow> None)))"

subsection \<open>Numbers\<close>

text \<open>
  \<^verbatim>\<open>(-?(?:0|[1-9][0-9]*))(\.[0-9]+)?([eE][-+]?[0-9]+)?\<close>, then \<^verbatim>\<open>Decimal\<close> of
  the matched text. The conversion itself raises when the exponent leaves the limits of the
  decimal library.
\<close>

definition MAX_EMAX :: int where "MAX_EMAX = 999999999999999999"
definition MIN_ETINY :: int where "MIN_ETINY = -1999999999999999997"

definition split_digits :: "string \<Rightarrow> string \<times> string" where
  "split_digits s = (takeWhile is_digit s, dropWhile is_digit s)"

definition int_part :: "string \<Rightarrow> (string \<times> string) option" where
  "int_part s = (case s of [] \<Rightarrow> None
     | c # r \<Rightarrow> if c = CHR ''0'' then Some (''0'', r)
                else if is_digit c then Some (split_digits s) else None)"

definition frac_part :: "string \<Rightarrow> string \<times> string" where
  "frac_part s = (case s of [] \<Rightarrow> ([], s)
     | c # r \<Rightarrow> if c = CHR ''.'' \<and> takeWhile is_digit r \<noteq> [] then split_digits r else ([], s))"

definition exp_part :: "string \<Rightarrow> int \<times> bool \<times> string" where
  "exp_part s = (case s of [] \<Rightarrow> (0, False, s)
     | c # r \<Rightarrow>
         if c = CHR ''e'' \<or> c = CHR ''E'' then
           (let neg = (case r of [] \<Rightarrow> False | d # _ \<Rightarrow> d = CHR ''-'');
                r1 = (case r of [] \<Rightarrow> [] | d # q \<Rightarrow> if d = CHR ''-'' \<or> d = CHR ''+'' then q else r);
                (ds, r2) = split_digits r1
            in if ds = [] then (0, False, s)
               else ((if neg then - int (digits_val ds) else int (digits_val ds)), True, r2))
         else (0, False, s))"

definition digit_count :: "nat \<Rightarrow> nat" where
  "digit_count n = length (show_nat n)"

definition decimal_convertible :: "nat \<Rightarrow> int \<Rightarrow> bool" where
  "decimal_convertible c e \<longleftrightarrow>
     MIN_ETINY \<le> e \<and> (if c = 0 then e \<le> MAX_EMAX else int (digit_count c) + e - 1 \<le> MAX_EMAX)"

definition scan_number :: "string \<Rightarrow> json parse" where
  "scan_number s =
     (let neg = (case s of [] \<Rightarrow> False | c # _ \<Rightarrow> c = CHR ''-'');
          s0 = (if neg then tl s else s) in
      case int_part s0 of
        None \<Rightarrow> Bad
      | Some (ip, s1) \<Rightarrow>
          let (fp, s2) = frac_part s1; (e, he, s3) = exp_part s2;
              c = digits_val (ip @ fp); x = e - int (length fp) in
          if decimal_convertible c x then Good (JNum neg c x) s3 else Bad)"

subsection \<open>Values\<close>

definition keyword :: "string \<Rightarrow> json \<Rightarrow> string \<Rightarrow> json parse" where
  "keyword k v s = (if take (length k) s = k then Good v (drop (length k) s) else Bad)"

text \<open>\<^verbatim>\<open>_pairs\<close>: a repeated key is a \<^verbatim>\<open>ValueError\<close>.\<close>

definition pairs_hook :: "(nat list \<times> json) list \<Rightarrow> string \<Rightarrow> json parse" where
  "pairs_hook ms r = (if has_duplicates (map fst ms) then Bad else Good (JObj ms) r)"

fun parse_value :: "nat \<Rightarrow> string \<Rightarrow> json parse"
and parse_members :: "nat \<Rightarrow> string \<Rightarrow> (nat list \<times> json) list parse"
and parse_elements :: "nat \<Rightarrow> string \<Rightarrow> json list parse" where
  "parse_value 0 s = OutOfFuel"
| "parse_value (Suc f) s =
     (case s of
        [] \<Rightarrow> Bad
      | c # r \<Rightarrow>
          if c = CHR 0x22 then
            (case scanstring r of None \<Rightarrow> Bad | Some (t, r') \<Rightarrow> Good (JStr t) r')
          else if c = CHR ''{'' then
            (case skip_ws r of
               [] \<Rightarrow> Bad
             | d # r' \<Rightarrow>
                 if d = CHR 0x22 then
                   (case parse_members f r' of
                      Good ms r'' \<Rightarrow> pairs_hook ms r'' | Bad \<Rightarrow> Bad | OutOfFuel \<Rightarrow> OutOfFuel)
                 else if d = CHR ''}'' then pairs_hook [] r' else Bad)
          else if c = CHR ''['' then
            (case skip_ws r of
               [] \<Rightarrow> Bad
             | d # r' \<Rightarrow>
                 if d = CHR '']'' then Good (JArr []) r'
                 else (case parse_elements f (d # r') of
                         Good vs r'' \<Rightarrow> Good (JArr vs) r'' | Bad \<Rightarrow> Bad | OutOfFuel \<Rightarrow> OutOfFuel))
          else if c = CHR ''n'' then keyword ''null'' JNull s
          else if c = CHR ''t'' then keyword ''true'' (JBool True) s
          else if c = CHR ''f'' then keyword ''false'' (JBool False) s
          else scan_number s)"
| "parse_members 0 s = OutOfFuel"
| "parse_members (Suc f) s =
     (case scanstring s of
        None \<Rightarrow> Bad
      | Some (key, r1) \<Rightarrow>
          (case skip_ws r1 of
             [] \<Rightarrow> Bad
           | c # r2 \<Rightarrow>
               if c \<noteq> CHR '':'' then Bad
               else (case parse_value f (skip_ws r2) of
                   OutOfFuel \<Rightarrow> OutOfFuel
                 | Bad \<Rightarrow> Bad
                 | Good v r3 \<Rightarrow>
                     (case skip_ws r3 of
                        [] \<Rightarrow> Bad
                      | d # r4 \<Rightarrow>
                          if d = CHR ''}'' then Good [(key, v)] r4
                          else if d \<noteq> CHR '','' then Bad
                          else (case skip_ws r4 of
                              [] \<Rightarrow> Bad
                            | q # r5 \<Rightarrow>
                                if q \<noteq> CHR 0x22 then Bad
                                else (case parse_members f r5 of
                                    OutOfFuel \<Rightarrow> OutOfFuel
                                  | Bad \<Rightarrow> Bad
                                  | Good ms r6 \<Rightarrow> Good ((key, v) # ms) r6))))))"
| "parse_elements 0 s = OutOfFuel"
| "parse_elements (Suc f) s =
     (case parse_value f s of
        OutOfFuel \<Rightarrow> OutOfFuel
      | Bad \<Rightarrow> Bad
      | Good v r1 \<Rightarrow>
          (case skip_ws r1 of
             [] \<Rightarrow> Bad
           | d # r2 \<Rightarrow>
               if d = CHR '']'' then Good [v] r2
               else if d \<noteq> CHR '','' then Bad
               else (case parse_elements f (skip_ws r2) of
                   OutOfFuel \<Rightarrow> OutOfFuel
                 | Bad \<Rightarrow> Bad
                 | Good vs r3 \<Rightarrow> Good (v # vs) r3)))"

definition json_decode :: "nat \<Rightarrow> string \<Rightarrow> json parse" where
  "json_decode fuel s =
     (case parse_value fuel (skip_ws s) of
        OutOfFuel \<Rightarrow> OutOfFuel
      | Bad \<Rightarrow> Bad
      | Good v r \<Rightarrow> if skip_ws r = [] then Good v [] else Bad)"

text \<open>\<open>None\<close> is the \<^verbatim>\<open>ValueError\<close> (or \<^verbatim>\<open>ArithmeticError\<close>) the caller catches.\<close>

definition json_loads :: "string \<Rightarrow> json option" where
  "json_loads s = (case json_decode (2 * length s + 2) s of Good v r \<Rightarrow> Some v | _ \<Rightarrow> None)"

subsection \<open>Every parser consumes input\<close>

lemma skip_ws_length: "length (skip_ws s) \<le> length s"
  by (simp add: skip_ws_def length_dropWhile_le)

lemma push_Some: "push n r = Some (s, t) \<longleftrightarrow> (\<exists>s'. s = n # s' \<and> r = Some (s', t))"
  by (cases r) (auto simp: push_def)

lemma scanstring_length: "scanstring s = Some (t, r) \<Longrightarrow> length r < length s"
proof (induction "length s" arbitrary: s t r rule: less_induct)
  case less
  have IH: "scanstring u = Some (t', r') \<Longrightarrow> length u < length s \<longrightarrow> length r' < length u" for u t' r'
    using less.hyps by blast
  show ?case
  proof (cases s)
    case (Cons c q)
    then show ?thesis using less.prems
      by (auto simp: push_Some split: if_splits list.splits option.splits dest!: IH)
  qed (use less.prems in simp)
qed

lemma split_digits_length: "length (snd (split_digits s)) \<le> length s"
  by (simp add: split_digits_def length_dropWhile_le)

lemma int_part_length: "int_part s = Some (ip, r) \<Longrightarrow> length r < length s"
  using split_digits_length [of "tl s"]
  by (auto simp: int_part_def split_digits_def less_Suc_eq_le length_dropWhile_le
      split: list.splits if_splits)

lemma frac_part_length: "frac_part s = (fp, r) \<Longrightarrow> length r \<le> length s"
  by (auto simp: frac_part_def split_digits_def length_dropWhile_le le_SucI split: list.splits if_splits)

lemma exp_part_length: "exp_part s = (e, h, r) \<Longrightarrow> length r \<le> length s"
  by (auto simp: exp_part_def split_digits_def Let_def le_SucI
      intro: order_trans [OF length_dropWhile_le] split: list.splits if_splits)

lemma scan_number_length: "scan_number s = Good v r \<Longrightarrow> length r < length s"
  by (fastforce simp: scan_number_def Let_def split: option.splits prod.splits if_splits list.splits
      dest!: int_part_length frac_part_length exp_part_length)

lemma keyword_length: "keyword k v s = Good w r \<Longrightarrow> k \<noteq> [] \<Longrightarrow> s \<noteq> [] \<Longrightarrow> length r < length s"
  by (auto simp: keyword_def split: if_splits)

lemma scan_number_not_fuel: "scan_number s \<noteq> OutOfFuel"
  by (auto simp: scan_number_def Let_def split: option.splits prod.splits if_splits)

lemma keyword_not_fuel: "keyword k v s \<noteq> OutOfFuel"
  by (simp add: keyword_def)

lemma pairs_hook_not_fuel: "pairs_hook ms r \<noteq> OutOfFuel"
  by (simp add: pairs_hook_def)

lemma pairs_hook_Good: "pairs_hook ms r = Good v r' \<longleftrightarrow> distinct (map fst ms) \<and> v = JObj ms \<and> r' = r"
  by (auto simp: pairs_hook_def)

lemma skip_ws_Cons_length: "skip_ws s = c # r \<Longrightarrow> length r < length s"
  using skip_ws_length [of s] by simp

lemmas parse_length_dests =
  skip_ws_Cons_length scanstring_length scan_number_length

lemma parse_value_step_length:
  assumes M: "\<And>s ms r. parse_members f s = Good ms r \<Longrightarrow> length r < length s"
    and E: "\<And>s vs r. parse_elements f s = Good vs r \<Longrightarrow> length r < length s"
    and G: "parse_value (Suc f) s = Good v r"
  shows "length r < length s"
proof (cases s)
  case Nil
  with G show ?thesis by simp
next
  case (Cons c q)
  consider (str) "c = CHR 0x22" | (obj) "c = CHR ''{''" | (arr) "c = CHR ''[''"
    | (kw) "c \<in> {CHR ''n'', CHR ''t'', CHR ''f''}"
    | (num) "c \<notin> {CHR 0x22, CHR ''{'', CHR ''['', CHR ''n'', CHR ''t'', CHR ''f''}"
    by blast
  then show ?thesis
  proof cases
    case str
    then show ?thesis using G Cons by (auto split: option.splits dest!: scanstring_length)
  next
    case obj
    then obtain d r' where d: "skip_ws q = d # r'" using G Cons by (auto split: list.splits)
    have "length r \<le> length r'"
    proof (cases "d = CHR 0x22")
      case True
      then obtain ms where "parse_members f r' = Good ms r"
        using G Cons obj d by (auto simp: pairs_hook_Good split: parse.splits)
      then show ?thesis using M by fastforce
    next
      case False
      then show ?thesis using G Cons obj d by (auto simp: pairs_hook_Good split: if_splits)
    qed
    then show ?thesis using skip_ws_Cons_length [OF d] Cons by simp
  next
    case arr
    then obtain d r' where d: "skip_ws q = d # r'" using G Cons by (auto split: list.splits)
    have "length r < length (d # r')"
    proof (cases "d = CHR '']''")
      case False
      then obtain vs where "parse_elements f (d # r') = Good vs r"
        using G Cons arr d by (auto split: parse.splits)
      then show ?thesis by (rule E)
    qed (use G Cons arr d in auto)
    then show ?thesis using skip_ws_length [of q] d Cons by simp
  next
    case kw
    then show ?thesis using G Cons by (auto dest!: keyword_length)
  next
    case num
    then show ?thesis using G Cons by (auto dest!: scan_number_length)
  qed
qed

lemma parse_members_step_length:
  assumes V: "\<And>s v r. parse_value f s = Good v r \<Longrightarrow> length r < length s"
    and M: "\<And>s ms r. parse_members f s = Good ms r \<Longrightarrow> length r < length s"
    and G: "parse_members (Suc f) s = Good ms r"
  shows "length r < length s"
proof -
  obtain key r1 r2 w r3 d r4 where steps:
    "scanstring s = Some (key, r1)" "skip_ws r1 = CHR '':'' # r2"
    "parse_value f (skip_ws r2) = Good w r3" "skip_ws r3 = d # r4"
    using G by (auto split: option.splits list.splits parse.splits if_splits)
  have short: "length r4 < length s"
    using V [OF steps(3)] skip_ws_Cons_length [OF steps(4)] skip_ws_length [of r2]
      skip_ws_Cons_length [OF steps(2)] scanstring_length [OF steps(1)] by linarith
  show ?thesis
  proof (cases "d = CHR ''}''")
    case True
    then show ?thesis using G steps short by simp
  next
    case False
    then obtain r5 ms' where tail: "skip_ws r4 = CHR 0x22 # r5" "parse_members f r5 = Good ms' r"
      using G steps by (auto split: list.splits parse.splits if_splits)
    then show ?thesis using M [OF tail(2)] skip_ws_Cons_length [OF tail(1)] short by linarith
  qed
qed

lemma parse_elements_step_length:
  assumes V: "\<And>s v r. parse_value f s = Good v r \<Longrightarrow> length r < length s"
    and E: "\<And>s vs r. parse_elements f s = Good vs r \<Longrightarrow> length r < length s"
    and G: "parse_elements (Suc f) s = Good vs r"
  shows "length r < length s"
proof -
  obtain w r1 d r2 where steps: "parse_value f s = Good w r1" "skip_ws r1 = d # r2"
    using G by (auto split: list.splits parse.splits if_splits)
  have short: "length r2 < length s"
    using V [OF steps(1)] skip_ws_Cons_length [OF steps(2)] by linarith
  show ?thesis
  proof (cases "d = CHR '']''")
    case True
    then show ?thesis using G steps short by simp
  next
    case False
    then obtain vs' where "parse_elements f (skip_ws r2) = Good vs' r"
      using G steps by (auto split: parse.splits if_splits)
    then show ?thesis using E skip_ws_length [of r2] short by fastforce
  qed
qed

lemma parse_shorter:
  "(\<forall>s v r. parse_value f s = Good v r \<longrightarrow> length r < length s)
   \<and> (\<forall>s ms r. parse_members f s = Good ms r \<longrightarrow> length r < length s)
   \<and> (\<forall>s vs r. parse_elements f s = Good vs r \<longrightarrow> length r < length s)"
proof (induction f)
  case 0
  then show ?case by simp
next
  case (Suc f)
  then show ?case
    using parse_value_step_length [of f] parse_members_step_length [of f]
      parse_elements_step_length [of f] by blast
qed

subsection \<open>Enough fuel\<close>

lemma parse_fuel:
  "(\<forall>s. 2 * length s + 1 \<le> f \<longrightarrow> parse_value f s \<noteq> OutOfFuel)
   \<and> (\<forall>s. 2 * length s + 2 \<le> f \<longrightarrow> parse_members f s \<noteq> OutOfFuel)
   \<and> (\<forall>s. 2 * length s + 2 \<le> f \<longrightarrow> parse_elements f s \<noteq> OutOfFuel)"
proof (induction f)
  case 0
  then show ?case by simp
next
  case (Suc f)
  have V: "parse_value f s \<noteq> OutOfFuel" if "2 * length s + 1 \<le> f" for s using Suc that by blast
  have M: "parse_members f s \<noteq> OutOfFuel" if "2 * length s + 2 \<le> f" for s using Suc that by blast
  have E: "parse_elements f s \<noteq> OutOfFuel" if "2 * length s + 2 \<le> f" for s using Suc that by blast
  have V': "length r < length s" if "parse_value f s = Good v r" for s v r
    using parse_shorter [of f] that by blast
  have "parse_value (Suc f) s \<noteq> OutOfFuel" if "2 * length s + 1 \<le> Suc f" for s
  proof (cases s)
    case (Cons c q)
    have m: "parse_members f r' \<noteq> OutOfFuel" if "skip_ws q = d # r'" for d r'
      by (rule M) (use skip_ws_Cons_length [OF that] Cons \<open>2 * length s + 1 \<le> Suc f\<close> in simp)
    have e: "parse_elements f (d # r') \<noteq> OutOfFuel" if "skip_ws q = d # r'" for d r'
      by (rule E) (use skip_ws_length [of q] that Cons \<open>2 * length s + 1 \<le> Suc f\<close> in simp)
    note no_fuel = keyword_not_fuel scan_number_not_fuel pairs_hook_not_fuel
    show ?thesis
    proof (cases "skip_ws q")
      case Nil
      then show ?thesis by (simp add: Cons no_fuel split: option.split)
    next
      case (Cons d r')
      then show ?thesis using m [OF Cons] e [OF Cons]
        by (cases "parse_members f r'"; cases "parse_elements f (d # r')")
          (simp_all add: \<open>s = c # q\<close> no_fuel split: option.split)
    qed
  qed simp
  moreover have "parse_members (Suc f) s \<noteq> OutOfFuel" if fuel: "2 * length s + 2 \<le> Suc f" for s
  proof -
    have v: "parse_value f (skip_ws r2) \<noteq> OutOfFuel"
      if "scanstring s = Some (key, r1)" "skip_ws r1 = c # r2" for key r1 c r2
      by (rule V) (use fuel skip_ws_length [of r2] skip_ws_Cons_length [OF that(2)]
          scanstring_length [OF that(1)] in linarith)
    have m: "parse_members f r5 \<noteq> OutOfFuel"
      if "scanstring s = Some (key, r1)" "skip_ws r1 = c # r2" "parse_value f (skip_ws r2) = Good w r3"
        "skip_ws r3 = d # r4" "skip_ws r4 = q # r5" for key r1 c r2 w r3 d r4 q r5
      by (rule M) (use fuel skip_ws_length [of r2] skip_ws_Cons_length [OF that(2)]
          scanstring_length [OF that(1)] V' [OF that(3)] skip_ws_Cons_length [OF that(4)]
          skip_ws_Cons_length [OF that(5)] in linarith)
    show ?thesis
    proof
      assume "parse_members (Suc f) s = OutOfFuel"
      then obtain key r1 c r2 where "scanstring s = Some (key, r1)" "skip_ws r1 = c # r2" "c = CHR '':''"
        by (auto split: option.splits list.splits if_splits)
      with \<open>parse_members (Suc f) s = OutOfFuel\<close> show False
        using v [of key r1 c r2] m [of key r1 c r2]
        by (auto split: list.splits parse.splits if_splits)
    qed
  qed
  moreover have "parse_elements (Suc f) s \<noteq> OutOfFuel" if fuel: "2 * length s + 2 \<le> Suc f" for s
  proof -
    have v: "parse_value f s \<noteq> OutOfFuel" by (rule V) (use fuel in simp)
    have e: "parse_elements f (skip_ws r2) \<noteq> OutOfFuel"
      if "parse_value f s = Good w r1" "skip_ws r1 = d # r2" for w r1 d r2
      by (rule E) (use fuel V' [OF that(1)] skip_ws_Cons_length [OF that(2)]
          skip_ws_length [of r2] in linarith)
    show ?thesis using v e by (simp split: list.split parse.split) blast
  qed
  ultimately show ?case by blast
qed

lemma json_loads_fuel: "json_decode (2 * length s + 2) s \<noteq> OutOfFuel"
proof -
  have "parse_value (2 * length s + 2) (skip_ws s) \<noteq> OutOfFuel"
    using parse_fuel skip_ws_length [of s] by force
  then show ?thesis by (simp add: json_decode_def split: parse.split)
qed

end
