(* ===== verification/Validation.thy ===== *)
theory Validation
  imports Schemas Json
begin

section \<open>Deterministic response validation\<close>

text \<open>
  \<^verbatim>\<open>validation/contracts.py\<close> and \<^verbatim>\<open>validation/validator.py\<close>: the
  contract a caller attaches to a request, the consistency validators of contract and
  result, the bracket scan that runs before JSON is parsed, and the validator itself.
  \<open>meets_contract\<close> is the abstract specification of a passing response; the component
  lemmas show that the validator's list of failure codes is empty exactly when it holds and
  that a result the validator builds always passes its own consistency check.
\<close>

definition MAX_INPUT_CHARACTERS :: nat where "MAX_INPUT_CHARACTERS = 262144"
definition MAX_JSON_DEPTH :: int where "MAX_JSON_DEPTH = 32"
definition MAX_CONSTRAINTS :: nat where "MAX_CONSTRAINTS = 64"
definition MAX_FAILURES :: nat where "MAX_FAILURES = 16"

datatype contract_format = FMT_TEXT | FMT_JSON | FMT_LABEL

datatype json_type =
  T_OBJECT | T_ARRAY | T_STRING | T_NUMBER | T_INTEGER | T_BOOLEAN | T_NULL

record validation_contract =
  vc_format :: contract_format
  vc_min_characters :: "int option"
  vc_root_type :: "json_type option"
  vc_required_fields :: "string list"
  vc_field_types :: "(string \<times> json_type) list"
  vc_allowed_labels :: "string list"

definition contract_name :: "string \<Rightarrow> bool" where
  "contract_name s \<longleftrightarrow> 1 \<le> length s \<and> length s \<le> 128"

text \<open>Field constraints of the class, then \<^verbatim>\<open>compatible_constraints\<close> branch by branch.\<close>

definition contract_fields_ok :: "validation_contract \<Rightarrow> bool" where
  "contract_fields_ok c \<longleftrightarrow>
     (case vc_min_characters c of None \<Rightarrow> True
      | Some n \<Rightarrow> 1 \<le> n \<and> n \<le> int MAX_INPUT_CHARACTERS)
   \<and> list_all contract_name (vc_required_fields c) \<and> length (vc_required_fields c) \<le> MAX_CONSTRAINTS
   \<and> list_all (\<lambda>(k, t). contract_name k) (vc_field_types c)
   \<and> length (vc_field_types c) \<le> MAX_CONSTRAINTS \<and> distinct (map fst (vc_field_types c))
   \<and> list_all contract_name (vc_allowed_labels c) \<and> length (vc_allowed_labels c) \<le> MAX_CONSTRAINTS"

definition compatible_constraints :: "validation_contract \<Rightarrow> exn_class + validation_contract" where
  "compatible_constraints c =
     (let json_constraints = vc_required_fields c \<noteq> [] \<or> vc_field_types c \<noteq> [] in
      if vc_format c \<noteq> FMT_JSON \<and> (vc_root_type c \<noteq> None \<or> json_constraints)
      then Inl ValueErrorC
      else if json_constraints \<and> vc_root_type c \<notin> {None, Some T_OBJECT} then Inl ValueErrorC
      else if vc_format c = FMT_LABEL \<and> vc_allowed_labels c = [] then Inl ValueErrorC
      else if vc_format c = FMT_LABEL
           \<and> list_ex (\<lambda>l. l \<noteq> strip l \<or> strip l = []) (vc_allowed_labels c) then Inl ValueErrorC
      else if vc_format c = FMT_LABEL
           \<and> (case vc_min_characters c of None \<Rightarrow> False
              | Some n \<Rightarrow> list_ex (\<lambda>l. int (length l) < n) (vc_allowed_labels c)) then Inl ValueErrorC
      else if vc_format c \<noteq> FMT_LABEL \<and> vc_allowed_labels c \<noteq> [] then Inl ValueErrorC
      else if has_duplicates (vc_required_fields c) \<or> has_duplicates (vc_allowed_labels c)
      then Inl ValueErrorC
      else Inr c)"

definition contract_valid :: "validation_contract \<Rightarrow> bool" where
  "contract_valid c \<longleftrightarrow> contract_fields_ok c \<and> compatible_constraints c = Inr c"

subsection \<open>Results\<close>

datatype validation_status = VS_PASSED | VS_FAILED | VS_NOT_RUN | VS_ERROR

fun validation_status_value :: "validation_status \<Rightarrow> string" where
  "validation_status_value VS_PASSED = ''passed''"
| "validation_status_value VS_FAILED = ''failed''"
| "validation_status_value VS_NOT_RUN = ''not_run''"
| "validation_status_value VS_ERROR = ''error''"

datatype failure_code =
    FC_EMPTY_RESPONSE | FC_MINIMUM_CHARACTERS | FC_INVALID_JSON | FC_ROOT_TYPE
  | FC_MISSING_FIELD | FC_FIELD_TYPE | FC_LABEL_NOT_ALLOWED | FC_OUTPUT_TRUNCATED
  | FC_INPUT_SIZE_LIMIT | FC_JSON_DEPTH_LIMIT | FC_VALIDATOR_ERROR

fun failure_code_value :: "failure_code \<Rightarrow> string" where
  "failure_code_value FC_EMPTY_RESPONSE = ''empty_response''"
| "failure_code_value FC_MINIMUM_CHARACTERS = ''minimum_characters''"
| "failure_code_value FC_INVALID_JSON = ''invalid_json''"
| "failure_code_value FC_ROOT_TYPE = ''root_type''"
| "failure_code_value FC_MISSING_FIELD = ''missing_field''"
| "failure_code_value FC_FIELD_TYPE = ''field_type''"
| "failure_code_value FC_LABEL_NOT_ALLOWED = ''label_not_allowed''"
| "failure_code_value FC_OUTPUT_TRUNCATED = ''output_truncated''"
| "failure_code_value FC_INPUT_SIZE_LIMIT = ''input_size_limit''"
| "failure_code_value FC_JSON_DEPTH_LIMIT = ''json_depth_limit''"
| "failure_code_value FC_VALIDATOR_ERROR = ''validator_error''"

record validation_failure =
  vf_code :: failure_code
  vf_recoverable_by_escalation :: bool

record validation_result =
  vr_status :: validation_status
  vr_failures :: "validation_failure list"
  vr_duration_ms :: rat

definition consistent_status :: "validation_result \<Rightarrow> exn_class + validation_result" where
  "consistent_status r =
     (if (vr_status r \<in> {VS_FAILED, VS_ERROR}) \<noteq> (vr_failures r \<noteq> []) then Inl ValueErrorC
      else if vr_status r = VS_ERROR
           \<and> list_ex (\<lambda>f. vf_code f \<noteq> FC_VALIDATOR_ERROR) (vr_failures r) then Inl ValueErrorC
      else if vr_status r \<noteq> VS_ERROR
           \<and> list_ex (\<lambda>f. vf_code f = FC_VALIDATOR_ERROR) (vr_failures r) then Inl ValueErrorC
      else Inr r)"

definition validation_result_valid :: "validation_result \<Rightarrow> bool" where
  "validation_result_valid r \<longleftrightarrow>
     length (vr_failures r) \<le> MAX_FAILURES \<and> 0 \<le> vr_duration_ms r \<and> consistent_status r = Inr r"

subsection \<open>The bracket scan\<close>

fun too_deep_from :: "int \<Rightarrow> bool \<Rightarrow> bool \<Rightarrow> string \<Rightarrow> bool" where
  "too_deep_from depth quoted escaped [] = False"
| "too_deep_from depth quoted escaped (c # cs) =
     (if quoted then
        (if escaped then too_deep_from depth True False cs
         else if c = CHR 0x5C then too_deep_from depth True True cs
         else if c = CHR 0x22 then too_deep_from depth False False cs
         else too_deep_from depth True False cs)
      else if c = CHR 0x22 then too_deep_from depth True escaped cs
      else if c = CHR ''['' \<or> c = CHR ''{'' then
        (if depth + 1 > MAX_JSON_DEPTH then True else too_deep_from (depth + 1) False escaped cs)
      else if c = CHR '']'' \<or> c = CHR ''}'' then too_deep_from (depth - 1) False escaped cs
      else too_deep_from depth False escaped cs)"

definition too_deep :: "string \<Rightarrow> bool" where
  "too_deep s = too_deep_from 0 False False s"

subsection \<open>Types of decoded values\<close>

text \<open>\<^verbatim>\<open>value == value.to_integral_value()\<close> of a decimal.\<close>

definition decimal_integral :: "nat \<Rightarrow> int \<Rightarrow> bool" where
  "decimal_integral c e \<longleftrightarrow>
     c = 0 \<or> 0 \<le> e \<or> (nat (- e) \<le> digit_count c \<and> 10 ^ nat (- e) dvd c)"

fun json_matches :: "json \<Rightarrow> json_type \<Rightarrow> bool" where
  "json_matches v T_OBJECT = (case v of JObj _ \<Rightarrow> True | _ \<Rightarrow> False)"
| "json_matches v T_ARRAY = (case v of JArr _ \<Rightarrow> True | _ \<Rightarrow> False)"
| "json_matches v T_STRING = (case v of JStr _ \<Rightarrow> True | _ \<Rightarrow> False)"
| "json_matches v T_NUMBER = (case v of JNum _ _ _ \<Rightarrow> True | _ \<Rightarrow> False)"
| "json_matches v T_INTEGER = (case v of JNum _ c e \<Rightarrow> decimal_integral c e | _ \<Rightarrow> False)"
| "json_matches v T_BOOLEAN = (case v of JBool _ \<Rightarrow> True | _ \<Rightarrow> False)"
| "json_matches v T_NULL = (v = JNull)"

definition code_points :: "string \<Rightarrow> nat list" where
  "code_points s = map of_char s"

subsection \<open>DeterministicResponseValidator\<close>

definition effective_root_type :: "validation_contract \<Rightarrow> json_type option" where
  "effective_root_type c =
     (case vc_root_type c of Some t \<Rightarrow> Some t
      | None \<Rightarrow> if vc_required_fields c \<noteq> [] \<or> vc_field_types c \<noteq> [] then Some T_OBJECT else None)"

definition field_codes :: "validation_contract \<Rightarrow> (nat list \<times> json) list \<Rightarrow> failure_code list" where
  "field_codes c ms =
     concat (map (\<lambda>k. if map_of ms (code_points k) = None then [FC_MISSING_FIELD] else [])
       (vc_required_fields c))
   @ concat (map (\<lambda>(k, t). case map_of ms (code_points k) of
         None \<Rightarrow> []
       | Some v \<Rightarrow> if json_matches v t then [] else [FC_FIELD_TYPE])
       (vc_field_types c))"

definition check_response :: "validation_contract \<Rightarrow> inference_response \<Rightarrow> failure_code list" where
  "check_response c r =
     (let codes = (if rs_termination_reason r = TR_LENGTH then [FC_OUTPUT_TRUNCATED] else []) in
      if length (rs_text r) > MAX_INPUT_CHARACTERS then codes @ [FC_INPUT_SIZE_LIMIT]
      else
        let text = strip (rs_text r) in
        if text = [] then codes @ [FC_EMPTY_RESPONSE]
        else
          let codes = codes @ (case vc_min_characters c of None \<Rightarrow> []
                 | Some n \<Rightarrow> if int (length text) < n then [FC_MINIMUM_CHARACTERS] else []);
              codes = codes @ (if vc_format c = FMT_LABEL \<and> text \<notin> set (vc_allowed_labels c)
                 then [FC_LABEL_NOT_ALLOWED] else []) in
          if vc_format c \<noteq> FMT_JSON then codes
          else if too_deep text then codes @ [FC_JSON_DEPTH_LIMIT]
          else
            (case json_loads (rs_text r) of
               None \<Rightarrow> codes @ [FC_INVALID_JSON]
             | Some v \<Rightarrow>
                 if (case effective_root_type c of None \<Rightarrow> False | Some t \<Rightarrow> \<not> json_matches v t)
                 then codes @ [FC_ROOT_TYPE]
                 else (case v of JObj ms \<Rightarrow> codes @ field_codes c ms | _ \<Rightarrow> codes)))"

text \<open>
  \<open>duration\<close> is the \<^verbatim>\<open>perf_counter\<close> difference in milliseconds. The
  \<^verbatim>\<open>except\<close> branch of the source turns an internal exception into
  \<open>FC_VALIDATOR_ERROR\<close>; \<open>check_response\<close> has no failing operation, so the branch is not
  reachable from this validator and \<open>validator_error_result\<close> is only what an injected
  validator may return.
\<close>

definition validate_response :: "rat \<Rightarrow> inference_response \<Rightarrow> validation_contract option \<Rightarrow> validation_result" where
  "validate_response duration r contract =
     (case contract of
        None \<Rightarrow> \<lparr>vr_status = VS_NOT_RUN, vr_failures = [], vr_duration_ms = 0\<rparr>
      | Some c \<Rightarrow>
          let codes = check_response c r in
          \<lparr>vr_status = (if codes \<noteq> [] then VS_FAILED else VS_PASSED),
           vr_failures = map (\<lambda>code. \<lparr>vf_code = code,
              vf_recoverable_by_escalation = (code \<noteq> FC_VALIDATOR_ERROR)\<rparr>) (take MAX_FAILURES codes),
           vr_duration_ms = duration\<rparr>)"

definition validator_error_result :: "rat \<Rightarrow> validation_result" where
  "validator_error_result duration =
     \<lparr>vr_status = VS_ERROR,
      vr_failures = [\<lparr>vf_code = FC_VALIDATOR_ERROR, vf_recoverable_by_escalation = False\<rparr>],
      vr_duration_ms = duration\<rparr>"

subsection \<open>Specification\<close>

definition json_meets :: "validation_contract \<Rightarrow> json \<Rightarrow> bool" where
  "json_meets c v \<longleftrightarrow>
     (case effective_root_type c of None \<Rightarrow> True | Some t \<Rightarrow> json_matches v t)
   \<and> (case v of
        JObj ms \<Rightarrow>
          (\<forall>k\<in>set (vc_required_fields c). map_of ms (code_points k) \<noteq> None)
        \<and> (\<forall>(k, t)\<in>set (vc_field_types c). \<forall>x. map_of ms (code_points k) = Some x \<longrightarrow> json_matches x t)
      | _ \<Rightarrow> True)"

definition meets_contract :: "validation_contract \<Rightarrow> inference_response \<Rightarrow> bool" where
  "meets_contract c r \<longleftrightarrow>
     rs_termination_reason r \<noteq> TR_LENGTH
   \<and> length (rs_text r) \<le> MAX_INPUT_CHARACTERS \<and> strip (rs_text r) \<noteq> []
   \<and> (\<forall>n. vc_min_characters c = Some n \<longrightarrow> n \<le> int (length (strip (rs_text r))))
   \<and> (vc_format c = FMT_LABEL \<longrightarrow> strip (rs_text r) \<in> set (vc_allowed_labels c))
   \<and> (vc_format c = FMT_JSON \<longrightarrow>
        \<not> too_deep (strip (rs_text r))
        \<and> (\<exists>v. json_loads (rs_text r) = Some v \<and> json_meets c v))"

lemma field_codes_empty_iff:
  "field_codes c ms = [] \<longleftrightarrow>
     (\<forall>k\<in>set (vc_required_fields c). map_of ms (code_points k) \<noteq> None)
   \<and> (\<forall>(k, t)\<in>set (vc_field_types c). \<forall>x. map_of ms (code_points k) = Some x \<longrightarrow> json_matches x t)"
  (is "?lhs \<longleftrightarrow> ?rhs")
proof -
  have "field_codes c ms = [] \<longleftrightarrow>
      (\<forall>k\<in>set (vc_required_fields c).
         (if map_of ms (code_points k) = None then [FC_MISSING_FIELD] else []) = [])
    \<and> (\<forall>p\<in>set (vc_field_types c). (case p of (k, t) \<Rightarrow> case map_of ms (code_points k) of
         None \<Rightarrow> [] | Some v \<Rightarrow> if json_matches v t then [] else [FC_FIELD_TYPE]) = [])"
    unfolding field_codes_def append_is_Nil_conv concat_eq_Nil_conv set_map by blast
  also have "\<dots> \<longleftrightarrow> ?rhs"
    by (intro arg_cong2 [where f = conj] ball_cong refl)
      (auto split: option.splits if_splits)
  finally show ?thesis .
qed

lemma json_meets_iff:
  "json_meets c v \<longleftrightarrow>
     \<not> (case effective_root_type c of None \<Rightarrow> False | Some t \<Rightarrow> \<not> json_matches v t)
   \<and> (case v of JObj ms \<Rightarrow> field_codes c ms = [] | _ \<Rightarrow> True)"
  by (simp add: json_meets_def field_codes_empty_iff split: option.split json.split)

lemma check_response_empty_iff: "check_response c r = [] \<longleftrightarrow> meets_contract c r"
proof (cases "length (rs_text r) > MAX_INPUT_CHARACTERS \<or> strip (rs_text r) = []")
  case True
  then show ?thesis by (auto simp: check_response_def meets_contract_def Let_def)
next
  case False
  then show ?thesis
    by (auto simp: check_response_def meets_contract_def Let_def json_meets_iff
        split: option.splits if_splits json.splits)
qed

lemma field_codes_codes: "set (field_codes c ms) \<subseteq> {FC_MISSING_FIELD, FC_FIELD_TYPE}"
  by (auto simp: field_codes_def split: option.splits if_splits)

lemma check_response_no_validator_error: "FC_VALIDATOR_ERROR \<notin> set (check_response c r)"
  using field_codes_codes [of c]
  by (auto simp: check_response_def Let_def split: option.splits if_splits json.splits)

lemma validate_consistent: "consistent_status (validate_response d r c) = Inr (validate_response d r c)"
proof (cases c)
  case None
  then show ?thesis by (simp add: validate_response_def consistent_status_def)
next
  case (Some k)
  let ?codes = "check_response k r" and ?v = "validate_response d r (Some k)"
  have "\<forall>f\<in>set (vr_failures ?v). vf_code f \<noteq> FC_VALIDATOR_ERROR"
    using check_response_no_validator_error [of k r]
    by (auto simp: validate_response_def Let_def dest: in_set_takeD)
  moreover have "vr_failures ?v = [] \<longleftrightarrow> ?codes = []"
    by (simp add: validate_response_def Let_def MAX_FAILURES_def)
  moreover have "vr_status ?v = (if ?codes \<noteq> [] then VS_FAILED else VS_PASSED)"
    by (simp add: validate_response_def Let_def)
  ultimately have "consistent_status ?v = Inr ?v"
    unfolding consistent_status_def list_ex_iff by (cases "?codes = []") force+
  then show ?thesis using Some by simp
qed

subsection \<open>Properties\<close>

text \<open>
  Claim C6. The validator passes a response exactly when the response meets
  its contract: it was not cut off by the output limit, is not oversized or blank, has the
  minimum length, is an allowed label, or (for JSON) survives the depth scan and decodes to
  a value of the demanded root type with every required field present and every typed
  field of its type.
\<close>

theorem validate_passes_iff_meets_contract:
  "vr_status (validate_response d r (Some c)) = VS_PASSED \<longleftrightarrow> meets_contract c r"
  using check_response_empty_iff [of c r] by (auto simp: validate_response_def Let_def)

text \<open>
  Every result the validator builds satisfies the consistency
  validator of \<^verbatim>\<open>ValidationResult\<close> (status and failures agree, at most
  \<open>MAX_FAILURES\<close> failures, no internal-error code outside the error status), so building
  the result never raises although it happens outside the \<^verbatim>\<open>try\<close>; and every
  failure it reports may be recovered by escalation.
\<close>

theorem validate_result_always_consistent:
  assumes "0 \<le> d"
  shows "validation_result_valid (validate_response d r c)
    \<and> list_all vf_recoverable_by_escalation (vr_failures (validate_response d r c))"
proof
  have "length (vr_failures (validate_response d r c)) \<le> MAX_FAILURES"
    by (simp add: validate_response_def Let_def split: option.split)
  moreover have "0 \<le> vr_duration_ms (validate_response d r c)"
    using assms by (simp add: validate_response_def Let_def split: option.split)
  ultimately show "validation_result_valid (validate_response d r c)"
    using validate_consistent by (simp add: validation_result_valid_def)
  show "list_all vf_recoverable_by_escalation (vr_failures (validate_response d r c))"
    using check_response_no_validator_error [of _ r]
    by (auto simp: validate_response_def Let_def list_all_iff dest: in_set_takeD split: option.split)
qed

definition sample_response :: inference_response where
  "sample_response = \<lparr>rs_text = '' spam '', rs_model_id = ''m'', rs_provider = ''fake'',
     rs_input_tokens = 1, rs_output_tokens = 1, rs_latency_ms = 0,
     rs_estimated_cost_usd = dec_of_int 0, rs_termination_reason = TR_COMPLETE,
     rs_provider_termination_reason = None\<rparr>"

definition sample_label_contract :: validation_contract where
  "sample_label_contract = \<lparr>vc_format = FMT_LABEL, vc_min_characters = Some 3, vc_root_type = None,
     vc_required_fields = [], vc_field_types = [], vc_allowed_labels = [''spam'', ''ham'']\<rparr>"

theorem validate_result_always_consistent_witness:
  "(0::rat) \<le> 1 \<and> validation_result_valid (validate_response 1 sample_response (Some sample_label_contract))"
  using validate_result_always_consistent [of 1 sample_response "Some sample_label_contract"] by simp

text \<open>
  Liveness: a label contract the schema accepts is satisfiable: a complete
  response consisting of any one of its allowed labels, with any surrounding white space
  that keeps it within the size limit, passes. (The schema refuses labels with surrounding
  white space and a minimum length that excludes a label, which would make a label dead.)
\<close>

theorem valid_label_contract_accepts_its_labels:
  assumes valid: "contract_valid c" and fmt: "vc_format c = FMT_LABEL"
    and lbl: "l \<in> set (vc_allowed_labels c)" and body: "strip (rs_text r) = l"
    and size: "length (rs_text r) \<le> MAX_INPUT_CHARACTERS"
    and complete: "rs_termination_reason r \<noteq> TR_LENGTH"
  shows "vr_status (validate_response d r (Some c)) = VS_PASSED"
proof -
  have ok: "compatible_constraints c = Inr c" using valid by (simp add: contract_valid_def)
  have "l = strip l \<and> strip l \<noteq> []"
    using ok fmt lbl by (auto simp: compatible_constraints_def Let_def list_ex_iff split: if_splits)
  moreover have "n \<le> int (length l)" if "vc_min_characters c = Some n" for n
    using ok fmt lbl that
    by (fastforce simp: compatible_constraints_def Let_def list_ex_iff split: if_splits)
  ultimately have "meets_contract c r"
    using fmt lbl body size complete by (auto simp: meets_contract_def)
  then show ?thesis using check_response_empty_iff [of c r] by (simp add: validate_response_def Let_def)
qed

theorem valid_label_contract_accepts_its_labels_witness:
  "vr_status (validate_response 0 sample_response (Some sample_label_contract)) = VS_PASSED"
proof (rule valid_label_contract_accepts_its_labels)
  show "contract_valid sample_label_contract"
    by (simp add: contract_valid_def contract_fields_ok_def compatible_constraints_def
        sample_label_contract_def contract_name_def MAX_INPUT_CHARACTERS_def MAX_CONSTRAINTS_def
        strip_def isspace_def)
  show "vc_format sample_label_contract = FMT_LABEL" by (simp add: sample_label_contract_def)
  show "''spam'' \<in> set (vc_allowed_labels sample_label_contract)"
    by (simp add: sample_label_contract_def)
  show "strip (rs_text sample_response) = ''spam''" by code_simp
  show "length (rs_text sample_response) \<le> MAX_INPUT_CHARACTERS"
    by (simp add: sample_response_def MAX_INPUT_CHARACTERS_def)
  show "rs_termination_reason sample_response \<noteq> TR_LENGTH" by (simp add: sample_response_def)
qed

end
