(* ===== verification/Telemetry.thy ===== *)
theory Telemetry
  imports Validation
begin

section \<open>Telemetry records\<close>

text \<open>
  \<^verbatim>\<open>telemetry/contracts.py\<close>: the rows the services hand to the repository. Row ids and
  creation times come from \<^verbatim>\<open>default_factory\<close> and carry no logic, so they are
  left out. The \<open>\<dots>_valid\<close> predicates are the field constraints Pydantic checks when a row
  is built; a row that violates them would raise inside the request that it describes.
\<close>

record telemetry_event =
  te_request_id :: string
  te_model_id :: string
  te_provider :: string
  te_success :: bool
  te_latency_ms :: rat
  te_max_output_tokens :: int
  te_temperature :: rat
  te_prompt_characters :: nat
  te_system_prompt_characters :: nat
  te_input_tokens :: "int option"
  te_output_tokens :: "int option"
  te_estimated_cost_usd :: "dec option"
  te_error_category :: "string option"

record validation_telemetry =
  vt_status :: validation_status
  vt_failure_codes :: "failure_code list"
  vt_duration_ms :: rat

definition validation_telemetry_from_result :: "validation_result \<Rightarrow> validation_telemetry" where
  "validation_telemetry_from_result r =
     \<lparr>vt_status = vr_status r, vt_failure_codes = map vf_code (vr_failures r),
      vt_duration_ms = vr_duration_ms r\<rparr>"

datatype adaptive_terminal_outcome =
  ATO_RETURNED | ATO_VALIDATION_FAILED | ATO_PROVIDER_FAILURE | ATO_DEADLINE_EXCEEDED

fun adaptive_terminal_outcome_value :: "adaptive_terminal_outcome \<Rightarrow> string" where
  "adaptive_terminal_outcome_value ATO_RETURNED = ''returned''"
| "adaptive_terminal_outcome_value ATO_VALIDATION_FAILED = ''validation_failed''"
| "adaptive_terminal_outcome_value ATO_PROVIDER_FAILURE = ''provider_failure''"
| "adaptive_terminal_outcome_value ATO_DEADLINE_EXCEEDED = ''deadline_exceeded''"

record adaptive_execution_telemetry =
  ae_request_id :: string
  ae_initial_routed_model_id :: string
  ae_returned_model_id :: "string option"
  ae_attempt_count :: nat
  ae_escalated :: bool
  ae_validation_outcome :: validation_status
  ae_terminal_outcome :: adaptive_terminal_outcome
  ae_cumulative_known_cost_usd :: dec
  ae_cost_complete :: bool
  ae_cumulative_latency_ms :: rat
  ae_has_validator_version :: bool
  ae_validation_duration_ms :: rat
  ae_failure_codes :: "failure_code list"

definition adaptive_execution_telemetry_valid :: "adaptive_execution_telemetry \<Rightarrow> bool" where
  "adaptive_execution_telemetry_valid e \<longleftrightarrow>
     1 \<le> length (ae_request_id e) \<and> length (ae_request_id e) \<le> 128
   \<and> 1 \<le> length (ae_initial_routed_model_id e)
   \<and> (case ae_returned_model_id e of None \<Rightarrow> True | Some m \<Rightarrow> 1 \<le> length m)
   \<and> 0 < ae_attempt_count e \<and> ae_attempt_count e \<le> 3
   \<and> 0 \<le> ae_cumulative_latency_ms e \<and> 0 \<le> ae_validation_duration_ms e
   \<and> length (ae_failure_codes e) \<le> MAX_FAILURES"

datatype chat_execution_mode = CM_DIRECT | CM_ADAPTIVE

datatype chat_activity_outcome =
  CO_RETURNED | CO_PROVIDER_FAILURE | CO_VALIDATION_FAILED | CO_DEADLINE_EXCEEDED

fun chat_activity_outcome_value :: "chat_activity_outcome \<Rightarrow> string" where
  "chat_activity_outcome_value CO_RETURNED = ''returned''"
| "chat_activity_outcome_value CO_PROVIDER_FAILURE = ''provider_failure''"
| "chat_activity_outcome_value CO_VALIDATION_FAILED = ''validation_failed''"
| "chat_activity_outcome_value CO_DEADLINE_EXCEEDED = ''deadline_exceeded''"

record chat_activity_record =
  ca_request_id :: string
  ca_execution_mode :: chat_execution_mode
  ca_category :: "string option"
  ca_category_source :: "string option"
  ca_initial_model_id :: "string option"
  ca_final_model_id :: "string option"
  ca_provider :: "string option"
  ca_routing_threshold_satisfied :: "bool option"
  ca_routing_fallback_used :: "bool option"
  ca_attempt_count :: "nat option"
  ca_escalated :: "bool option"
  ca_validation_outcome :: "string option"
  ca_outcome :: chat_activity_outcome
  ca_error_category :: "string option"
  ca_input_tokens :: "int option"
  ca_output_tokens :: "int option"
  ca_latency_ms :: "rat option"
  ca_estimated_cost_usd :: "dec option"
  ca_cost_complete :: bool

text \<open>The fields a caller leaves out have the defaults of the class.\<close>

definition chat_activity_defaults ::
  "string \<Rightarrow> chat_execution_mode \<Rightarrow> chat_activity_outcome \<Rightarrow> bool \<Rightarrow> chat_activity_record" where
  "chat_activity_defaults request_id mode outcome cost_complete =
     \<lparr>ca_request_id = request_id, ca_execution_mode = mode, ca_category = None,
      ca_category_source = None, ca_initial_model_id = None, ca_final_model_id = None,
      ca_provider = None, ca_routing_threshold_satisfied = None, ca_routing_fallback_used = None,
      ca_attempt_count = None, ca_escalated = None, ca_validation_outcome = None,
      ca_outcome = outcome, ca_error_category = None, ca_input_tokens = None,
      ca_output_tokens = None, ca_latency_ms = None, ca_estimated_cost_usd = None,
      ca_cost_complete = cost_complete\<rparr>"

subsection \<open>The repository interface\<close>

text \<open>
  A repository is code outside the services: each write either succeeds (\<open>None\<close>) or raises.
  The first argument is the moment of the call, so that the same row may be accepted once and
  refused later. The two optional methods are looked up with \<^verbatim>\<open>getattr\<close>.
\<close>

record telemetry_repository =
  repo_record :: "nat \<Rightarrow> telemetry_event \<Rightarrow> exn option"
  repo_record_adaptive :: "(nat \<Rightarrow> adaptive_execution_telemetry \<Rightarrow> exn option) option"
  repo_record_chat :: "(nat \<Rightarrow> chat_activity_record \<Rightarrow> exn option) option"

end
