(* ===== verification/Observability.thy ===== *)
theory Observability
  imports Schemas
begin

section \<open>Metrics and structured events\<close>

text \<open>
  \<^verbatim>\<open>observability.py\<close>. The Prometheus registry is a function from a metric and its
  label values to a number (counters and gauges) and the list of observations of the
  histograms; the event log is the list of payloads handed to the logger. Every record
  method of \<^verbatim>\<open>Observability\<close> is one function on this state. In the source each
  registry update runs under \<^verbatim>\<open>_safe\<close> and each log call under a
  \<^verbatim>\<open>try\<close>, so no record method raises; here none returns an error.
\<close>

datatype metric =
    HTTP_REQUESTS | HTTP_DURATION | HTTP_IN_PROGRESS
  | PROVIDER_ATTEMPTS | PROVIDER_DURATION | ROUTING_DECISIONS | VALIDATION_FAILURES
  | ADAPTIVE_REQUESTS | ADAPTIVE_ATTEMPTS | ESTIMATED_COST
  | TELEMETRY_WRITES | TELEMETRY_DURATION | RATE_LIMIT_REJECTIONS

text \<open>
  \<open>LNow\<close> is the wall-clock timestamp of the event, \<open>LDec\<close> the \<^verbatim>\<open>str\<close> of a
  decimal amount.
\<close>

datatype log_value = LNow | LStr string | LInt int | LNum rat | LBool bool | LDec dec

type_synonym log_payload = "log_value dict"

record observability =
  series :: "metric \<Rightarrow> string list \<Rightarrow> rat"
  observations :: "(metric \<times> string list \<times> rat) list"
  emitted :: "log_payload list"

definition fresh_observability :: observability where
  "fresh_observability = \<lparr>series = (\<lambda>_ _. 0), observations = [], emitted = []\<rparr>"

definition safe_log_fields :: "string list" where
  "safe_log_fields =
     [''request_id'', ''route'', ''method'', ''status_code'', ''model'', ''provider'',
      ''attempt_number'', ''routing_fallback'', ''escalated'', ''recovered'',
      ''validation_outcome'', ''provider_error_category'', ''latency_ms'',
      ''estimated_cost_usd'', ''terminal_outcome'', ''scope'', ''record_type'',
      ''outcome'', ''dependency'']"

subsection \<open>Settings of the scrape endpoint\<close>

record observability_settings =
  metrics_enabled :: bool
  metrics_bearer_token :: "string option"

definition require_token_when_enabled :: "observability_settings \<Rightarrow> exn_class + observability_settings" where
  "require_token_when_enabled s =
     (if (case metrics_bearer_token s of Some t \<Rightarrow> length t < 32 | None \<Rightarrow> False) then Inl ValidationErrorC
      else if metrics_enabled s \<and> metrics_bearer_token s = None then Inl ValidationErrorC
      else Inr s)"

subsection \<open>JsonEventLogger.emit\<close>

datatype log_level = LEVEL_INFO | LEVEL_WARNING

fun level_name :: "log_level \<Rightarrow> string" where
  "level_name LEVEL_INFO = ''info''"
| "level_name LEVEL_WARNING = ''warning''"

fun add_fields :: "log_payload \<Rightarrow> (string \<times> log_value option) list \<Rightarrow> log_payload" where
  "add_fields p [] = p"
| "add_fields p ((k, v) # fs) =
     (case v of
        None \<Rightarrow> add_fields p fs
      | Some x \<Rightarrow> if k \<notin> set safe_log_fields then add_fields p fs
                  else add_fields (dict_set p k x) fs)"

definition event_payload :: "string \<Rightarrow> log_level \<Rightarrow> (string \<times> log_value option) list \<Rightarrow> log_payload" where
  "event_payload event level kvs =
     add_fields [(''timestamp'', LNow), (''level'', LStr (level_name level)), (''event'', LStr event)]
       kvs"

definition emit ::
  "string \<Rightarrow> log_level \<Rightarrow> (string \<times> log_value option) list \<Rightarrow> observability \<Rightarrow> observability" where
  "emit event level kvs ob = ob\<lparr>emitted := emitted ob @ [event_payload event level kvs]\<rparr>"

subsection \<open>Registry updates\<close>

definition inc :: "metric \<Rightarrow> string list \<Rightarrow> rat \<Rightarrow> observability \<Rightarrow> observability" where
  "inc m labels amount ob =
     ob\<lparr>series := (series ob)(m := (series ob m)(labels := series ob m labels + amount))\<rparr>"

definition observe :: "metric \<Rightarrow> string list \<Rightarrow> rat \<Rightarrow> observability \<Rightarrow> observability" where
  "observe m labels x ob = ob\<lparr>observations := observations ob @ [(m, labels, x)]\<rparr>"

subsection \<open>The record methods\<close>

definition http_started :: "string \<Rightarrow> observability \<Rightarrow> observability" where
  "http_started route ob = inc HTTP_IN_PROGRESS [route] 1 ob"

definition http_finished ::
  "string \<Rightarrow> string \<Rightarrow> string \<Rightarrow> string \<Rightarrow> rat \<Rightarrow> observability \<Rightarrow> observability" where
  "http_finished route method status_class outcome duration ob =
     inc HTTP_IN_PROGRESS [route] (-1)
       (observe HTTP_DURATION [route, method, status_class] duration
         (inc HTTP_REQUESTS [route, method, status_class, outcome] 1 ob))"

definition provider_attempt ::
  "string \<Rightarrow> string \<Rightarrow> string \<Rightarrow> string \<Rightarrow> rat \<Rightarrow> string \<Rightarrow> dec option \<Rightarrow> string \<Rightarrow>
   observability \<Rightarrow> observability" where
  "provider_attempt provider model outcome error_category duration request_mode cost request_id ob =
     (let ob1 = inc PROVIDER_ATTEMPTS [provider, model, outcome, error_category] 1 ob;
          ob2 = observe PROVIDER_DURATION [provider, model, outcome] duration ob1;
          ob3 = (case cost of None \<Rightarrow> ob2
                 | Some c \<Rightarrow> inc ESTIMATED_COST [request_mode, model] (dval c) ob2)
      in emit ''provider_attempt_completed'' LEVEL_INFO
           [(''request_id'', Some (LStr request_id)), (''provider'', Some (LStr provider)),
            (''model'', Some (LStr model)), (''outcome'', Some (LStr outcome)),
            (''provider_error_category'', Some (LStr error_category)),
            (''latency_ms'', Some (LNum (duration * 1000))),
            (''estimated_cost_usd'', map_option LDec cost)] ob3)"

definition obs_routing_decision :: "string \<Rightarrow> string \<Rightarrow> observability \<Rightarrow> observability" where
  "obs_routing_decision selected_model reason ob = inc ROUTING_DECISIONS [selected_model, reason] 1 ob"

definition obs_validation_failure :: "string \<Rightarrow> string \<Rightarrow> nat \<Rightarrow> observability \<Rightarrow> observability" where
  "obs_validation_failure model reason attempt ob =
     inc VALIDATION_FAILURES [model, reason, show_nat attempt] 1 ob"

definition adaptive_request ::
  "string \<Rightarrow> bool \<Rightarrow> bool \<Rightarrow> nat \<Rightarrow> string \<Rightarrow> string \<Rightarrow> observability \<Rightarrow> observability" where
  "adaptive_request terminal_outcome escalated recovered attempts request_id validation_outcome ob =
     emit ''adaptive_execution_completed'' LEVEL_INFO
       [(''request_id'', Some (LStr request_id)), (''attempt_number'', Some (LInt (int attempts))),
        (''escalated'', Some (LBool escalated)), (''recovered'', Some (LBool recovered)),
        (''validation_outcome'', Some (LStr validation_outcome)),
        (''terminal_outcome'', Some (LStr terminal_outcome))]
       (observe ADAPTIVE_ATTEMPTS [terminal_outcome] (of_nat attempts)
         (inc ADAPTIVE_REQUESTS [terminal_outcome, show_bool escalated, show_bool recovered] 1 ob))"

definition telemetry_write :: "string \<Rightarrow> string \<Rightarrow> rat option \<Rightarrow> observability \<Rightarrow> observability" where
  "telemetry_write record_type outcome duration ob =
     (let ob1 = inc TELEMETRY_WRITES [record_type, outcome] 1 ob in
      case duration of None \<Rightarrow> ob1
      | Some d \<Rightarrow> observe TELEMETRY_DURATION [record_type, outcome] d ob1)"

definition rate_limit_rejection :: "string \<Rightarrow> string \<Rightarrow> observability \<Rightarrow> observability" where
  "rate_limit_rejection scope route ob =
     emit ''rate_limit_rejected'' LEVEL_INFO
       [(''scope'', Some (LStr scope)), (''route'', Some (LStr route))]
       (inc RATE_LIMIT_REJECTIONS [scope, route] 1 ob)"

text \<open>The sum of a metric over a list of label tuples (what a dashboard aggregates).\<close>

definition total_over :: "metric \<Rightarrow> string list list \<Rightarrow> observability \<Rightarrow> rat" where
  "total_over m labels ob = (\<Sum>l\<leftarrow>labels. series ob m l)"

subsection \<open>The allowlist\<close>

text \<open>
  Whatever a caller passes, a payload holds only the three header fields and allowlisted
  keys: a prompt, a response text or a credential passed under any other name is dropped.
\<close>

lemma add_fields_keys: "fst ` set (add_fields p fs) \<subseteq> fst ` set p \<union> set safe_log_fields"
proof (induction p fs rule: add_fields.induct)
  case (1 p)
  then show ?case by simp
next
  case (2 p k v fs)
  show ?case
  proof (cases v)
    case (Some x)
    then show ?thesis using 2 by (auto simp: dict_set_key_set)
  qed (use 2 in simp)
qed

lemma event_payload_keys:
  "fst ` set (event_payload event level kvs) \<subseteq>
     {''timestamp'', ''level'', ''event''} \<union> set safe_log_fields"
  unfolding event_payload_def by (rule order_trans [OF add_fields_keys]) simp

lemma add_fields_lookup:
  "distinct (map fst fs) \<Longrightarrow> k \<in> fst ` set fs \<Longrightarrow> k \<in> set safe_log_fields \<Longrightarrow>
     (k, Some x) \<in> set fs \<Longrightarrow> map_of (add_fields p fs) k = Some x"
proof (induction p fs rule: add_fields.induct)
  case (1 p)
  then show ?case by simp
next
  case (2 p k' v fs)
  have other: "map_of (add_fields q gs) j = map_of q j" if "j \<notin> fst ` set gs" for q gs j
    using that by (induction q gs rule: add_fields.induct) (auto split: option.splits)
  show ?case
  proof (cases "k' = k")
    case True
    then have "v = Some x" using "2.prems" by (force simp: image_iff)
    with True "2.prems" show ?thesis by (simp add: other)
  next
    case False
    then show ?thesis using 2 by (auto split: option.splits)
  qed
qed

lemma series_inc [simp]:
  "series (inc m l a ob) m' l' = series ob m' l' + (if m' = m \<and> l' = l then a else 0)"
  by (simp add: inc_def)

lemma series_observe [simp]: "series (observe m l x ob) = series ob"
  by (simp add: observe_def)

lemma series_emit [simp]: "series (emit e lv fs ob) = series ob"
  by (simp add: emit_def)

lemmas record_method_defs =
  http_started_def http_finished_def provider_attempt_def obs_routing_decision_def
  obs_validation_failure_def adaptive_request_def telemetry_write_def rate_limit_rejection_def

lemma emitted_inc [simp]: "emitted (inc m l a ob) = emitted ob"
  by (simp add: inc_def)

lemma emitted_observe [simp]: "emitted (observe m l x ob) = emitted ob"
  by (simp add: observe_def)

lemma emitted_emit [simp]: "emitted (emit e lv fs ob) = emitted ob @ [event_payload e lv fs]"
  by (simp add: emit_def)

end
