(* ===== verification/Registry.thy ===== *)
theory Registry
  imports Schemas
begin

section \<open>Catalogs: the model registry and the provider resolver\<close>

text \<open>
  \<^verbatim>\<open>registry/model_registry.py\<close> and \<^verbatim>\<open>providers/resolver.py\<close>. Both are
  process-local dictionaries with a register operation that refuses a key that is already
  present. The locale \<open>catalog\<close> states what both promise (a registered entry is found
  again, other entries are not touched, an entry is never replaced); it is interpreted on
  the two operations of the source.
\<close>

subsection \<open>ModelRegistry\<close>

type_synonym model_registry = "model_config dict"

definition empty_registry :: model_registry where
  "empty_registry = []"

definition registry_register :: "model_registry \<Rightarrow> model_config \<Rightarrow> exn_class + model_registry" where
  "registry_register reg m =
     (if mc_model_id m \<in> fst ` set reg then Inl DuplicateModelErrorC
      else Inr (dict_set reg (mc_model_id m) m))"

definition registry_get :: "model_registry \<Rightarrow> string \<Rightarrow> exn_class + model_config" where
  "registry_get reg model_id =
     (case map_of reg model_id of Some m \<Rightarrow> Inr m | None \<Rightarrow> Inl ModelNotFoundErrorC)"

definition registry_list_models :: "model_registry \<Rightarrow> model_config list" where
  "registry_list_models reg = map snd reg"

definition registry_list_enabled_models :: "model_registry \<Rightarrow> model_config list" where
  "registry_list_enabled_models reg = filter mc_enabled (map snd reg)"

text \<open>What every registry built by \<^verbatim>\<open>register\<close> satisfies.\<close>

definition registry_inv :: "model_registry \<Rightarrow> bool" where
  "registry_inv reg \<longleftrightarrow> distinct (map fst reg) \<and> (\<forall>(k, m)\<in>set reg. k = mc_model_id m)"

fun registry_register_all :: "model_registry \<Rightarrow> model_config list \<Rightarrow> exn_class + model_registry" where
  "registry_register_all reg [] = Inr reg"
| "registry_register_all reg (m # ms) =
     rbind (registry_register reg m) (\<lambda>reg'. registry_register_all reg' ms)"

subsection \<open>ProviderResolver\<close>

text \<open>
  An adapter factory is a function of the model; what adapters are is fixed by the client,
  so the resolver is generic in their type \<open>'p\<close>. A factory may itself raise.
\<close>

type_synonym 'p provider_factory = "model_config \<Rightarrow> exn + 'p"
type_synonym 'p provider_resolver = "'p provider_factory dict"

definition resolver_register ::
  "'p provider_resolver \<Rightarrow> string \<Rightarrow> 'p provider_factory \<Rightarrow> exn_class + 'p provider_resolver" where
  "resolver_register res provider factory =
     (let p = strip provider in
      if p = [] then Inl ValueErrorC
      else if p \<in> fst ` set res then Inl ValueErrorC
      else Inr (dict_set res p factory))"

definition resolver_supports :: "'p provider_resolver \<Rightarrow> string \<Rightarrow> bool" where
  "resolver_supports res provider \<longleftrightarrow> provider \<in> fst ` set res"

definition resolver_resolve :: "'p provider_resolver \<Rightarrow> model_config \<Rightarrow> exn + 'p" where
  "resolver_resolve res m =
     (case map_of res (mc_provider m) of
        None \<Rightarrow> Inl (Exn ProviderUnavailableErrorC)
      | Some factory \<Rightarrow> factory m)"

definition resolver_inv :: "'p provider_resolver \<Rightarrow> bool" where
  "resolver_inv res \<longleftrightarrow> distinct (map fst res) \<and> (\<forall>k\<in>fst ` set res. is_identifier k)"

subsection \<open>What a catalog promises\<close>

locale catalog =
  fixes insert_entry :: "'c \<Rightarrow> 'k \<Rightarrow> 'v \<Rightarrow> exn_class + 'c"
    and lookup_entry :: "'c \<Rightarrow> 'k \<Rightarrow> 'v option"
    and entries :: "'c \<Rightarrow> 'v list"
    and catalog_inv :: "'c \<Rightarrow> bool"
    and acceptable :: "'k \<Rightarrow> 'v \<Rightarrow> bool"
  assumes insert_new: "catalog_inv c \<Longrightarrow> acceptable k v \<Longrightarrow> lookup_entry c k = None \<Longrightarrow>
      \<exists>c'. insert_entry c k v = Inr c' \<and> catalog_inv c' \<and> entries c' = entries c @ [v] \<and>
           lookup_entry c' = (lookup_entry c)(k \<mapsto> v)"
    and insert_old: "catalog_inv c \<Longrightarrow> acceptable k v \<Longrightarrow> lookup_entry c k \<noteq> None \<Longrightarrow>
      \<exists>e. insert_entry c k v = Inl e"
begin

fun insert_all :: "'c \<Rightarrow> ('k \<times> 'v) list \<Rightarrow> exn_class + 'c" where
  "insert_all c [] = Inr c"
| "insert_all c ((k, v) # kvs) = rbind (insert_entry c k v) (\<lambda>c'. insert_all c' kvs)"

lemma insert_cases:
  assumes "catalog_inv c" "acceptable k v" "insert_entry c k v = Inr c'"
  shows "lookup_entry c k = None" and "catalog_inv c'" and "entries c' = entries c @ [v]"
    and "lookup_entry c' = (lookup_entry c)(k \<mapsto> v)"
proof -
  show "lookup_entry c k = None"
    using insert_old [OF assms(1,2)] assms(3) by fastforce
  then show "catalog_inv c'" "entries c' = entries c @ [v]" "lookup_entry c' = (lookup_entry c)(k \<mapsto> v)"
    using insert_new [OF assms(1,2)] assms(3) by auto
qed

text \<open>An entry is never replaced, and the listing is the order of registration.\<close>

lemma insert_all_spec:
  "catalog_inv c \<Longrightarrow> (\<And>k v. (k, v) \<in> set kvs \<Longrightarrow> acceptable k v) \<Longrightarrow> insert_all c kvs = Inr c' \<Longrightarrow>
     catalog_inv c' \<and> entries c' = entries c @ map snd kvs
     \<and> (\<forall>k. lookup_entry c k \<noteq> None \<longrightarrow> lookup_entry c' k = lookup_entry c k)
     \<and> (\<forall>(k, v)\<in>set kvs. lookup_entry c' k = Some v)"
proof (induction c kvs rule: insert_all.induct)
  case (1 c)
  then show ?case by simp
next
  case (2 c k v kvs)
  then obtain c1 where c1: "insert_entry c k v = Inr c1" "insert_all c1 kvs = Inr c'"
    by (auto simp: rbind_eq_Inr)
  have acc: "acceptable k v" using "2.prems" by simp
  note step = insert_cases [OF "2.prems"(1) acc c1(1)]
  have IH: "catalog_inv c' \<and> entries c' = entries c1 @ map snd kvs
     \<and> (\<forall>k. lookup_entry c1 k \<noteq> None \<longrightarrow> lookup_entry c' k = lookup_entry c1 k)
     \<and> (\<forall>(k, v)\<in>set kvs. lookup_entry c' k = Some v)"
    using "2.IH" [OF step(2) _ c1(2)] "2.prems"(2) by simp
  then show ?case using step by auto
qed

lemma insert_all_succeeds:
  "catalog_inv c \<Longrightarrow> (\<And>k v. (k, v) \<in> set kvs \<Longrightarrow> acceptable k v) \<Longrightarrow>
     distinct (map fst kvs) \<Longrightarrow> (\<And>k. k \<in> fst ` set kvs \<Longrightarrow> lookup_entry c k = None) \<Longrightarrow>
     \<exists>c'. insert_all c kvs = Inr c'"
proof (induction c kvs rule: insert_all.induct)
  case (1 c)
  then show ?case by simp
next
  case (2 c k v kvs)
  have "acceptable k v" "lookup_entry c k = None" using "2.prems" by auto
  then obtain c1 where c1: "insert_entry c k v = Inr c1" "catalog_inv c1"
      "lookup_entry c1 = (lookup_entry c)(k \<mapsto> v)"
    using insert_new "2.prems"(1) by blast
  have "\<exists>c'. insert_all c1 kvs = Inr c'"
    by (rule "2.IH" [OF c1(2)]) (use "2.prems" c1(3) in auto)
  then show ?case using c1 by auto
qed

end

subsection \<open>Both catalogs keep the promise\<close>

lemma map_of_None_keys: "map_of d k = None \<longleftrightarrow> k \<notin> fst ` set d"
  by (simp add: map_of_eq_None_iff)

interpretation models: catalog "\<lambda>reg k m. registry_register reg m" "\<lambda>reg. map_of reg"
  registry_list_models registry_inv "\<lambda>k m. k = mc_model_id m"
proof unfold_locales
  fix c :: model_registry and k :: string and v :: model_config
  assume "registry_inv c" "k = mc_model_id v" "map_of c k = None"
  then show "\<exists>c'. registry_register c v = Inr c' \<and> registry_inv c' \<and>
      registry_list_models c' = registry_list_models c @ [v] \<and> map_of c' = (map_of c)(k \<mapsto> v)"
    by (auto simp: registry_register_def registry_inv_def registry_list_models_def
        map_of_None_keys dict_new)
next
  fix c :: model_registry and k :: string and v :: model_config
  assume "registry_inv c" "k = mc_model_id v" "map_of c k \<noteq> None"
  then show "\<exists>e. registry_register c v = Inl e"
    by (auto simp: registry_register_def map_of_None_keys)
qed

interpretation adapters: catalog resolver_register "\<lambda>res. map_of res" "map snd"
  resolver_inv "\<lambda>k v. is_identifier k"
proof unfold_locales
  fix c :: "'p provider_resolver" and k v
  assume "resolver_inv c" "is_identifier k" "map_of c k = None"
  then show "\<exists>c'. resolver_register c k v = Inr c' \<and> resolver_inv c' \<and>
      map snd c' = map snd c @ [v] \<and> map_of c' = (map_of c)(k \<mapsto> v)"
    by (auto simp: resolver_register_def resolver_inv_def is_identifier_def
        map_of_None_keys dict_new)
next
  fix c :: "'p provider_resolver" and k v
  assume "resolver_inv c" "is_identifier k" "map_of c k \<noteq> None"
  then show "\<exists>e. resolver_register c k v = Inl e"
    by (auto simp: resolver_register_def is_identifier_def map_of_None_keys)
qed

lemma registry_inv_empty [simp]: "registry_inv empty_registry"
  by (simp add: registry_inv_def empty_registry_def)

lemma registry_get_id: "registry_inv reg \<Longrightarrow> registry_get reg k = Inr m \<Longrightarrow> mc_model_id m = k"
  by (auto simp: registry_get_def registry_inv_def split: option.splits dest!: map_of_SomeD)

lemma registry_register_all_models:
  "registry_register_all reg ms = models.insert_all reg (map (\<lambda>m. (mc_model_id m, m)) ms)"
  by (induction reg ms rule: registry_register_all.induct) auto

lemma resolver_resolve_unsupported:
  "\<not> resolver_supports res (mc_provider m) \<Longrightarrow>
     resolver_resolve res m = Inl (Exn ProviderUnavailableErrorC)"
  by (simp add: resolver_supports_def resolver_resolve_def map_of_None_keys [symmetric])

end
