(* ===== verification/Runtime.thy ===== *)
theory Runtime
  imports Telemetry Observability Registry
begin

section \<open>The environment of a request: time, identity, stored rows\<close>

text \<open>
  The services are asynchronous Python: between two statements other requests may run and
  time passes. What a request observes of that is a sequence of answers from outside, so
  the model numbers the interactions with the environment: \<open>w_ix\<close> counts them, and the
  environment \<open>env\<close> says what the clock shows, which UUID is drawn and so on at each index.
  A property that holds for every environment holds for every schedule. The only law ever
  assumed of it is the documented one of \<^verbatim>\<open>time.monotonic\<close>: it does not run
  backwards (\<open>clock_ok\<close>).

  An action maps the world to a result (an exception or a value) and the new world.
\<close>

record env =
  env_clock :: "nat \<Rightarrow> rat"
  env_perf :: "nat \<Rightarrow> rat"
  env_uuid :: "nat \<Rightarrow> string"

record world =
  w_ix :: nat
  w_obs :: observability
  w_rows :: "telemetry_event list"
  w_adaptive_rows :: "adaptive_execution_telemetry list"
  w_chat_rows :: "chat_activity_record list"
  w_calls :: "string list"

definition initial_world :: world where
  "initial_world = \<lparr>w_ix = 0, w_obs = fresh_observability, w_rows = [], w_adaptive_rows = [],
     w_chat_rows = [], w_calls = []\<rparr>"

definition clock_ok :: "env \<Rightarrow> bool" where
  "clock_ok E \<longleftrightarrow> (\<forall>i j. i \<le> j \<longrightarrow> env_clock E i \<le> env_clock E j)"

type_synonym 'a act = "world \<Rightarrow> (exn + 'a) \<times> world"

definition areturn :: "'a \<Rightarrow> 'a act" where
  "areturn a w = (Inr a, w)"

definition araise :: "exn \<Rightarrow> 'a act" where
  "araise e w = (Inl e, w)"

definition abind :: "'a act \<Rightarrow> ('a \<Rightarrow> 'b act) \<Rightarrow> 'b act" where
  "abind m f w = (case m w of (Inl e, w1) \<Rightarrow> (Inl e, w1) | (Inr a, w1) \<Rightarrow> f a w1)"

text \<open>\<^verbatim>\<open>try: m except: h\<close>, where \<open>h\<close> decides which exceptions it handles.\<close>

definition acatch :: "'a act \<Rightarrow> (exn \<Rightarrow> 'a act) \<Rightarrow> 'a act" where
  "acatch m h w = (case m w of (Inl e, w1) \<Rightarrow> h e w1 | (Inr a, w1) \<Rightarrow> (Inr a, w1))"

definition lift_result :: "exn_class + 'a \<Rightarrow> 'a act" where
  "lift_result r w = (case r of Inl c \<Rightarrow> (Inl (Exn c), w) | Inr a \<Rightarrow> (Inr a, w))"

definition observe_with :: "(observability \<Rightarrow> observability) \<Rightarrow> unit act" where
  "observe_with f w = (Inr (), w\<lparr>w_obs := f (w_obs w)\<rparr>)"

definition ask :: "(nat \<Rightarrow> 'a) \<Rightarrow> 'a act" where
  "ask f w = (Inr (f (w_ix w)), w\<lparr>w_ix := Suc (w_ix w)\<rparr>)"

definition perf_counter :: "env \<Rightarrow> rat act" where
  "perf_counter E = ask (env_perf E)"

definition uuid4 :: "env \<Rightarrow> string act" where
  "uuid4 E = ask (env_uuid E)"

subsection \<open>RequestDeadline\<close>

text \<open>
  \<^verbatim>\<open>request_deadline.py\<close>: one end point on the monotonic clock, read again at every
  question.
\<close>

record request_deadline =
  rd_expires_at :: rat

definition deadline_settings_valid :: "rat \<Rightarrow> bool" where
  "deadline_settings_valid seconds \<longleftrightarrow> 0 < seconds \<and> seconds \<le> 300"

definition new_request_deadline :: "env \<Rightarrow> rat \<Rightarrow> request_deadline act" where
  "new_request_deadline E seconds =
     (if seconds \<le> 0 then araise (Exn ValueErrorC)
      else abind (ask (env_clock E)) (\<lambda>now. areturn \<lparr>rd_expires_at = now + seconds\<rparr>))"

definition remaining_seconds :: "env \<Rightarrow> request_deadline \<Rightarrow> rat act" where
  "remaining_seconds E d = ask (\<lambda>i. max 0 (rd_expires_at d - env_clock E i))"

definition expired :: "env \<Rightarrow> request_deadline \<Rightarrow> bool act" where
  "expired E d = abind (remaining_seconds E d) (\<lambda>r. areturn (r \<le> 0))"

definition constrain_timeout :: "env \<Rightarrow> request_deadline \<Rightarrow> rat \<Rightarrow> rat option act" where
  "constrain_timeout E d max_timeout =
     abind (remaining_seconds E d) (\<lambda>remaining.
       areturn (if remaining \<le> 0 then None else Some (min remaining max_timeout)))"

subsection \<open>Laws of actions\<close>

lemma areturn_apply [simp]: "areturn a w = (Inr a, w)"
  by (simp add: areturn_def)

lemma araise_apply [simp]: "araise e w = (Inl e, w)"
  by (simp add: araise_def)

lemma abind_Inl: "m w = (Inl e, w1) \<Longrightarrow> abind m f w = (Inl e, w1)"
  by (simp add: abind_def)

lemma abind_Inr: "m w = (Inr a, w1) \<Longrightarrow> abind m f w = f a w1"
  by (simp add: abind_def)

lemma abind_areturn [simp]: "abind (areturn a) f = f a"
  by (rule ext) (simp add: abind_def)

lemma abind_araise [simp]: "abind (araise e) f = araise e"
  by (rule ext) (simp add: abind_def)

lemma abind_ask [simp]: "abind (ask g) f w = f (g (w_ix w)) (w\<lparr>w_ix := Suc (w_ix w)\<rparr>)"
  by (simp add: abind_def ask_def)

lemma abind_observe [simp]: "abind (observe_with g) f w = f () (w\<lparr>w_obs := g (w_obs w)\<rparr>)"
  by (simp add: abind_def observe_with_def)

lemma observe_apply [simp]: "observe_with g w = (Inr (), w\<lparr>w_obs := g (w_obs w)\<rparr>)"
  by (simp add: observe_with_def)

lemma abind_assoc: "abind (abind m f) g = abind m (\<lambda>a. abind (f a) g)"
  by (rule ext) (simp add: abind_def split: sum.split prod.split)

lemma abind_eq_Inr:
  "abind m f w = (Inr b, w2) \<longleftrightarrow> (\<exists>a w1. m w = (Inr a, w1) \<and> f a w1 = (Inr b, w2))"
  by (auto simp: abind_def split: sum.splits prod.splits)

lemma abind_eq_Inl:
  "abind m f w = (Inl e, w2) \<longleftrightarrow>
     m w = (Inl e, w2) \<or> (\<exists>a w1. m w = (Inr a, w1) \<and> f a w1 = (Inl e, w2))"
  by (auto simp: abind_def split: sum.splits prod.splits)

lemma expired_apply:
  "expired E d w = (Inr (rd_expires_at d \<le> env_clock E (w_ix w)), w\<lparr>w_ix := Suc (w_ix w)\<rparr>)"
  by (simp add: expired_def remaining_seconds_def)

lemma remaining_apply:
  "remaining_seconds E d w =
     (Inr (max 0 (rd_expires_at d - env_clock E (w_ix w))), w\<lparr>w_ix := Suc (w_ix w)\<rparr>)"
  by (simp add: remaining_seconds_def ask_def)

lemma constrain_timeout_apply:
  "constrain_timeout E d m w =
     (Inr (let r = max 0 (rd_expires_at d - env_clock E (w_ix w)) in
           if r \<le> 0 then None else Some (min r m)), w\<lparr>w_ix := Suc (w_ix w)\<rparr>)"
  by (simp add: constrain_timeout_def remaining_seconds_def Let_def)

lemmas deadline_apply = expired_apply remaining_apply constrain_timeout_apply

text \<open>Once expired, always expired: the reason a late check can only confirm an earlier one.\<close>

lemma expired_stays:
  "clock_ok E \<Longrightarrow> rd_expires_at d \<le> env_clock E i \<Longrightarrow> i \<le> j \<Longrightarrow> rd_expires_at d \<le> env_clock E j"
  unfolding clock_ok_def by (meson order_trans)

subsection \<open>Actions that only move forward\<close>

text \<open>
  A well-behaved action never rewinds the environment and only appends to the rows, the
  provider calls and the log. The predicate composes, so a service is forward because its
  parts are.
\<close>

definition extends :: "world \<Rightarrow> world \<Rightarrow> bool" where
  "extends w w' \<longleftrightarrow> w_ix w \<le> w_ix w'
     \<and> (\<exists>a. w_rows w' = w_rows w @ a) \<and> (\<exists>a. w_adaptive_rows w' = w_adaptive_rows w @ a)
     \<and> (\<exists>a. w_chat_rows w' = w_chat_rows w @ a) \<and> (\<exists>a. w_calls w' = w_calls w @ a)"

lemma extends_refl [simp, intro]: "extends w w"
  by (simp add: extends_def)

lemma extends_trans: "extends w w1 \<Longrightarrow> extends w1 w2 \<Longrightarrow> extends w w2"
  unfolding extends_def by (metis append.assoc order_trans)

end
