(* ===== verification/Telemetry_Sink.thy ===== *)
theory Telemetry_Sink
  imports Runtime
begin

section \<open>Handing a row to a repository\<close>

text \<open>
  The three services end a request with the same guarded write: call the repository under a
  timeout, count the outcome, log a failure, and never let an \<^verbatim>\<open>Exception\<close> out.
  It is written once here, over the clock it reads and the kind of row, and used by
  \<^verbatim>\<open>InferenceService._record\<close>,
  \<^verbatim>\<open>AdaptiveInferenceService._record_execution\<close> and
  \<^verbatim>\<open>ChatOrchestrationService._record_activity\<close>. The locale \<open>row_log\<close> states what the
  three kinds of row share; its lemma bounds what a write can change.
\<close>

definition hand_over ::
  "('r \<Rightarrow> world \<Rightarrow> world) \<Rightarrow> (nat \<Rightarrow> 'r \<Rightarrow> exn option) \<Rightarrow> 'r \<Rightarrow> unit act" where
  "hand_over add_row answer row w =
     ((case answer (w_ix w) row of None \<Rightarrow> Inr () | Some e \<Rightarrow> Inl e),
      (add_row row w)\<lparr>w_ix := Suc (w_ix w)\<rparr>)"

definition on_write_failure :: "rat act \<Rightarrow> string \<Rightarrow> string \<Rightarrow> rat \<Rightarrow> exn \<Rightarrow> bool act" where
  "on_write_failure clock record_type request_id started e =
     (if isinstance e ExceptionC
      then abind clock (\<lambda>t.
           abind (observe_with (telemetry_write record_type ''failure'' (Some (t - started)))) (\<lambda>_.
           abind (observe_with (emit ''telemetry_write_failed'' LEVEL_WARNING
             [(''request_id'', Some (LStr request_id)), (''record_type'', Some (LStr record_type)),
              (''outcome'', Some (LStr ''failure'')),
              (''latency_ms'', Some (LNum ((t - started) * 1000)))])) (\<lambda>_.
           areturn False)))
      else araise e)"

definition guarded_write :: "rat act \<Rightarrow> string \<Rightarrow> string \<Rightarrow> unit act \<Rightarrow> unit act" where
  "guarded_write clock record_type request_id write =
     abind clock (\<lambda>started.
     abind
       (acatch (abind write (\<lambda>_. areturn True)) (on_write_failure clock record_type request_id started))
       (\<lambda>written.
          if written then abind clock (\<lambda>t.
            observe_with (telemetry_write record_type ''success'' (Some (t - started))))
          else areturn ()))"

definition add_inference_row :: "telemetry_event \<Rightarrow> world \<Rightarrow> world" where
  "add_inference_row r w = w\<lparr>w_rows := w_rows w @ [r]\<rparr>"

definition add_adaptive_row :: "adaptive_execution_telemetry \<Rightarrow> world \<Rightarrow> world" where
  "add_adaptive_row r w = w\<lparr>w_adaptive_rows := w_adaptive_rows w @ [r]\<rparr>"

definition add_chat_row :: "chat_activity_record \<Rightarrow> world \<Rightarrow> world" where
  "add_chat_row r w = w\<lparr>w_chat_rows := w_chat_rows w @ [r]\<rparr>"

definition perf_clock :: "env \<Rightarrow> rat act" where
  "perf_clock E = ask (env_perf E)"

text \<open>\<^verbatim>\<open>asyncio.get_running_loop().time()\<close> is the monotonic clock.\<close>

definition loop_clock :: "env \<Rightarrow> rat act" where
  "loop_clock E = ask (env_clock E)"

text \<open>A repository that fails only with ordinary exceptions (it is not cancelled).\<close>

definition only_exceptions :: "(nat \<Rightarrow> 'r \<Rightarrow> exn option) \<Rightarrow> bool" where
  "only_exceptions f \<longleftrightarrow> (\<forall>i r e. f i r = Some e \<longrightarrow> isinstance e ExceptionC)"

subsection \<open>Counting provider attempts\<close>

definition attempts_observed :: "observability \<Rightarrow> nat" where
  "attempts_observed ob = length (filter (\<lambda>(m, _, _). m = PROVIDER_DURATION) (observations ob))"

lemma attempts_observed_provider_attempt [simp]:
  "attempts_observed (provider_attempt p m oc cat d mode cost rid ob) = Suc (attempts_observed ob)"
  by (cases cost)
    (simp_all add: attempts_observed_def provider_attempt_def Let_def emit_def inc_def observe_def)

lemma attempts_observed_telemetry_write [simp]:
  "attempts_observed (telemetry_write t oc d ob) = attempts_observed ob"
  by (cases d) (simp_all add: attempts_observed_def telemetry_write_def Let_def inc_def observe_def)

lemma attempts_observed_emit [simp]: "attempts_observed (emit ev l kvs ob) = attempts_observed ob"
  by (simp add: attempts_observed_def emit_def)

subsection \<open>What a guarded write can change\<close>

locale row_log =
  fixes add_row :: "'r \<Rightarrow> world \<Rightarrow> world"
    and rows :: "world \<Rightarrow> 'r list"
    and others :: "world \<Rightarrow> 'o"
  assumes rows_add: "rows (add_row r w) = rows w @ [r]"
    and others_add: "others (add_row r w) = others w"
    and ix_add: "w_ix (add_row r w) = w_ix w"
    and obs_add: "w_obs (add_row r w) = w_obs w"
    and rows_ix: "rows (w\<lparr>w_ix := i\<rparr>) = rows w"
    and rows_obs: "rows (w\<lparr>w_obs := ob\<rparr>) = rows w"
    and others_ix: "others (w\<lparr>w_ix := i\<rparr>) = others w"
    and others_obs: "others (w\<lparr>w_obs := ob\<rparr>) = others w"
begin

text \<open>Before and after: at most this row, the metrics, the time; nothing else.\<close>

definition step :: "'r list \<Rightarrow> world \<Rightarrow> world \<Rightarrow> bool" where
  "step new w w' \<longleftrightarrow> rows w' = rows w @ new \<and> others w' = others w \<and> w_ix w \<le> w_ix w'
     \<and> attempts_observed (w_obs w') = attempts_observed (w_obs w)"

lemmas frame = rows_add others_add ix_add obs_add rows_ix rows_obs others_ix others_obs

lemma step_refl: "step [] w w"
  by (simp add: step_def)

lemma step_clock: "step new w0 w \<Longrightarrow> step new w0 (w\<lparr>w_ix := Suc (w_ix w)\<rparr>)"
  by (simp add: step_def frame)

lemma step_observe:
  "step new w0 w \<Longrightarrow> attempts_observed ob = attempts_observed (w_obs w) \<Longrightarrow>
     step new w0 (w\<lparr>w_obs := ob\<rparr>)"
  by (simp add: step_def frame)

lemma hand_over_run:
  obtains x w1 where "hand_over add_row f r w = (x, w1)" "step [r] w w1"
    and "x = (case f (w_ix w) r of None \<Rightarrow> Inr () | Some e \<Rightarrow> Inl e)"
  by (rule that [of "fst (hand_over add_row f r w)" "snd (hand_over add_row f r w)"])
    (simp_all add: hand_over_def step_def frame)

lemma step_after_clock: "step new (w\<lparr>w_ix := Suc (w_ix w)\<rparr>) w' \<Longrightarrow> step new w w'"
  by (simp add: step_def frame)

lemma guarded_write_run:
  assumes "guarded_write (ask g) rt rid (hand_over add_row f r) w = (x, w')"
  shows "step [r] w w' \<and> (x = Inr () \<or> (\<exists>e i. x = Inl e \<and> f i r = Some e \<and> \<not> isinstance e ExceptionC))"
proof -
  let ?w = "w\<lparr>w_ix := Suc (w_ix w)\<rparr>"
  obtain y w1 where y: "hand_over add_row f r ?w = (y, w1)" and s: "step [r] ?w w1"
    and yx: "y = (case f (w_ix ?w) r of None \<Rightarrow> Inr () | Some e \<Rightarrow> Inl e)"
    by (rule hand_over_run)
  note s = step_after_clock [OF s]
  show ?thesis
  proof (cases y)
    case (Inr u)
    have "acatch (abind (hand_over add_row f r) (\<lambda>_. areturn True)) h ?w = (Inr True, w1)" for h
      using y Inr by (simp add: acatch_def abind_Inr)
    then have "w' = w1\<lparr>w_ix := Suc (w_ix w1), w_obs := telemetry_write rt ''success''
        (Some (g (w_ix w1) - g (w_ix w))) (w_obs w1)\<rparr> \<and> x = Inr ()"
      using assms by (simp add: guarded_write_def abind_Inr)
    then show ?thesis
      using s by (simp add: step_def frame)
  next
    case (Inl e)
    have caught: "acatch (abind (hand_over add_row f r) (\<lambda>_. areturn True)) h ?w = h e w1" for h
      using y Inl by (simp add: acatch_def abind_Inl)
    have raised: "f (w_ix ?w) r = Some e" using yx Inl by (auto split: option.splits)
    show ?thesis
    proof (cases "isinstance e ExceptionC")
      case False
      then have "on_write_failure (ask g) rt rid (g (w_ix w)) e w1 = (Inl e, w1)"
        by (simp add: on_write_failure_def)
      then have "x = Inl e \<and> w' = w1"
        using assms by (simp add: guarded_write_def abind_Inl caught)
      then show ?thesis using s raised False by blast
    next
      case True
      let ?w2 = "\<lambda>ob. w1\<lparr>w_ix := Suc (w_ix w1), w_obs := ob\<rparr>"
      obtain ob where run: "on_write_failure (ask g) rt rid (g (w_ix w)) e w1 = (Inr False, ?w2 ob)"
        and ob: "attempts_observed ob = attempts_observed (w_obs w1)"
        using True by (simp add: on_write_failure_def)
      have "acatch (abind (hand_over add_row f r) (\<lambda>_. areturn True))
          (on_write_failure (ask g) rt rid (g (w_ix w))) ?w = (Inr False, ?w2 ob)"
        unfolding caught by (rule run)
      note ok = abind_Inr [where m = "acatch _ _" and w = ?w, OF this]
      have "x = Inr () \<and> w' = ?w2 ob"
        using assms by (simp add: guarded_write_def ok)
      then show ?thesis using s ob by (simp add: step_def frame)
    qed
  qed
qed

lemma guarded_write_quiet:
  "only_exceptions f \<Longrightarrow> \<exists>w'. guarded_write (ask g) rt rid (hand_over add_row f r) w = (Inr (), w')"
  using guarded_write_run unfolding only_exceptions_def by (metis surj_pair)

end

interpretation inference_log: row_log add_inference_row w_rows
  "\<lambda>w. (w_calls w, w_adaptive_rows w, w_chat_rows w)"
  by unfold_locales (simp_all add: add_inference_row_def)

interpretation adaptive_log: row_log add_adaptive_row w_adaptive_rows
  "\<lambda>w. (w_calls w, w_rows w, w_chat_rows w)"
  by unfold_locales (simp_all add: add_adaptive_row_def)

interpretation chat_log: row_log add_chat_row w_chat_rows
  "\<lambda>w. (w_calls w, w_rows w, w_adaptive_rows w)"
  by unfold_locales (simp_all add: add_chat_row_def)

end
