(* ===== verification/Inference_Service.thy ===== *)
theory Inference_Service
  imports Telemetry_Sink
begin

section \<open>InferenceService: one explicit model call\<close>

text \<open>
  \<^verbatim>\<open>application/service.py\<close>. A provider adapter is code behind an interface: its
  answer to a call is a function of the moment of the call, of the budget that
  \<^verbatim>\<open>asyncio.timeout\<close> enforces around it (a call that overruns ends in
  \<^verbatim>\<open>TimeoutError\<close>) and of the request. An answer is an exception, a response, or some
  value that is not a response at all. \<open>generate_with_timeout\<close> is the optional method the
  service looks up with \<^verbatim>\<open>getattr\<close>.
\<close>

datatype provider_reply = Reply inference_response | NotAResponse

record provider =
  pv_generate :: "nat \<Rightarrow> rat \<Rightarrow> inference_request \<Rightarrow> exn + provider_reply"
  pv_generate_with_timeout ::
    "(nat \<Rightarrow> rat \<Rightarrow> inference_request \<Rightarrow> rat \<Rightarrow> exn + provider_reply) option"

record inference_service =
  sv_registry :: model_registry
  sv_resolver :: "provider provider_resolver"
  sv_telemetry :: "telemetry_repository option"
  sv_telemetry_timeout :: rat
  sv_inference_deadline_seconds :: rat

definition new_inference_service ::
  "model_registry \<Rightarrow> provider provider_resolver \<Rightarrow> telemetry_repository option \<Rightarrow> rat \<Rightarrow> rat \<Rightarrow>
   exn_class + inference_service" where
  "new_inference_service registry resolver telemetry telemetry_timeout deadline_seconds =
     (if deadline_seconds \<le> 0 then Inl ValueErrorC
      else Inr \<lparr>sv_registry = registry, sv_resolver = resolver, sv_telemetry = telemetry,
        sv_telemetry_timeout = telemetry_timeout, sv_inference_deadline_seconds = deadline_seconds\<rparr>)"

definition service_new_deadline :: "env \<Rightarrow> inference_service \<Rightarrow> request_deadline act" where
  "service_new_deadline E sv = new_request_deadline E (sv_inference_deadline_seconds sv)"

definition service_list_models :: "inference_service \<Rightarrow> model_config list" where
  "service_list_models sv =
     filter (\<lambda>m. resolver_supports (sv_resolver sv) (mc_provider m))
       (registry_list_enabled_models (sv_registry sv))"

subsection \<open>The guarded provider call\<close>

definition call_provider :: "provider \<Rightarrow> string \<Rightarrow> inference_request \<Rightarrow> rat \<Rightarrow> provider_reply act" where
  "call_provider p model_id request timeout w =
     ((case pv_generate_with_timeout p of
         None \<Rightarrow> pv_generate p (w_ix w) timeout request
       | Some g \<Rightarrow> g (w_ix w) timeout request timeout),
      w\<lparr>w_ix := Suc (w_ix w), w_calls := w_calls w @ [model_id]\<rparr>)"

text \<open>
  The body of the \<^verbatim>\<open>try\<close>: budget, call, deadline instead of timeout when the
  deadline is what expired, then the two checks of the answer.
\<close>

definition guarded_call ::
  "env \<Rightarrow> provider \<Rightarrow> string \<Rightarrow> inference_request \<Rightarrow> rat \<Rightarrow> request_deadline \<Rightarrow> provider_reply act" where
  "guarded_call E p model_id request timeout deadline =
     acatch (call_provider p model_id request timeout) (\<lambda>e.
       if isinstance e TimeoutErrorC
       then abind (expired E deadline) (\<lambda>late.
              if late then araise (Exn InferenceDeadlineExceededErrorC) else araise e)
       else araise e)"

definition check_reply :: "model_config \<Rightarrow> provider_reply \<Rightarrow> exn_class + inference_response" where
  "check_reply model reply =
     (case reply of
        NotAResponse \<Rightarrow> Inl TypeErrorC
      | Reply r \<Rightarrow>
          if rs_model_id r \<noteq> mc_model_id model \<or> rs_provider r \<noteq> mc_provider model
          then Inl ValueErrorC else Inr r)"

definition attempt_body ::
  "env \<Rightarrow> provider \<Rightarrow> model_config \<Rightarrow> inference_request \<Rightarrow> request_deadline \<Rightarrow> inference_response act" where
  "attempt_body E p model request deadline =
     abind (remaining_seconds E deadline) (\<lambda>timeout.
       if timeout \<le> 0 then araise (Exn InferenceDeadlineExceededErrorC)
       else abind (guarded_call E p (mc_model_id model) request timeout deadline)
              (\<lambda>reply. lift_result (check_reply model reply)))"

definition expected_failure :: "exn \<Rightarrow> bool" where
  "expected_failure e \<longleftrightarrow>
     isinstance e ContextLimitErrorC \<or> isinstance e InferenceDeadlineExceededErrorC
   \<or> isinstance e ModelDisabledErrorC \<or> isinstance e ProviderUnavailableErrorC
   \<or> isinstance e ProviderFailureErrorC"

text \<open>The label of the attempt metric (the \<^verbatim>\<open>elif\<close> chain of \<^verbatim>\<open>_generate\<close>).\<close>

definition attempt_category :: "exn \<Rightarrow> string" where
  "attempt_category e =
     (case exn_category e of
        Some c \<Rightarrow> category_value c
      | None \<Rightarrow>
          if isinstance e InferenceDeadlineExceededErrorC then ''inference_deadline_exceeded''
          else if isinstance e ContextLimitErrorC then ''context_limit_exceeded''
          else if isinstance e ModelDisabledErrorC then ''model_disabled''
          else if isinstance e ProviderUnavailableErrorC then ''provider_unavailable''
          else ''provider_failure'')"

text \<open>The three \<^verbatim>\<open>except\<close> clauses around the attempt, in their order.\<close>

definition log_attempt ::
  "env \<Rightarrow> model_config \<Rightarrow> string \<Rightarrow> string \<Rightarrow> rat \<Rightarrow> string \<Rightarrow> string \<Rightarrow> dec option \<Rightarrow> unit act" where
  "log_attempt E model request_id request_mode started outcome category cost =
     abind (perf_counter E) (\<lambda>t.
       observe_with (provider_attempt (mc_provider model) (mc_model_id model) outcome category
         (t - started) request_mode cost request_id))"

definition on_attempt_failure ::
  "env \<Rightarrow> model_config \<Rightarrow> string \<Rightarrow> string \<Rightarrow> rat \<Rightarrow> exn \<Rightarrow> 'a act" where
  "on_attempt_failure E model request_id request_mode started e =
     (if isinstance e CancelledErrorC
      then abind (log_attempt E model request_id request_mode started ''cancelled'' ''cancelled'' None)
             (\<lambda>_. araise e)
      else if expected_failure e
      then abind (log_attempt E model request_id request_mode started
                   (if exn_completion e \<noteq> None then ''rejected'' else ''error'') (attempt_category e)
                   (map_option rs_estimated_cost_usd (exn_completion e)))
             (\<lambda>_. araise e)
      else if isinstance e ExceptionC
      then abind (log_attempt E model request_id request_mode started ''error'' ''provider_failure'' None)
             (\<lambda>_. araise (Exn ProviderFailureErrorC))
      else araise e)"

definition service_generate_model ::
  "env \<Rightarrow> inference_service \<Rightarrow> model_config \<Rightarrow> inference_request \<Rightarrow> request_deadline \<Rightarrow> string \<Rightarrow> string \<Rightarrow>
   inference_response act" where
  "service_generate_model E sv model request deadline request_id request_mode =
     (if \<not> mc_enabled model then araise (Exn ModelDisabledErrorC)
      else case resolver_resolve (sv_resolver sv) model of
        Inl e \<Rightarrow>
          if isinstance e ProviderUnavailableErrorC \<or> isinstance e ProviderFailureErrorC then araise e
          else if isinstance e ExceptionC then araise (Exn ProviderFailureErrorC)
          else araise e
      | Inr p \<Rightarrow>
          abind (perf_counter E) (\<lambda>started.
          abind
            (acatch (attempt_body E p model request deadline)
               (on_attempt_failure E model request_id request_mode started))
            (\<lambda>response.
               abind (log_attempt E model request_id request_mode started ''success'' ''none''
                        (Some (rs_estimated_cost_usd response)))
                 (\<lambda>_. areturn response))))"

subsection \<open>Recording a row\<close>

definition service_record ::
  "env \<Rightarrow> inference_service \<Rightarrow> telemetry_event \<Rightarrow> request_deadline \<Rightarrow> unit act" where
  "service_record E sv event deadline =
     (case sv_telemetry sv of
        None \<Rightarrow> observe_with (telemetry_write ''inference'' ''skipped_unconfigured'' None)
      | Some repo \<Rightarrow>
          abind (constrain_timeout E deadline (sv_telemetry_timeout sv)) (\<lambda>timeout.
          case timeout of
            None \<Rightarrow> observe_with (telemetry_write ''inference'' ''skipped_deadline'' None)
          | Some _ \<Rightarrow> guarded_write (perf_clock E) ''inference'' (te_request_id event)
                        (hand_over add_inference_row (repo_record repo) event)))"

subsection \<open>generate\<close>

text \<open>
  The category of the stored row: \<^verbatim>\<open>next(value for kind, value in categories.items()
  if isinstance(exc, kind))\<close>, overridden for a \<^verbatim>\<open>GatewayError\<close>. The table is in the
  order of the dictionary of the source.
\<close>

definition row_categories :: "(exn_class \<times> string) list" where
  "row_categories =
     [(ContextLimitErrorC, ''context_limit_exceeded''), (ModelDisabledErrorC, ''model_disabled''),
      (ProviderUnavailableErrorC, ''provider_unavailable''), (ProviderFailureErrorC, ''provider_failure''),
      (InferenceDeadlineExceededErrorC, ''inference_deadline_exceeded'')]"

definition row_category :: "exn \<Rightarrow> string option" where
  "row_category e =
     (case exn_category e of
        Some c \<Rightarrow> Some (category_value c)
      | None \<Rightarrow> map_option snd (find (\<lambda>(kind, _). isinstance e kind) row_categories))"

definition failure_row ::
  "string \<Rightarrow> model_config \<Rightarrow> inference_request \<Rightarrow> exn \<Rightarrow> rat \<Rightarrow> telemetry_event" where
  "failure_row correlation_id model request e elapsed_ms =
     (let completion = exn_completion e in
      \<lparr>te_request_id = correlation_id, te_model_id = mc_model_id model, te_provider = mc_provider model,
       te_success = False,
       te_latency_ms = (case completion of Some c \<Rightarrow> rs_latency_ms c | None \<Rightarrow> elapsed_ms),
       te_max_output_tokens = rq_max_output_tokens request, te_temperature = rq_temperature request,
       te_prompt_characters = length (rq_prompt request),
       te_system_prompt_characters = length (system_text request),
       te_input_tokens = map_option rs_input_tokens completion,
       te_output_tokens = map_option rs_output_tokens completion,
       te_estimated_cost_usd = map_option rs_estimated_cost_usd completion,
       te_error_category = row_category e\<rparr>)"

definition success_row :: "string \<Rightarrow> inference_request \<Rightarrow> inference_response \<Rightarrow> telemetry_event" where
  "success_row correlation_id request r =
     \<lparr>te_request_id = correlation_id, te_model_id = rs_model_id r, te_provider = rs_provider r,
      te_success = True, te_latency_ms = rs_latency_ms r,
      te_max_output_tokens = rq_max_output_tokens request, te_temperature = rq_temperature request,
      te_prompt_characters = length (rq_prompt request),
      te_system_prompt_characters = length (system_text request),
      te_input_tokens = Some (rs_input_tokens r), te_output_tokens = Some (rs_output_tokens r),
      te_estimated_cost_usd = Some (rs_estimated_cost_usd r), te_error_category = None\<rparr>"

text \<open>
  \<^verbatim>\<open>generate\<close> after the guards: the attempt, then its row. The clock is read for the
  latency of a failure only when the failure carries no completion.
\<close>

definition on_generate_failure ::
  "env \<Rightarrow> inference_service \<Rightarrow> model_config \<Rightarrow> inference_request \<Rightarrow> request_deadline \<Rightarrow> string \<Rightarrow> rat \<Rightarrow>
   exn \<Rightarrow> inference_response act" where
  "on_generate_failure E sv model request deadline correlation_id started e =
     (if expected_failure e
      then abind (if exn_completion e \<noteq> None then areturn 0
                  else abind (perf_counter E) (\<lambda>t. areturn ((t - started) * 1000))) (\<lambda>elapsed_ms.
           abind (service_record E sv (failure_row correlation_id model request e elapsed_ms) deadline)
             (\<lambda>_. araise e))
      else araise e)"

definition generate_and_record ::
  "env \<Rightarrow> inference_service \<Rightarrow> model_config \<Rightarrow> inference_request \<Rightarrow> request_deadline \<Rightarrow> string \<Rightarrow> string \<Rightarrow>
   inference_response act" where
  "generate_and_record E sv model request deadline correlation_id request_mode =
     abind (perf_counter E) (\<lambda>started.
     abind
       (acatch (service_generate_model E sv model request deadline correlation_id request_mode)
          (on_generate_failure E sv model request deadline correlation_id started))
       (\<lambda>r. abind (service_record E sv (success_row correlation_id request r) deadline)
              (\<lambda>_. areturn r)))"

definition generate_within ::
  "env \<Rightarrow> inference_service \<Rightarrow> string \<Rightarrow> inference_request \<Rightarrow> string option \<Rightarrow> string \<Rightarrow>
   request_deadline \<Rightarrow> inference_response act" where
  "generate_within E sv model_id request request_id request_mode deadline =
     abind (expired E deadline) (\<lambda>late.
       if late then araise (Exn InferenceDeadlineExceededErrorC)
       else abind (lift_result (registry_get (sv_registry sv) model_id)) (\<lambda>model.
            abind (case request_id of Some i \<Rightarrow> areturn i | None \<Rightarrow> uuid4 E) (\<lambda>correlation_id.
            generate_and_record E sv model request deadline correlation_id request_mode)))"

definition service_generate ::
  "env \<Rightarrow> inference_service \<Rightarrow> string \<Rightarrow> inference_request \<Rightarrow> string option \<Rightarrow> request_deadline option \<Rightarrow>
   string \<Rightarrow> inference_response act" where
  "service_generate E sv model_id request request_id deadline request_mode =
     (if request_mode \<notin> {''explicit'', ''adaptive''} then araise (Exn ValueErrorC)
      else abind (case deadline of Some d \<Rightarrow> areturn d | None \<Rightarrow> service_new_deadline E sv)
             (generate_within E sv model_id request request_id request_mode))"

subsection \<open>What one attempt does to the world\<close>

lemma perf_counter_bind [simp]:
  "abind (perf_counter E) f w = f (env_perf E (w_ix w)) (w\<lparr>w_ix := Suc (w_ix w)\<rparr>)"
  by (simp add: perf_counter_def)

lemma acatch_Inr: "m w = (Inr a, w1) \<Longrightarrow> acatch m h w = (Inr a, w1)"
  by (simp add: acatch_def)

lemma acatch_Inl: "m w = (Inl e, w1) \<Longrightarrow> acatch m h w = h e w1"
  by (simp add: acatch_def)

lemma bind_remaining:
  "abind (remaining_seconds E d) f w =
     f (max 0 (rd_expires_at d - env_clock E (w_ix w))) (w\<lparr>w_ix := Suc (w_ix w)\<rparr>)"
  by (simp add: abind_def remaining_apply)

lemma bind_expired:
  "abind (expired E d) f w =
     f (rd_expires_at d \<le> env_clock E (w_ix w)) (w\<lparr>w_ix := Suc (w_ix w)\<rparr>)"
  by (simp add: abind_def expired_apply)

lemma bind_constrain:
  "abind (constrain_timeout E d m) f w =
     f (let r = max 0 (rd_expires_at d - env_clock E (w_ix w)) in
        if r \<le> 0 then None else Some (min r m)) (w\<lparr>w_ix := Suc (w_ix w)\<rparr>)"
  by (simp add: abind_def constrain_timeout_apply)

lemmas bind_clock = bind_remaining bind_expired bind_constrain

text \<open>
  The body either stops before the call because nothing is left, or calls the provider
  exactly once; it returns only a response that names the configured model.
\<close>

lemma guarded_call_cases:
  assumes "guarded_call E p i rq t d w = (x, w')"
  shows "\<exists>k. w' = w\<lparr>w_ix := w_ix w + k, w_calls := w_calls w @ [i]\<rparr> \<and> 0 < k"
proof (cases "fst (call_provider p i rq t w)")
  case (Inl e)
  then have "call_provider p i rq t w = (Inl e, w\<lparr>w_ix := Suc (w_ix w), w_calls := w_calls w @ [i]\<rparr>)"
    by (simp add: call_provider_def)
  then have "w' = w\<lparr>w_ix := w_ix w + 1, w_calls := w_calls w @ [i]\<rparr>
           \<or> w' = w\<lparr>w_ix := w_ix w + 2, w_calls := w_calls w @ [i]\<rparr>"
    using assms by (auto simp: guarded_call_def acatch_Inl bind_clock split: if_splits)
  then show ?thesis by (metis zero_less_one zero_less_numeral)
next
  case (Inr a)
  then have "call_provider p i rq t w = (Inr a, w\<lparr>w_ix := Suc (w_ix w), w_calls := w_calls w @ [i]\<rparr>)"
    by (simp add: call_provider_def)
  then have "w' = w\<lparr>w_ix := w_ix w + 1, w_calls := w_calls w @ [i]\<rparr>"
    using assms by (simp add: guarded_call_def acatch_Inr)
  then show ?thesis by (metis zero_less_one)
qed

lemma check_reply_Inr:
  "check_reply m reply = Inr r \<Longrightarrow>
     reply = Reply r \<and> rs_model_id r = mc_model_id m \<and> rs_provider r = mc_provider m"
  by (auto simp: check_reply_def split: provider_reply.splits if_splits)

lemma bind_lift_world:
  "abind g (\<lambda>a. lift_result (f a)) w = (x, w') \<Longrightarrow> \<exists>y. g w = (y, w')"
  by (auto simp: abind_def lift_result_def split: prod.splits sum.splits)

lemma attempt_body_cases:
  assumes "attempt_body E p m rq d w = (x, w')"
  shows "(x = Inl (Exn InferenceDeadlineExceededErrorC) \<and> w' = w\<lparr>w_ix := Suc (w_ix w)\<rparr>)
       \<or> (\<exists>k. w' = w\<lparr>w_ix := w_ix w + k, w_calls := w_calls w @ [mc_model_id m]\<rparr> \<and> 0 < k)"
proof (cases "max 0 (rd_expires_at d - env_clock E (w_ix w)) \<le> 0")
  case True
  then show ?thesis using assms by (simp add: attempt_body_def bind_clock)
next
  case False
  let ?w = "w\<lparr>w_ix := Suc (w_ix w)\<rparr>"
  let ?t = "max 0 (rd_expires_at d - env_clock E (w_ix w))"
  have "abind (guarded_call E p (mc_model_id m) rq ?t d) (\<lambda>a. lift_result (check_reply m a)) ?w = (x, w')"
    using assms False unfolding attempt_body_def bind_clock by (simp only: if_False)
  from bind_lift_world [OF this] obtain y
    where y: "guarded_call E p (mc_model_id m) rq ?t d ?w = (y, w')" by blast
  obtain k where "w' = ?w\<lparr>w_ix := w_ix ?w + k, w_calls := w_calls ?w @ [mc_model_id m]\<rparr>"
    using guarded_call_cases [OF y] by blast
  then have "w' = w\<lparr>w_ix := w_ix w + Suc k, w_calls := w_calls w @ [mc_model_id m]\<rparr>" by simp
  then show ?thesis by (metis zero_less_Suc)
qed

lemma lift_result_Inr [simp]: "lift_result c w = (Inr r, w') \<longleftrightarrow> c = Inr r \<and> w' = w"
  by (auto simp: lift_result_def split: sum.splits)

lemma attempt_body_returns:
  assumes "attempt_body E p m rq d w = (Inr r, w')"
  shows "rs_model_id r = mc_model_id m \<and> rs_provider r = mc_provider m
       \<and> env_clock E (w_ix w) < rd_expires_at d"
  using assms unfolding attempt_body_def bind_clock
  by (auto simp: abind_eq_Inr split: if_splits dest: check_reply_Inr)

subsection \<open>The attempt as a function of its body\<close>

text \<open>
  What leaves \<^verbatim>\<open>_generate\<close> and which labels the attempt metric gets, as functions of
  how the body ended. The lemma \<open>service_generate_model_run\<close> replaces the nested clauses by
  these two tables.
\<close>

definition surfaced :: "exn \<Rightarrow> exn" where
  "surfaced e =
     (if isinstance e CancelledErrorC \<or> expected_failure e \<or> \<not> isinstance e ExceptionC then e
      else Exn ProviderFailureErrorC)"

fun attempt_labels :: "exn + inference_response \<Rightarrow> (string \<times> string \<times> dec option) option" where
  "attempt_labels (Inr r) = Some (''success'', ''none'', Some (rs_estimated_cost_usd r))"
| "attempt_labels (Inl e) =
     (if isinstance e CancelledErrorC then Some (''cancelled'', ''cancelled'', None)
      else if expected_failure e
      then Some (if exn_completion e \<noteq> None then ''rejected'' else ''error'', attempt_category e,
                 map_option rs_estimated_cost_usd (exn_completion e))
      else if isinstance e ExceptionC then Some (''error'', ''provider_failure'', None)
      else None)"

fun surfaced_result :: "exn + inference_response \<Rightarrow> exn + inference_response" where
  "surfaced_result (Inr r) = Inr r"
| "surfaced_result (Inl e) = Inl (surfaced e)"

definition logged_world ::
  "env \<Rightarrow> model_config \<Rightarrow> string \<Rightarrow> string \<Rightarrow> rat \<Rightarrow> (string \<times> string \<times> dec option) option \<Rightarrow> world \<Rightarrow> world" where
  "logged_world E m rid mode started labels w =
     (case labels of None \<Rightarrow> w
      | Some (oc, cat, cost) \<Rightarrow>
          w\<lparr>w_ix := Suc (w_ix w),
            w_obs := provider_attempt (mc_provider m) (mc_model_id m) oc cat
                       (env_perf E (w_ix w) - started) mode cost rid (w_obs w)\<rparr>)"

lemma bind_log_attempt:
  "abind (log_attempt E m rid mode started oc cat cost) f w =
     f () (logged_world E m rid mode started (Some (oc, cat, cost)) w)"
  by (simp add: log_attempt_def logged_world_def abind_assoc)

lemma on_attempt_failure_run:
  "on_attempt_failure E m rid mode started e w =
     (Inl (surfaced e), logged_world E m rid mode started (attempt_labels (Inl e)) w)"
  by (simp add: on_attempt_failure_def surfaced_def bind_log_attempt)
    (simp add: logged_world_def)

lemma service_generate_model_run:
  assumes "mc_enabled m" "resolver_resolve (sv_resolver sv) m = Inr p"
    and body: "attempt_body E p m rq d (w\<lparr>w_ix := Suc (w_ix w)\<rparr>) = (y, w1)"
  shows "service_generate_model E sv m rq d rid mode w =
     (surfaced_result y, logged_world E m rid mode (env_perf E (w_ix w)) (attempt_labels y) w1)"
proof (cases y)
  case (Inl e)
  then show ?thesis
    using assms by (simp add: service_generate_model_def abind_Inl acatch_Inl on_attempt_failure_run
        del: attempt_labels.simps)
next
  case (Inr r)
  then have "acatch (attempt_body E p m rq d) (on_attempt_failure E m rid mode (env_perf E (w_ix w)))
      (w\<lparr>w_ix := Suc (w_ix w)\<rparr>) = (Inr r, w1)"
    using body by (simp add: acatch_Inr)
  then show ?thesis
    using assms Inr by (simp add: service_generate_model_def abind_Inr bind_log_attempt)
qed

lemma service_generate_model_unresolved:
  assumes "\<not> mc_enabled m \<or> (\<exists>e. resolver_resolve (sv_resolver sv) m = Inl e)"
  shows "\<exists>e. service_generate_model E sv m rq d rid mode w = (Inl e, w)"
  using assms by (auto simp: service_generate_model_def split: sum.split)

subsection \<open>Recording never disturbs the request\<close>

abbreviation record_step :: "telemetry_event list \<Rightarrow> world \<Rightarrow> world \<Rightarrow> bool" where
  "record_step \<equiv> inference_log.step"

lemma service_record_run:
  assumes "service_record E sv ev d w = (x, w')"
  shows "record_step (if sv_telemetry sv \<noteq> None \<and> env_clock E (w_ix w) < rd_expires_at d then [ev] else [])
           w w'
    \<and> (x = Inr () \<or> (\<exists>e repo i. x = Inl e \<and> sv_telemetry sv = Some repo
          \<and> repo_record repo i ev = Some e \<and> \<not> isinstance e ExceptionC))"
proof (cases "sv_telemetry sv")
  case None
  then show ?thesis using assms by (auto simp: service_record_def inference_log.step_def)
next
  case (Some repo)
  show ?thesis
  proof (cases "env_clock E (w_ix w) < rd_expires_at d")
    case False
    then show ?thesis using assms Some
      by (auto simp: service_record_def inference_log.step_def bind_clock)
  next
    case True
    let ?w = "w\<lparr>w_ix := Suc (w_ix w)\<rparr>"
    have "guarded_write (perf_clock E) ''inference'' (te_request_id ev)
        (hand_over add_inference_row (repo_record repo) ev) ?w = (x, w')"
      using assms Some True by (simp add: service_record_def bind_clock)
    from inference_log.guarded_write_run [OF this [unfolded perf_clock_def]]
    show ?thesis using Some True inference_log.step_after_clock [of "[ev]" w w'] by auto
  qed
qed

text \<open>A service whose repository fails only with ordinary exceptions (it is not cancelled).\<close>

definition quiet_service :: "inference_service \<Rightarrow> bool" where
  "quiet_service sv \<longleftrightarrow>
     (case sv_telemetry sv of None \<Rightarrow> True | Some repo \<Rightarrow> only_exceptions (repo_record repo))"

lemma service_record_quiet:
  assumes "quiet_service sv"
  shows "\<exists>w'. service_record E sv ev d w = (Inr (), w')"
proof -
  obtain x w' where x: "service_record E sv ev d w = (x, w')" by fastforce
  from service_record_run [OF x] assms have "x = Inr ()"
    unfolding only_exceptions_def quiet_service_def by (auto split: option.splits)
  with x show ?thesis by blast
qed

subsection \<open>What an attempt does to the world\<close>

text \<open>
  Calls and attempt metrics go together: a call is always counted, and an attempt without a
  call is the one that found its budget gone. The exception is an exit that is no
  \<^verbatim>\<open>Exception\<close> and no cancellation (the process is going down).
\<close>

definition attempt_step :: "string \<Rightarrow> (exn + inference_response) \<Rightarrow> world \<Rightarrow> world \<Rightarrow> bool" where
  "attempt_step model_id x w w' \<longleftrightarrow>
     w_rows w' = w_rows w \<and> w_adaptive_rows w' = w_adaptive_rows w \<and> w_chat_rows w' = w_chat_rows w
   \<and> w_ix w \<le> w_ix w'
   \<and> ((w_calls w' = w_calls w \<and> (\<exists>e. x = Inl e)
        \<and> attempts_observed (w_obs w') \<in> {attempts_observed (w_obs w), Suc (attempts_observed (w_obs w))})
     \<or> (w_calls w' = w_calls w @ [model_id]
        \<and> (attempts_observed (w_obs w') = Suc (attempts_observed (w_obs w))
           \<or> (\<exists>e. x = Inl e \<and> \<not> isinstance e ExceptionC \<and> \<not> isinstance e CancelledErrorC))))"

lemma logged_world_frame:
  "w_rows (logged_world E m rid mode s l w) = w_rows w
   \<and> w_adaptive_rows (logged_world E m rid mode s l w) = w_adaptive_rows w
   \<and> w_chat_rows (logged_world E m rid mode s l w) = w_chat_rows w
   \<and> w_calls (logged_world E m rid mode s l w) = w_calls w
   \<and> w_ix w \<le> w_ix (logged_world E m rid mode s l w)
   \<and> attempts_observed (w_obs (logged_world E m rid mode s l w)) =
       (if l = None then attempts_observed (w_obs w) else Suc (attempts_observed (w_obs w)))"
  by (simp add: logged_world_def split: option.split prod.split)

lemma attempt_labels_None:
  "attempt_labels y = None \<Longrightarrow> \<exists>e. surfaced_result y = Inl e \<and> y = Inl e
     \<and> \<not> isinstance e ExceptionC \<and> \<not> isinstance e CancelledErrorC"
  by (cases y) (auto simp: surfaced_def split: if_splits)

lemma surfaced_result_Inr: "surfaced_result y = Inr r \<longleftrightarrow> y = Inr r"
  by (cases y) auto

lemma attempt_body_step:
  assumes "attempt_body E p m rq d w0 = (y, w1)" "w0 = w\<lparr>w_ix := Suc (w_ix w)\<rparr>"
  shows "attempt_step (mc_model_id m) (surfaced_result y) w
           (logged_world E m rid mode s (attempt_labels y) w1)"
proof -
  let ?w' = "logged_world E m rid mode s (attempt_labels y) w1"
  have w1: "w_rows w1 = w_rows w \<and> w_adaptive_rows w1 = w_adaptive_rows w \<and> w_chat_rows w1 = w_chat_rows w
      \<and> w_ix w \<le> w_ix w1 \<and> w_obs w1 = w_obs w
      \<and> (w_calls w1 = w_calls w @ [mc_model_id m] \<or> (w_calls w1 = w_calls w \<and> (\<exists>e. y = Inl e)))"
    using attempt_body_cases [OF assms(1)] assms(2) by auto
  note F = logged_world_frame [of E m rid mode s "attempt_labels y" w1]
  show ?thesis
  proof (cases "w_calls w1 = w_calls w @ [mc_model_id m]")
    case True
    then have "w_calls ?w' = w_calls w @ [mc_model_id m]" using F by simp
    moreover have "attempts_observed (w_obs ?w') = Suc (attempts_observed (w_obs w))
        \<or> (\<exists>e. surfaced_result y = Inl e \<and> \<not> isinstance e ExceptionC \<and> \<not> isinstance e CancelledErrorC)"
      using F w1 attempt_labels_None [of y] by (cases "attempt_labels y = None") auto
    ultimately show ?thesis using F w1 unfolding attempt_step_def by simp
  next
    case False
    then obtain e where "y = Inl e" "w_calls w1 = w_calls w" using w1 by blast
    then show ?thesis using F w1 unfolding attempt_step_def by auto
  qed
qed

lemma expected_failure_ProviderFailure [simp]: "expected_failure (Exn ProviderFailureErrorC)"
  by (simp add: expected_failure_def isinstance_def)

lemma expected_failure_ModelDisabled [simp]: "expected_failure (Exn ModelDisabledErrorC)"
  by (simp add: expected_failure_def isinstance_def)

lemma expected_failure_Deadline [simp]: "expected_failure (Exn InferenceDeadlineExceededErrorC)"
  by (simp add: expected_failure_def isinstance_def)

lemma cancelled_not_Exception: "isinstance e CancelledErrorC \<Longrightarrow> \<not> isinstance e ExceptionC"
  unfolding isinstance_def by (cases "class_of e") (simp_all add: issubclass_eval)

lemma surfaced_expected: "expected_failure (surfaced e) \<or> \<not> isinstance (surfaced e) ExceptionC"
  using cancelled_not_Exception by (auto simp: surfaced_def)

lemma service_generate_model_step:
  assumes run: "service_generate_model E sv m rq d rid mode w = (x, w')"
  shows "attempt_step (mc_model_id m) x w w'
    \<and> (\<forall>e. x = Inl e \<longrightarrow> expected_failure e \<or> \<not> isinstance e ExceptionC)
    \<and> (\<forall>r. x = Inr r \<longrightarrow> mc_enabled m \<and> rs_model_id r = mc_model_id m \<and> rs_provider r = mc_provider m
          \<and> w_calls w' = w_calls w @ [mc_model_id m])"
proof (cases "mc_enabled m \<and> (\<exists>p. resolver_resolve (sv_resolver sv) m = Inr p)")
  case False
  then have "w' = w \<and> (\<exists>e. x = Inl e \<and> (expected_failure e \<or> \<not> isinstance e ExceptionC))"
    using run by (auto simp: service_generate_model_def expected_failure_def isinstance_def split: sum.splits if_splits)
  then show ?thesis by (auto simp: attempt_step_def)
next
  case True
  then obtain p where p: "mc_enabled m" "resolver_resolve (sv_resolver sv) m = Inr p" by blast
  obtain y w1 where body: "attempt_body E p m rq d (w\<lparr>w_ix := Suc (w_ix w)\<rparr>) = (y, w1)" by fastforce
  note eq = service_generate_model_run [OF p body, of rid mode, unfolded run]
  have step: "attempt_step (mc_model_id m) x w w'"
    using attempt_body_step [OF body refl] eq by simp
  show ?thesis
  proof (cases y)
    case (Inl e)
    then show ?thesis using step eq surfaced_expected by (simp del: attempt_labels.simps)
  next
    case (Inr r)
    then have x: "x = Inr r" using eq by simp
    have "rs_model_id r = mc_model_id m \<and> rs_provider r = mc_provider m"
      using attempt_body_returns body Inr by blast
    then show ?thesis using step x p by (simp add: attempt_step_def)
  qed
qed

subsection \<open>generate, end to end\<close>

text \<open>
  The rows a request may leave: its row, or none when no repository is configured or the
  deadline had passed by the end.
\<close>

definition row_left :: "env \<Rightarrow> inference_service \<Rightarrow> request_deadline \<Rightarrow> telemetry_event \<Rightarrow> world \<Rightarrow> world \<Rightarrow> bool" where
  "row_left E sv d row w w' \<longleftrightarrow>
     w_rows w' = w_rows w @ [row]
   \<or> (w_rows w' = w_rows w \<and> (sv_telemetry sv = None \<or> rd_expires_at d \<le> env_clock E (w_ix w')))"

lemma record_leaves_row:
  assumes "service_record E sv row d w1 = (z, w')" "clock_ok E" "w_rows w1 = w_rows w"
  shows "row_left E sv d row w w' \<and> w_calls w' = w_calls w1
     \<and> attempts_observed (w_obs w') = attempts_observed (w_obs w1)"
proof -
  have S: "record_step (if sv_telemetry sv \<noteq> None \<and> env_clock E (w_ix w1) < rd_expires_at d then [row] else [])
      w1 w'" using service_record_run [OF assms(1)] by blast
  then have "w_ix w1 \<le> w_ix w'" by (simp add: inference_log.step_def)
  then have "rd_expires_at d \<le> env_clock E (w_ix w1) \<Longrightarrow> rd_expires_at d \<le> env_clock E (w_ix w')"
    using expired_stays [OF assms(2)] by blast
  then show ?thesis
    using S assms(3) unfolding row_left_def inference_log.step_def by (auto split: if_splits)
qed

lemma bind_record:
  assumes "quiet_service sv"
    and "abind (service_record E sv ev d) (\<lambda>_. k) w = (x, w')"
  obtains w2 where "service_record E sv ev d w = (Inr (), w2)" "k w2 = (x, w')"
proof -
  obtain w2 where w2: "service_record E sv ev d w = (Inr (), w2)"
    using service_record_quiet [OF assms(1)] by blast
  moreover have "k w2 = (x, w')" using assms(2) w2 by (simp add: abind_def)
  ultimately show ?thesis by (rule that)
qed

lemma on_generate_failure_run:
  assumes run: "on_generate_failure E sv m rq d cid started e w1 = (x, w')"
    and quiet: "quiet_service sv"
    and clock: "clock_ok E" and rows: "w_rows w1 = w_rows w"
  shows "x = Inl e \<and> w_calls w' = w_calls w1
    \<and> attempts_observed (w_obs w') = attempts_observed (w_obs w1)
    \<and> (if expected_failure e then \<exists>ms. row_left E sv d (failure_row cid m rq e ms) w w' else w' = w1)"
proof (cases "expected_failure e")
  case False
  then show ?thesis using run by (simp add: on_generate_failure_def)
next
  case True
  let ?k = "\<lambda>ms. abind (service_record E sv (failure_row cid m rq e ms) d) (\<lambda>_. araise e)"
  obtain ms w3 where k: "?k ms w3 = (x, w')" and w3: "w3 = w1 \<or> w3 = w1\<lparr>w_ix := Suc (w_ix w1)\<rparr>"
    using run True by (cases "exn_completion e \<noteq> None")
      (auto simp: on_generate_failure_def abind_assoc)
  obtain w2 where w2: "service_record E sv (failure_row cid m rq e ms) d w3 = (Inr (), w2)"
      "(araise e :: inference_response act) w2 = (x, w')"
    by (rule bind_record [OF quiet k])
  then have rec: "service_record E sv (failure_row cid m rq e ms) d w3 = (Inr (), w')" by simp
  have "w_rows w3 = w_rows w" using w3 rows by auto
  note L = record_leaves_row [OF rec clock this]
  then show ?thesis using L w2 w3 True by auto
qed

lemma generate_and_record_run:
  assumes run: "generate_and_record E sv m rq d cid mode w = (x, w')"
    and quiet: "quiet_service sv"
    and clock: "clock_ok E"
  obtains w1 where
      "service_generate_model E sv m rq d cid mode (w\<lparr>w_ix := Suc (w_ix w)\<rparr>) = (x, w1)"
    and "w_calls w' = w_calls w1" "attempts_observed (w_obs w') = attempts_observed (w_obs w1)"
    and "\<And>r. x = Inr r \<Longrightarrow> row_left E sv d (success_row cid rq r) w w'"
    and "\<And>e. x = Inl e \<Longrightarrow> expected_failure e \<Longrightarrow> \<exists>ms. row_left E sv d (failure_row cid m rq e ms) w w'"
    and "\<And>e. x = Inl e \<Longrightarrow> \<not> expected_failure e \<Longrightarrow> w_rows w' = w_rows w"
proof -
  let ?w = "w\<lparr>w_ix := Suc (w_ix w)\<rparr>"
  obtain y w1 where y: "service_generate_model E sv m rq d cid mode ?w = (y, w1)" by fastforce
  have rows: "w_rows w1 = w_rows w"
    using service_generate_model_step [OF y] by (simp add: attempt_step_def)
  show ?thesis
  proof (cases y)
    case (Inr r)
    have run1: "abind (service_record E sv (success_row cid rq r) d) (\<lambda>_. areturn r) w1 = (x, w')"
      using run y Inr by (simp add: generate_and_record_def abind_Inr acatch_Inr)
    obtain w2 where w2: "service_record E sv (success_row cid rq r) d w1 = (Inr (), w2)"
        "areturn r w2 = (x, w')"
      by (rule bind_record [OF quiet run1])
    then have x: "x = y" "w2 = w'" using Inr by simp_all
    have rec: "service_record E sv (success_row cid rq r) d w1 = (Inr (), w')" using w2(1) x(2) by simp
    note L = record_leaves_row [OF rec clock rows]
    show ?thesis by (rule that [OF y [folded x(1)]]) (use L Inr x in simp_all)
  next
    case (Inl e)
    obtain z w2 where z: "on_generate_failure E sv m rq d cid (env_perf E (w_ix w)) e w1 = (z, w2)"
      by fastforce
    note F = on_generate_failure_run [OF z quiet clock rows]
    have "x = y \<and> w' = w2"
      using run y Inl z F by (simp add: generate_and_record_def abind_Inl acatch_Inl)
    then show ?thesis using that [of w1] y F Inl rows by (auto split: if_splits)
  qed
qed

subsection \<open>Properties\<close>

lemma generate_within_run:
  assumes run: "generate_within E sv mid rq rid mode d w = (x, w')"
  shows "(\<exists>e k. x = Inl e \<and> e \<in> {Exn InferenceDeadlineExceededErrorC, Exn ModelNotFoundErrorC}
           \<and> w' = w\<lparr>w_ix := w_ix w + k\<rparr>)
       \<or> (\<exists>m cid k. registry_get (sv_registry sv) mid = Inr m \<and> (rid \<noteq> None \<longrightarrow> rid = Some cid)
           \<and> generate_and_record E sv m rq d cid mode (w\<lparr>w_ix := w_ix w + k\<rparr>) = (x, w'))"
proof (cases "rd_expires_at d \<le> env_clock E (w_ix w)")
  case True
  then have "x = Inl (Exn InferenceDeadlineExceededErrorC) \<and> w' = w\<lparr>w_ix := w_ix w + 1\<rparr>"
    using run by (simp add: generate_within_def bind_clock)
  then show ?thesis by blast
next
  case False
  note run = run [unfolded generate_within_def bind_clock, simplified False, simplified]
  show ?thesis
  proof (cases "registry_get (sv_registry sv) mid")
    case (Inl c)
    then have "x = Inl (Exn ModelNotFoundErrorC) \<and> w' = w\<lparr>w_ix := w_ix w + 1\<rparr>"
      using run by (auto simp: abind_def lift_result_def registry_get_def split: option.splits)
    then show ?thesis by blast
  next
    case (Inr m)
    show ?thesis
    proof (cases rid)
      case None
      then have "generate_and_record E sv m rq d (env_uuid E (Suc (w_ix w))) mode
          (w\<lparr>w_ix := w_ix w + 2\<rparr>) = (x, w')"
        using run Inr by (simp add: abind_def lift_result_def uuid4_def ask_def)
      then show ?thesis using Inr None by blast
    next
      case (Some cid)
      then have "generate_and_record E sv m rq d cid mode (w\<lparr>w_ix := w_ix w + 1\<rparr>) = (x, w')"
        using run Inr by (simp add: abind_def lift_result_def)
      then show ?thesis using Inr Some by blast
    qed
  qed
qed

lemma service_generate_run:
  assumes run: "service_generate E sv mid rq rid dl mode w = (x, w')"
  shows "(\<exists>e k. x = Inl e \<and> e \<in> {Exn ValueErrorC, Exn InferenceDeadlineExceededErrorC, Exn ModelNotFoundErrorC}
           \<and> w' = w\<lparr>w_ix := w_ix w + k\<rparr>
           \<and> (e = Exn ValueErrorC \<longrightarrow> mode \<notin> {''explicit'', ''adaptive''} \<or> sv_inference_deadline_seconds sv \<le> 0))
       \<or> (\<exists>m d cid k. registry_get (sv_registry sv) mid = Inr m \<and> (rid \<noteq> None \<longrightarrow> rid = Some cid)
           \<and> (dl \<noteq> None \<longrightarrow> dl = Some d)
           \<and> generate_and_record E sv m rq d cid mode (w\<lparr>w_ix := w_ix w + k\<rparr>) = (x, w'))"
proof (cases "mode \<notin> {''explicit'', ''adaptive''}")
  case True
  then have "x = Inl (Exn ValueErrorC) \<and> w' = w\<lparr>w_ix := w_ix w + 0\<rparr>"
    using run by (simp add: service_generate_def)
  then show ?thesis using True by blast
next
  case mode: False
  let ?first = "case dl of Some d \<Rightarrow> areturn d | None \<Rightarrow> service_new_deadline E sv"
  have run: "abind ?first (generate_within E sv mid rq rid mode) w = (x, w')"
    using run mode by (simp only: service_generate_def if_False)
  consider "dl = None" "sv_inference_deadline_seconds sv \<le> 0"
    | d k where "?first w = (Inr d, w\<lparr>w_ix := w_ix w + k\<rparr>)" "dl \<noteq> None \<longrightarrow> dl = Some d"
  proof (cases dl)
    case None
    show ?thesis
    proof (cases "sv_inference_deadline_seconds sv \<le> 0")
      case True
      then show ?thesis using that(1) None by blast
    next
      case False
      let ?d = "\<lparr>rd_expires_at = env_clock E (w_ix w) + sv_inference_deadline_seconds sv\<rparr>"
      have "?first w = (Inr ?d, w\<lparr>w_ix := w_ix w + 1\<rparr>)"
        using None False by (simp add: service_new_deadline_def new_request_deadline_def)
      then show ?thesis using that(2) None by blast
    qed
  next
    case (Some a)
    then have "?first w = (Inr a, w\<lparr>w_ix := w_ix w + 0\<rparr>)" by simp
    then show ?thesis using that(2) Some by blast
  qed
  then show ?thesis
  proof cases
    case 1
    then have "x = Inl (Exn ValueErrorC) \<and> w' = w\<lparr>w_ix := w_ix w + 0\<rparr>"
      using run by (simp add: service_new_deadline_def new_request_deadline_def)
    then show ?thesis using 1 by blast
  next
    case (2 d k)
    then have "generate_within E sv mid rq rid mode d (w\<lparr>w_ix := w_ix w + k\<rparr>) = (x, w')"
      using run by (simp add: abind_def)
    from generate_within_run [OF this] 2(2) show ?thesis by (simp add: add.assoc) blast
  qed
qed

lemma service_generate_model_telemetry:
  "service_generate_model E (sv\<lparr>sv_telemetry := t\<rparr>) = service_generate_model E sv"
  by (intro ext) (simp add: service_generate_model_def)

lemma fst_abind: "(\<And>a v. fst (f a v) = fst (g a v)) \<Longrightarrow> fst (abind m f w) = fst (abind m g w)"
  by (simp add: abind_def split: prod.split sum.split)

lemma fst_eqD: "fst p = a \<Longrightarrow> \<exists>v. p = (a, v)"
  by (cases p) simp

lemma fst_record:
  assumes "quiet_service sv"
  shows "fst (abind (service_record E sv ev d) (\<lambda>_. k) w) = fst (k (snd (service_record E sv ev d w)))"
proof -
  obtain w2 where "service_record E sv ev d w = (Inr (), w2)"
    using service_record_quiet [OF assms] by blast
  then show ?thesis by (simp add: abind_def)
qed

lemma generate_and_record_result:
  assumes "quiet_service sv"
  shows "fst (generate_and_record E sv m rq d cid mode w) =
         fst (service_generate_model E sv m rq d cid mode (w\<lparr>w_ix := Suc (w_ix w)\<rparr>))"
proof -
  obtain y w1 where y: "service_generate_model E sv m rq d cid mode (w\<lparr>w_ix := Suc (w_ix w)\<rparr>) = (y, w1)"
    by fastforce
  have fails: "fst (on_generate_failure E sv m rq d cid s e v) = Inl e" for s e v
    by (simp add: on_generate_failure_def abind_assoc fst_record [OF assms])
  have "\<exists>v. acatch (service_generate_model E sv m rq d cid mode)
      (on_generate_failure E sv m rq d cid (env_perf E (w_ix w))) (w\<lparr>w_ix := Suc (w_ix w)\<rparr>) = (y, v)"
    using y by (cases y) (auto simp: acatch_def intro!: fst_eqD fails)
  then show ?thesis
    using y by (cases y) (auto simp: generate_and_record_def abind_Inr abind_Inl fst_record [OF assms])
qed

text \<open>
  Claim C19. A response the service returns comes from exactly one call of the adapter of an
  enabled registered model, names that model and its provider, and leaves exactly one attempt
  in the metrics and its success row in the repository; the row is missing only when no
  repository is configured or the deadline of the request had passed.
\<close>

theorem generate_returns_checked_response:
  assumes run: "service_generate E sv mid rq rid dl mode w = (Inr r, w')"
    and inv: "registry_inv (sv_registry sv)" and clock: "clock_ok E"
    and quiet: "quiet_service sv"
  shows "\<exists>m d cid. registry_get (sv_registry sv) mid = Inr m \<and> mc_enabled m
     \<and> rs_model_id r = mid \<and> rs_provider r = mc_provider m
     \<and> w_calls w' = w_calls w @ [mid]
     \<and> attempts_observed (w_obs w') = Suc (attempts_observed (w_obs w))
     \<and> (rid \<noteq> None \<longrightarrow> rid = Some cid) \<and> (dl \<noteq> None \<longrightarrow> dl = Some d)
     \<and> row_left E sv d (success_row cid rq r) w w'"
proof -
  obtain m d cid k where m: "registry_get (sv_registry sv) mid = Inr m"
    and ids: "rid \<noteq> None \<longrightarrow> rid = Some cid" "dl \<noteq> None \<longrightarrow> dl = Some d"
    and g: "generate_and_record E sv m rq d cid mode (w\<lparr>w_ix := w_ix w + k\<rparr>) = (Inr r, w')"
    using service_generate_run [OF run] by auto
  obtain w1 where
    body: "service_generate_model E sv m rq d cid mode (w\<lparr>w_ix := Suc (w_ix w + k)\<rparr>) = (Inr r, w1)"
    and w1: "w_calls w' = w_calls w1" "attempts_observed (w_obs w') = attempts_observed (w_obs w1)"
    and row: "row_left E sv d (success_row cid rq r) w w'"
    by (rule generate_and_record_run [OF g quiet clock]) (auto simp: row_left_def)
  note S = service_generate_model_step [OF body]
  have "mc_model_id m = mid" using registry_get_id [OF inv m] .
  then have "mc_enabled m \<and> rs_model_id r = mid \<and> rs_provider r = mc_provider m
      \<and> w_calls w' = w_calls w @ [mid] \<and> attempts_observed (w_obs w') = Suc (attempts_observed (w_obs w))"
    using S w1 by (auto simp: attempt_step_def)
  then show ?thesis using m ids row by blast
qed


text \<open>
  The category of the attempt metric and the category of the stored row are
  computed by two different tables; for every failure that reaches them they agree.
\<close>

theorem metric_and_row_categories_agree:
  "exn_wf e \<Longrightarrow> expected_failure e \<Longrightarrow> row_category e = Some (attempt_category e)"
proof (cases e)
  case (Exn c)
  assume "exn_wf e" "expected_failure e"
  with Exn show ?thesis
    by (cases c) (simp_all add: expected_failure_def isinstance_def issubclass_eval row_category_def
        attempt_category_def row_categories_def exn_wf_def)
qed (simp_all add: row_category_def attempt_category_def expected_failure_def isinstance_def issubclass_eval)

text \<open>
  Recording cannot change an answer: whatever repository is configured, and however
  its writes fail, the caller gets the result it would get with no repository at all.
\<close>

theorem telemetry_cannot_change_the_result:
  assumes quiet: "quiet_service (sv\<lparr>sv_telemetry := t\<rparr>)"
  shows "fst (service_generate E (sv\<lparr>sv_telemetry := t\<rparr>) mid rq rid dl mode w) =
         fst (service_generate E (sv\<lparr>sv_telemetry := None\<rparr>) mid rq rid dl mode w)"
proof -
  let ?s = "sv\<lparr>sv_telemetry := t\<rparr>" and ?n = "sv\<lparr>sv_telemetry := None\<rparr>"
  have G: "fst (generate_and_record E ?s m rq d cid mode w) = fst (generate_and_record E ?n m rq d cid mode w)"
    for m d cid w
    using generate_and_record_result [OF quiet] generate_and_record_result [of ?n]
    by (simp add: service_generate_model_telemetry quiet_service_def)
  have "fst (generate_within E ?s mid rq rid mode d w) = fst (generate_within E ?n mid rq rid mode d w)" for d w
    unfolding generate_within_def bind_clock
    by (cases rid) (simp_all add: abind_def lift_result_def uuid4_def ask_def G split: sum.split)
  then have "fst (abind k (generate_within E ?s mid rq rid mode) w) =
      fst (abind k (generate_within E ?n mid rq rid mode) w)" for k
    by (rule fst_abind)
  note R = this
  have D: "service_new_deadline E ?s = service_new_deadline E ?n"
    by (simp add: service_new_deadline_def)
  show ?thesis
    unfolding service_generate_def D if_distribR if_distrib [of fst] R ..
qed

end
