(* ===== verification/Pricing.thy ===== *)
theory Pricing
  imports Schemas
begin

section \<open>Pricing\<close>

text \<open>
  \<^verbatim>\<open>pricing/calculator.py\<close>. The docstring claims the exact cost "without
  quantization": the function computes in a decimal context whose precision it chooses
  from the digits of the two rates and of the token counts. \<open>cost_exact\<close> proves
  that this precision is always enough, for the multiplications, for the addition of
  rates of different scale and for the division, whenever the exponents stay inside the
  range of a decimal context.
\<close>

definition MAX_PREC :: nat where "MAX_PREC = 999999999999999999"

definition required_digits :: "model_config \<Rightarrow> nat \<Rightarrow> nat \<Rightarrow> nat" where
  "required_digits m i j =
     (let r0 = mc_input_cost_per_1m_tokens m; r1 = mc_output_cost_per_1m_tokens m in
      (ndigits (coeff r0) + nat \<bar>expo r0\<bar>) + (ndigits (coeff r1) + nat \<bar>expo r1\<bar>)
      + max (ndigits i) (ndigits j) + 10)"

definition calculate_cost :: "int \<Rightarrow> int \<Rightarrow> model_config \<Rightarrow> exn_class + dec" where
  "calculate_cost input_tokens output_tokens m =
     (if input_tokens < 0 \<or> output_tokens < 0 then Inl ValueErrorC
      else
        let i = nat input_tokens; j = nat output_tokens;
            prec = max 28 (required_digits m i j) in
        if prec > MAX_PREC then Inl ValueErrorC
        else
          rbind (dec_mul prec (mc_input_cost_per_1m_tokens m) (dec_of_int i)) (\<lambda>x.
          rbind (dec_mul prec (mc_output_cost_per_1m_tokens m) (dec_of_int j)) (\<lambda>y.
          rbind (dec_add prec x y) (\<lambda>s. dec_div prec s (dec_of_int 1000000)))))"

definition calculate_projected_cost :: "int \<Rightarrow> int \<Rightarrow> model_config \<Rightarrow> exn_class + dec" where
  "calculate_projected_cost approximate_input_tokens effective_max_output_tokens m =
     calculate_cost approximate_input_tokens effective_max_output_tokens m"

text \<open>
  The exponents of a price list: both rates, times the counts, stay within the exponent
  range \<open>-999999 .. 999999\<close> of the decimal context. Every portfolio price is far inside.
\<close>

definition rate_in_range :: "nat \<Rightarrow> dec \<Rightarrow> bool" where
  "rate_in_range n r \<longleftrightarrow> -999993 \<le> expo r \<and> int (ndigits (coeff r)) + int n + expo r \<le> 999998"

definition prices_in_range :: "int \<Rightarrow> int \<Rightarrow> model_config \<Rightarrow> bool" where
  "prices_in_range i j m \<longleftrightarrow>
     (let n = max (ndigits (nat i)) (ndigits (nat j)) in
      rate_in_range n (mc_input_cost_per_1m_tokens m)
      \<and> rate_in_range n (mc_output_cost_per_1m_tokens m))"

definition exact_cost :: "int \<Rightarrow> int \<Rightarrow> model_config \<Rightarrow> rat" where
  "exact_cost i j m =
     (dval (mc_input_cost_per_1m_tokens m) * of_int i
      + dval (mc_output_cost_per_1m_tokens m) * of_int j) / 1000000"

subsection \<open>Digits of products and sums\<close>

lemma ndigits_mult: "ndigits (a * b) \<le> ndigits a + ndigits b"
proof -
  have "a * b < 10 ^ ndigits a * 10 ^ ndigits b"
    by (rule mult_strict_mono [OF ndigits_less ndigits_less]) simp_all
  then show ?thesis by (simp add: ndigits_le_iff power_add)
qed

lemma ndigits_scaled_add:
  assumes "ndigits a + k \<le> p" "ndigits b + l \<le> p"
  shows "ndigits (a * 10 ^ k + b * 10 ^ l) \<le> Suc p"
proof -
  have bound: "x * 10 ^ n < 10 ^ p" if "ndigits x + n \<le> p" for x n
  proof -
    have "x * 10 ^ n < 10 ^ ndigits x * 10 ^ n" using ndigits_less [of x] by simp
    also have "\<dots> \<le> 10 ^ p" using that by (simp add: power_add [symmetric] power_increasing)
    finally show ?thesis .
  qed
  have "a * 10 ^ k + b * 10 ^ l < 10 ^ Suc p" using bound [OF assms(1)] bound [OF assms(2)] by simp
  then show ?thesis by (simp only: ndigits_le_iff zero_less_Suc)
qed

subsection \<open>The chosen precision is enough\<close>

lemma mul_tokens_exact:
  assumes "rate_in_range n r" "ndigits i \<le> n" "ndigits (coeff r) + n \<le> prec"
  shows "dec_mul prec r (dec_of_int i) = Inr \<lparr>coeff = coeff r * i, expo = expo r\<rparr>"
proof -
  have "ndigits (coeff r * i) \<le> ndigits (coeff r) + n"
    using ndigits_mult [of "coeff r" i] assms(2) by linarith
  then have "dec_fits prec \<lparr>coeff = coeff r * i, expo = expo r\<rparr>"
    using assms by (auto simp: dec_fits_def rate_in_range_def Emin_def Emax_def)
  then show ?thesis by (simp add: dec_mul_def dec_of_int_def dec_fix_exact)
qed

lemma add_scaled_exact:
  fixes c d :: nat and e f :: int
  assumes "rate_in_range n \<lparr>coeff = c, expo = e\<rparr>" "rate_in_range n \<lparr>coeff = d, expo = f\<rparr>"
    and "ndigits i \<le> n" "ndigits j \<le> n"
    and prec: "ndigits c + nat \<bar>e\<bar> + (ndigits d + nat \<bar>f\<bar>) + n + 10 \<le> prec"
  defines "s \<equiv> dec_add_exact \<lparr>coeff = c * i, expo = e\<rparr> \<lparr>coeff = d * j, expo = f\<rparr>"
  shows "dec_add prec \<lparr>coeff = c * i, expo = e\<rparr> \<lparr>coeff = d * j, expo = f\<rparr> = Inr s"
    and "ndigits (coeff s) \<le> prec" and "Emin \<le> expo s - 6"
    and "int (ndigits (coeff s)) + expo s \<le> Emax"
proof -
  let ?m = "min e f"
  define p where "p = max (ndigits c + n + nat (e - ?m)) (ndigits d + n + nat (f - ?m))"
  have "ndigits (c * i) + nat (e - ?m) \<le> p" "ndigits (d * j) + nat (f - ?m) \<le> p"
    using ndigits_mult [of c i] ndigits_mult [of d j] assms(3,4) unfolding p_def by linarith+
  then have s: "ndigits (coeff s) \<le> Suc p" "expo s = ?m"
    unfolding s_def dec_add_exact_def Let_def dec.select_convs
    by (blast intro: ndigits_scaled_add, simp)
  have "Suc p \<le> prec" using prec unfolding p_def by linarith
  then show nd: "ndigits (coeff s) \<le> prec" using s by linarith
  show lo: "Emin \<le> expo s - 6"
    using assms(1,2) by (auto simp: s rate_in_range_def Emin_def)
  have "int (Suc p) + ?m \<le> Emax"
    using assms(1,2) unfolding p_def rate_in_range_def Emax_def dec.select_convs by linarith
  then show hi: "int (ndigits (coeff s)) + expo s \<le> Emax" using s by linarith
  show "dec_add prec \<lparr>coeff = c * i, expo = e\<rparr> \<lparr>coeff = d * j, expo = f\<rparr> = Inr s"
    unfolding dec_add_def s_def [symmetric]
    by (rule dec_fix_exact) (use nd lo hi in \<open>simp add: dec_fits_def\<close>)
qed

lemma precision_within_limit:
  assumes "prices_in_range (int i) (int j) m"
  shows "max 28 (required_digits m i j) \<le> MAX_PREC"
  using assms
  by (auto simp: prices_in_range_def rate_in_range_def required_digits_def MAX_PREC_def Let_def)

lemma cost_exact_core:
  assumes nonneg: "0 \<le> i" "0 \<le> j" and range: "prices_in_range i j m"
  shows "\<exists>d. calculate_cost i j m = Inr d \<and> dval d = exact_cost i j m"
proof -
  define i' j' where "i' = nat i" and "j' = nat j"
  have ij: "i = int i'" "j = int j'" using nonneg by (simp_all add: i'_def j'_def)
  obtain c e where r0: "mc_input_cost_per_1m_tokens m = \<lparr>coeff = c, expo = e\<rparr>"
    by (metis dec.surjective old.unit.exhaust)
  obtain d f where r1: "mc_output_cost_per_1m_tokens m = \<lparr>coeff = d, expo = f\<rparr>"
    by (metis dec.surjective old.unit.exhaust)
  define n where "n = max (ndigits i') (ndigits j')"
  define prec where "prec = max 28 (required_digits m i' j')"
  have rng: "rate_in_range n \<lparr>coeff = c, expo = e\<rparr>" "rate_in_range n \<lparr>coeff = d, expo = f\<rparr>"
    using range by (simp_all add: prices_in_range_def ij r0 r1 n_def Let_def)
  have need: "ndigits c + nat \<bar>e\<bar> + (ndigits d + nat \<bar>f\<bar>) + n + 10 \<le> prec"
    by (simp add: prec_def required_digits_def r0 r1 n_def)
  define s where "s = dec_add_exact \<lparr>coeff = c * i', expo = e\<rparr> \<lparr>coeff = d * j', expo = f\<rparr>"
  note sum = add_scaled_exact [OF rng _ _ need, of i' j', folded s_def]
  have le: "ndigits i' \<le> n" "ndigits j' \<le> n" by (simp_all add: n_def)
  obtain q where q: "dec_div prec s (dec_of_int 1000000) = Inr q" "dval q = dval s / 1000000"
    using dec_div_million [OF sum(2) sum(3) sum(4)] le by blast
  have lim: "\<not> prec > MAX_PREC"
    using precision_within_limit [OF range [unfolded ij]] unfolding prec_def by (rule leD)
  have "dec_mul prec \<lparr>coeff = c, expo = e\<rparr> (dec_of_int i') = Inr \<lparr>coeff = c * i', expo = e\<rparr>"
       "dec_mul prec \<lparr>coeff = d, expo = f\<rparr> (dec_of_int j') = Inr \<lparr>coeff = d * j', expo = f\<rparr>"
    using mul_tokens_exact [OF rng(1) le(1), of prec] mul_tokens_exact [OF rng(2) le(2), of prec] need
    by simp_all
  then have "calculate_cost i j m = Inr q"
    using nonneg lim sum(1) [OF le] q(1)
    by (simp add: calculate_cost_def Let_def i'_def [symmetric] j'_def [symmetric]
        prec_def [symmetric] r0 r1)
  moreover have "dval s = dval \<lparr>coeff = c, expo = e\<rparr> * of_nat i' + dval \<lparr>coeff = d, expo = f\<rparr> * of_nat j'"
    unfolding s_def dval_add_exact by (simp add: dval_def algebra_simps)
  ultimately show ?thesis using q(2) by (auto simp: exact_cost_def r0 r1 ij)
qed

lemma exact_cost_mono:
  "i \<le> i' \<Longrightarrow> j \<le> j' \<Longrightarrow> exact_cost i j m \<le> exact_cost i' j' m"
  unfolding exact_cost_def by (intro divide_right_mono add_mono mult_left_mono) simp_all

lemma calculate_cost_error_iff:
  assumes "prices_in_range i j m"
  shows "(\<exists>e. calculate_cost i j m = Inl e) \<longleftrightarrow> i < 0 \<or> j < 0"
  using cost_exact_core [OF _ _ assms] by (force simp: calculate_cost_def)

lemma prices_in_range_mono:
  "prices_in_range k k m \<Longrightarrow> 0 \<le> i \<Longrightarrow> 0 \<le> j \<Longrightarrow> i \<le> k \<Longrightarrow> j \<le> k \<Longrightarrow> prices_in_range i j m"
proof -
  assume "prices_in_range k k m" "0 \<le> i" "0 \<le> j" "i \<le> k" "j \<le> k"
  moreover from this have "ndigits (nat i) \<le> ndigits (nat k)" "ndigits (nat j) \<le> ndigits (nat k)"
    by (simp_all add: ndigits_mono)
  ultimately show ?thesis
    by (auto simp: prices_in_range_def rate_in_range_def Let_def max_def)
qed

text \<open>
  Claim C40. The cost of a call is exact: for non-negative counts and rates inside the
  exponent range the function returns, and what it returns is the rational
  (input * rate + output * rate) / 1000000, with no rounding.
\<close>

theorem cost_exact:
  assumes "0 \<le> i" "0 \<le> j" "prices_in_range i j m"
  shows "\<exists>d. calculate_cost i j m = Inr d \<and> dval d = exact_cost i j m"
  using assms by (rule cost_exact_core)

definition sample_priced_model :: model_config where
  "sample_priced_model =
     \<lparr>mc_model_id = ''m'', mc_provider = ''fake'', mc_provider_model_name = ''echo-v1'',
      mc_input_cost_per_1m_tokens = \<lparr>coeff = 15, expo = -2\<rparr>,
      mc_output_cost_per_1m_tokens = \<lparr>coeff = 60, expo = -2\<rparr>,
      mc_context_window = 4096, mc_enabled = True, mc_capabilities = default_capabilities,
      mc_reasoning_effort = None, mc_reasoning_control = GATEWAY_SHARED,
      mc_output_token_policy = default_output_token_policy\<rparr>"

theorem cost_exact_witness:
  "\<exists>d. calculate_cost 1000 200 sample_priced_model = Inr d \<and> dval d = exact_cost 1000 200 sample_priced_model"
proof (rule cost_exact)
  show "prices_in_range 1000 200 sample_priced_model" by code_simp
qed simp_all

end
