(* ===== verification/Portfolio.thy ===== *)
theory Portfolio
  imports Inference_Service Pricing
begin

section \<open>The configured models and the offline adapter\<close>

text \<open>
  \<^verbatim>\<open>providers/gateway_config.py\<close> (the reviewed model list, translated entry by
  entry), \<^verbatim>\<open>providers/fake.py\<close> (the echo adapter) and
  \<^verbatim>\<open>bootstrap.py\<close>. Prices are written as the decimal literals of the source:
  \<^verbatim>\<open>"0.10"\<close> has coefficient 10 and exponent -2.
\<close>

subsection \<open>The portfolio\<close>

record gateway_settings =
  gs_api_key :: "string option"
  gs_timeout_seconds :: rat

definition gateway_settings_valid :: "gateway_settings \<Rightarrow> bool" where
  "gateway_settings_valid s \<longleftrightarrow> 0 < gs_timeout_seconds s \<and> gs_timeout_seconds s \<le> 300"

definition cents :: "nat \<Rightarrow> dec" where
  "cents n = \<lparr>coeff = n, expo = -2\<rparr>"

text \<open>The defaults of \<^verbatim>\<open>ModelConfig\<close>.\<close>

definition configured_model ::
  "string \<Rightarrow> string \<Rightarrow> string \<Rightarrow> dec \<Rightarrow> dec \<Rightarrow> int \<Rightarrow> model_capabilities \<Rightarrow> reasoning_effort option \<Rightarrow> model_config" where
  "configured_model model_id provider provider_name input_rate output_rate window caps effort =
     \<lparr>mc_model_id = model_id, mc_provider = provider, mc_provider_model_name = provider_name,
      mc_input_cost_per_1m_tokens = input_rate, mc_output_cost_per_1m_tokens = output_rate,
      mc_context_window = window, mc_enabled = True, mc_capabilities = caps,
      mc_reasoning_effort = effort, mc_reasoning_control = GATEWAY_SHARED,
      mc_output_token_policy = default_output_token_policy\<rparr>"

definition capabilities_with :: "bool \<Rightarrow> bool \<Rightarrow> reasoning_behavior \<Rightarrow> model_capabilities" where
  "capabilities_with temperature structured reasoning =
     \<lparr>supports_temperature = temperature, supports_structured_output = structured,
      cap_reasoning = reasoning, cap_output_token_accounting = VISIBLE_ONLY\<rparr>"

definition LEGACY_MODELS :: "model_config list" where
  "LEGACY_MODELS =
     [configured_model ''gateway-nano'' ''vercel'' ''openai/gpt-4.1-nano'' (cents 10) (cents 40) 1047576
        (capabilities_with True True RB_UNSUPPORTED) None,
      configured_model ''gateway-mini'' ''vercel'' ''openai/gpt-4.1-mini'' (cents 40) (cents 160) 1047576
        (capabilities_with True True RB_UNSUPPORTED) None,
      configured_model ''gateway-sonnet'' ''vercel'' ''anthropic/claude-sonnet-4.6'' (cents 300) (cents 1500)
        1000000 (capabilities_with True True RB_PROVIDER_DEFAULT) None]"

definition CANDIDATE_MODELS :: "model_config list" where
  "CANDIDATE_MODELS =
     [configured_model ''candidate-nemotron-3.5-lightning'' ''vercel'' ''nvidia/nemotron-3.5-lightning''
        (cents 5) (cents 15) 262144 (capabilities_with True True RB_PROVIDER_DEFAULT) (Some RE_NONE),
      configured_model ''candidate-gpt-6-luna'' ''vercel'' ''openai/gpt-6-luna''
        (cents 10) (cents 50) 1050000 (capabilities_with True True RB_PROVIDER_DEFAULT) (Some RE_LOW),
      (configured_model ''candidate-gemini-3-flash'' ''vercel'' ''google/gemini-3-flash''
        (cents 50) (cents 300) 1000000 (capabilities_with True True RB_PROVIDER_DEFAULT) (Some RE_LOW))
        \<lparr>mc_output_token_policy := default_output_token_policy
           \<lparr>category_overrides := [\<lparr>al_category = ''reasoning'', al_max_output_tokens = 256\<rparr>]\<rparr>\<rparr>,
      configured_model ''candidate-claude-sonnet-5'' ''vercel'' ''anthropic/claude-sonnet-5''
        (cents 200) (cents 1000) 1000000 (capabilities_with False True RB_PROVIDER_DEFAULT) (Some RE_LOW)]"

definition JUDGE_SELECTION_MODELS :: "model_config list" where
  "JUDGE_SELECTION_MODELS =
     [configured_model ''judge-opus-5.5'' ''vercel'' ''anthropic/claude-opus-5.5'' (cents 400) (cents 2000)
        1000000 (capabilities_with False False RB_ADAPTIVE) None,
      configured_model ''judge-gpt-6-astra'' ''vercel'' ''openai/gpt-6-astra'' (cents 1000) (cents 5000)
        1050000 (capabilities_with False True RB_PROVIDER_DEFAULT) None,
      configured_model ''judge-fable-5.1'' ''vercel'' ''anthropic/claude-fable-5.1'' (cents 1000) (cents 5000)
        1000000 (capabilities_with True True RB_PROVIDER_DEFAULT) None]"

definition REAL_MODELS :: "model_config list" where
  "REAL_MODELS = LEGACY_MODELS @ CANDIDATE_MODELS"

definition SEMANTIC_JUDGE_MODELS :: "model_config list" where
  "SEMANTIC_JUDGE_MODELS = REAL_MODELS @ JUDGE_SELECTION_MODELS"

definition UPSTREAM_PROVIDERS :: "string dict" where
  "UPSTREAM_PROVIDERS =
     [(''openai/gpt-4.1-nano'', ''openai''), (''openai/gpt-4.1-mini'', ''openai''),
      (''anthropic/claude-sonnet-4.6'', ''anthropic''),
      (''nvidia/nemotron-3.5-lightning'', ''runinfra''), (''openai/gpt-6-luna'', ''openai''),
      (''google/gemini-3-flash'', ''google''), (''anthropic/claude-sonnet-5'', ''anthropic''),
      (''anthropic/claude-opus-5.5'', ''anthropic''), (''openai/gpt-6-astra'', ''openai''),
      (''anthropic/claude-fable-5.1'', ''anthropic'')]"

subsection \<open>FakeProvider\<close>

text \<open>\<^verbatim>\<open>xs[:n]\<close> of Python, also for a negative bound.\<close>

definition py_take :: "int \<Rightarrow> 'a list \<Rightarrow> 'a list" where
  "py_take n xs = (if 0 \<le> n then take (nat n) xs else take (length xs - nat (- n)) xs)"

definition fake_generate :: "model_config \<Rightarrow> inference_request \<Rightarrow> exn + provider_reply" where
  "fake_generate model request =
     (if \<not> mc_enabled model then Inl (Exn ModelDisabledErrorC)
      else
        let ws = split_ws (rq_prompt request);
            input_tokens = int (length ws + length (split_ws (system_text request))) in
        if input_tokens + rq_max_output_tokens request > mc_context_window model
        then Inl (Exn ContextLimitErrorC)
        else
          let output_words = py_take (rq_max_output_tokens request) ws;
              output_tokens = int (length output_words) in
          case calculate_cost input_tokens output_tokens model of
            Inl c \<Rightarrow> Inl (Exn c)
          | Inr cost \<Rightarrow>
              let r = \<lparr>rs_text = join '' '' output_words, rs_model_id = mc_model_id model,
                       rs_provider = mc_provider model, rs_input_tokens = input_tokens,
                       rs_output_tokens = output_tokens, rs_latency_ms = 0,
                       rs_estimated_cost_usd = cost, rs_termination_reason = TR_COMPLETE,
                       rs_provider_termination_reason = Some ''synthetic_stop''\<rparr>
              in if inference_response_valid r then Inr (Reply r) else Inl (Exn ValidationErrorC))"

text \<open>The adapter inherits \<^verbatim>\<open>generate_with_timeout\<close> from the base class.\<close>

definition fake_provider :: "model_config \<Rightarrow> exn + provider" where
  "fake_provider model =
     (if mc_provider model \<noteq> ''fake'' then Inl (Exn ValueErrorC)
      else Inr \<lparr>pv_generate = (\<lambda>_ _ request. fake_generate model request),
                pv_generate_with_timeout = Some (\<lambda>_ _ request _. fake_generate model request)\<rparr>)"

subsection \<open>Bootstrap\<close>

definition development_models :: "model_config list" where
  "development_models =
     [configured_model ''fake-small'' ''fake'' ''echo-v1'' (cents 15) (cents 60) 4096 default_capabilities None,
      configured_model ''fake-large'' ''fake'' ''echo-v1'' (cents 100) (cents 300) 16384 default_capabilities None]"

definition create_development_service :: "rat \<Rightarrow> exn_class + inference_service" where
  "create_development_service deadline_seconds =
     rbind (registry_register_all empty_registry development_models) (\<lambda>registry.
     rbind (resolver_register [] ''fake'' fake_provider) (\<lambda>resolver.
     new_inference_service registry resolver None 2 deadline_seconds))"

text \<open>The adapter factory of the gateway is a parameter here; \<open>Vercel\<close> provides it.\<close>

definition configure_gateway ::
  "(gateway_settings \<Rightarrow> provider provider_factory) \<Rightarrow> inference_service \<Rightarrow> gateway_settings \<Rightarrow>
   exn_class + inference_service" where
  "configure_gateway vercel sv settings =
     (if gs_api_key settings = None then Inr sv
      else rbind (registry_register_all (sv_registry sv) REAL_MODELS) (\<lambda>registry.
           rbind (resolver_register (sv_resolver sv) ''vercel'' (vercel settings)) (\<lambda>resolver.
           Inr (sv\<lparr>sv_registry := registry, sv_resolver := resolver\<rparr>))))"

subsection \<open>The portfolio is well formed\<close>

lemma rate_in_range_cents [simp]: "c < 10 ^ 30 \<Longrightarrow> rate_in_range 30 (cents c)"
  using ndigits_le_iff [of 30 c] by (simp add: rate_in_range_def cents_def)

lemmas portfolio_defs = SEMANTIC_JUDGE_MODELS_def REAL_MODELS_def LEGACY_MODELS_def
  CANDIDATE_MODELS_def JUDGE_SELECTION_MODELS_def configured_model_def

lemma portfolio_valid: "list_all model_config_valid SEMANTIC_JUDGE_MODELS"
  by code_simp

lemma portfolio_ids: "distinct (map mc_model_id SEMANTIC_JUDGE_MODELS)"
  by code_simp

lemma portfolio_upstream:
  "map mc_provider_model_name SEMANTIC_JUDGE_MODELS = map fst UPSTREAM_PROVIDERS"
  "distinct (map fst UPSTREAM_PROVIDERS)"
  by code_simp+

text \<open>
  Every model of the reviewed list satisfies the validators of its class, no two
  share an identifier, each is priced inside the exact range of the calculator, and each
  has exactly one upstream provider in the allowlist, which has no other entries.
\<close>

theorem portfolio_is_well_formed:
  "list_all model_config_valid SEMANTIC_JUDGE_MODELS
   \<and> distinct (map mc_model_id SEMANTIC_JUDGE_MODELS)
   \<and> list_all (\<lambda>m. mc_enabled m \<and> mc_provider m = ''vercel''
        \<and> rate_in_range 30 (mc_input_cost_per_1m_tokens m)
        \<and> rate_in_range 30 (mc_output_cost_per_1m_tokens m)) SEMANTIC_JUDGE_MODELS
   \<and> map mc_provider_model_name SEMANTIC_JUDGE_MODELS = map fst UPSTREAM_PROVIDERS
   \<and> distinct (map fst UPSTREAM_PROVIDERS)"
  using portfolio_valid portfolio_ids portfolio_upstream by (simp add: portfolio_defs)

subsection \<open>The echo adapter\<close>

text \<open>
  For a valid request that fits the context window the echo adapter answers with a
  valid response: its words are the first requested words of the prompt, its token counts
  are the word counts, the answer stays within the requested limit and the window, and its
  cost is exact.
\<close>

theorem fake_reply_is_a_bounded_echo:
  assumes m: "model_config_valid m" "mc_enabled m" and rq: "inference_request_valid rq"
    and fits: "int (length (split_ws (rq_prompt rq)) + length (split_ws (system_text rq)))
                 + rq_max_output_tokens rq \<le> mc_context_window m"
    and priced: "prices_in_range (mc_context_window m) (mc_context_window m) m"
  shows "\<exists>r. fake_generate m rq = Inr (Reply r) \<and> inference_response_valid r
     \<and> split_ws (rs_text r) = take (nat (rq_max_output_tokens rq)) (split_ws (rq_prompt rq))
     \<and> rs_output_tokens r = int (length (split_ws (rs_text r)))
     \<and> rs_output_tokens r \<le> rq_max_output_tokens rq
     \<and> rs_input_tokens r + rs_output_tokens r \<le> mc_context_window m
     \<and> dval (rs_estimated_cost_usd r) = exact_cost (rs_input_tokens r) (rs_output_tokens r) m"
proof -
  let ?ws = "split_ws (rq_prompt rq)"
  let ?out = "take (nat (rq_max_output_tokens rq)) ?ws"
  let ?i = "int (length ?ws + length (split_ws (system_text rq)))"
  let ?j = "int (length ?out)"
  have pos: "0 < rq_max_output_tokens rq"
    using rq by (simp add: inference_request_valid_def positive_token_count_def)
  have j: "?j \<le> rq_max_output_tokens rq" using pos by auto
  have "prices_in_range ?i ?j m"
    by (rule prices_in_range_mono [OF priced]) (use fits pos j in auto)
  then obtain c where c: "calculate_cost ?i ?j m = Inr c" "dval c = exact_cost ?i ?j m"
    using cost_exact_core [of ?i ?j m] by auto
  have words: "split_ws (join '' '' ?out) = ?out"
    by (rule split_ws_join) (meson in_set_takeD split_ws_words)
  let ?r = "\<lparr>rs_text = join '' '' ?out, rs_model_id = mc_model_id m, rs_provider = mc_provider m,
      rs_input_tokens = ?i, rs_output_tokens = ?j, rs_latency_ms = 0, rs_estimated_cost_usd = c,
      rs_termination_reason = TR_COMPLETE, rs_provider_termination_reason = Some ''synthetic_stop''\<rparr>"
  have "safe_label ''._:/-'' 63 ''synthetic_stop''" by code_simp
  then have valid: "inference_response_valid ?r"
    using m by (simp add: inference_response_valid_def model_config_valid_def token_count_def)
  have "fake_generate m rq = Inr (Reply ?r)"
    using m pos fits c valid by (simp add: fake_generate_def py_take_def Let_def)
  then show ?thesis
    using valid words j fits c(2) by (intro exI [of _ ?r]) simp
qed

subsection \<open>Bootstrap\<close>

lemma configure_gateway_spec:
  assumes reg: "registry_inv (sv_registry sv)" and res: "resolver_inv (sv_resolver sv)"
    and fresh: "\<forall>m\<in>set REAL_MODELS. map_of (sv_registry sv) (mc_model_id m) = None"
    and none: "\<not> resolver_supports (sv_resolver sv) ''vercel''"
  shows "\<exists>sv'. configure_gateway vercel sv settings = Inr sv' \<and> registry_inv (sv_registry sv')
     \<and> registry_list_models (sv_registry sv') =
         registry_list_models (sv_registry sv) @ (if gs_api_key settings = None then [] else REAL_MODELS)
     \<and> (\<forall>k m. registry_get (sv_registry sv) k = Inr m \<longrightarrow> registry_get (sv_registry sv') k = Inr m)
     \<and> (\<forall>m. resolver_supports (sv_resolver sv) (mc_provider m) \<longrightarrow>
          resolver_resolve (sv_resolver sv') m = resolver_resolve (sv_resolver sv) m)"
proof (cases "gs_api_key settings = None")
  case True
  then show ?thesis using reg by (simp add: configure_gateway_def)
next
  case False
  let ?kvs = "map (\<lambda>m. (mc_model_id m, m)) REAL_MODELS"
  have "distinct (map mc_model_id REAL_MODELS)" by code_simp
  then have ids: "distinct (map fst ?kvs)" by (simp add: comp_def)
  have acc: "k = mc_model_id m" if "(k, m) \<in> set ?kvs" for k m
    using that by auto
  have new: "map_of (sv_registry sv) k = None" if "k \<in> fst ` set ?kvs" for k
    using that fresh by auto
  obtain reg' where reg': "registry_register_all (sv_registry sv) REAL_MODELS = Inr reg'"
    using models.insert_all_succeeds [OF reg acc ids new] unfolding registry_register_all_models by blast
  have spec: "registry_inv reg' \<and> registry_list_models reg' = registry_list_models (sv_registry sv) @ map snd ?kvs
     \<and> (\<forall>k. map_of (sv_registry sv) k \<noteq> None \<longrightarrow> map_of reg' k = map_of (sv_registry sv) k)"
    using models.insert_all_spec [OF reg acc reg' [unfolded registry_register_all_models]] by blast
  have "is_identifier ''vercel''" by code_simp
  moreover have "map_of (sv_resolver sv) ''vercel'' = None"
    using none by (simp add: resolver_supports_def map_of_None_keys)
  ultimately obtain res' where res': "resolver_register (sv_resolver sv) ''vercel'' (vercel settings) = Inr res'"
      "map_of res' = (map_of (sv_resolver sv))(''vercel'' \<mapsto> vercel settings)"
    using adapters.insert_new [OF res] by blast
  have "resolver_resolve res' m = resolver_resolve (sv_resolver sv) m"
    if "resolver_supports (sv_resolver sv) (mc_provider m)" for m
  proof -
    have "mc_provider m \<noteq> ''vercel''" using that none by auto
    then show ?thesis by (simp add: resolver_resolve_def res'(2))
  qed
  moreover have "registry_get (sv_registry sv) k = Inr m \<longrightarrow> registry_get reg' k = Inr m" for k m
    using spec by (auto simp: registry_get_def split: option.splits)
  ultimately show ?thesis
    using False reg' res'(1) spec by (auto simp: configure_gateway_def comp_def)
qed

text \<open>
  With a credential, configuring the gateway on a service that has none of its
  models registers every reviewed model in order, keeps every registered model reachable
  unchanged and keeps every adapter; without a credential nothing changes.
\<close>

theorem configure_gateway_adds_the_portfolio:
  assumes reg: "registry_inv (sv_registry sv)" and res: "resolver_inv (sv_resolver sv)"
    and fresh: "\<forall>m\<in>set REAL_MODELS. map_of (sv_registry sv) (mc_model_id m) = None"
    and none: "\<not> resolver_supports (sv_resolver sv) ''vercel''"
  shows "\<exists>sv'. configure_gateway vercel sv settings = Inr sv' \<and> registry_inv (sv_registry sv')
     \<and> registry_list_models (sv_registry sv') =
         registry_list_models (sv_registry sv) @ (if gs_api_key settings = None then [] else REAL_MODELS)
     \<and> (\<forall>k m. registry_get (sv_registry sv) k = Inr m \<longrightarrow> registry_get (sv_registry sv') k = Inr m)
     \<and> (\<forall>m. resolver_supports (sv_resolver sv) (mc_provider m) \<longrightarrow>
          resolver_resolve (sv_resolver sv') m = resolver_resolve (sv_resolver sv) m)"
  using assms by (rule configure_gateway_spec)

end
