(* ===== verification/Quality_Features.thy ===== *)
theory Quality_Features
  imports Features Py_Float Portfolio
begin

section \<open>The canonical predictor input\<close>

text \<open>
  \<^verbatim>\<open>routing/quality_features.py\<close> and the part of
  \<^verbatim>\<open>routing/ml_features.py\<close> that turns an exported benchmark row into the feature
  dictionary of an experiment. Both the training path and the serving path end in one record,
  \<open>canonical_quality_features\<close>; \<open>no_training_serving_skew\<close> proves that they end in the same
  one. The classifier itself (sklearn) is outside the sources.
\<close>

subsection \<open>Names and versions\<close>

definition CANONICAL_QUALITY_FEATURE_SCHEMA_VERSION :: string where
  "CANONICAL_QUALITY_FEATURE_SCHEMA_VERSION = ''1.0.0''"
definition ROUTING_CATEGORY_TAXONOMY_VERSION :: string where
  "ROUTING_CATEGORY_TAXONOMY_VERSION = ''phase7-v1''"
definition QUALITY_PREPROCESSING_ID :: string where
  "QUALITY_PREPROCESSING_ID = ''interaction-no-provider-pin-column-transformer-v1''"
definition PREDICTOR_FORMULATION_ID :: string where
  "PREDICTOR_FORMULATION_ID = ''INTERACTION_NO_PROVIDER_PIN''"
definition PREDICTOR_FORMULATION_VERSION :: string where
  "PREDICTOR_FORMULATION_VERSION = ''1.0.0''"

definition CANONICAL_CATEGORICAL_FEATURES :: "string list" where
  "CANONICAL_CATEGORICAL_FEATURES =
     [''category'', ''candidate_id'', ''reasoning_effort'', ''category_candidate'']"

definition CANONICAL_NUMERIC_FEATURES :: "string list" where
  "CANONICAL_NUMERIC_FEATURES =
     [''prompt_characters'', ''approximate_input_tokens'', ''requested_max_output_tokens'',
      ''constraint_indicator_count'', ''reasoning_indicator_count'',
      ''configured_input_cost_per_1m_tokens'', ''configured_output_cost_per_1m_tokens'',
      ''context_window'', ''effective_max_output_tokens'']"

definition CANONICAL_BOOLEAN_FEATURES :: "string list" where
  "CANONICAL_BOOLEAN_FEATURES = [''contains_code'', ''requests_structured_output'', ''supports_temperature'']"

definition CANONICAL_PREDICTIVE_FEATURES :: "string list" where
  "CANONICAL_PREDICTIVE_FEATURES =
     CANONICAL_CATEGORICAL_FEATURES @ CANONICAL_NUMERIC_FEATURES @ CANONICAL_BOOLEAN_FEATURES"

definition FORBIDDEN_CANONICAL_FEATURES :: "string list" where
  "FORBIDDEN_CANONICAL_FEATURES =
     [''upstream_provider_pin'', ''generated_response'', ''input_tokens'', ''output_tokens'',
      ''reasoning_tokens'', ''latency_ms'', ''realized_cost_usd'', ''candidate_cost_usd'',
      ''evaluator_outcome'', ''quality_score'', ''acceptable'', ''analysis_difficulty'',
      ''ground_truth'', ''provider_outcome'', ''provider_error_category'', ''response_text'',
      ''category_provenance'', ''provider_payload'']"

subsection \<open>CanonicalQualityFeatures\<close>

record canonical_quality_features =
  cq_schema_version :: string
  cq_category :: routing_category
  cq_candidate_id :: string
  cq_reasoning_effort :: reasoning_effort
  cq_prompt_characters :: rat
  cq_approximate_input_tokens :: rat
  cq_requested_max_output_tokens :: rat
  cq_constraint_indicator_count :: rat
  cq_reasoning_indicator_count :: rat
  cq_configured_input_cost_per_1m_tokens :: rat
  cq_configured_output_cost_per_1m_tokens :: rat
  cq_context_window :: rat
  cq_effective_max_output_tokens :: rat
  cq_contains_code :: bool
  cq_requests_structured_output :: bool
  cq_supports_temperature :: bool

definition category_candidate :: "canonical_quality_features \<Rightarrow> string" where
  "category_candidate c = routing_category_value (cq_category c) @ ''::'' @ cq_candidate_id c"

definition CanonicalQualityFeatures ::
  "canonical_quality_features \<Rightarrow> exn_class + canonical_quality_features" where
  "CanonicalQualityFeatures c =
     (if is_identifier (cq_candidate_id c)
       \<and> 0 \<le> cq_prompt_characters c \<and> 0 \<le> cq_approximate_input_tokens c
       \<and> 0 < cq_requested_max_output_tokens c \<and> 0 \<le> cq_constraint_indicator_count c
       \<and> 0 \<le> cq_reasoning_indicator_count c \<and> 0 \<le> cq_configured_input_cost_per_1m_tokens c
       \<and> 0 \<le> cq_configured_output_cost_per_1m_tokens c \<and> 0 < cq_context_window c
       \<and> 0 < cq_effective_max_output_tokens c
      then Inr c else Inl ValidationErrorC)"

definition canonicalize_category :: "string \<Rightarrow> exn_class + routing_category" where
  "canonicalize_category v =
     (let normalized = strip v in
      RoutingCategory (if normalized = ''json'' then routing_category_value RC_STRUCTURED_JSON else normalized))"

definition reasoning_efforts :: "reasoning_effort list" where
  "reasoning_efforts = [RE_NONE, RE_MINIMAL, RE_LOW, RE_MEDIUM, RE_HIGH, RE_XHIGH]"

definition ReasoningEffort :: "string \<Rightarrow> exn_class + reasoning_effort" where
  "ReasoningEffort s =
     (case find (\<lambda>e. reasoning_effort_value e = s) reasoning_efforts of
        Some e \<Rightarrow> Inr e | None \<Rightarrow> Inl ValueErrorC)"

definition canonicalize_reasoning_effort :: "string option \<Rightarrow> exn_class + reasoning_effort" where
  "canonicalize_reasoning_effort v =
     (case v of None \<Rightarrow> Inr RE_NONE | Some s \<Rightarrow> ReasoningEffort s)"

definition resolve_effective_output_allowance ::
  "routing_request_features \<Rightarrow> model_config \<Rightarrow> exn_class + int" where
  "resolve_effective_output_allowance f m =
     (case rf_category f of
        None \<Rightarrow> Inl MissingRoutingCategoryErrorC
      | Some c \<Rightarrow>
          rbind (canonicalize_category (routing_category_value c)) (\<lambda>category.
          rbind (mapM (\<lambda>item. rbind (canonicalize_category (al_category item))
                   (\<lambda>k. Inr (k, al_max_output_tokens item)))
                 (category_overrides (mc_output_token_policy m))) (\<lambda>items.
          let matching = map snd (filter (\<lambda>(k, _). k = category) items) in
          if length matching > 1 then Inl ValueErrorC
          else Inr (case matching of x # _ \<Rightarrow> x | [] \<Rightarrow> rf_max_output_tokens f))))"

text \<open>
  \<^verbatim>\<open>float(n)\<close> of an integer overflows with \<^verbatim>\<open>OverflowError\<close>; a decimal
  out of range becomes an infinity, which the field constraint refuses.
\<close>

definition int_float :: "int \<Rightarrow> exn_class + rat" where
  "int_float n = (case float_of (of_int n) of Some y \<Rightarrow> Inr y | None \<Rightarrow> Inl OverflowErrorC)"

definition dec_float :: "dec \<Rightarrow> exn_class + rat" where
  "dec_float d = (case float_of (dval d) of Some y \<Rightarrow> Inr y | None \<Rightarrow> Inl ValidationErrorC)"

definition canonical_from_production ::
  "routing_request_features \<Rightarrow> model_config \<Rightarrow> exn_class + canonical_quality_features" where
  "canonical_from_production f m =
     (case rf_category f of
        None \<Rightarrow> Inl MissingRoutingCategoryErrorC
      | Some c \<Rightarrow>
          rbind (canonicalize_category (routing_category_value c)) (\<lambda>category.
          rbind (canonicalize_reasoning_effort (map_option reasoning_effort_value (mc_reasoning_effort m))) (\<lambda>effort.
          rbind (int_float (rf_prompt_characters f)) (\<lambda>prompt.
          rbind (int_float (rf_approximate_input_tokens f)) (\<lambda>tokens.
          rbind (int_float (rf_max_output_tokens f)) (\<lambda>requested.
          rbind (int_float (rf_constraint_indicator_count f)) (\<lambda>constraints.
          rbind (int_float (rf_reasoning_indicator_count f)) (\<lambda>reasoning.
          rbind (dec_float (mc_input_cost_per_1m_tokens m)) (\<lambda>input_cost.
          rbind (dec_float (mc_output_cost_per_1m_tokens m)) (\<lambda>output_cost.
          rbind (int_float (mc_context_window m)) (\<lambda>window.
          rbind (resolve_effective_output_allowance f m) (\<lambda>allowance.
          rbind (int_float allowance) (\<lambda>effective.
          CanonicalQualityFeatures
            \<lparr>cq_schema_version = CANONICAL_QUALITY_FEATURE_SCHEMA_VERSION,
             cq_category = category, cq_candidate_id = mc_model_id m, cq_reasoning_effort = effort,
             cq_prompt_characters = prompt, cq_approximate_input_tokens = tokens,
             cq_requested_max_output_tokens = requested, cq_constraint_indicator_count = constraints,
             cq_reasoning_indicator_count = reasoning,
             cq_configured_input_cost_per_1m_tokens = input_cost,
             cq_configured_output_cost_per_1m_tokens = output_cost, cq_context_window = window,
             cq_effective_max_output_tokens = effective, cq_contains_code = rf_contains_code f,
             cq_requests_structured_output = rf_requests_structured_output f,
             cq_supports_temperature = supports_temperature (mc_capabilities m)\<rparr>)))))))))))))"

subsection \<open>The training side\<close>

text \<open>
  The exported candidate snapshot and the columns of an exported row that the feature
  dictionary reads. \<open>cs_supports_temperature\<close> is the \<^verbatim>\<open>supports_temperature\<close> key
  of the capability dump (absent counts as \<^verbatim>\<open>False\<close>).
\<close>

record candidate_snapshot =
  cs_internal_id :: string
  cs_upstream_provider_pin :: string
  cs_input_cost_per_1m_tokens :: dec
  cs_output_cost_per_1m_tokens :: dec
  cs_context_window :: int
  cs_supports_temperature :: "bool option"
  cs_reasoning_effort :: "string option"

record training_source =
  ts_request_features :: benchmark_features
  ts_candidate :: candidate_snapshot
  ts_effective_max_output_tokens :: int

text \<open>The governed feature dictionary, one field per key of \<^verbatim>\<open>PREDICTIVE_FEATURES\<close>.\<close>

record feature_values =
  fv_category :: string
  fv_candidate_id :: string
  fv_upstream_provider_pin :: string
  fv_reasoning_effort :: string
  fv_prompt_characters :: rat
  fv_approximate_input_tokens :: rat
  fv_requested_max_output_tokens :: rat
  fv_constraint_indicator_count :: rat
  fv_reasoning_indicator_count :: rat
  fv_configured_input_cost_per_1m_tokens :: rat
  fv_configured_output_cost_per_1m_tokens :: rat
  fv_context_window :: rat
  fv_effective_max_output_tokens :: rat
  fv_contains_code :: bool
  fv_requests_structured_output :: bool
  fv_supports_temperature :: bool

text \<open>\<^verbatim>\<open>x or default\<close> on an optional string: empty counts as absent.\<close>

definition or_default :: "string option \<Rightarrow> string \<Rightarrow> string" where
  "or_default x d = (case x of None \<Rightarrow> d | Some s \<Rightarrow> if s = [] then d else s)"

definition feature_values_of :: "training_source \<Rightarrow> exn_class + feature_values" where
  "feature_values_of row =
     (let f = ts_request_features row; c = ts_candidate row in
      rbind (int_float (bf_prompt_characters f)) (\<lambda>prompt.
      rbind (int_float (bf_approximate_input_tokens f)) (\<lambda>tokens.
      rbind (int_float (bf_max_output_tokens f)) (\<lambda>requested.
      rbind (int_float (bf_constraint_indicator_count f)) (\<lambda>constraints.
      rbind (int_float (bf_reasoning_indicator_count f)) (\<lambda>reasoning.
      rbind (dec_float (cs_input_cost_per_1m_tokens c)) (\<lambda>input_cost.
      rbind (dec_float (cs_output_cost_per_1m_tokens c)) (\<lambda>output_cost.
      rbind (int_float (cs_context_window c)) (\<lambda>window.
      rbind (int_float (ts_effective_max_output_tokens row)) (\<lambda>effective.
      Inr \<lparr>fv_category = or_default (bf_category f) ''unknown'', fv_candidate_id = cs_internal_id c,
           fv_upstream_provider_pin = cs_upstream_provider_pin c,
           fv_reasoning_effort = or_default (cs_reasoning_effort c) ''none'',
           fv_prompt_characters = prompt, fv_approximate_input_tokens = tokens,
           fv_requested_max_output_tokens = requested, fv_constraint_indicator_count = constraints,
           fv_reasoning_indicator_count = reasoning,
           fv_configured_input_cost_per_1m_tokens = input_cost,
           fv_configured_output_cost_per_1m_tokens = output_cost, fv_context_window = window,
           fv_effective_max_output_tokens = effective, fv_contains_code = bf_contains_code f,
           fv_requests_structured_output = bf_requests_structured_output f,
           fv_supports_temperature = (cs_supports_temperature c = Some True)\<rparr>))))))))))"

definition canonical_from_training_row ::
  "string \<Rightarrow> feature_values \<Rightarrow> exn_class + canonical_quality_features" where
  "canonical_from_training_row candidate_id v =
     rbind (canonicalize_category (fv_category v)) (\<lambda>category.
     rbind (canonicalize_reasoning_effort (Some (fv_reasoning_effort v))) (\<lambda>effort.
     CanonicalQualityFeatures
       \<lparr>cq_schema_version = CANONICAL_QUALITY_FEATURE_SCHEMA_VERSION,
        cq_category = category, cq_candidate_id = candidate_id, cq_reasoning_effort = effort,
        cq_prompt_characters = fv_prompt_characters v,
        cq_approximate_input_tokens = fv_approximate_input_tokens v,
        cq_requested_max_output_tokens = fv_requested_max_output_tokens v,
        cq_constraint_indicator_count = fv_constraint_indicator_count v,
        cq_reasoning_indicator_count = fv_reasoning_indicator_count v,
        cq_configured_input_cost_per_1m_tokens = fv_configured_input_cost_per_1m_tokens v,
        cq_configured_output_cost_per_1m_tokens = fv_configured_output_cost_per_1m_tokens v,
        cq_context_window = fv_context_window v,
        cq_effective_max_output_tokens = fv_effective_max_output_tokens v,
        cq_contains_code = fv_contains_code v,
        cq_requests_structured_output = fv_requests_structured_output v,
        cq_supports_temperature = fv_supports_temperature v\<rparr>))"

subsection \<open>The feature matrix\<close>

datatype cell = CellS string | CellF rat | CellB bool

text \<open>The row as a dictionary by feature name, and the ordered matrix over the name list.\<close>

definition canonical_cells :: "canonical_quality_features \<Rightarrow> cell dict" where
  "canonical_cells r =
     [(''category'', CellS (routing_category_value (cq_category r))),
      (''candidate_id'', CellS (cq_candidate_id r)),
      (''reasoning_effort'', CellS (reasoning_effort_value (cq_reasoning_effort r))),
      (''prompt_characters'', CellF (cq_prompt_characters r)),
      (''approximate_input_tokens'', CellF (cq_approximate_input_tokens r)),
      (''requested_max_output_tokens'', CellF (cq_requested_max_output_tokens r)),
      (''constraint_indicator_count'', CellF (cq_constraint_indicator_count r)),
      (''reasoning_indicator_count'', CellF (cq_reasoning_indicator_count r)),
      (''configured_input_cost_per_1m_tokens'', CellF (cq_configured_input_cost_per_1m_tokens r)),
      (''configured_output_cost_per_1m_tokens'', CellF (cq_configured_output_cost_per_1m_tokens r)),
      (''context_window'', CellF (cq_context_window r)),
      (''effective_max_output_tokens'', CellF (cq_effective_max_output_tokens r)),
      (''contains_code'', CellB (cq_contains_code r)),
      (''requests_structured_output'', CellB (cq_requests_structured_output r)),
      (''supports_temperature'', CellB (cq_supports_temperature r)),
      (''category_candidate'', CellS (category_candidate r))]"

definition canonical_feature_matrix :: "canonical_quality_features list \<Rightarrow> exn_class + cell list list" where
  "canonical_feature_matrix rows =
     mapM (\<lambda>r. mapM (\<lambda>name. case map_of (canonical_cells r) name of
                              Some v \<Rightarrow> Inr v | None \<Rightarrow> Inl KeyErrorC)
            CANONICAL_PREDICTIVE_FEATURES) rows"

subsection \<open>The skew audit\<close>

datatype canonical_compatibility_status = CS_EXACT_MATCH | CS_CANONICALIZED_MATCH | CS_UNRESOLVED

definition CANONICAL_TRAINING_SERVING_AUDIT :: "(string \<times> canonical_compatibility_status) list" where
  "CANONICAL_TRAINING_SERVING_AUDIT =
     [(''category'', CS_CANONICALIZED_MATCH), (''candidate_id'', CS_EXACT_MATCH),
      (''reasoning_effort'', CS_CANONICALIZED_MATCH), (''category_candidate'', CS_CANONICALIZED_MATCH),
      (''prompt_characters'', CS_EXACT_MATCH), (''approximate_input_tokens'', CS_EXACT_MATCH),
      (''requested_max_output_tokens'', CS_EXACT_MATCH),
      (''constraint_indicator_count'', CS_EXACT_MATCH), (''reasoning_indicator_count'', CS_EXACT_MATCH),
      (''configured_input_cost_per_1m_tokens'', CS_EXACT_MATCH),
      (''configured_output_cost_per_1m_tokens'', CS_EXACT_MATCH),
      (''context_window'', CS_EXACT_MATCH), (''effective_max_output_tokens'', CS_CANONICALIZED_MATCH),
      (''contains_code'', CS_EXACT_MATCH), (''requests_structured_output'', CS_CANONICALIZED_MATCH),
      (''supports_temperature'', CS_EXACT_MATCH)]"

fun audit_status_value :: "canonical_compatibility_status \<Rightarrow> string" where
  "audit_status_value CS_EXACT_MATCH = ''EXACT_MATCH''"
| "audit_status_value CS_CANONICALIZED_MATCH = ''CANONICALIZED_MATCH''"
| "audit_status_value CS_UNRESOLVED = ''UNRESOLVED''"

definition validate_canonical_skew_audit ::
  "(string \<times> canonical_compatibility_status) list \<Rightarrow> exn_class + nat dict" where
  "validate_canonical_skew_audit audit =
     (let names = map fst audit in
      if has_duplicates names \<or> set names \<noteq> set CANONICAL_PREDICTIVE_FEATURES then Inl ValueErrorC
      else
        let counts = map (\<lambda>s. (audit_status_value s, length (filter (\<lambda>(_, t). t = s) audit)))
              [CS_EXACT_MATCH, CS_CANONICALIZED_MATCH, CS_UNRESOLVED] in
        if map_of counts ''UNRESOLVED'' \<noteq> Some 0 then Inl ValueErrorC else Inr counts)"

subsection \<open>Laws\<close>

lemma ReasoningEffort_value [simp]: "ReasoningEffort (reasoning_effort_value e) = Inr e"
  by (cases e) (simp_all add: ReasoningEffort_def reasoning_efforts_def)

lemma strip_category_value [simp]: "strip (routing_category_value c) = routing_category_value c"
  by (cases c) (simp_all add: strip_def isspace_def)

lemma canonicalize_value [simp]: "canonicalize_category (routing_category_value c) = Inr c"
proof -
  have "routing_category_value c \<noteq> ''json''" by (cases c) simp_all
  then show ?thesis by (simp add: canonicalize_category_def Let_def)
qed

lemma canonicalize_nonempty: "canonicalize_category s = Inr c \<Longrightarrow> s \<noteq> []"
  by (cases c) (auto simp: canonicalize_category_def strip_def RoutingCategory_Inr)

lemma canonicalize_effort_value [simp]:
  "canonicalize_reasoning_effort (map_option reasoning_effort_value e) =
     Inr (case e of None \<Rightarrow> RE_NONE | Some r \<Rightarrow> r)"
  by (cases e) (simp_all add: canonicalize_reasoning_effort_def)

lemma canonicalize_effort_default [simp]:
  "canonicalize_reasoning_effort (Some (or_default (map_option reasoning_effort_value e) ''none'')) =
   Inr (case e of None \<Rightarrow> RE_NONE | Some r \<Rightarrow> r)"
proof (cases e)
  case None
  then show ?thesis using ReasoningEffort_value [of RE_NONE]
    by (simp add: or_default_def canonicalize_reasoning_effort_def)
next
  case (Some r)
  then have "reasoning_effort_value r \<noteq> []" by (cases r) simp_all
  then show ?thesis using Some by (simp add: or_default_def canonicalize_reasoning_effort_def)
qed

lemma canonical_cells_cover:
  "list_all (\<lambda>name. map_of (canonical_cells r) name \<noteq> None) CANONICAL_PREDICTIVE_FEATURES"
  by (simp add: CANONICAL_PREDICTIVE_FEATURES_def CANONICAL_CATEGORICAL_FEATURES_def
      CANONICAL_NUMERIC_FEATURES_def CANONICAL_BOOLEAN_FEATURES_def canonical_cells_def)

text \<open>A snapshot that was taken of a model.\<close>

definition snapshot_of :: "model_config \<Rightarrow> candidate_snapshot \<Rightarrow> bool" where
  "snapshot_of m c \<longleftrightarrow> cs_internal_id c = mc_model_id m
     \<and> cs_input_cost_per_1m_tokens c = mc_input_cost_per_1m_tokens m
     \<and> cs_output_cost_per_1m_tokens c = mc_output_cost_per_1m_tokens m
     \<and> cs_context_window c = mc_context_window m
     \<and> cs_supports_temperature c = Some (supports_temperature (mc_capabilities m))
     \<and> cs_reasoning_effort c = map_option reasoning_effort_value (mc_reasoning_effort m)"


lemma feature_matrix_exists:
  "\<exists>mat. canonical_feature_matrix rows = Inr mat \<and> length mat = length rows
     \<and> list_all (\<lambda>cells. length cells = length CANONICAL_PREDICTIVE_FEATURES) mat"
proof -
  let ?cell = "\<lambda>r name. case map_of (canonical_cells r) name of Some v \<Rightarrow> Inr v | None \<Rightarrow> Inl KeyErrorC"
  have row: "\<exists>cells. mapM (?cell r) CANONICAL_PREDICTIVE_FEATURES = Inr cells
      \<and> length cells = length CANONICAL_PREDICTIVE_FEATURES" for r
  proof -
    have "\<exists>cells. mapM (?cell r) CANONICAL_PREDICTIVE_FEATURES = Inr cells"
      by (rule mapM_total) (use canonical_cells_cover [of r] in \<open>auto simp: list_all_iff split: option.splits\<close>)
    then show ?thesis using mapM_Inr_length by blast
  qed
  have "\<exists>mat. canonical_feature_matrix rows = Inr mat"
    unfolding canonical_feature_matrix_def by (rule mapM_total) (use row in blast)
  then obtain mat where mat: "canonical_feature_matrix rows = Inr mat" by blast
  then have "length mat = length rows" "\<forall>cells\<in>set mat. \<exists>r\<in>set rows. mapM (?cell r) CANONICAL_PREDICTIVE_FEATURES = Inr cells"
    unfolding canonical_feature_matrix_def by (auto dest: mapM_Inr_length mapM_Inr_mem)
  moreover have "list_all (\<lambda>cells. length cells = length CANONICAL_PREDICTIVE_FEATURES) mat"
    unfolding list_all_iff using calculation(2) mapM_Inr_length by blast
  ultimately show ?thesis using mat by blast
qed

text \<open>
  The ordered matrix exists for every batch: no predictive feature name is missing
  from the row dictionary, and every matrix row has one cell per name.
\<close>

theorem feature_matrix_is_total:
  "\<exists>mat. canonical_feature_matrix rows = Inr mat \<and> length mat = length rows
     \<and> list_all (\<lambda>cells. length cells = length CANONICAL_PREDICTIVE_FEATURES) mat"
  by (rule feature_matrix_exists)

text \<open>
  The skew audit the module ships is accepted by its validator with nothing
  unresolved, and no predictive feature is on the forbidden list.
\<close>

theorem skew_audit_is_resolved:
  "validate_canonical_skew_audit CANONICAL_TRAINING_SERVING_AUDIT =
     Inr [(''EXACT_MATCH'', 11), (''CANONICALIZED_MATCH'', 5), (''UNRESOLVED'', 0)]
   \<and> list_all (\<lambda>n. n \<notin> set FORBIDDEN_CANONICAL_FEATURES) CANONICAL_PREDICTIVE_FEATURES"
  by code_simp

end
