(* ===== verification/Routing_Service.thy ===== *)
theory Routing_Service
  imports Policy Quality_Features
begin

section \<open>RoutingDecisionService\<close>

text \<open>
  \<^verbatim>\<open>routing/service.py\<close>: extract the features, predict, price each candidate and
  delegate the selection. The predictor and the optional eligibility filter are interfaces,
  so they are fields holding functions.
\<close>

type_synonym quality_predictor =
  "routing_request_features \<Rightarrow> model_config list \<Rightarrow> exn_class + model_acceptability_prediction list"

record routing_service =
  rt_predictor :: quality_predictor
  rt_eligibility_filter :: "(routing_request_features \<Rightarrow> model_config list \<Rightarrow> model_config list) option"

record routing_candidate_snapshot = candidate_prediction +
  sn_qualifies :: bool

record routing_result =
  rr_decision :: routing_decision
  rr_candidates :: "routing_candidate_snapshot list"

definition CandidatePrediction :: "string \<Rightarrow> rat \<Rightarrow> dec \<Rightarrow> exn_class + candidate_prediction" where
  "CandidatePrediction model_id p cost =
     (if in_unit p \<and> is_identifier model_id
      then Inr \<lparr>cp_model_id = model_id, cp_predicted_acceptability = p, cp_projected_cost_usd = cost\<rparr>
      else Inl ValidationErrorC)"

definition price_candidate ::
  "routing_request_features \<Rightarrow> model_acceptability_prediction list \<Rightarrow> model_config \<Rightarrow>
   exn_class + candidate_prediction" where
  "price_candidate f predictions candidate =
     (case map_of (map (\<lambda>p. (mp_model_id p, p)) predictions) (mc_model_id candidate) of
        None \<Rightarrow> Inl KeyErrorC
      | Some p \<Rightarrow>
          rbind (resolve_effective_output_allowance f candidate) (\<lambda>allowance.
          rbind (calculate_projected_cost (rf_approximate_input_tokens f) allowance candidate) (\<lambda>cost.
          CandidatePrediction (mc_model_id candidate) (mp_predicted_acceptability p) cost)))"

definition snapshot_candidate :: "rat \<Rightarrow> candidate_prediction \<Rightarrow> routing_candidate_snapshot" where
  "snapshot_candidate threshold c =
     \<lparr>cp_model_id = cp_model_id c, cp_predicted_acceptability = cp_predicted_acceptability c,
      cp_projected_cost_usd = cp_projected_cost_usd c,
      sn_qualifies = (threshold \<le> cp_predicted_acceptability c)\<rparr>"

definition route_features_with_snapshot ::
  "routing_service \<Rightarrow> routing_request_features \<Rightarrow> model_config list \<Rightarrow> py_value \<Rightarrow> exn_class + routing_result" where
  "route_features_with_snapshot svc f candidates quality_threshold =
     (let eligible = (case rt_eligibility_filter svc of None \<Rightarrow> candidates | Some flt \<Rightarrow> flt f candidates);
          eligible_ids = map mc_model_id eligible in
      if has_duplicates eligible_ids then Inl DuplicateCandidatePredictionErrorC
      else rbind (rt_predictor svc f eligible) (\<lambda>predictions.
        let predicted_ids = map mp_model_id predictions in
        if has_duplicates predicted_ids then Inl DuplicateCandidatePredictionErrorC
        else if set predicted_ids \<noteq> set eligible_ids \<or> length predicted_ids \<noteq> length eligible_ids
        then Inl PredictorInputCompatibilityErrorC
        else rbind (mapM (price_candidate f predictions) eligible) (\<lambda>priced.
             rbind (policy_route priced quality_threshold) (\<lambda>decision.
             Inr \<lparr>rr_decision = decision,
                  rr_candidates = map (snapshot_candidate (dc_quality_threshold decision)) priced\<rparr>))))"

definition route_features ::
  "routing_service \<Rightarrow> routing_request_features \<Rightarrow> model_config list \<Rightarrow> py_value \<Rightarrow> exn_class + routing_decision" where
  "route_features svc f candidates quality_threshold =
     rbind (route_features_with_snapshot svc f candidates quality_threshold) (\<lambda>r. Inr (rr_decision r))"

definition route_with_snapshot ::
  "routing_service \<Rightarrow> inference_request \<Rightarrow> model_config list \<Rightarrow> py_value \<Rightarrow> string option \<Rightarrow> bool \<Rightarrow>
   exn_class + routing_result" where
  "route_with_snapshot svc request candidates quality_threshold category_hint structured =
     rbind (extract_features request category_hint structured) (\<lambda>f.
       route_features_with_snapshot svc f candidates quality_threshold)"

definition route ::
  "routing_service \<Rightarrow> inference_request \<Rightarrow> model_config list \<Rightarrow> py_value \<Rightarrow> string option \<Rightarrow> bool \<Rightarrow>
   exn_class + routing_decision" where
  "route svc request candidates quality_threshold category_hint structured =
     rbind (route_with_snapshot svc request candidates quality_threshold category_hint structured)
       (\<lambda>r. Inr (rr_decision r))"

subsection \<open>Laws\<close>

lemma price_candidate_Inr:
  "price_candidate f ps m = Inr c \<Longrightarrow> cp_model_id c = mc_model_id m
     \<and> (\<exists>p\<in>set ps. mp_model_id p = mc_model_id m \<and> cp_predicted_acceptability c = mp_predicted_acceptability p)
     \<and> (\<exists>a. resolve_effective_output_allowance f m = Inr a
          \<and> calculate_projected_cost (rf_approximate_input_tokens f) a m = Inr (cp_projected_cost_usd c))"
  by (auto simp: price_candidate_def CandidatePrediction_def rbind_eq_Inr
      split: option.splits if_splits dest!: map_of_SomeD) blast

lemma snapshot_fields [simp]:
  "cp_model_id (snapshot_candidate t c) = cp_model_id c"
  "cp_predicted_acceptability (snapshot_candidate t c) = cp_predicted_acceptability c"
  "cp_projected_cost_usd (snapshot_candidate t c) = cp_projected_cost_usd c"
  "sn_qualifies (snapshot_candidate t c) = (t \<le> cp_predicted_acceptability c)"
  by (simp_all add: snapshot_candidate_def)

text \<open>The candidates the service considered.\<close>

definition eligible_for :: "routing_service \<Rightarrow> routing_request_features \<Rightarrow> model_config list \<Rightarrow> model_config list" where
  "eligible_for svc f cands =
     (case rt_eligibility_filter svc of None \<Rightarrow> cands | Some flt \<Rightarrow> flt f cands)"

lemma route_features_Inr:
  assumes "route_features_with_snapshot svc f cands v = Inr r"
  obtains ps priced where
    "rt_predictor svc f (eligible_for svc f cands) = Inr ps"
    "mapM (price_candidate f ps) (eligible_for svc f cands) = Inr priced"
    "policy_route priced v = Inr (rr_decision r)"
    "rr_candidates r = map (snapshot_candidate (dc_quality_threshold (rr_decision r))) priced"
    "distinct (map mc_model_id (eligible_for svc f cands))"
    "distinct (map mp_model_id ps)"
    "set (map mp_model_id ps) = set (map mc_model_id (eligible_for svc f cands))"
  using assms by (auto simp: route_features_with_snapshot_def eligible_for_def [symmetric] Let_def
      rbind_eq_Inr split: if_splits)

text \<open>
  A routing result is faithful to its inputs: one snapshot per considered candidate,
  in their order; every snapshot carries the predictor's probability and the projected cost
  computed from the resolved allowance; a candidate qualifies exactly when it reaches the
  threshold; and the decision satisfies the policy specification on these snapshots.
\<close>

theorem routing_result_is_faithful:
  assumes "route_features_with_snapshot svc f cands v = Inr r"
  shows "\<exists>ps priced t. rt_predictor svc f (eligible_for svc f cands) = Inr ps
     \<and> validate_quality_threshold v = Inr t \<and> dc_quality_threshold (rr_decision r) = t
     \<and> decision_spec priced t (rr_decision r)
     \<and> rr_candidates r = map (snapshot_candidate t) priced
     \<and> list_all2 (\<lambda>m s. cp_model_id s = mc_model_id m
          \<and> (\<exists>p\<in>set ps. mp_model_id p = mc_model_id m
                \<and> cp_predicted_acceptability s = mp_predicted_acceptability p)
          \<and> (\<exists>a. resolve_effective_output_allowance f m = Inr a
                \<and> calculate_cost (rf_approximate_input_tokens f) a m = Inr (cp_projected_cost_usd s))
          \<and> sn_qualifies s = (t \<le> cp_predicted_acceptability s))
        (eligible_for svc f cands) (rr_candidates r)"
proof -
  obtain ps priced where r: "rt_predictor svc f (eligible_for svc f cands) = Inr ps"
    "mapM (price_candidate f ps) (eligible_for svc f cands) = Inr priced"
    "policy_route priced v = Inr (rr_decision r)"
    "rr_candidates r = map (snapshot_candidate (dc_quality_threshold (rr_decision r))) priced"
    by (rule route_features_Inr [OF assms])
  obtain t where t: "validate_quality_threshold v = Inr t" "decision_spec priced t (rr_decision r)"
    using policy_route_Inr [OF r(3)] by blast
  then have dt: "dc_quality_threshold (rr_decision r) = t" by (auto simp: decision_spec_def)
  have "list_all2 (\<lambda>m s. price_candidate f ps m = Inr s) (eligible_for svc f cands) priced"
    using r(2) by (simp add: mapM_Inr_iff)
  then have "list_all2 (\<lambda>m s. cp_model_id s = mc_model_id m
          \<and> (\<exists>p\<in>set ps. mp_model_id p = mc_model_id m
                \<and> cp_predicted_acceptability s = mp_predicted_acceptability p)
          \<and> (\<exists>a. resolve_effective_output_allowance f m = Inr a
                \<and> calculate_cost (rf_approximate_input_tokens f) a m = Inr (cp_projected_cost_usd s))
          \<and> sn_qualifies s = (t \<le> cp_predicted_acceptability s))
        (eligible_for svc f cands) (rr_candidates r)"
    unfolding r(4) dt list_all2_map2
    by (rule list_all2_mono) (use price_candidate_Inr in \<open>simp add: calculate_projected_cost_def\<close>)
  then show ?thesis using r t dt by blast
qed

end
