(* ===== verification/Predictor.thy ===== *)
theory Predictor
  imports Routing_Service Json
begin

section \<open>The trusted predictor artifact\<close>

text \<open>
  \<^verbatim>\<open>routing/predictor.py\<close>. The artifact directory is read through a record of its two
  files; the hash function, the unpickling of the model and the JSON schema validation of the
  metadata dictionary are code outside the sources, so they are parameters, together with the
  versions of the running interpreter and of sklearn. What the sources decide is modelled:
  which metadata is accepted, in which order the checks run, which exception each failure
  becomes, and what a loaded predictor answers.
\<close>

definition ARTIFACT_FORMAT_VERSION :: string where "ARTIFACT_FORMAT_VERSION = ''1.0.0''"
definition ARTIFACT_MODEL_FILENAME :: string where "ARTIFACT_MODEL_FILENAME = ''predictor.pkl''"
definition PRODUCTION_ARTIFACT_FORMAT_VERSION :: string where
  "PRODUCTION_ARTIFACT_FORMAT_VERSION = ''routellm-production-router-v1''"
definition PRODUCTION_PREDICTOR_SHA256 :: string where
  "PRODUCTION_PREDICTOR_SHA256 = ''502db83a54c4072c9741a8e4c406498ad88ec97e03bce1ddaf3e0a1b0001c0aa''"
definition PRODUCTION_PROTOCOL_VERSION :: string where "PRODUCTION_PROTOCOL_VERSION = ''1.7.0''"
definition PRODUCTION_PROTOCOL_SHA256 :: string where
  "PRODUCTION_PROTOCOL_SHA256 = ''b4cde3954a8ccd1b54684dcb62da303e7bc806248306464ae536b9ff717a0bd8''"
definition PRODUCTION_SPLIT_SHA256 :: string where
  "PRODUCTION_SPLIT_SHA256 = ''98c639be29da4e11fdf48073d74e83805f16fdfb72b0102b5f5543213ab4960b''"
definition PRODUCTION_TRAINING_DATASET_SHA256 :: string where
  "PRODUCTION_TRAINING_DATASET_SHA256 = ''1a9cadc2d557eacb4a7dce450100cdb495a2659c2862845ce9894cf0a7791005''"
definition PRODUCTION_SOURCE_RUN_ID :: string where
  "PRODUCTION_SOURCE_RUN_ID = ''cc28470f-55ed-4a2f-a6ee-8d25cf93ecd2''"
definition FOUNDATION_V3_SHA256 :: string where
  "FOUNDATION_V3_SHA256 = ''64eda8e7388233f645906412a2524982ebfb9c848c42ee24a468ba04c31d16e6''"
definition FOUNDATION_V3_PROTOCOL_SHA256 :: string where
  "FOUNDATION_V3_PROTOCOL_SHA256 = ''973c46e2dfd7c5739f623ff1c7f2378dc3e77c80e5815e23c975816700d4b861''"
definition PHASE_8C0_FORMULATION_EVIDENCE :: string where
  "PHASE_8C0_FORMULATION_EVIDENCE = ''PHASE_8C_0_PROVIDER_PIN_ABLATION''"
definition FOUNDATION_V3_CANDIDATE_IDS :: "string list" where
  "FOUNDATION_V3_CANDIDATE_IDS =
     [''candidate-claude-sonnet-5'', ''candidate-gemini-3-flash'', ''candidate-gpt-6-luna'',
      ''candidate-nemotron-3.5-lightning'']"

text \<open>The double nearest to 0.80.\<close>

definition PRODUCTION_QUALITY_THRESHOLD :: rat where
  "PRODUCTION_QUALITY_THRESHOLD = 3602879701896397 / 4503599627370496"

record artifact_metadata =
  am_artifact_format_version :: string
  am_predictor_formulation_id :: string
  am_predictor_formulation_version :: string
  am_canonical_feature_schema_version :: string
  am_category_taxonomy_version :: string
  am_training_dataset_name :: string
  am_training_dataset_version :: string
  am_training_dataset_sha256 :: string
  am_foundation_v3_protocol_sha256 :: string
  am_formulation_evidence :: string
  am_valid_training_rows :: int
  am_missing_label_rows :: int
  am_known_candidate_ids :: "string list"
  am_known_categories :: "routing_category list"
  am_sklearn_version :: string
  am_python_version :: string
  am_preprocessing_id :: string
  am_build_entrypoint :: string
  am_model_filename :: string
  am_model_sha256 :: string

record production_metadata =
  pm_approved_quality_threshold :: rat
  pm_artifact_format_version :: string
  pm_canonical_feature_schema_version :: string
  pm_approval_decision :: string
  pm_approval_phase :: string
  pm_approval_statement :: string
  pm_known_candidate_ids :: "string list"
  pm_known_categories :: "routing_category list"
  pm_model_filename :: string
  pm_predictor_formulation_id :: string
  pm_predictor_formulation_version :: string
  pm_predictor_sha256 :: string
  pm_preprocessing_id :: string
  pm_protocol_sha256 :: string
  pm_protocol_version :: string
  pm_python_major_minor :: string
  pm_scikit_learn_version :: string
  pm_source_artifact_format_version :: string
  pm_source_deployment_status :: string
  pm_source_missing_label_rows :: int
  pm_source_run_id :: string
  pm_source_split_sha256 :: string
  pm_source_training_dataset_sha256 :: string
  pm_source_valid_training_rows :: int

text \<open>The versions of the running process.\<close>

record runtime_versions =
  rv_sklearn :: string
  rv_python :: string

fun split_on :: "char \<Rightarrow> string \<Rightarrow> string list" where
  "split_on c [] = [[]]"
| "split_on c (x # xs) =
     (case split_on c xs of
        w # ws \<Rightarrow> if x = c then [] # w # ws else (x # w) # ws
      | [] \<Rightarrow> [[x]])"

definition major_minor :: "string \<Rightarrow> string list" where
  "major_minor v = take 2 (split_on CHR ''.'' v)"

definition hex_digits :: string where "hex_digits = ''0123456789abcdef''"

definition expected_metadata ::
  "runtime_versions \<Rightarrow> string \<Rightarrow> string list \<Rightarrow> routing_category list \<Rightarrow> int \<Rightarrow> int \<Rightarrow> artifact_metadata" where
  "expected_metadata rv model_sha256 candidates categories valid_rows missing_rows =
     \<lparr>am_artifact_format_version = ARTIFACT_FORMAT_VERSION,
      am_predictor_formulation_id = PREDICTOR_FORMULATION_ID,
      am_predictor_formulation_version = PREDICTOR_FORMULATION_VERSION,
      am_canonical_feature_schema_version = CANONICAL_QUALITY_FEATURE_SCHEMA_VERSION,
      am_category_taxonomy_version = ROUTING_CATEGORY_TAXONOMY_VERSION,
      am_training_dataset_name = ''routellm-foundation-v3'',
      am_training_dataset_version = ''3.0.0'',
      am_training_dataset_sha256 = FOUNDATION_V3_SHA256,
      am_foundation_v3_protocol_sha256 = FOUNDATION_V3_PROTOCOL_SHA256,
      am_formulation_evidence = PHASE_8C0_FORMULATION_EVIDENCE,
      am_valid_training_rows = valid_rows, am_missing_label_rows = missing_rows,
      am_known_candidate_ids = candidates, am_known_categories = categories,
      am_sklearn_version = rv_sklearn rv, am_python_version = rv_python rv,
      am_preprocessing_id = QUALITY_PREPROCESSING_ID,
      am_build_entrypoint = ''python -m adaptive_llm_gateway.routing.train_predictor'',
      am_model_filename = ARTIFACT_MODEL_FILENAME, am_model_sha256 = model_sha256\<rparr>"

definition validate_metadata :: "runtime_versions \<Rightarrow> artifact_metadata \<Rightarrow> exn_class option" where
  "validate_metadata rv m =
     (if am_artifact_format_version m \<noteq> ARTIFACT_FORMAT_VERSION then Some IncompatibleArtifactFormatErrorC
      else if am_predictor_formulation_id m \<noteq> PREDICTOR_FORMULATION_ID
        \<or> am_predictor_formulation_version m \<noteq> PREDICTOR_FORMULATION_VERSION
      then Some IncompatiblePredictorFormulationErrorC
      else if am_canonical_feature_schema_version m \<noteq> CANONICAL_QUALITY_FEATURE_SCHEMA_VERSION
      then Some IncompatibleFeatureSchemaErrorC
      else if am_category_taxonomy_version m \<noteq> ROUTING_CATEGORY_TAXONOMY_VERSION
      then Some IncompatibleCategoryTaxonomyErrorC
      else if am_training_dataset_sha256 m \<noteq> FOUNDATION_V3_SHA256
        \<or> am_foundation_v3_protocol_sha256 m \<noteq> FOUNDATION_V3_PROTOCOL_SHA256
        \<or> am_formulation_evidence m \<noteq> PHASE_8C0_FORMULATION_EVIDENCE
        \<or> am_preprocessing_id m \<noteq> QUALITY_PREPROCESSING_ID
      then Some CorruptPredictorArtifactErrorC
      else if am_known_candidate_ids m \<noteq> FOUNDATION_V3_CANDIDATE_IDS then Some CorruptPredictorArtifactErrorC
      else if set (am_known_categories m) \<noteq> set routing_categories then Some CorruptPredictorArtifactErrorC
      else if am_training_dataset_name m \<noteq> ''routellm-foundation-v3''
        \<or> am_training_dataset_version m \<noteq> ''3.0.0''
        \<or> am_valid_training_rows m \<noteq> 216 \<or> am_missing_label_rows m \<noteq> 8
        \<or> am_model_filename m \<noteq> ARTIFACT_MODEL_FILENAME
        \<or> length (am_model_sha256 m) \<noteq> 64
        \<or> list_ex (\<lambda>c. c \<notin> set hex_digits) (am_model_sha256 m)
      then Some CorruptPredictorArtifactErrorC
      else if am_sklearn_version m \<noteq> rv_sklearn rv then Some IncompatibleArtifactFormatErrorC
      else if major_minor (am_python_version m) \<noteq> major_minor (rv_python rv)
      then Some IncompatibleArtifactFormatErrorC
      else None)"

definition validate_production_metadata :: "runtime_versions \<Rightarrow> production_metadata \<Rightarrow> exn_class option" where
  "validate_production_metadata rv m =
     (if pm_artifact_format_version m \<noteq> PRODUCTION_ARTIFACT_FORMAT_VERSION
      then Some IncompatibleArtifactFormatErrorC
      else if pm_predictor_sha256 m \<noteq> PRODUCTION_PREDICTOR_SHA256 then Some PredictorArtifactChecksumErrorC
      else if pm_canonical_feature_schema_version m \<noteq> CANONICAL_QUALITY_FEATURE_SCHEMA_VERSION
      then Some IncompatibleFeatureSchemaErrorC
      else if pm_predictor_formulation_id m \<noteq> PREDICTOR_FORMULATION_ID
        \<or> pm_predictor_formulation_version m \<noteq> PREDICTOR_FORMULATION_VERSION
        \<or> pm_preprocessing_id m \<noteq> QUALITY_PREPROCESSING_ID
      then Some IncompatiblePredictorFormulationErrorC
      else if pm_known_candidate_ids m \<noteq> FOUNDATION_V3_CANDIDATE_IDS then Some CorruptPredictorArtifactErrorC
      else if set (pm_known_categories m) \<noteq> set routing_categories then Some IncompatibleCategoryTaxonomyErrorC
      else if pm_approved_quality_threshold m \<noteq> PRODUCTION_QUALITY_THRESHOLD
        \<or> pm_model_filename m \<noteq> ARTIFACT_MODEL_FILENAME
        \<or> pm_protocol_version m \<noteq> PRODUCTION_PROTOCOL_VERSION
        \<or> pm_protocol_sha256 m \<noteq> PRODUCTION_PROTOCOL_SHA256
      then Some CorruptPredictorArtifactErrorC
      else if pm_approval_decision m \<noteq> ''APPROVED_FROZEN_PRODUCTION_ROUTER''
        \<or> pm_approval_phase m \<noteq> ''12.1B'' \<or> pm_approval_statement m = []
      then Some CorruptPredictorArtifactErrorC
      else if pm_source_artifact_format_version m \<noteq> ''phase9-dev-candidate-v1''
        \<or> pm_source_deployment_status m \<noteq> ''DEV_VALIDATION_CANDIDATE_NOT_DEPLOYED''
        \<or> pm_source_split_sha256 m \<noteq> PRODUCTION_SPLIT_SHA256
        \<or> pm_source_training_dataset_sha256 m \<noteq> PRODUCTION_TRAINING_DATASET_SHA256
        \<or> pm_source_run_id m \<noteq> PRODUCTION_SOURCE_RUN_ID
        \<or> pm_source_valid_training_rows m \<noteq> 557 \<or> pm_source_missing_label_rows m \<noteq> 3
      then Some CorruptPredictorArtifactErrorC
      else if pm_scikit_learn_version m \<noteq> rv_sklearn rv then Some IncompatibleArtifactFormatErrorC
      else if pm_python_major_minor m \<noteq> join ''.'' (major_minor (rv_python rv))
      then Some IncompatibleArtifactFormatErrorC
      else None)"

subsection \<open>Loading\<close>

datatype 'a file_content = Missing | Unreadable exn_class | Content 'a

record artifact_directory =
  ad_metadata :: "string file_content"
  ad_model :: "string file_content"

text \<open>
  What \<^verbatim>\<open>json.loads\<close> and the two schema classes make of the metadata text: an
  exception of the decoder, a value that is not an object, or an object, which the format
  version sends to one of the two schemas, which may refuse it.
\<close>

datatype decoded_metadata =
    NotAnObject
  | ProductionMetadata "exn_class + production_metadata"
  | BuildMetadata "exn_class + artifact_metadata"

text \<open>An unpickled pipeline: the names of its steps and its \<^verbatim>\<open>predict_proba\<close> column.\<close>

record quality_pipeline =
  pl_steps :: "string list"
  pl_predict :: "cell list list \<Rightarrow> exn_class + py_value list"

datatype unpickled = Pipeline quality_pipeline | OtherObject

record artifact_tools =
  tool_decode :: "string \<Rightarrow> exn_class + decoded_metadata"
  tool_sha256 :: "string \<Rightarrow> string"
  tool_unpickle :: "string \<Rightarrow> exn_class + unpickled"

datatype loaded_metadata = LoadedProduction production_metadata | LoadedBuild artifact_metadata

fun metadata_candidates :: "loaded_metadata \<Rightarrow> string list" where
  "metadata_candidates (LoadedProduction m) = pm_known_candidate_ids m"
| "metadata_candidates (LoadedBuild m) = am_known_candidate_ids m"

fun metadata_categories :: "loaded_metadata \<Rightarrow> routing_category list" where
  "metadata_categories (LoadedProduction m) = pm_known_categories m"
| "metadata_categories (LoadedBuild m) = am_known_categories m"

fun metadata_checksum :: "loaded_metadata \<Rightarrow> string" where
  "metadata_checksum (LoadedProduction m) = pm_predictor_sha256 m"
| "metadata_checksum (LoadedBuild m) = am_model_sha256 m"

fun validate_loaded :: "runtime_versions \<Rightarrow> loaded_metadata \<Rightarrow> exn_class option" where
  "validate_loaded rv (LoadedProduction m) = validate_production_metadata rv m"
| "validate_loaded rv (LoadedBuild m) = validate_metadata rv m"

definition check_loaded :: "runtime_versions \<Rightarrow> loaded_metadata \<Rightarrow> exn_class + loaded_metadata" where
  "check_loaded rv m = (case validate_loaded rv m of None \<Rightarrow> Inr m | Some c \<Rightarrow> Inl c)"

text \<open>The body of the first \<^verbatim>\<open>try\<close>, and its two handlers.\<close>

definition read_metadata ::
  "runtime_versions \<Rightarrow> artifact_tools \<Rightarrow> string file_content \<Rightarrow> exn_class + loaded_metadata" where
  "read_metadata rv tools file =
     (case file of
        Missing \<Rightarrow> Inl FileNotFoundErrorC
      | Unreadable c \<Rightarrow> Inl c
      | Content text \<Rightarrow>
          rbind (tool_decode tools text) (\<lambda>raw.
          case raw of
            NotAnObject \<Rightarrow> Inl TypeErrorC
          | ProductionMetadata r \<Rightarrow> rbind r (\<lambda>m. check_loaded rv (LoadedProduction m))
          | BuildMetadata r \<Rightarrow> rbind r (\<lambda>m. check_loaded rv (LoadedBuild m))))"

definition metadata_handler :: "exn_class \<Rightarrow> exn_class" where
  "metadata_handler c =
     (if issubclass c OSErrorC \<or> issubclass c UnicodeErrorC \<or> issubclass c ValidationErrorC
        \<or> issubclass c TypeErrorC \<or> issubclass c ValueErrorC
      then CorruptPredictorArtifactErrorC else c)"

definition load_trusted_quality_artifact ::
  "runtime_versions \<Rightarrow> artifact_tools \<Rightarrow> artifact_directory \<Rightarrow> exn_class + quality_pipeline \<times> loaded_metadata" where
  "load_trusted_quality_artifact rv tools dir =
     (if ad_metadata dir = Missing then Inl PredictorArtifactNotFoundErrorC
      else case read_metadata rv tools (ad_metadata dir) of
        Inl c \<Rightarrow> Inl (metadata_handler c)
      | Inr metadata \<Rightarrow>
          (case ad_model dir of
             Missing \<Rightarrow> Inl PredictorArtifactNotFoundErrorC
           | Unreadable c \<Rightarrow> Inl (if issubclass c OSErrorC then CorruptPredictorArtifactErrorC else c)
           | Content bytes \<Rightarrow>
               if tool_sha256 tools bytes \<noteq> metadata_checksum metadata
               then Inl PredictorArtifactChecksumErrorC
               else case tool_unpickle tools bytes of
                 Inl c \<Rightarrow> Inl (if issubclass c ExceptionC then CorruptPredictorArtifactErrorC else c)
               | Inr OtherObject \<Rightarrow> Inl CorruptPredictorArtifactErrorC
               | Inr (Pipeline p) \<Rightarrow>
                   if ''preprocess'' \<in> set (pl_steps p) \<and> ''classifier'' \<in> set (pl_steps p)
                   then Inr (p, metadata) else Inl CorruptPredictorArtifactErrorC))"

subsection \<open>SklearnQualityPredictor\<close>

record sklearn_predictor =
  sp_pipeline :: quality_pipeline
  sp_metadata :: loaded_metadata

definition new_sklearn_predictor ::
  "runtime_versions \<Rightarrow> quality_pipeline \<Rightarrow> loaded_metadata \<Rightarrow> exn_class + sklearn_predictor" where
  "new_sklearn_predictor rv p m =
     rbind (check_loaded rv m) (\<lambda>m. Inr \<lparr>sp_pipeline = p, sp_metadata = m\<rparr>)"

definition predictor_from_trusted_artifact ::
  "runtime_versions \<Rightarrow> artifact_tools \<Rightarrow> artifact_directory \<Rightarrow> exn_class + sklearn_predictor" where
  "predictor_from_trusted_artifact rv tools dir =
     rbind (load_trusted_quality_artifact rv tools dir) (\<lambda>(p, m). new_sklearn_predictor rv p m)"

definition predict :: "sklearn_predictor \<Rightarrow> quality_predictor" where
  "predict sp f candidates =
     (case rf_category f of
        None \<Rightarrow> Inl MissingRoutingCategoryErrorC
      | Some c \<Rightarrow>
          if c \<notin> set (metadata_categories (sp_metadata sp)) then Inl PredictorInputCompatibilityErrorC
          else
            let ids = map mc_model_id candidates in
            if has_duplicates ids then Inl PredictorInputCompatibilityErrorC
            else if \<not> set ids \<subseteq> set (metadata_candidates (sp_metadata sp))
            then Inl UnsupportedPredictorCandidateErrorC
            else
              rbind (mapM (canonical_from_production f) candidates) (\<lambda>canonical.
              if canonical = [] then Inr []
              else
                rbind (canonical_feature_matrix canonical) (\<lambda>matrix.
                rbind (pl_predict (sp_pipeline sp) matrix) (\<lambda>probabilities.
                mapM (\<lambda>(m, p). ModelAcceptabilityPrediction (mc_model_id m) p)
                  (zip candidates probabilities)))))"

subsection \<open>What a loaded artifact guarantees\<close>

lemma check_loaded_Inr: "check_loaded rv m = Inr m' \<longleftrightarrow> m' = m \<and> validate_loaded rv m = None"
  by (auto simp: check_loaded_def split: option.splits)

lemma read_metadata_Inr:
  assumes "read_metadata rv tools file = Inr m"
  shows "validate_loaded rv m = None"
proof -
  obtain body raw where raw: "file = Content body" "tool_decode tools body = Inr raw"
    using assms by (auto simp: read_metadata_def rbind_eq_Inr split: file_content.splits)
  show ?thesis
  proof (cases raw)
    case NotAnObject
    then show ?thesis using assms raw by (simp add: read_metadata_def rbind_def)
  next
    case (ProductionMetadata r)
    then show ?thesis using assms raw by (cases r) (auto simp: read_metadata_def rbind_def check_loaded_Inr)
  next
    case (BuildMetadata r)
    then show ?thesis using assms raw by (cases r) (auto simp: read_metadata_def rbind_def check_loaded_Inr)
  qed
qed

lemma validated_candidates: "validate_loaded rv m = None \<Longrightarrow> metadata_candidates m = FOUNDATION_V3_CANDIDATE_IDS"
  by (cases m) (auto simp: validate_metadata_def validate_production_metadata_def split: if_splits)

lemma validated_categories: "validate_loaded rv m = None \<Longrightarrow> set (metadata_categories m) = set routing_categories"
  by (cases m) (auto simp: validate_metadata_def validate_production_metadata_def split: if_splits)

lemma validate_error: "validate_loaded rv m = Some c \<Longrightarrow> issubclass c PredictorArtifactErrorC"
  by (cases m) (auto simp: validate_metadata_def validate_production_metadata_def issubclass_eval
      split: if_splits)

lemma load_Inr:
  "load_trusted_quality_artifact rv tools dir = Inr (p, m) \<Longrightarrow>
     validate_loaded rv m = None
   \<and> (\<exists>bytes. ad_model dir = Content bytes \<and> tool_sha256 tools bytes = metadata_checksum m
        \<and> tool_unpickle tools bytes = Inr (Pipeline p))
   \<and> {''preprocess'', ''classifier''} \<subseteq> set (pl_steps p)"
  by (auto simp: load_trusted_quality_artifact_def dest: read_metadata_Inr
      split: if_splits sum.splits file_content.splits unpickled.splits)

text \<open>
  Claim C25. A predictor is only ever built from an artifact that passed every check: its
  metadata is accepted for the running versions, the bytes that were unpickled have the
  checksum the metadata declares, the pipeline has both steps, and the predictor knows exactly
  the four foundation candidates and all seven categories.
\<close>

theorem loaded_predictor_is_trusted:
  assumes "predictor_from_trusted_artifact rv tools dir = Inr sp"
  shows "validate_loaded rv (sp_metadata sp) = None
    \<and> (\<exists>bytes. ad_model dir = Content bytes
         \<and> tool_sha256 tools bytes = metadata_checksum (sp_metadata sp)
         \<and> tool_unpickle tools bytes = Inr (Pipeline (sp_pipeline sp)))
    \<and> {''preprocess'', ''classifier''} \<subseteq> set (pl_steps (sp_pipeline sp))
    \<and> metadata_candidates (sp_metadata sp) = FOUNDATION_V3_CANDIDATE_IDS
    \<and> set (metadata_categories (sp_metadata sp)) = set routing_categories"
proof -
  obtain p m where l: "load_trusted_quality_artifact rv tools dir = Inr (p, m)" "sp = \<lparr>sp_pipeline = p, sp_metadata = m\<rparr>"
    using assms by (auto simp: predictor_from_trusted_artifact_def new_sklearn_predictor_def
        rbind_eq_Inr check_loaded_Inr)
  have ok: "validate_loaded rv m = None" using load_Inr [OF l(1)] by simp
  show ?thesis using load_Inr [OF l(1)] validated_candidates [OF ok] validated_categories [OF ok] l(2) by simp
qed

text \<open>What the two handlers around the metadata catch, and what they make of it.\<close>

definition metadata_failure :: "exn_class \<Rightarrow> bool" where
  "metadata_failure c \<longleftrightarrow>
     issubclass c OSErrorC \<or> issubclass c UnicodeErrorC \<or> issubclass c ValidationErrorC
   \<or> issubclass c TypeErrorC \<or> issubclass c ValueErrorC \<or> issubclass c PredictorArtifactErrorC"

lemma corrupt_is_artifact_error:
  "issubclass CorruptPredictorArtifactErrorC PredictorArtifactErrorC"
  "issubclass PredictorArtifactNotFoundErrorC PredictorArtifactErrorC"
  "issubclass PredictorArtifactChecksumErrorC PredictorArtifactErrorC"
  by (simp_all add: issubclass_eval)

lemma metadata_handler_artifact:
  "metadata_failure c \<Longrightarrow> issubclass (metadata_handler c) PredictorArtifactErrorC"
  using corrupt_is_artifact_error(1) by (auto simp: metadata_handler_def metadata_failure_def)

lemma check_loaded_Inl: "check_loaded rv m = Inl c \<Longrightarrow> metadata_failure c"
  using validate_error by (auto simp: check_loaded_def metadata_failure_def split: option.splits)

text \<open>
  The announced behaviour of the code outside the sources: the decoder raises
  \<^verbatim>\<open>ValueError\<close>s (which include the JSON and Unicode ones), the schemas raise
  \<^verbatim>\<open>ValidationError\<close>, unpickling raises ordinary exceptions, and reading a file
  raises \<^verbatim>\<open>OSError\<close> or, for text, \<^verbatim>\<open>UnicodeError\<close>.
\<close>

definition tools_announce :: "artifact_tools \<Rightarrow> bool" where
  "tools_announce tools \<longleftrightarrow>
     (\<forall>t c. tool_decode tools t = Inl c \<longrightarrow> issubclass c ValueErrorC)
   \<and> (\<forall>t c. tool_decode tools t = Inr (ProductionMetadata (Inl c)) \<longrightarrow> c = ValidationErrorC)
   \<and> (\<forall>t c. tool_decode tools t = Inr (BuildMetadata (Inl c)) \<longrightarrow> c = ValidationErrorC)
   \<and> (\<forall>b c. tool_unpickle tools b = Inl c \<longrightarrow> issubclass c ExceptionC)"

definition files_announce :: "artifact_directory \<Rightarrow> bool" where
  "files_announce dir \<longleftrightarrow>
     (\<forall>c. ad_metadata dir = Unreadable c \<longrightarrow> issubclass c OSErrorC \<or> issubclass c UnicodeErrorC)
   \<and> (\<forall>c. ad_model dir = Unreadable c \<longrightarrow> issubclass c OSErrorC)"

lemma read_metadata_Inl:
  assumes "tools_announce tools" "files_announce dir" and r: "read_metadata rv tools (ad_metadata dir) = Inl c"
    and present: "ad_metadata dir \<noteq> Missing"
  shows "metadata_failure c"
proof (cases "ad_metadata dir")
  case (Unreadable u)
  then show ?thesis using assms by (auto simp: read_metadata_def metadata_failure_def files_announce_def)
next
  case body: (Content body)
  show ?thesis
  proof (cases "tool_decode tools body")
    case (Inl d)
    then have "c = d" using r body by (simp add: read_metadata_def)
    then show ?thesis using assms(1) Inl by (simp add: tools_announce_def metadata_failure_def)
  next
    case raw: (Inr raw)
    show ?thesis
    proof (cases raw)
      case NotAnObject
      then show ?thesis using r body raw by (simp add: read_metadata_def metadata_failure_def)
    next
      case (ProductionMetadata m)
      have "m = Inl d \<Longrightarrow> d = ValidationErrorC" for d
        using assms(1) raw ProductionMetadata unfolding tools_announce_def by blast
      then have schema: "m = Inl d \<Longrightarrow> metadata_failure d" for d
        by (simp add: metadata_failure_def)
      show ?thesis using r body raw ProductionMetadata schema check_loaded_Inl
        by (cases m) (auto simp: read_metadata_def)
    next
      case (BuildMetadata m)
      have "m = Inl d \<Longrightarrow> d = ValidationErrorC" for d
        using assms(1) raw BuildMetadata unfolding tools_announce_def by blast
      then have schema: "m = Inl d \<Longrightarrow> metadata_failure d" for d
        by (simp add: metadata_failure_def)
      show ?thesis using r body raw BuildMetadata schema check_loaded_Inl
        by (cases m) (auto simp: read_metadata_def)
    qed
  qed
qed (use present in simp)

text \<open>
  Whatever is wrong with an artifact directory, loading it fails with one of the
  predictor artifact errors, provided the file system, the decoder and the unpickler raise
  only what they announce.
\<close>

theorem load_failures_are_artifact_errors:
  assumes "tools_announce tools" "files_announce dir"
    and "load_trusted_quality_artifact rv tools dir = Inl e"
  shows "issubclass e PredictorArtifactErrorC"
proof (cases "ad_metadata dir = Missing \<or> (\<exists>c. read_metadata rv tools (ad_metadata dir) = Inl c)")
  case True
  then show ?thesis
    using assms metadata_handler_artifact [OF read_metadata_Inl [OF assms(1,2)]]
    by (auto simp: load_trusted_quality_artifact_def corrupt_is_artifact_error split: if_splits)
next
  case False
  then obtain m where "read_metadata rv tools (ad_metadata dir) = Inr m" "ad_metadata dir \<noteq> Missing"
    by (metis sum.exhaust)
  then show ?thesis using assms corrupt_is_artifact_error
    by (auto simp: load_trusted_quality_artifact_def files_announce_def tools_announce_def
        split: if_splits sum.splits file_content.splits unpickled.splits)
qed

text \<open>
  Round trip of the writer's metadata: what \<^verbatim>\<open>expected_metadata\<close> writes for
  the four candidates, all categories and the frozen row counts is accepted by the loader's
  check under the same versions.
\<close>

theorem written_metadata_is_accepted:
  assumes "length digest = 64" "list_all (\<lambda>c. c \<in> set hex_digits) digest"
    and "set categories = set routing_categories"
  shows "validate_metadata rv (expected_metadata rv digest FOUNDATION_V3_CANDIDATE_IDS categories 216 8) = None"
  using assms by (auto simp: validate_metadata_def expected_metadata_def list_all_iff list_ex_iff)

text \<open>
  Predictions line up with the candidates: one per candidate, in their order, under
  the candidate's identifier and with a probability between 0 and 1.
\<close>

theorem predictions_match_candidates:
  assumes "predict sp f cands = Inr ps" and "list_all (\<lambda>m. is_identifier (mc_model_id m)) cands"
    and "\<And>mat probs. pl_predict (sp_pipeline sp) mat = Inr probs \<Longrightarrow> length probs = length mat"
  shows "map mp_model_id ps = map mc_model_id cands \<and> list_all (\<lambda>p. in_unit (mp_predicted_acceptability p)) ps
    \<and> distinct (map mc_model_id cands)
    \<and> set (map mc_model_id cands) \<subseteq> set (metadata_candidates (sp_metadata sp))"
proof -
  have ids: "distinct (map mc_model_id cands)" "set (map mc_model_id cands) \<subseteq> set (metadata_candidates (sp_metadata sp))"
    using assms(1) by (auto simp: predict_def Let_def split: option.splits if_splits)
  obtain canonical where canonical: "mapM (canonical_from_production f) cands = Inr canonical"
    using assms(1) by (auto simp: predict_def Let_def rbind_eq_Inr split: option.splits if_splits)
  have "map mp_model_id ps = map mc_model_id cands \<and> list_all (\<lambda>p. in_unit (mp_predicted_acceptability p)) ps"
  proof (cases "canonical = []")
    case True
    then show ?thesis using assms(1) canonical ids mapM_Inr_length [OF canonical]
      by (auto simp: predict_def Let_def split: option.splits if_splits)
  next
    case False
    obtain mat probs where m: "canonical_feature_matrix canonical = Inr mat"
      "pl_predict (sp_pipeline sp) mat = Inr probs"
      "mapM (\<lambda>(m, p). ModelAcceptabilityPrediction (mc_model_id m) p) (zip cands probs) = Inr ps"
      using assms(1) canonical False
      by (auto simp: predict_def Let_def rbind_eq_Inr split: option.splits if_splits)
    have len: "length probs = length cands"
      using assms(3) [OF m(2)] mapM_Inr_length [OF canonical] m(1)
      by (auto simp: canonical_feature_matrix_def dest: mapM_Inr_length)
    have each: "ModelAcceptabilityPrediction (mc_model_id m) p = Inr x \<Longrightarrow> is_identifier (mc_model_id m) \<Longrightarrow>
        mp_model_id x = mc_model_id m \<and> in_unit (mp_predicted_acceptability x)" for m p x
      by (auto simp: prediction_Inr is_identifier_def Identifier_def validated_probability_unit split: if_splits)
    have all: "list_all2 (\<lambda>(m, p) x. ModelAcceptabilityPrediction (mc_model_id m) p = Inr x) (zip cands probs) ps"
      using m(3) by (simp add: mapM_Inr_iff case_prod_unfold)
    have lps: "length ps = length cands" using list_all2_lengthD [OF all] len by simp
    have "mp_model_id (ps ! i) = mc_model_id (cands ! i) \<and> in_unit (mp_predicted_acceptability (ps ! i))"
      if "i < length cands" for i
      using list_all2_nthD [OF all, of i] that len assms(2) by (intro each) (auto simp: list_all_length)
    then show ?thesis using lps by (auto simp: list_all_length intro: nth_equalityI)
  qed
  then show ?thesis using ids by simp
qed

end
