(* ===== verification/Call_Trace.thy ===== *)
theory Call_Trace
  imports Inference_Service "HOL-Library.Sublist"
begin

section \<open>Traces of provider calls\<close>

lemma subseq_one: "subseq cs [a] \<Longrightarrow> cs = [] \<or> cs = [a]"
  by (cases cs) (auto simp: subseq_Cons' split: if_splits)

lemma subseq_set: "subseq cs ms \<Longrightarrow> set cs \<subseteq> set ms"
  by (auto dest: list_emb_set)

lemma subseq_distinct: "subseq cs ms \<Longrightarrow> distinct ms \<Longrightarrow> distinct cs"
  by (induction rule: list_emb.induct) (auto dest: subseq_set)

text \<open>
  \<open>calls_within ms m\<close>: whatever the environment does, running \<open>m\<close> calls providers only for
  models of the list, in its order, each occurrence at most once. The predicate composes over
  the actions, so the calls of a whole run are read off its structure.
\<close>

definition calls_within :: "string list \<Rightarrow> 'a act \<Rightarrow> bool" where
  "calls_within ms m \<longleftrightarrow>
     (\<forall>w x w'. m w = (x, w') \<longrightarrow> (\<exists>cs. subseq cs ms \<and> w_calls w' = w_calls w @ cs))"

named_theorems calls

lemma calls_withinI:
  "(\<And>w x w'. m w = (x, w') \<Longrightarrow> \<exists>cs. subseq cs ms \<and> w_calls w' = w_calls w @ cs) \<Longrightarrow> calls_within ms m"
  by (simp add: calls_within_def)

lemma calls_withinE:
  assumes "calls_within ms m" "m w = (x, w')"
  obtains cs where "subseq cs ms" "w_calls w' = w_calls w @ cs"
  using assms unfolding calls_within_def by blast

lemma calls_none: "(\<And>w x w'. m w = (x, w') \<Longrightarrow> w_calls w' = w_calls w) \<Longrightarrow> calls_within ms m"
  by (rule calls_withinI) (auto intro: exI [of _ "[]"])

lemma calls_bind:
  assumes "calls_within ms m" "\<And>a. calls_within ns (f a)"
  shows "calls_within (ms @ ns) (abind m f)"
proof (rule calls_withinI)
  fix w x w' assume run: "abind m f w = (x, w')"
  obtain y w1 where y: "m w = (y, w1)" by fastforce
  obtain cs where cs: "subseq cs ms" "w_calls w1 = w_calls w @ cs"
    using calls_withinE [OF assms(1) y] by blast
  show "\<exists>cs. subseq cs (ms @ ns) \<and> w_calls w' = w_calls w @ cs"
  proof (cases y)
    case (Inl e)
    then show ?thesis using run y cs by (auto simp: abind_def intro: list_emb_append2)
  next
    case (Inr a)
    then have "f a w1 = (x, w')" using run y by (simp add: abind_def)
    then obtain ds where "subseq ds ns" "w_calls w' = w_calls w1 @ ds"
      using calls_withinE [OF assms(2)] by blast
    then show ?thesis using cs by (auto intro!: exI [of _ "cs @ ds"] list_emb_append_mono)
  qed
qed

lemma calls_catch:
  assumes "calls_within ms m" "\<And>e. calls_within [] (h e)"
  shows "calls_within ms (acatch m h)"
proof (rule calls_withinI)
  fix w x w' assume run: "acatch m h w = (x, w')"
  obtain y w1 where y: "m w = (y, w1)" by fastforce
  obtain cs where cs: "subseq cs ms" "w_calls w1 = w_calls w @ cs"
    using calls_withinE [OF assms(1) y] by blast
  show "\<exists>cs. subseq cs ms \<and> w_calls w' = w_calls w @ cs"
  proof (cases y)
    case (Inl e)
    then have h: "h e w1 = (x, w')" using run y by (simp add: acatch_def)
    obtain ds where "subseq ds []" "w_calls w' = w_calls w1 @ ds"
      using calls_withinE [OF assms(2) h] by blast
    then have "w_calls w' = w_calls w1" by (auto dest: list_emb_length)
    then show ?thesis using cs by auto
  qed (use run y cs in \<open>auto simp: acatch_def\<close>)
qed

lemma calls_more: "calls_within [] m \<Longrightarrow> calls_within ms m"
  by (rule calls_none, erule calls_withinE) (auto dest: list_emb_length)

lemma calls_bind_none [calls]:
  "calls_within [] m \<Longrightarrow> (\<And>a. calls_within ms (f a)) \<Longrightarrow> calls_within ms (abind m f)"
  using calls_bind [of "[]" m ms f] by simp

lemma calls_bind_first: "calls_within ms m \<Longrightarrow> (\<And>a. calls_within [] (f a)) \<Longrightarrow> calls_within ms (abind m f)"
  using calls_bind [of ms m "[]" f] by simp

lemma calls_return [calls]: "calls_within ms (areturn a)" and calls_raise [calls]: "calls_within ms (araise e)"
  and calls_ask [calls]: "calls_within ms (ask g)" and calls_observe [calls]: "calls_within ms (observe_with f)"
  and calls_lift [calls]: "calls_within ms (lift_result r)"
  by (rule calls_none; simp add: ask_def lift_result_def split: sum.splits; auto)+

lemma calls_clock [calls]:
  "calls_within ms (expired E d)" "calls_within ms (remaining_seconds E d)" "calls_within ms (constrain_timeout E d t)"
  "calls_within ms (new_request_deadline E s)" "calls_within ms (uuid4 E)" "calls_within ms (perf_counter E)"
  "calls_within ms (service_new_deadline E sv)"
  by (auto intro!: calls simp: expired_def remaining_seconds_def constrain_timeout_def 
      uuid4_def perf_counter_def service_new_deadline_def new_request_deadline_def)

lemma calls_guarded_write [calls]:
  "calls_within ms (guarded_write (ask g) rt rid (hand_over add_adaptive_row f r))"
  "calls_within ms (guarded_write (ask g) rt rid (hand_over add_inference_row h q))"
  by (rule calls_none, drule adaptive_log.guarded_write_run, simp add: adaptive_log.step_def)
    (rule calls_none, drule inference_log.guarded_write_run, simp add: inference_log.step_def)

lemma calls_service_record [calls]: "calls_within ms (service_record E sv ev d)"
  unfolding service_record_def perf_clock_def by (auto intro!: calls split: option.split)

lemma calls_generate_model: "calls_within [mc_model_id m] (service_generate_model E sv m rq d rid mode)"
proof (rule calls_withinI)
  fix w x w' assume "service_generate_model E sv m rq d rid mode w = (x, w')"
  from service_generate_model_step [OF this]
  have "w_calls w' = w_calls w @ [] \<or> w_calls w' = w_calls w @ [mc_model_id m]"
    unfolding attempt_step_def by auto
  moreover have "subseq [] [mc_model_id m]" "subseq [mc_model_id m] [mc_model_id m]" by simp_all
  ultimately show "\<exists>cs. subseq cs [mc_model_id m] \<and> w_calls w' = w_calls w @ cs" by blast
qed

lemma calls_on_failure: "calls_within [] (on_generate_failure E sv m rq d cid started e)"
  unfolding on_generate_failure_def by (auto intro!: calls)

lemma calls_generate_and_record:
  "calls_within [mc_model_id m] (generate_and_record E sv m rq d cid mode)"
  unfolding generate_and_record_def
proof (rule calls_bind_none [OF calls_clock(6)])
  fix started
  show "calls_within [mc_model_id m]
     (abind (acatch (service_generate_model E sv m rq d cid mode) (on_generate_failure E sv m rq d cid started))
       (\<lambda>r. abind (service_record E sv (success_row cid rq r) d) (\<lambda>_. areturn r)))"
    by (rule calls_bind_first [OF calls_catch [OF calls_generate_model calls_on_failure]]) (rule calls)+
qed

lemma calls_service_generate:
  assumes "registry_inv (sv_registry sv)"
  shows "calls_within [mid] (service_generate E sv mid rq rid dl mode)"
proof (rule calls_withinI)
  fix w x w' assume "service_generate E sv mid rq rid dl mode w = (x, w')"
  from service_generate_run [OF this] consider "w_calls w' = w_calls w"
    | m d cid k where "registry_get (sv_registry sv) mid = Inr m"
        "generate_and_record E sv m rq d cid mode (w\<lparr>w_ix := w_ix w + k\<rparr>) = (x, w')" by fastforce
  then show "\<exists>cs. subseq cs [mid] \<and> w_calls w' = w_calls w @ cs"
  proof cases
    case (2 m d cid k)
    then have "mc_model_id m = mid" using registry_get_id [OF assms] by blast
    then show ?thesis using calls_withinE [OF calls_generate_and_record 2(2)] by auto
  qed (auto intro: exI [of _ "[]"])
qed

end
