(* ===== verification/Adaptive.thy ===== *)
theory Adaptive
  imports Predictor Call_Trace
begin

section \<open>AdaptiveInferenceService: route once, validate, escalate\<close>

text \<open>
  \<^verbatim>\<open>application/adaptive.py\<close> and \<^verbatim>\<open>application/adaptive_config.py\<close>. The service
  routes a request once and then either makes one call (no validation contract) or tries up to
  three distinct candidates, cheapest first, until a response passes. The response validator is
  an injected interface: its answer depends on the moment of the call, and
  \<open>deterministic_validator\<close> is the one the service uses by default. Latencies are rationals, so
  the sums of the source are exact here.
\<close>

subsection \<open>Records\<close>

record adaptive_attempt =
  at_attempt_number :: nat
  at_model_id :: string
  at_validation :: validation_telemetry
  at_latency_ms :: "rat option"
  at_estimated_cost_usd :: "dec option"

record adaptive_execution =
  ax_attempts :: "adaptive_attempt list"
  ax_escalated :: bool
  ax_validation_outcome :: validation_status
  ax_total_estimated_cost_usd :: "dec option"
  ax_total_latency_ms :: rat

record adaptive_inference_result =
  ar_response :: inference_response
  ar_routing_decision :: routing_decision
  ar_execution :: "adaptive_execution option"

type_synonym response_validator =
  "nat \<Rightarrow> inference_response \<Rightarrow> validation_contract option \<Rightarrow> exn + validation_result"

definition deterministic_validator :: "env \<Rightarrow> response_validator" where
  "deterministic_validator E i r contract =
     Inr (validate_response ((env_perf E (Suc i) - env_perf E i) * 1000) r contract)"

record adaptive_service =
  ad_inference :: inference_service
  ad_routing :: routing_service
  ad_validator :: response_validator
  ad_max_validation_attempts :: nat
  ad_predictor_metadata :: "loaded_metadata option"

definition new_adaptive_service ::
  "env \<Rightarrow> inference_service \<Rightarrow> routing_service \<Rightarrow> response_validator option \<Rightarrow> int \<Rightarrow> exn_class + adaptive_service" where
  "new_adaptive_service E inference routing validator max_validation_attempts =
     (if \<not> (1 \<le> max_validation_attempts \<and> max_validation_attempts \<le> 3) then Inl ValueErrorC
      else Inr \<lparr>ad_inference = inference, ad_routing = routing,
        ad_validator = (case validator of Some v \<Rightarrow> v | None \<Rightarrow> deterministic_validator E),
        ad_max_validation_attempts = nat max_validation_attempts, ad_predictor_metadata = None\<rparr>)"

subsection \<open>Candidates\<close>

definition resolve_candidate :: "inference_service \<Rightarrow> string \<Rightarrow> exn_class + model_config" where
  "resolve_candidate sv model_id =
     rbind (registry_get (sv_registry sv) model_id) (\<lambda>model.
     if \<not> mc_enabled model then Inl ModelDisabledErrorC
     else if \<not> resolver_supports (sv_resolver sv) (mc_provider model) then Inl ProviderUnavailableErrorC
     else Inr model)"

definition resolve_candidates :: "inference_service \<Rightarrow> string list \<Rightarrow> exn_class + model_config list" where
  "resolve_candidates sv model_ids = mapM (resolve_candidate sv) model_ids"

definition adaptive_from_trusted_artifact ::
  "env \<Rightarrow> runtime_versions \<Rightarrow> artifact_tools \<Rightarrow> inference_service \<Rightarrow> artifact_directory \<Rightarrow> string list option \<Rightarrow>
   exn_class + adaptive_service" where
  "adaptive_from_trusted_artifact E rv tools sv dir candidate_model_ids =
     rbind (predictor_from_trusted_artifact rv tools dir) (\<lambda>predictor.
     rbind (new_adaptive_service E sv \<lparr>rt_predictor = predict predictor, rt_eligibility_filter = None\<rparr> None 3)
       (\<lambda>instance.
     let instance = instance\<lparr>ad_predictor_metadata := Some (sp_metadata predictor)\<rparr> in
     case candidate_model_ids of
       None \<Rightarrow> Inr instance
     | Some ids \<Rightarrow>
         rbind (resolve_candidates sv ids) (\<lambda>candidates.
         if list_ex (\<lambda>m. mc_model_id m \<notin> set (metadata_candidates (sp_metadata predictor))) candidates
         then Inl UnsupportedPredictorCandidateErrorC
         else Inr instance)))"

subsection \<open>Accounting\<close>

text \<open>Decimal sums run in the default context of 28 digits.\<close>

definition dec_zero :: dec where "dec_zero = \<lparr>coeff = 0, expo = 0\<rparr>"

definition total_cost :: "adaptive_attempt list \<Rightarrow> exn_class + dec option" where
  "total_cost attempts =
     (let costs = map at_estimated_cost_usd attempts in
      if list_ex (\<lambda>c. c = None) costs then Inr None
      else rbind (dec_sum 28 dec_zero (List.map_filter (\<lambda>c. c) costs)) (\<lambda>d. Inr (Some d)))"

definition known_cost :: "adaptive_attempt list \<Rightarrow> exn_class + dec" where
  "known_cost attempts = dec_sum 28 dec_zero (List.map_filter at_estimated_cost_usd attempts)"

definition total_latency :: "adaptive_attempt list \<Rightarrow> rat" where
  "total_latency attempts =
     (\<Sum>a\<leftarrow>attempts. case at_latency_ms a of None \<Rightarrow> 0 | Some l \<Rightarrow> l)"

definition total_validation :: "adaptive_attempt list \<Rightarrow> rat" where
  "total_validation attempts = (\<Sum>a\<leftarrow>attempts. vt_duration_ms (at_validation a))"

definition build_execution ::
  "adaptive_attempt list \<Rightarrow> validation_status \<Rightarrow> exn_class + adaptive_execution" where
  "build_execution attempts outcome =
     rbind (total_cost attempts) (\<lambda>cost.
     if 0 \<le> total_latency attempts
     then Inr \<lparr>ax_attempts = attempts, ax_escalated = (1 < length attempts),
            ax_validation_outcome = outcome, ax_total_estimated_cost_usd = cost,
            ax_total_latency_ms = total_latency attempts\<rparr>
     else Inl ValidationErrorC)"

definition AdaptiveAttempt ::
  "nat \<Rightarrow> string \<Rightarrow> validation_result \<Rightarrow> inference_response \<Rightarrow> exn_class + adaptive_attempt" where
  "AdaptiveAttempt n model_id result response =
     (if 0 < n \<and> is_identifier model_id \<and> 0 \<le> rs_latency_ms response
      then Inr \<lparr>at_attempt_number = n, at_model_id = model_id,
             at_validation = validation_telemetry_from_result result,
             at_latency_ms = Some (rs_latency_ms response),
             at_estimated_cost_usd = Some (rs_estimated_cost_usd response)\<rparr>
      else Inl ValidationErrorC)"

definition AdaptiveExecutionTelemetry ::
  "adaptive_execution_telemetry \<Rightarrow> exn_class + adaptive_execution_telemetry" where
  "AdaptiveExecutionTelemetry e =
     (if adaptive_execution_telemetry_valid e then Inr e else Inl ValidationErrorC)"

subsection \<open>Recording an execution\<close>

definition record_execution ::
  "env \<Rightarrow> adaptive_service \<Rightarrow> adaptive_execution_telemetry \<Rightarrow> request_deadline \<Rightarrow> unit act" where
  "record_execution E ad event deadline =
     (case (case sv_telemetry (ad_inference ad) of None \<Rightarrow> None | Some repo \<Rightarrow> repo_record_adaptive repo) of
        None \<Rightarrow> observe_with (telemetry_write ''adaptive'' ''skipped_unconfigured'' None)
      | Some write \<Rightarrow>
          abind (constrain_timeout E deadline (sv_telemetry_timeout (ad_inference ad))) (\<lambda>timeout.
          case timeout of
            None \<Rightarrow> observe_with (telemetry_write ''adaptive'' ''skipped_deadline'' None)
          | Some _ \<Rightarrow> guarded_write (loop_clock E) ''adaptive'' (ae_request_id event)
                        (hand_over add_adaptive_row write event)))"

text \<open>A row is built, then recorded; then the terminal metric is counted.\<close>

definition finish_execution ::
  "env \<Rightarrow> adaptive_service \<Rightarrow> request_deadline \<Rightarrow> exn_class + adaptive_execution_telemetry \<Rightarrow> bool \<Rightarrow> unit act" where
  "finish_execution E ad deadline row recovered =
     abind (lift_result (rbind row AdaptiveExecutionTelemetry)) (\<lambda>event.
     abind (record_execution E ad event deadline) (\<lambda>_.
     observe_with (adaptive_request (adaptive_terminal_outcome_value (ae_terminal_outcome event))
       (ae_escalated event) recovered (ae_attempt_count event) (ae_request_id event)
       (validation_status_value (ae_validation_outcome event)))))"

definition terminal_of :: "exn \<Rightarrow> adaptive_terminal_outcome" where
  "terminal_of e =
     (if isinstance e InferenceDeadlineExceededErrorC then ATO_DEADLINE_EXCEEDED else ATO_PROVIDER_FAILURE)"

text \<open>The row of an attempt that ended in an exception.\<close>

definition failure_execution_row ::
  "string \<Rightarrow> routing_decision \<Rightarrow> adaptive_attempt list \<Rightarrow> nat \<Rightarrow> exn \<Rightarrow> exn_class + adaptive_execution_telemetry" where
  "failure_execution_row cid decision attempts n e =
     rbind (known_cost attempts) (\<lambda>cost.
     Inr \<lparr>ae_request_id = cid, ae_initial_routed_model_id = dc_selected_model_id decision,
          ae_returned_model_id = None, ae_attempt_count = n, ae_escalated = (1 < n),
          ae_validation_outcome =
            (if attempts \<noteq> [] then vt_status (at_validation (last attempts)) else VS_NOT_RUN),
          ae_terminal_outcome = terminal_of e, ae_cumulative_known_cost_usd = cost,
          ae_cost_complete = False, ae_cumulative_latency_ms = total_latency attempts,
          ae_has_validator_version = (attempts \<noteq> []),
          ae_validation_duration_ms = total_validation attempts, ae_failure_codes = []\<rparr>)"

text \<open>The row of a run that ended with a validation result.\<close>

definition outcome_execution_row ::
  "string \<Rightarrow> routing_decision \<Rightarrow> adaptive_attempt list \<Rightarrow> adaptive_execution \<Rightarrow> validation_result \<Rightarrow>
   string option \<Rightarrow> exn_class + adaptive_execution_telemetry" where
  "outcome_execution_row cid decision attempts execution result returned =
     rbind (known_cost attempts) (\<lambda>cost.
     Inr \<lparr>ae_request_id = cid, ae_initial_routed_model_id = dc_selected_model_id decision,
          ae_returned_model_id = returned, ae_attempt_count = length attempts,
          ae_escalated = (1 < length attempts), ae_validation_outcome = vr_status result,
          ae_terminal_outcome = (if returned = None then ATO_VALIDATION_FAILED else ATO_RETURNED),
          ae_cumulative_known_cost_usd = cost,
          ae_cost_complete = (ax_total_estimated_cost_usd execution \<noteq> None),
          ae_cumulative_latency_ms = ax_total_latency_ms execution,
          ae_has_validator_version = True, ae_validation_duration_ms = total_validation attempts,
          ae_failure_codes = (if returned = None then map vf_code (vr_failures result) else [])\<rparr>)"

subsection \<open>One validated attempt\<close>

datatype attempt_outcome = Finished adaptive_inference_result | Escalate adaptive_attempt

text \<open>The call; a rejected completion counts as the response, other failures end the run.\<close>

definition adaptive_call ::
  "env \<Rightarrow> adaptive_service \<Rightarrow> inference_request \<Rightarrow> routing_decision \<Rightarrow> string \<Rightarrow> request_deadline \<Rightarrow> nat \<Rightarrow> string \<Rightarrow>
   adaptive_attempt list \<Rightarrow> inference_response act" where
  "adaptive_call E ad request decision cid deadline n model_id attempts =
     acatch (service_generate E (ad_inference ad) model_id request (Some cid) (Some deadline) ''adaptive'')
       (\<lambda>e. case exn_completion e of
              Some completion \<Rightarrow> areturn completion
            | None \<Rightarrow>
                if isinstance e ExceptionC
                then abind (finish_execution E ad deadline (failure_execution_row cid decision attempts n e) False)
                       (\<lambda>_. araise e)
                else araise e)"

definition check_deadline :: "env \<Rightarrow> request_deadline \<Rightarrow> unit act" where
  "check_deadline E deadline =
     abind (expired E deadline) (\<lambda>late.
       if late then araise (Exn InferenceDeadlineExceededErrorC) else areturn ())"

text \<open>The deterministic validator reads the performance counter twice.\<close>

definition validate_with ::
  "adaptive_service \<Rightarrow> inference_response \<Rightarrow> validation_contract \<Rightarrow> validation_result act" where
  "validate_with ad response contract w =
     (ad_validator ad (w_ix w) response (Some contract), w\<lparr>w_ix := w_ix w + 2\<rparr>)"

definition count_failures :: "string \<Rightarrow> nat \<Rightarrow> validation_result \<Rightarrow> observability \<Rightarrow> observability" where
  "count_failures model_id n result ob =
     fold (\<lambda>f. obs_validation_failure model_id (failure_code_value (vf_code f)) n) (vr_failures result) ob"

definition recoverable :: "validation_result \<Rightarrow> bool" where
  "recoverable result \<longleftrightarrow>
     vr_status result = VS_FAILED \<and> vr_failures result \<noteq> []
   \<and> list_all vf_recoverable_by_escalation (vr_failures result)"

definition judge_attempt ::
  "env \<Rightarrow> adaptive_service \<Rightarrow> routing_decision \<Rightarrow> string \<Rightarrow> request_deadline \<Rightarrow> bool \<Rightarrow> adaptive_attempt list \<Rightarrow>
   inference_response \<Rightarrow> validation_result \<Rightarrow> attempt_outcome act" where
  "judge_attempt E ad decision cid deadline final attempts response result =
     (if vr_status result = VS_PASSED
      then abind (lift_result (build_execution attempts (vr_status result))) (\<lambda>execution.
           abind (finish_execution E ad deadline
                    (outcome_execution_row cid decision attempts execution result (Some (rs_model_id response)))
                    (1 < length attempts
                      \<and> list_ex (\<lambda>a. vt_status (at_validation a) = VS_FAILED) (butlast attempts))) (\<lambda>_.
           areturn (Finished \<lparr>ar_response = response, ar_routing_decision = decision,
                      ar_execution = Some execution\<rparr>)))
      else if \<not> recoverable result \<or> final
      then abind (lift_result (build_execution attempts (vr_status result))) (\<lambda>execution.
           abind (finish_execution E ad deadline
                    (outcome_execution_row cid decision attempts execution result None) False) (\<lambda>_.
           araise (Exn ResponseValidationErrorC)))
      else areturn (Escalate (last attempts)))"

definition validated_attempt ::
  "env \<Rightarrow> adaptive_service \<Rightarrow> inference_request \<Rightarrow> validation_contract \<Rightarrow> routing_decision \<Rightarrow> string \<Rightarrow>
   request_deadline \<Rightarrow> nat \<Rightarrow> string \<Rightarrow> bool \<Rightarrow> adaptive_attempt list \<Rightarrow> attempt_outcome act" where
  "validated_attempt E ad request contract decision cid deadline n model_id final attempts =
     abind (check_deadline E deadline) (\<lambda>_.
     abind (adaptive_call E ad request decision cid deadline n model_id attempts) (\<lambda>response.
     abind (check_deadline E deadline) (\<lambda>_.
     abind (validate_with ad response contract) (\<lambda>result.
     abind (check_deadline E deadline) (\<lambda>_.
     abind (observe_with (count_failures model_id n result)) (\<lambda>_.
     abind (lift_result (AdaptiveAttempt n model_id result response)) (\<lambda>attempt.
     judge_attempt E ad decision cid deadline final (attempts @ [attempt]) response result)))))))"

fun validated_loop ::
  "env \<Rightarrow> adaptive_service \<Rightarrow> inference_request \<Rightarrow> validation_contract \<Rightarrow> routing_decision \<Rightarrow> string \<Rightarrow>
   request_deadline \<Rightarrow> nat \<Rightarrow> string list \<Rightarrow> adaptive_attempt list \<Rightarrow> adaptive_inference_result act" where
  "validated_loop E ad request contract decision cid deadline n [] attempts =
     araise (Exn AssertionErrorC)"
| "validated_loop E ad request contract decision cid deadline n (model_id # rest) attempts =
     abind (validated_attempt E ad request contract decision cid deadline n model_id (rest = []) attempts)
       (\<lambda>outcome. case outcome of
          Finished result \<Rightarrow> areturn result
        | Escalate attempt \<Rightarrow>
            validated_loop E ad request contract decision cid deadline (Suc n) rest (attempts @ [attempt]))"

subsection \<open>generate\<close>

definition escalation_key :: "routing_candidate_snapshot \<Rightarrow> rat \<times> string" where
  "escalation_key c = (dval (cp_projected_cost_usd c), cp_model_id c)"

definition escalation_plan :: "nat \<Rightarrow> routing_result \<Rightarrow> string list" where
  "escalation_plan limit routing =
     (let decision = rr_decision routing;
          eligible = sort_key escalation_key
            (filter (\<lambda>c. sn_qualifies c \<and> cp_model_id c \<noteq> dc_selected_model_id decision) (rr_candidates routing))
      in take limit (dc_selected_model_id decision
           # (if \<not> dc_fallback_used decision then map cp_model_id eligible else [])))"

text \<open>\<^verbatim>\<open>request_id or str(uuid4())\<close>: the empty string counts as absent.\<close>

definition correlation :: "env \<Rightarrow> string option \<Rightarrow> string act" where
  "correlation E request_id =
     (case request_id of Some i \<Rightarrow> if i = [] then uuid4 E else areturn i | None \<Rightarrow> uuid4 E)"

definition generate_validated ::
  "env \<Rightarrow> adaptive_service \<Rightarrow> inference_request \<Rightarrow> validation_contract \<Rightarrow> routing_result \<Rightarrow> string option \<Rightarrow>
   request_deadline \<Rightarrow> adaptive_inference_result act" where
  "generate_validated E ad request contract routing request_id deadline =
     abind (uuid4 E) (\<lambda>execution_id.
     abind (correlation E request_id) (\<lambda>cid.
     validated_loop E ad request contract (rr_decision routing) cid deadline 1
       (escalation_plan (ad_max_validation_attempts ad) routing) []))"

definition count_unvalidated :: "adaptive_terminal_outcome \<Rightarrow> string \<Rightarrow> unit act" where
  "count_unvalidated terminal cid =
     observe_with (adaptive_request (adaptive_terminal_outcome_value terminal) False False 1 cid
       (validation_status_value VS_NOT_RUN))"

definition generate_unvalidated ::
  "env \<Rightarrow> adaptive_service \<Rightarrow> inference_request \<Rightarrow> routing_decision \<Rightarrow> string option \<Rightarrow> request_deadline \<Rightarrow>
   adaptive_inference_result act" where
  "generate_unvalidated E ad request decision request_id deadline =
     abind (correlation E request_id) (\<lambda>cid.
     abind (acatch (service_generate E (ad_inference ad) (dc_selected_model_id decision) request
              (Some cid) (Some deadline) ''adaptive'')
              (\<lambda>e. if isinstance e ExceptionC
                   then abind (count_unvalidated (terminal_of e) cid) (\<lambda>_. araise e) else araise e)) (\<lambda>response.
     abind (count_unvalidated ATO_RETURNED cid) (\<lambda>_.
     areturn \<lparr>ar_response = response, ar_routing_decision = decision, ar_execution = None\<rparr>)))"

definition count_decision :: "routing_decision \<Rightarrow> unit act" where
  "count_decision decision =
     observe_with (obs_routing_decision (dc_selected_model_id decision)
       (routing_decision_reason_value (dc_reason decision)))"

definition adaptive_generate ::
  "env \<Rightarrow> adaptive_service \<Rightarrow> inference_request \<Rightarrow> string option \<Rightarrow> py_value \<Rightarrow> string list \<Rightarrow>
   validation_contract option \<Rightarrow> bool \<Rightarrow> string option \<Rightarrow> request_deadline option \<Rightarrow>
   adaptive_inference_result act" where
  "adaptive_generate E ad request category quality_threshold candidate_model_ids validation
       structured_output_required request_id deadline =
     abind (case deadline of Some d \<Rightarrow> areturn d | None \<Rightarrow> service_new_deadline E (ad_inference ad)) (\<lambda>d.
     abind (check_deadline E d) (\<lambda>_.
     abind (lift_result (resolve_candidates (ad_inference ad) candidate_model_ids)) (\<lambda>candidates.
     case validation of
       None \<Rightarrow>
         abind (lift_result (route (ad_routing ad) request candidates quality_threshold category
                  structured_output_required)) (\<lambda>decision.
         abind (count_decision decision) (\<lambda>_.
         generate_unvalidated E ad request decision request_id d))
     | Some contract \<Rightarrow>
         abind (lift_result (route_with_snapshot (ad_routing ad) request candidates quality_threshold category
                  structured_output_required)) (\<lambda>routing.
         abind (count_decision (rr_decision routing)) (\<lambda>_.
         generate_validated E ad request contract routing request_id d)))))"

subsection \<open>Configuration\<close>

record adaptive_routing_config =
  cf_artifact_path :: "string option"
  cf_candidate_model_ids :: "string list"

definition adaptive_enabled :: "adaptive_routing_config \<Rightarrow> bool" where
  "adaptive_enabled c \<longleftrightarrow> cf_artifact_path c \<noteq> None"

definition AdaptiveRoutingConfig :: "string option \<Rightarrow> string list \<Rightarrow> exn_class + adaptive_routing_config" where
  "AdaptiveRoutingConfig artifact_path candidate_model_ids =
     rbind (mapM Identifier candidate_model_ids) (\<lambda>ids.
     let c = \<lparr>cf_artifact_path = artifact_path, cf_candidate_model_ids = ids\<rparr> in
     if artifact_path = None \<and> ids = [] then Inr c
     else if artifact_path = None \<or> ids = [] then Inl ValidationErrorC
     else if has_duplicates ids then Inl ValidationErrorC
     else Inr c)"

text \<open>The two environment variables, absent ones as the empty string.\<close>

definition config_from_environment :: "string option \<Rightarrow> string option \<Rightarrow> exn_class + adaptive_routing_config" where
  "config_from_environment artifact_variable candidates_variable =
     (let artifact = strip (case artifact_variable of None \<Rightarrow> '''' | Some s \<Rightarrow> s);
          candidates = strip (case candidates_variable of None \<Rightarrow> '''' | Some s \<Rightarrow> s) in
      if artifact = [] \<and> candidates = [] then AdaptiveRoutingConfig None []
      else if artifact = [] \<or> candidates = [] then Inl ValueErrorC
      else
        let normalized = map strip (split_on CHR '','' candidates) in
        if list_ex (\<lambda>part. part = []) normalized then Inl ValueErrorC
        else AdaptiveRoutingConfig (Some artifact) normalized)"

record adaptive_runtime =
  ru_service :: adaptive_service
  ru_candidate_model_ids :: "string list"
  ru_approved_quality_threshold :: rat

text \<open>Only the production metadata has the attribute; the literal 0.80 is the same double.\<close>

definition approved_threshold :: "loaded_metadata option \<Rightarrow> rat" where
  "approved_threshold m =
     (case m of Some (LoadedProduction p) \<Rightarrow> pm_approved_quality_threshold p | _ \<Rightarrow> PRODUCTION_QUALITY_THRESHOLD)"

definition build_adaptive_runtime ::
  "env \<Rightarrow> runtime_versions \<Rightarrow> artifact_tools \<Rightarrow> (string \<Rightarrow> artifact_directory) \<Rightarrow> inference_service \<Rightarrow>
   adaptive_routing_config \<Rightarrow> exn_class + adaptive_runtime option" where
  "build_adaptive_runtime E rv tools file_system sv config =
     (case cf_artifact_path config of
        None \<Rightarrow> Inr None
      | Some path \<Rightarrow>
          rbind (adaptive_from_trusted_artifact E rv tools sv (file_system path)
                   (Some (cf_candidate_model_ids config))) (\<lambda>service.
          Inr (Some \<lparr>ru_service = service, ru_candidate_model_ids = cf_candidate_model_ids config,
                 ru_approved_quality_threshold = approved_threshold (ad_predictor_metadata service)\<rparr>)))"

subsection \<open>Which models a run calls\<close>

lemma calls_record_execution [calls]: "calls_within ms (record_execution E ad ev d)"
  unfolding record_execution_def loop_clock_def by (auto intro!: calls split: option.split)

lemma calls_finish_execution [calls]: "calls_within ms (finish_execution E ad d row rec)"
  unfolding finish_execution_def by (auto intro!: calls)

lemma calls_check_deadline [calls]: "calls_within ms (check_deadline E d)"
  unfolding check_deadline_def by (auto intro!: calls)

lemma calls_correlation [calls]: "calls_within ms (correlation E rid)"
  unfolding correlation_def by (auto intro!: calls split: option.split)

lemma calls_validate_with [calls]: "calls_within ms (validate_with ad r c)"
  by (rule calls_none) (auto simp: validate_with_def)

lemma calls_judge_attempt [calls]: "calls_within ms (judge_attempt E ad dec cid d final attempts r res)"
  unfolding judge_attempt_def by (auto intro!: calls)

lemma calls_adaptive_call:
  assumes "registry_inv (sv_registry (ad_inference ad))"
  shows "calls_within [mid] (adaptive_call E ad rq dec cid d n mid attempts)"
  unfolding adaptive_call_def
  by (rule calls_catch [OF calls_service_generate [OF assms]]) (auto intro!: calls split: option.split)

lemma calls_validated_attempt:
  assumes "registry_inv (sv_registry (ad_inference ad))"
  shows "calls_within [mid] (validated_attempt E ad rq c dec cid d n mid final attempts)"
  unfolding validated_attempt_def
  by (rule calls_bind_none [OF calls_check_deadline], rule calls_bind_first [OF calls_adaptive_call [OF assms]])
    (auto intro!: calls)

lemma calls_validated_loop:
  assumes "registry_inv (sv_registry (ad_inference ad))"
  shows "calls_within plan (validated_loop E ad rq c dec cid d n plan attempts)"
proof (induction plan arbitrary: n attempts)
  case Nil
  show ?case unfolding validated_loop.simps by (rule calls)
next
  case (Cons mid rest)
  have "calls_within ([mid] @ rest) (validated_loop E ad rq c dec cid d n (mid # rest) attempts)"
    unfolding validated_loop.simps
    by (rule calls_bind [OF calls_validated_attempt [OF assms]])
      (auto intro!: calls Cons.IH split: attempt_outcome.split)
  then show ?case by simp
qed

lemma calls_generate_validated:
  assumes "registry_inv (sv_registry (ad_inference ad))"
  shows "calls_within (escalation_plan (ad_max_validation_attempts ad) routing)
           (generate_validated E ad rq c routing rid d)"
  unfolding generate_validated_def
  by (intro calls_bind_none calls calls_validated_loop [OF assms])

lemma calls_generate_unvalidated:
  assumes "registry_inv (sv_registry (ad_inference ad))"
  shows "calls_within [dc_selected_model_id dec] (generate_unvalidated E ad rq dec rid d)"
  unfolding generate_unvalidated_def count_unvalidated_def
  by (intro calls_bind_none [OF calls_correlation] calls_bind_first calls_catch calls_service_generate [OF assms])
    (auto intro!: calls)

subsection \<open>The escalation plan\<close>

lemma resolve_candidates_Inr:
  assumes "registry_inv (sv_registry sv)" "resolve_candidates sv ids = Inr ms"
  shows "map mc_model_id ms = ids
     \<and> list_all (\<lambda>m. mc_enabled m \<and> resolver_supports (sv_resolver sv) (mc_provider m)) ms"
proof -
  have "list_all2 (\<lambda>i m. resolve_candidate sv i = Inr m) ids ms"
    using assms(2) by (simp add: resolve_candidates_def mapM_Inr_iff)
  then have "list_all2 (\<lambda>i m. mc_model_id m = i \<and> mc_enabled m
      \<and> resolver_supports (sv_resolver sv) (mc_provider m)) ids ms"
    by (rule list_all2_mono)
      (auto simp: resolve_candidate_def rbind_eq_Inr registry_get_id [OF assms(1)] split: if_splits)
  then show ?thesis
    by (induction ids ms rule: list_all2_induct) auto
qed

lemma route_features_plan:
  assumes "route_features_with_snapshot svc f cands v = Inr r"
  shows "distinct (map cp_model_id (rr_candidates r))
     \<and> set (map cp_model_id (rr_candidates r)) = set (map mc_model_id (eligible_for svc f cands))
     \<and> dc_selected_model_id (rr_decision r) \<in> set (map cp_model_id (rr_candidates r))"
proof -
  obtain ps priced where r: "mapM (price_candidate f ps) (eligible_for svc f cands) = Inr priced"
    "policy_route priced v = Inr (rr_decision r)"
    "rr_candidates r = map (snapshot_candidate (dc_quality_threshold (rr_decision r))) priced"
    "distinct (map mc_model_id (eligible_for svc f cands))"
    by (rule route_features_Inr [OF assms])
  have "list_all2 (\<lambda>m c. price_candidate f ps m = Inr c) (eligible_for svc f cands) priced"
    using r(1) by (simp add: mapM_Inr_iff)
  then have "map cp_model_id priced = map mc_model_id (eligible_for svc f cands)"
    by (induction rule: list_all2_induct) (auto dest: price_candidate_Inr)
  moreover have "map cp_model_id (rr_candidates r) = map cp_model_id priced"
    unfolding r(3) by simp
  moreover have "dc_selected_model_id (rr_decision r) \<in> set (map cp_model_id priced)"
    using policy_route_Inr [OF r(2)] by (auto simp: decision_spec_def)
  ultimately show ?thesis using r(4) by (metis set_map)
qed

lemma escalation_plan_distinct:
  assumes "distinct (map cp_model_id (rr_candidates r))"
  shows "distinct (escalation_plan k r)"
proof -
  have "distinct (map cp_model_id (sort_key escalation_key
      (filter (\<lambda>c. sn_qualifies c \<and> cp_model_id c \<noteq> dc_selected_model_id (rr_decision r)) (rr_candidates r))))"
    using assms by (auto simp: distinct_map inj_on_def)
  then show ?thesis by (auto simp: escalation_plan_def Let_def intro!: distinct_take)
qed

lemma escalation_plan_set:
  "dc_selected_model_id (rr_decision r) \<in> set (map cp_model_id (rr_candidates r)) \<Longrightarrow>
     set (escalation_plan k r) \<subseteq> set (map cp_model_id (rr_candidates r))"
  by (auto simp: escalation_plan_def Let_def dest!: in_set_takeD split: if_splits)

lemma escalation_plan_length: "length (escalation_plan k r) \<le> k"
  by (simp add: escalation_plan_def Let_def)

lemma escalation_plan_fallback:
  "dc_fallback_used (rr_decision r) \<Longrightarrow> length (escalation_plan k r) \<le> 1"
  by (simp add: escalation_plan_def)

text \<open>An eligibility filter that only drops candidates.\<close>

definition filter_drops :: "routing_service \<Rightarrow> bool" where
  "filter_drops svc \<longleftrightarrow>
     (case rt_eligibility_filter svc of None \<Rightarrow> True | Some flt \<Rightarrow> \<forall>f cs. set (flt f cs) \<subseteq> set cs)"

lemma eligible_subset: "filter_drops svc \<Longrightarrow> set (eligible_for svc f cands) \<subseteq> set cands"
  by (auto simp: filter_drops_def eligible_for_def split: option.splits)

lemma route_plan:
  assumes "route_with_snapshot svc rq cands v cat so = Inr r" "filter_drops svc"
  shows "distinct (escalation_plan k r) \<and> set (escalation_plan k r) \<subseteq> set (map mc_model_id cands)
     \<and> dc_selected_model_id (rr_decision r) \<in> set (map mc_model_id cands)"
proof -
  obtain f where f: "route_features_with_snapshot svc f cands v = Inr r"
    using assms(1) by (auto simp: route_with_snapshot_def rbind_eq_Inr)
  note P = route_features_plan [OF f]
  have "set (map mc_model_id (eligible_for svc f cands)) \<subseteq> set (map mc_model_id cands)"
    using eligible_subset [OF assms(2)] by auto
  then show ?thesis
    using P escalation_plan_distinct escalation_plan_set [of r k] by blast
qed

subsection \<open>The stages of a request\<close>

lemma bind_check_deadline:
  "abind (check_deadline E d) f w =
     (if rd_expires_at d \<le> env_clock E (w_ix w)
      then (Inl (Exn InferenceDeadlineExceededErrorC), w\<lparr>w_ix := Suc (w_ix w)\<rparr>)
      else f () (w\<lparr>w_ix := Suc (w_ix w)\<rparr>))"
  by (simp add: check_deadline_def abind_assoc bind_clock)

lemma bind_lift: "abind (lift_result r) f w = (case r of Inl c \<Rightarrow> (Inl (Exn c), w) | Inr a \<Rightarrow> f a w)"
  by (simp add: abind_def lift_result_def split: sum.split)

text \<open>
  A request either stops before anything is called, or reaches one of the two execution paths
  with its candidates resolved and its decision counted.
\<close>

lemma adaptive_generate_stages:
  assumes run: "adaptive_generate E ad rq cat v ids contract so rid dl w = (x, w')"
  obtains (stopped) k e where "x = Inl e" "w' = w\<lparr>w_ix := w_ix w + k\<rparr>"
  | (unvalidated) cands dec d k where "contract = None" "dl \<noteq> None \<longrightarrow> dl = Some d"
      "resolve_candidates (ad_inference ad) ids = Inr cands"
      "route (ad_routing ad) rq cands v cat so = Inr dec"
      "generate_unvalidated E ad rq dec rid d
         (w\<lparr>w_ix := w_ix w + k, w_obs := obs_routing_decision (dc_selected_model_id dec)
            (routing_decision_reason_value (dc_reason dec)) (w_obs w)\<rparr>) = (x, w')"
  | (validated) c cands r d k where "contract = Some c" "dl \<noteq> None \<longrightarrow> dl = Some d"
      "resolve_candidates (ad_inference ad) ids = Inr cands"
      "route_with_snapshot (ad_routing ad) rq cands v cat so = Inr r"
      "generate_validated E ad rq c r rid d
         (w\<lparr>w_ix := w_ix w + k, w_obs := obs_routing_decision (dc_selected_model_id (rr_decision r))
            (routing_decision_reason_value (dc_reason (rr_decision r))) (w_obs w)\<rparr>) = (x, w')"
proof -
  let ?first = "case dl of Some d \<Rightarrow> areturn d | None \<Rightarrow> service_new_deadline E (ad_inference ad)"
  let ?rest = "\<lambda>d. abind (lift_result (resolve_candidates (ad_inference ad) ids)) (\<lambda>candidates.
     case contract of
       None \<Rightarrow>
         abind (lift_result (route (ad_routing ad) rq candidates v cat so)) (\<lambda>decision.
         abind (count_decision decision) (\<lambda>_. generate_unvalidated E ad rq decision rid d))
     | Some contract \<Rightarrow>
         abind (lift_result (route_with_snapshot (ad_routing ad) rq candidates v cat so)) (\<lambda>routing.
         abind (count_decision (rr_decision routing)) (\<lambda>_. generate_validated E ad rq contract routing rid d)))"
  have run: "abind ?first (\<lambda>d. abind (check_deadline E d) (\<lambda>_. ?rest d)) w = (x, w')"
    using run by (simp only: adaptive_generate_def)
  consider e where "x = Inl e" "w' = w" | d k where "dl \<noteq> None \<longrightarrow> dl = Some d"
      "abind (check_deadline E d) (\<lambda>_. ?rest d) (w\<lparr>w_ix := w_ix w + k\<rparr>) = (x, w')"
  proof (cases dl)
    case None
    show ?thesis
    proof (cases "sv_inference_deadline_seconds (ad_inference ad) \<le> 0")
      case True
      then show ?thesis using run None that(1)
        by (auto simp: service_new_deadline_def new_request_deadline_def)
    next
      case False
      then have "abind (check_deadline E \<lparr>rd_expires_at = env_clock E (w_ix w) + sv_inference_deadline_seconds (ad_inference ad)\<rparr>)
          (\<lambda>_. ?rest \<lparr>rd_expires_at = env_clock E (w_ix w) + sv_inference_deadline_seconds (ad_inference ad)\<rparr>)
          (w\<lparr>w_ix := w_ix w + 1\<rparr>) = (x, w')"
        using run None by (simp add: service_new_deadline_def new_request_deadline_def abind_assoc)
      then show ?thesis using None by - (rule that(2) [rotated], assumption, simp)
    qed
  next
    case (Some a)
    then have "abind (check_deadline E a) (\<lambda>_. ?rest a) (w\<lparr>w_ix := w_ix w + 0\<rparr>) = (x, w')"
      using run by simp
    then show ?thesis using Some by - (rule that(2) [rotated], assumption, simp)
  qed
  then show thesis
  proof cases
    case (1 e)
    then show thesis using stopped [of e 0] by simp
  next
    case (2 d k)
    note check = 2(2) [unfolded bind_check_deadline]
    show thesis
    proof (cases "rd_expires_at d \<le> env_clock E (w_ix w + k)")
      case True
      then show thesis using check stopped [of _ "k + 1"] by auto
    next
      case False
      have rest: "?rest d (w\<lparr>w_ix := w_ix w + (k + 1)\<rparr>) = (x, w')"
        using 2(2) False by (simp only: bind_check_deadline) simp
      show thesis
      proof (cases "resolve_candidates (ad_inference ad) ids")
        case (Inl c)
        then show thesis using rest stopped [of _ "k + 1"] by (auto simp: bind_lift)
      next
        case (Inr cands)
        show thesis
        proof (cases contract)
          case None
          show thesis
          proof (cases "route (ad_routing ad) rq cands v cat so")
            case (Inl c)
            then show thesis using rest Inr None stopped [of _ "k + 1"] by (auto simp: bind_lift)
          next
            case dec: (Inr dec)
            show thesis
              by (rule unvalidated [OF None 2(1) Inr dec, of "k + 1"])
                (use rest Inr None dec in \<open>simp add: bind_lift count_decision_def\<close>)
          qed
        next
          case (Some c)
          show thesis
          proof (cases "route_with_snapshot (ad_routing ad) rq cands v cat so")
            case (Inl e)
            then show thesis using rest Inr Some stopped [of _ "k + 1"] by (auto simp: bind_lift)
          next
            case r: (Inr r)
            show thesis
              by (rule validated [OF Some 2(1) Inr r, of "k + 1"])
                (use rest Inr Some r in \<open>simp add: bind_lift count_decision_def\<close>)
          qed
        qed
      qed
    qed
  qed
qed

text \<open>
  Claim C3. Whatever the environment answers and however the run ends, an adaptive request
  calls at most three models (one without a contract), never one model twice, and only models
  the caller named as candidates.
\<close>

theorem adaptive_calls_are_bounded:
  assumes run: "adaptive_generate E ad rq cat v ids contract so rid dl w = (x, w')"
    and inv: "registry_inv (sv_registry (ad_inference ad))" and drops: "filter_drops (ad_routing ad)"
    and limit: "ad_max_validation_attempts ad \<le> 3"
  shows "\<exists>cs. w_calls w' = w_calls w @ cs \<and> distinct cs \<and> set cs \<subseteq> set ids
     \<and> length cs \<le> (if contract = None then 1 else 3)"
  using run
proof (cases rule: adaptive_generate_stages)
  case (stopped k e)
  then show ?thesis by (intro exI [of _ "[]"]) simp
next
  case (unvalidated cands dec d k)
  obtain r where "route_with_snapshot (ad_routing ad) rq cands v cat so = Inr r" "dec = rr_decision r"
    using unvalidated(4) by (auto simp: route_def rbind_eq_Inr)
  then have dec: "dc_selected_model_id dec \<in> set ids"
    using route_plan [OF _ drops] resolve_candidates_Inr [OF inv unvalidated(3)] by metis
  obtain cs where "subseq cs [dc_selected_model_id dec]" "w_calls w' = w_calls w @ cs"
    using calls_withinE [OF calls_generate_unvalidated [OF inv] unvalidated(5)] by auto
  then show ?thesis using dec unvalidated(1)
    by (auto dest!: subseq_one)
next
  case (validated c cands r d k)
  let ?plan = "escalation_plan (ad_max_validation_attempts ad) r"
  have plan: "distinct ?plan" "set ?plan \<subseteq> set ids"
    using route_plan [OF validated(4) drops] resolve_candidates_Inr [OF inv validated(3)] by auto
  obtain cs where cs: "subseq cs ?plan" "w_calls w' = w_calls w @ cs"
    using calls_withinE [OF calls_generate_validated [OF inv] validated(5)] by auto
  have "set cs \<subseteq> set ?plan" "length cs \<le> length ?plan" "distinct cs"
    using cs(1) plan(1) subseq_set subseq_distinct list_emb_length by blast+
  then show ?thesis
    using cs(2) plan limit validated(1) escalation_plan_length [of "ad_max_validation_attempts ad" r]
    by (intro exI [of _ cs]) auto
qed

subsection \<open>A configured runtime\<close>

lemma AdaptiveRoutingConfig_Inr:
  assumes "AdaptiveRoutingConfig p ids = Inr c"
  shows "(cf_artifact_path c = None \<and> cf_candidate_model_ids c = [])
    \<or> (cf_artifact_path c \<noteq> None \<and> cf_candidate_model_ids c \<noteq> [] \<and> distinct (cf_candidate_model_ids c)
        \<and> list_all is_identifier (cf_candidate_model_ids c))"
proof -
  obtain js where js: "mapM Identifier ids = Inr js"
    using assms by (auto simp: AdaptiveRoutingConfig_def rbind_eq_Inr)
  then have "list_all is_identifier js"
    by (auto simp: list_all_iff dest!: mapM_Inr_mem dest: Identifier_Inr)
  then show ?thesis
    using assms js by (auto simp: AdaptiveRoutingConfig_def Let_def split: if_splits)
qed

lemma artifact_service_ready:
  assumes "adaptive_from_trusted_artifact E rv tools sv dir (Some ids) = Inr ad"
    and inv: "registry_inv (sv_registry sv)"
  shows "ad_inference ad = sv \<and> ad_max_validation_attempts ad = 3
    \<and> (\<exists>ms. resolve_candidates sv ids = Inr ms \<and> map mc_model_id ms = ids
         \<and> list_all (\<lambda>m. mc_enabled m \<and> resolver_supports (sv_resolver sv) (mc_provider m)) ms)
    \<and> set ids \<subseteq> set FOUNDATION_V3_CANDIDATE_IDS"
proof -
  obtain sp ms where sp: "predictor_from_trusted_artifact rv tools dir = Inr sp"
    and ms: "resolve_candidates sv ids = Inr ms"
      "\<not> list_ex (\<lambda>m. mc_model_id m \<notin> set (metadata_candidates (sp_metadata sp))) ms"
    and ad: "ad_inference ad = sv" "ad_max_validation_attempts ad = 3"
    using assms(1)
    by (auto simp: adaptive_from_trusted_artifact_def rbind_eq_Inr new_adaptive_service_def Let_def split: if_splits)
  have "metadata_candidates (sp_metadata sp) = FOUNDATION_V3_CANDIDATE_IDS"
    using sp by (auto simp: predictor_from_trusted_artifact_def new_sklearn_predictor_def rbind_eq_Inr
        check_loaded_Inr dest: validated_candidates)
  moreover have "map mc_model_id ms = ids" using resolve_candidates_Inr [OF inv ms(1)] by simp
  ultimately have "set ids \<subseteq> set FOUNDATION_V3_CANDIDATE_IDS"
    using ms(2) by (auto simp: list_ex_iff)
  then show ?thesis using ad ms(1) resolve_candidates_Inr [OF inv ms(1)] by blast
qed

text \<open>
  A runtime built from the environment is ready: its candidates are distinct
  non-empty identifiers, every one is an enabled registered model with an adapter and known to
  the trusted predictor, and the service tries at most three of them.
\<close>

theorem configured_runtime_is_ready:
  assumes config: "config_from_environment artifact candidates = Inr c"
    and built: "build_adaptive_runtime E rv tools files sv c = Inr (Some rt)"
    and inv: "registry_inv (sv_registry sv)"
  shows "ru_candidate_model_ids rt \<noteq> [] \<and> distinct (ru_candidate_model_ids rt)
    \<and> list_all is_identifier (ru_candidate_model_ids rt)
    \<and> set (ru_candidate_model_ids rt) \<subseteq> set FOUNDATION_V3_CANDIDATE_IDS
    \<and> (\<exists>ms. map mc_model_id ms = ru_candidate_model_ids rt
         \<and> list_all (\<lambda>m. mc_enabled m \<and> resolver_supports (sv_resolver sv) (mc_provider m)
              \<and> registry_get (sv_registry sv) (mc_model_id m) = Inr m) ms)
    \<and> ad_max_validation_attempts (ru_service rt) = 3"
proof -
  obtain path ad where path: "cf_artifact_path c = Some path"
    and ad: "adaptive_from_trusted_artifact E rv tools sv (files path) (Some (cf_candidate_model_ids c)) = Inr ad"
    and rt: "ru_service rt = ad" "ru_candidate_model_ids rt = cf_candidate_model_ids c"
    using built by (auto simp: build_adaptive_runtime_def rbind_eq_Inr split: option.splits)
  have c: "cf_candidate_model_ids c \<noteq> [] \<and> distinct (cf_candidate_model_ids c)
      \<and> list_all is_identifier (cf_candidate_model_ids c)"
    using config AdaptiveRoutingConfig_Inr path
    by (fastforce simp: config_from_environment_def Let_def split: if_splits)
  obtain ms where ms: "resolve_candidates sv (cf_candidate_model_ids c) = Inr ms"
      "map mc_model_id ms = cf_candidate_model_ids c"
      "list_all (\<lambda>m. mc_enabled m \<and> resolver_supports (sv_resolver sv) (mc_provider m)) ms"
    using artifact_service_ready [OF ad inv] by blast
  have "\<forall>m\<in>set ms. registry_get (sv_registry sv) (mc_model_id m) = Inr m"
  proof
    fix m assume "m \<in> set ms"
    then obtain i where "resolve_candidate sv i = Inr m"
      using ms(1) by (auto simp: resolve_candidates_def dest: mapM_Inr_mem)
    then have "registry_get (sv_registry sv) i = Inr m"
      by (auto simp: resolve_candidate_def rbind_eq_Inr split: if_splits)
    then show "registry_get (sv_registry sv) (mc_model_id m) = Inr m"
      using registry_get_id [OF inv] by simp
  qed
  then show ?thesis
    using artifact_service_ready [OF ad inv] rt c ms(2,3) by (auto simp: list_all_iff)
qed

end
