(* ===== verification/Frames.thy ===== *)
theory Frames
  imports Inference_Service
begin

section \<open>What an action leaves alone\<close>

text \<open>
  A view is a part of the world that an action may keep. The locale \<open>frame\<close> says when a view
  does not depend on what the explicit service changes (the time, the calls, the inference rows,
  and those updates of the metrics that \<open>ok\<close> accepts); its lemmas follow the view through the
  actions, up to the whole explicit service. \<open>wide_frame\<close> also ignores the adaptive rows and
  every metric. The accounting of the adaptive service and the activity rows of the chat service
  are views.
\<close>

named_theorems keeping

locale frame =
  fixes view :: "world \<Rightarrow> 'v"
    and ok :: "(observability \<Rightarrow> observability) \<Rightarrow> bool"
  assumes view_ix: "view (w\<lparr>w_ix := i\<rparr>) = view w"
    and view_calls: "view (w\<lparr>w_calls := cs\<rparr>) = view w"
    and view_row: "view (add_inference_row r w) = view w"
    and view_obs: "ok g \<Longrightarrow> view (w\<lparr>w_obs := g (w_obs w)\<rparr>) = view w"
    and ok_attempt: "ok (provider_attempt p m oc cat dur mode cost rid)"
    and ok_write: "ok (telemetry_write t oc ms)"
    and ok_emit: "ok (emit ev l kvs)"
begin

definition keeps :: "'a act \<Rightarrow> bool" where
  "keeps m \<longleftrightarrow> (\<forall>w x w'. m w = (x, w') \<longrightarrow> view w' = view w)"

lemma keepsI: "(\<And>w x w'. m w = (x, w') \<Longrightarrow> view w' = view w) \<Longrightarrow> keeps m"
  by (simp add: keeps_def)

lemma keepsD: "keeps m \<Longrightarrow> m w = (x, w') \<Longrightarrow> view w' = view w"
  by (simp add: keeps_def)

lemma keeps_bind [keeping]: "keeps m \<Longrightarrow> (\<And>a. keeps (f a)) \<Longrightarrow> keeps (abind m f)"
  by (rule keepsI) (auto simp: abind_def keeps_def split: prod.splits sum.splits)

lemma keeps_catch [keeping]: "keeps m \<Longrightarrow> (\<And>e. keeps (h e)) \<Longrightarrow> keeps (acatch m h)"
  by (rule keepsI) (auto simp: acatch_def keeps_def split: prod.splits sum.splits)

lemma keeps_return [keeping]: "keeps (areturn a)" and keeps_raise [keeping]: "keeps (araise e)"
  and keeps_lift [keeping]: "keeps (lift_result r)"
  by (auto intro!: keepsI simp: lift_result_def split: sum.splits)

lemma keeps_ask [keeping]: "keeps (ask g)"
  by (rule keepsI) (auto simp: ask_def view_ix)

lemma keeps_observe [keeping]: "ok g \<Longrightarrow> keeps (observe_with g)"
  by (rule keepsI) (auto simp: view_obs)

lemma view_call: "view (w\<lparr>w_ix := i, w_calls := cs\<rparr>) = view w"
  using view_calls [of cs "w\<lparr>w_ix := i\<rparr>"] view_ix [of i w] by simp

lemma keeps_call [keeping]: "keeps (call_provider p m rq t)"
  by (rule keepsI) (auto simp: call_provider_def view_call)

lemma keeps_add_inference [keeping]: "keeps (hand_over add_inference_row f r)"
  by (rule keepsI) (auto simp: hand_over_def view_ix view_row)

lemma keeps_write [keeping]: "keeps m \<Longrightarrow> keeps (guarded_write (ask g) rt rid m)"
  unfolding guarded_write_def on_write_failure_def by (auto intro!: keeping ok_write ok_emit)

lemma keeps_clock [keeping]:
  "keeps (expired E d)" "keeps (remaining_seconds E d)" "keeps (constrain_timeout E d t)"
  "keeps (uuid4 E)" "keeps (perf_counter E)" "keeps (service_new_deadline E sv)"
  by (auto intro!: keeping simp: expired_def remaining_seconds_def constrain_timeout_def
      uuid4_def perf_counter_def service_new_deadline_def new_request_deadline_def)

lemma keeps_record [keeping]: "keeps (service_record E sv ev d)"
  unfolding service_record_def perf_clock_def by (auto intro!: keeping ok_write split: option.split)

lemma keeps_log_attempt [keeping]: "keeps (log_attempt E m rid mode s oc cat cost)"
  unfolding log_attempt_def by (auto intro!: keeping ok_attempt)

lemma keeps_attempt [keeping]: "keeps (attempt_body E p m rq d)"
  unfolding attempt_body_def guarded_call_def by (auto intro!: keeping)

lemma keeps_attempt_failure [keeping]: "keeps (on_attempt_failure E m rid mode s e)"
  unfolding on_attempt_failure_def by (auto intro!: keeping)

lemma keeps_generate_model [keeping]: "keeps (service_generate_model E sv m rq d rid mode)"
  unfolding service_generate_model_def by (auto intro!: keeping split: sum.split)

lemma keeps_generate_and_record [keeping]: "keeps (generate_and_record E sv m rq d cid mode)"
  unfolding generate_and_record_def on_generate_failure_def by (auto intro!: keeping)

lemma keeps_service_generate [keeping]: "keeps (service_generate E sv mid rq rid dl mode)"
  unfolding service_generate_def generate_within_def by (auto intro!: keeping split: option.split)

end

locale wide_frame = frame view "\<lambda>_. True" for view :: "world \<Rightarrow> 'v" +
  assumes view_adaptive_row: "view (add_adaptive_row r w) = view w"
begin

lemma keeps_add_adaptive [keeping]: "keeps (hand_over add_adaptive_row f r)"
  by (rule keepsI) (auto simp: hand_over_def view_ix view_adaptive_row)

lemma keeps_any_observe [keeping]: "keeps (observe_with g)"
  by (rule keeps_observe) simp

end

end
