(* ===== verification/Adaptive_Accounting.thy ===== *)
theory Adaptive_Accounting
  imports Adaptive Frames
begin

section \<open>What an adaptive request leaves behind\<close>

text \<open>
  Every adaptive execution that ends with a response, a failed validation or a failed call
  counts one terminal metric and hands one row to the repository. The lemmas follow the view
  of the world these two make up (\<open>terminals\<close> and \<open>w_adaptive_rows\<close>) through the run; the
  explicit service in the middle does not touch it.
\<close>

definition terminals :: "observability \<Rightarrow> nat" where
  "terminals ob = length (filter (\<lambda>(m, _, _). m = ADAPTIVE_ATTEMPTS) (observations ob))"

definition view :: "world \<Rightarrow> nat \<times> adaptive_execution_telemetry list" where
  "view w = (terminals (w_obs w), w_adaptive_rows w)"

lemma terminals_simps [simp]:
  "terminals (emit ev l kvs ob) = terminals ob"
  "terminals (inc m ls a ob) = terminals ob"
  "terminals (observe m ls y ob) = (if m = ADAPTIVE_ATTEMPTS then Suc (terminals ob) else terminals ob)"
  by (simp_all add: terminals_def emit_def inc_def observe_def)

lemma terminals_records [simp]:
  "terminals (provider_attempt p m oc cat d mode cost rid ob) = terminals ob"
  "terminals (telemetry_write t oc dur ob) = terminals ob"
  "terminals (obs_routing_decision m r ob) = terminals ob"
  "terminals (obs_validation_failure m r n ob) = terminals ob"
  "terminals (adaptive_request t e rc n rid vo ob) = Suc (terminals ob)"
  by (cases cost; cases dur; simp add: record_method_defs Let_def)+

lemma terminals_count_failures [simp]: "terminals (count_failures m n res ob) = terminals ob"
  unfolding count_failures_def by (induction "vr_failures res" arbitrary: ob res)
    (simp, metis (no_types, lifting) comp_apply fold_simps(2) terminals_records(4) validation_result.select_convs(2))

interpretation account: frame view "\<lambda>g. \<forall>ob. terminals (g ob) = terminals ob"
  by unfold_locales (simp_all add: view_def add_inference_row_def)

lemma keeps_ix: "view (w\<lparr>w_ix := i\<rparr>) = view w"
  by (rule account.view_ix)

subsection \<open>The terminal row\<close>

definition adaptive_repository ::
  "adaptive_service \<Rightarrow> (nat \<Rightarrow> adaptive_execution_telemetry \<Rightarrow> exn option) option" where
  "adaptive_repository ad =
     (case sv_telemetry (ad_inference ad) of None \<Rightarrow> None | Some repo \<Rightarrow> repo_record_adaptive repo)"

text \<open>A service whose repository fails only with ordinary exceptions.\<close>

definition quiet_adaptive :: "adaptive_service \<Rightarrow> bool" where
  "quiet_adaptive ad \<longleftrightarrow> (case adaptive_repository ad of None \<Rightarrow> True | Some f \<Rightarrow> only_exceptions f)"

text \<open>
  One terminal metric was counted for the row and the row was handed over, unless no
  repository takes it or the deadline had passed by the end.
\<close>

definition settled ::
  "env \<Rightarrow> adaptive_service \<Rightarrow> request_deadline \<Rightarrow> adaptive_execution_telemetry \<Rightarrow> world \<Rightarrow> world \<Rightarrow> bool" where
  "settled E ad d row w w' \<longleftrightarrow> adaptive_execution_telemetry_valid row
     \<and> terminals (w_obs w') = Suc (terminals (w_obs w))
     \<and> (w_adaptive_rows w' = w_adaptive_rows w @ [row]
        \<or> (w_adaptive_rows w' = w_adaptive_rows w
            \<and> (adaptive_repository ad = None \<or> rd_expires_at d \<le> env_clock E (w_ix w'))))"

lemma settled_view: "settled E ad d row w1 w' \<Longrightarrow> view w1 = view w \<Longrightarrow> settled E ad d row w w'"
  by (simp add: settled_def view_def)

lemma terminals_hand_over: "hand_over add_adaptive_row f r w = (x, w') \<Longrightarrow> terminals (w_obs w') = terminals (w_obs w)"
  by (auto simp: hand_over_def add_adaptive_row_def)

lemma terminals_write:
  assumes "guarded_write (ask g) rt rid (hand_over add_adaptive_row f r) w = (x, w')"
  shows "terminals (w_obs w') = terminals (w_obs w)"
proof -
  let ?w = "w\<lparr>w_ix := Suc (w_ix w)\<rparr>"
  obtain y w1 where y: "hand_over add_adaptive_row f r ?w = (y, w1)" by fastforce
  then have t: "terminals (w_obs w1) = terminals (w_obs w)" using terminals_hand_over [OF y] by simp
  have run: "abind (acatch (abind (hand_over add_adaptive_row f r) (\<lambda>_. areturn True))
        (on_write_failure (ask g) rt rid (g (w_ix w))))
      (\<lambda>written. if written then abind (ask g) (\<lambda>t. observe_with
          (telemetry_write rt ''success'' (Some (t - g (w_ix w))))) else areturn ()) ?w = (x, w')"
    using assms by (simp add: guarded_write_def)
  show ?thesis
    using run t
    by (cases y) (auto simp: abind_def acatch_def ask_def y on_write_failure_def split: if_splits)
qed

lemma record_execution_run:
  assumes run: "record_execution E ad ev d w = (x, w')" and quiet: "quiet_adaptive ad"
    and clock: "clock_ok E"
  shows "x = Inr () \<and> terminals (w_obs w') = terminals (w_obs w)
    \<and> (w_adaptive_rows w' = w_adaptive_rows w @ [ev]
       \<or> (w_adaptive_rows w' = w_adaptive_rows w
          \<and> (adaptive_repository ad = None \<or> rd_expires_at d \<le> env_clock E (w_ix w'))))"
proof (cases "adaptive_repository ad")
  case None
  then show ?thesis using run
    by (auto simp: record_execution_def adaptive_repository_def split: option.splits)
next
  case (Some f)
  note run = run [unfolded record_execution_def, folded adaptive_repository_def]
  show ?thesis
  proof (cases "env_clock E (w_ix w) < rd_expires_at d")
    case False
    then have "rd_expires_at d \<le> env_clock E (Suc (w_ix w))"
      using expired_stays [OF clock, of d "w_ix w" "Suc (w_ix w)"] by simp
    then show ?thesis using run Some False by (auto simp: bind_clock)
  next
    case True
    let ?w = "w\<lparr>w_ix := Suc (w_ix w)\<rparr>"
    have g: "guarded_write (loop_clock E) ''adaptive'' (ae_request_id ev) (hand_over add_adaptive_row f ev) ?w = (x, w')"
      using run Some True by (simp add: bind_clock)
    note S = adaptive_log.guarded_write_run [OF g [unfolded loop_clock_def]]
    have "x = Inr ()" using S quiet Some unfolding quiet_adaptive_def only_exceptions_def by auto
    then show ?thesis
      using S terminals_write [OF g [unfolded loop_clock_def]] by (auto simp: adaptive_log.step_def)
  qed
qed

text \<open>The errors of the accounting itself: a sum that overflows, a record that is refused.\<close>

definition accounting_error :: "exn \<Rightarrow> bool" where
  "accounting_error e \<longleftrightarrow> e \<in> {Exn DecimalOverflowC, Exn ValidationErrorC}"

lemma dec_sum_Inl: "dec_sum p a ds = Inl c \<Longrightarrow> c = DecimalOverflowC"
proof (induction ds arbitrary: a)
  case (Cons d ds)
  then show ?case
    by (cases "dec_add p a d")
      (auto simp: dec_add_def dec_fix_def Let_def split: if_splits prod.splits)
qed simp

lemma known_cost_Inl: "known_cost atts = Inl c \<Longrightarrow> c = DecimalOverflowC"
  unfolding known_cost_def by (rule dec_sum_Inl)

lemma build_execution_Inl: "build_execution atts vs = Inl c \<Longrightarrow> accounting_error (Exn c)"
  by (auto simp: build_execution_def total_cost_def rbind_eq_Inl accounting_error_def Let_def
      dest: dec_sum_Inl split: if_splits)

lemma finish_execution_run:
  assumes run: "finish_execution E ad d row rec w = (x, w')"
    and quiet: "quiet_adaptive ad" and clock: "clock_ok E"
    and row: "\<forall>c. row = Inl c \<longrightarrow> c = DecimalOverflowC"
  shows "(\<exists>ev. x = Inr () \<and> row = Inr ev \<and> settled E ad d ev w w')
    \<or> (\<exists>e. x = Inl e \<and> accounting_error e \<and> w' = w)"
proof (cases "rbind row AdaptiveExecutionTelemetry")
  case (Inl c)
  then have "accounting_error (Exn c)"
    using row by (cases row) (auto simp: AdaptiveExecutionTelemetry_def accounting_error_def split: if_splits)
  then show ?thesis using run Inl by (auto simp: finish_execution_def bind_lift)
next
  case (Inr ev)
  then have ev: "row = Inr ev" "adaptive_execution_telemetry_valid ev"
    by (auto simp: rbind_eq_Inr AdaptiveExecutionTelemetry_def split: if_splits)
  obtain y w1 where y: "record_execution E ad ev d w = (y, w1)" by fastforce
  note R = record_execution_run [OF y quiet clock]
  have "x = Inr () \<and> w_adaptive_rows w' = w_adaptive_rows w1 \<and> w_ix w' = w_ix w1
      \<and> terminals (w_obs w') = Suc (terminals (w_obs w1))"
    using run y R Inr by (auto simp: finish_execution_def bind_lift abind_Inr)
  then show ?thesis using R ev by (auto simp: settled_def)
qed

subsection \<open>One attempt\<close>

lemma adaptive_call_run:
  assumes run: "adaptive_call E ad rq dec cid d n mid atts w = (x, w')"
    and quiet: "quiet_adaptive ad" and clock: "clock_ok E"
  shows "(\<exists>r. x = Inr r \<and> view w' = view w)
    \<or> (\<exists>e. x = Inl e \<and>
          ((\<exists>row. settled E ad d row w w' \<and> ae_attempt_count row = n \<and> ae_terminal_outcome row = terminal_of e
               \<and> ae_initial_routed_model_id row = dc_selected_model_id dec \<and> ae_returned_model_id row = None)
        \<or> ((accounting_error e \<or> \<not> isinstance e ExceptionC) \<and> view w' = view w)))"
proof -
  obtain y w1 where y: "service_generate E (ad_inference ad) mid rq (Some cid) (Some d) ''adaptive'' w = (y, w1)"
    by fastforce
  have v: "view w1 = view w" using account.keepsD [OF account.keeps_service_generate y] .
  show ?thesis
  proof (cases y)
    case (Inr r)
    then show ?thesis using run y v by (auto simp: adaptive_call_def acatch_def)
  next
    case (Inl e)
    show ?thesis
    proof (cases "exn_completion e = None \<and> isinstance e ExceptionC")
      case False
      then show ?thesis using run y v Inl by (auto simp: adaptive_call_def acatch_def split: option.splits)
    next
      case True
      let ?row = "failure_execution_row cid dec atts n e"
      obtain z w2 where z: "finish_execution E ad d ?row False w1 = (z, w2)" by fastforce
      have row: "\<forall>c. ?row = Inl c \<longrightarrow> c = DecimalOverflowC"
        using known_cost_Inl by (auto simp: failure_execution_row_def rbind_eq_Inl)
      have ok: "?row = Inr ev \<Longrightarrow> ae_attempt_count ev = n \<and> ae_terminal_outcome ev = terminal_of e
          \<and> ae_initial_routed_model_id ev = dc_selected_model_id dec \<and> ae_returned_model_id ev = None" for ev
        by (auto simp: failure_execution_row_def rbind_eq_Inr)
      from finish_execution_run [OF z quiet clock row] show ?thesis
      proof (elim disjE exE conjE)
        fix ev assume ev: "z = Inr ()" "?row = Inr ev" "settled E ad d ev w1 w2"
        then have "x = Inl e" "w' = w2"
          using run y Inl True z by (auto simp: adaptive_call_def acatch_def abind_Inr)
        then show ?thesis using ok [OF ev(2)] settled_view [OF ev(3) v] by blast
      next
        fix e' assume e': "z = Inl e'" "accounting_error e'" "w2 = w1"
        then have "x = Inl e'" "w' = w1"
          using run y Inl True z by (auto simp: adaptive_call_def acatch_def abind_Inl)
        then show ?thesis using e' v by blast
      qed
    qed
  qed
qed

lemma outcome_row_fields:
  assumes "outcome_execution_row cid dec atts ex res ret = Inr row"
  shows "ae_attempt_count row = length atts \<and> ae_returned_model_id row = ret
    \<and> ae_terminal_outcome row = (if ret = None then ATO_VALIDATION_FAILED else ATO_RETURNED)
    \<and> ae_initial_routed_model_id row = dc_selected_model_id dec
    \<and> ae_cost_complete row = (ax_total_estimated_cost_usd ex \<noteq> None)
    \<and> known_cost atts = Inr (ae_cumulative_known_cost_usd row)
    \<and> ae_escalated row = (1 < length atts)"
  using assms by (auto simp: outcome_execution_row_def rbind_eq_Inr)

lemma outcome_row_Inl: "\<forall>c. outcome_execution_row cid dec atts ex res ret = Inl c \<longrightarrow> c = DecimalOverflowC"
  using known_cost_Inl by (auto simp: outcome_execution_row_def rbind_eq_Inl)

text \<open>A finished run: the row that was left, the attempts behind it.\<close>

definition returned_by ::
  "env \<Rightarrow> adaptive_service \<Rightarrow> routing_decision \<Rightarrow> request_deadline \<Rightarrow> adaptive_attempt list \<Rightarrow>
   inference_response \<Rightarrow> adaptive_inference_result \<Rightarrow> world \<Rightarrow> world \<Rightarrow> bool" where
  "returned_by E ad dec d atts resp result w w' \<longleftrightarrow>
     (\<exists>ex row. result = \<lparr>ar_response = resp, ar_routing_decision = dec, ar_execution = Some ex\<rparr>
        \<and> build_execution atts VS_PASSED = Inr ex \<and> settled E ad d row w w'
        \<and> ae_terminal_outcome row = ATO_RETURNED \<and> ae_returned_model_id row = Some (rs_model_id resp)
        \<and> ae_attempt_count row = length atts \<and> ae_initial_routed_model_id row = dc_selected_model_id dec
        \<and> known_cost atts = Inr (ae_cumulative_known_cost_usd row))"

definition failed_by ::
  "env \<Rightarrow> adaptive_service \<Rightarrow> routing_decision \<Rightarrow> request_deadline \<Rightarrow> exn \<Rightarrow> nat \<Rightarrow> world \<Rightarrow> world \<Rightarrow> bool" where
  "failed_by E ad dec d e n w w' \<longleftrightarrow>
     (\<exists>row. settled E ad d row w w' \<and> ae_returned_model_id row = None \<and> ae_attempt_count row = n
        \<and> ae_initial_routed_model_id row = dc_selected_model_id dec
        \<and> ae_terminal_outcome row \<in> {terminal_of e, ATO_VALIDATION_FAILED}
        \<and> (ae_terminal_outcome row = ATO_VALIDATION_FAILED \<longrightarrow> e = Exn ResponseValidationErrorC))"

definition silent_error :: "adaptive_service \<Rightarrow> exn \<Rightarrow> bool" where
  "silent_error ad e \<longleftrightarrow>
     e = Exn InferenceDeadlineExceededErrorC \<or> accounting_error e \<or> \<not> isinstance e ExceptionC
   \<or> (\<exists>i r c. ad_validator ad i r c = Inl e)"

lemma returned_view: "returned_by E ad dec d atts resp result w1 w' \<Longrightarrow> view w1 = view w \<Longrightarrow>
    returned_by E ad dec d atts resp result w w'"
  unfolding returned_by_def using settled_view by blast

lemma failed_view: "failed_by E ad dec d e n w1 w' \<Longrightarrow> view w1 = view w \<Longrightarrow> failed_by E ad dec d e n w w'"
  unfolding failed_by_def using settled_view by blast

lemma terminal_of_not_validation [simp]: "terminal_of e \<noteq> ATO_VALIDATION_FAILED"
  by (simp add: terminal_of_def)

lemma judge_attempt_run:
  assumes run: "judge_attempt E ad dec cid d final atts resp res w = (x, w')"
    and quiet: "quiet_adaptive ad" and clock: "clock_ok E"
  shows "(vr_status res = VS_PASSED \<and> (\<exists>result. x = Inr (Finished result)
            \<and> returned_by E ad dec d atts resp result w w'))
    \<or> (x = Inl (Exn ResponseValidationErrorC) \<and> failed_by E ad dec d (Exn ResponseValidationErrorC) (length atts) w w')
    \<or> (\<exists>e. x = Inl e \<and> accounting_error e \<and> view w' = view w)
    \<or> (x = Inr (Escalate (last atts)) \<and> recoverable res \<and> \<not> final \<and> w' = w)"
proof (cases "vr_status res \<noteq> VS_PASSED \<and> recoverable res \<and> \<not> final")
  case True
  then show ?thesis using run by (simp add: judge_attempt_def)
next
  case False
  show ?thesis
  proof (cases "build_execution atts (vr_status res)")
    case (Inl c)
    then have "x = Inl (Exn c) \<and> w' = w" using run False
      by (simp add: judge_attempt_def bind_lift split: if_splits)
    then show ?thesis using build_execution_Inl [OF Inl] by blast
  next
    case (Inr ex)
    define ret where "ret = (if vr_status res = VS_PASSED then Some (rs_model_id resp) else None)"
    define rec where "rec = (vr_status res = VS_PASSED \<and> 1 < length atts
      \<and> list_ex (\<lambda>a. vt_status (at_validation a) = VS_FAILED) (butlast atts))"
    let ?row = "outcome_execution_row cid dec atts ex res ret"
    let ?out = "if vr_status res = VS_PASSED
      then Inr (Finished \<lparr>ar_response = resp, ar_routing_decision = dec, ar_execution = Some ex\<rparr>)
      else Inl (Exn ResponseValidationErrorC)"
    obtain z w2 where z: "finish_execution E ad d ?row rec w = (z, w2)" by fastforce
    have x: "x = (case z of Inl e \<Rightarrow> Inl e | Inr u \<Rightarrow> ?out) \<and> w' = w2"
    proof (cases "vr_status res = VS_PASSED")
      case True
      then show ?thesis using run Inr z
        by (cases z) (auto simp: judge_attempt_def bind_lift abind_Inl abind_Inr ret_def rec_def)
    next
      case other: False
      then show ?thesis using run Inr z False
        by (cases z) (auto simp: judge_attempt_def bind_lift abind_Inl abind_Inr ret_def rec_def)
    qed
    from finish_execution_run [OF z quiet clock outcome_row_Inl] show ?thesis
    proof (elim disjE exE conjE)
      fix row assume r: "z = Inr ()" "?row = Inr row" "settled E ad d row w w2"
      note F = outcome_row_fields [OF r(2)]
      show ?thesis
      proof (cases "vr_status res = VS_PASSED")
        case True
        then have "returned_by E ad dec d atts resp
            \<lparr>ar_response = resp, ar_routing_decision = dec, ar_execution = Some ex\<rparr> w w'"
          using x r F Inr unfolding returned_by_def ret_def by auto
        then show ?thesis using True x r(1) by auto
      next
        case other: False
        then have "failed_by E ad dec d (Exn ResponseValidationErrorC) (length atts) w w'"
          using x r F unfolding failed_by_def ret_def by auto
        then show ?thesis using other x r(1) by auto
      qed
    next
      fix e assume "z = Inl e" "accounting_error e" "w2 = w"
      then show ?thesis using x by auto
    qed
  qed
qed

lemma attempt_fields:
  "AdaptiveAttempt n mid res resp = Inr a \<Longrightarrow>
     at_model_id a = mid \<and> at_attempt_number a = n \<and> vt_status (at_validation a) = vr_status res
   \<and> at_estimated_cost_usd a = Some (rs_estimated_cost_usd resp)"
  by (auto simp: AdaptiveAttempt_def validation_telemetry_from_result_def split: if_splits)

lemma attempt_Inl: "AdaptiveAttempt n mid res resp = Inl c \<Longrightarrow> accounting_error (Exn c)"
  by (simp add: AdaptiveAttempt_def accounting_error_def split: if_splits)

lemma validated_attempt_run:
  assumes run: "validated_attempt E ad rq c dec cid d n mid final atts w = (x, w')"
    and quiet: "quiet_adaptive ad" and clock: "clock_ok E" and n: "n = Suc (length atts)"
  obtains (passed) resp res a i result where
      "ad_validator ad i resp (Some c) = Inr res" "vr_status res = VS_PASSED"
      "at_model_id a = mid" "vt_status (at_validation a) = VS_PASSED"
      "x = Inr (Finished result)" "returned_by E ad dec d (atts @ [a]) resp result w w'"
  | (failed) e where "x = Inl e" "failed_by E ad dec d e n w w'"
  | (silent) e where "x = Inl e" "silent_error ad e" "view w' = view w"
  | (escalated) a where "x = Inr (Escalate a)" "at_model_id a = mid" "vt_status (at_validation a) = VS_FAILED"
      "\<not> final" "view w' = view w"
proof (cases "rd_expires_at d \<le> env_clock E (w_ix w)")
  case True
  then show thesis
    using run silent by (auto simp: validated_attempt_def bind_check_deadline keeps_ix silent_error_def)
next
  case in_time: False
  let ?w1 = "w\<lparr>w_ix := Suc (w_ix w)\<rparr>"
  obtain y w2 where y: "adaptive_call E ad rq dec cid d n mid atts ?w1 = (y, w2)" by fastforce
  note C = adaptive_call_run [OF y quiet clock]
  have vw: "view ?w1 = view w" by (rule keeps_ix)
  show thesis
  proof (cases y)
    case (Inl e)
    then have x: "x = Inl e" "w' = w2"
      using run y in_time by (simp_all add: validated_attempt_def bind_check_deadline abind_Inl)
    consider row where "settled E ad d row ?w1 w2" "ae_attempt_count row = n" "ae_terminal_outcome row = terminal_of e"
        "ae_initial_routed_model_id row = dc_selected_model_id dec" "ae_returned_model_id row = None"
      | "silent_error ad e" "view w2 = view ?w1"
      using C Inl unfolding silent_error_def by blast
    then show thesis
    proof cases
      case (1 row)
      then have "failed_by E ad dec d e n ?w1 w'" unfolding failed_by_def x(2)
        by (intro exI [of _ row]) auto
      then show thesis using failed [OF x(1)] failed_view [OF _ vw] by blast
    next
      case 2
      then show thesis using silent [OF x(1)] vw x(2) by simp
    qed
  next
    case (Inr resp)
    then have v2: "view w2 = view w" using C vw by auto
    show thesis
    proof (cases "rd_expires_at d \<le> env_clock E (w_ix w2)")
      case True
      then show thesis using run y Inr in_time v2 silent
        by (auto simp: validated_attempt_def abind_Inr bind_check_deadline keeps_ix silent_error_def)
    next
      case in_time2: False
      let ?w3 = "w2\<lparr>w_ix := Suc (w_ix w2)\<rparr>"
      let ?judge = "\<lambda>res. abind (check_deadline E d) (\<lambda>_.
         abind (observe_with (count_failures mid n res)) (\<lambda>_.
         abind (lift_result (AdaptiveAttempt n mid res resp)) (\<lambda>attempt.
         judge_attempt E ad dec cid d final (atts @ [attempt]) resp res)))"
      have run3: "abind (validate_with ad resp c) ?judge ?w3 = (x, w')"
        using run y Inr in_time in_time2 by (simp add: validated_attempt_def abind_Inr bind_check_deadline)
      let ?i = "w_ix ?w3"
      let ?w4 = "?w3\<lparr>w_ix := w_ix ?w3 + 2\<rparr>"
      show thesis
      proof (cases "ad_validator ad ?i resp (Some c)")
        case (Inl e)
        then have "x = Inl e" "w' = ?w4" using run3 by (simp_all add: validate_with_def abind_def)
        moreover have "silent_error ad e" using Inl unfolding silent_error_def by blast
        ultimately show thesis using silent v2 by (simp add: keeps_ix)
      next
        case res: (Inr res)
        have run4: "?judge res ?w4 = (x, w')"
          using run3 res by (simp add: validate_with_def abind_def)
        show thesis
        proof (cases "rd_expires_at d \<le> env_clock E (w_ix ?w4)")
          case True
          then show thesis using run4 v2 silent
            by (auto simp: bind_check_deadline keeps_ix silent_error_def)
        next
          case in_time4: False
          let ?w5 = "?w4\<lparr>w_ix := Suc (w_ix ?w4), w_obs := count_failures mid n res (w_obs ?w4)\<rparr>"
          have v5: "view ?w5 = view w" using v2 by (simp add: view_def)
          have run5: "abind (lift_result (AdaptiveAttempt n mid res resp)) (\<lambda>attempt.
             judge_attempt E ad dec cid d final (atts @ [attempt]) resp res) ?w5 = (x, w')"
            using run4 in_time4 by (simp add: bind_check_deadline)
          show thesis
          proof (cases "AdaptiveAttempt n mid res resp")
            case (Inl e)
            then show thesis using run5 v5 attempt_Inl [OF Inl] silent
              by (auto simp: bind_lift silent_error_def)
          next
            case a: (Inr a)
            have run6: "judge_attempt E ad dec cid d final (atts @ [a]) resp res ?w5 = (x, w')"
              using run5 a by (simp add: bind_lift)
            note A = attempt_fields [OF a]
            from judge_attempt_run [OF run6 quiet clock] show thesis
            proof (elim disjE exE conjE)
              fix result assume p: "vr_status res = VS_PASSED" "x = Inr (Finished result)"
                "returned_by E ad dec d (atts @ [a]) resp result ?w5 w'"
              show thesis
                by (rule passed [OF res p(1) _ _ p(2) returned_view [OF p(3) v5]]) (use A p(1) in simp_all)
            next
              assume "x = Inl (Exn ResponseValidationErrorC)"
                "failed_by E ad dec d (Exn ResponseValidationErrorC) (length (atts @ [a])) ?w5 w'"
              then show thesis using failed failed_view [OF _ v5] n by simp
            next
              fix e assume "x = Inl e" "accounting_error e" "view w' = view ?w5"
              then show thesis using silent v5 by (simp add: silent_error_def)
            next
              assume "x = Inr (Escalate (last (atts @ [a])))" "recoverable res" "\<not> final" "w' = ?w5"
              then show thesis using escalated A v5 by (simp add: recoverable_def)
            qed
          qed
        qed
      qed
    qed
  qed
qed

subsection \<open>The run\<close>

text \<open>
  The attempts of a returned execution: they follow the plan, every one but the last failed
  its validation, the last passed, and the returned response is the one the validator passed.
\<close>

definition justified ::
  "adaptive_service \<Rightarrow> validation_contract \<Rightarrow> string list \<Rightarrow> adaptive_attempt list \<Rightarrow> inference_response \<Rightarrow> bool" where
  "justified ad c plan atts resp \<longleftrightarrow>
     atts \<noteq> [] \<and> prefix (map at_model_id atts) plan
   \<and> list_all (\<lambda>a. vt_status (at_validation a) = VS_FAILED) (butlast atts)
   \<and> vt_status (at_validation (last atts)) = VS_PASSED
   \<and> (\<exists>i res. ad_validator ad i resp (Some c) = Inr res \<and> vr_status res = VS_PASSED)"

lemma justified_Cons:
  "justified ad c rest new resp \<Longrightarrow> at_model_id a = mid \<Longrightarrow> vt_status (at_validation a) = VS_FAILED \<Longrightarrow>
     justified ad c (mid # rest) (a # new) resp"
  by (auto simp: justified_def)

lemma validated_loop_run:
  assumes "validated_loop E ad rq c dec cid d n plan atts w = (x, w')" "plan \<noteq> []"
    and quiet: "quiet_adaptive ad" and clock: "clock_ok E" and "n = Suc (length atts)"
  shows "(\<exists>result resp new. x = Inr result \<and> justified ad c plan new resp
            \<and> returned_by E ad dec d (atts @ new) resp result w w')
    \<or> (\<exists>e m. x = Inl e \<and> failed_by E ad dec d e m w w' \<and> m \<le> length atts + length plan)
    \<or> (\<exists>e. x = Inl e \<and> silent_error ad e \<and> view w' = view w)"
  using assms(1,2,5)
proof (induction plan arbitrary: n atts w)
  case (Cons mid rest)
  obtain y w1 where y: "validated_attempt E ad rq c dec cid d n mid (rest = []) atts w = (y, w1)" by fastforce
  note run = Cons.prems(1) [unfolded validated_loop.simps]
  from y quiet clock Cons.prems(3) show ?case
  proof (cases rule: validated_attempt_run)
    case (passed resp res a i result)
    then have "x = Inr result" "w' = w1" using run y by (simp_all add: abind_Inr)
    moreover have "justified ad c (mid # rest) [a] resp" using passed by (auto simp: justified_def)
    ultimately show ?thesis using passed(6) by blast
  next
    case (failed e)
    then have "x = Inl e" "w' = w1" using run y by (simp_all add: abind_Inl)
    then show ?thesis using failed(2) Cons.prems(3) by fastforce
  next
    case (silent e)
    then have "x = Inl e" "w' = w1" using run y by (simp_all add: abind_Inl)
    then show ?thesis using silent by blast
  next
    case (escalated a)
    then have run': "validated_loop E ad rq c dec cid d (Suc n) rest (atts @ [a]) w1 = (x, w')"
      using run y by (simp add: abind_Inr)
    have IH: "(\<exists>result resp new. x = Inr result \<and> justified ad c rest new resp
            \<and> returned_by E ad dec d ((atts @ [a]) @ new) resp result w1 w')
      \<or> (\<exists>e m. x = Inl e \<and> failed_by E ad dec d e m w1 w' \<and> m \<le> length (atts @ [a]) + length rest)
      \<or> (\<exists>e. x = Inl e \<and> silent_error ad e \<and> view w' = view w1)"
      by (rule Cons.IH [OF run']) (use escalated Cons.prems(3) in simp_all)
    then show ?thesis
    proof (elim disjE exE conjE)
      fix result resp new
      assume r: "x = Inr result" "justified ad c rest new resp"
        "returned_by E ad dec d ((atts @ [a]) @ new) resp result w1 w'"
      have "justified ad c (mid # rest) (a # new) resp"
        using justified_Cons [OF r(2)] escalated by blast
      moreover have "returned_by E ad dec d (atts @ (a # new)) resp result w w'"
        using returned_view [OF r(3) escalated(5)] by simp
      ultimately show ?thesis using r(1) by blast
    next
      fix e m assume "x = Inl e" "failed_by E ad dec d e m w1 w'" "m \<le> length (atts @ [a]) + length rest"
      then show ?thesis using failed_view [OF _ escalated(5)] by fastforce
    next
      fix e assume "x = Inl e" "silent_error ad e" "view w' = view w1"
      then show ?thesis using escalated(5) by auto
    qed
  qed
qed simp

lemma escalation_plan_Nil: "0 < k \<Longrightarrow> escalation_plan k r \<noteq> []"
  by (cases k) (simp_all add: escalation_plan_def Let_def)

lemma generate_validated_run:
  assumes run: "generate_validated E ad rq c r rid d w = (x, w')"
    and quiet: "quiet_adaptive ad" and clock: "clock_ok E" and pos: "0 < ad_max_validation_attempts ad"
  shows "(\<exists>result resp new. x = Inr result
            \<and> justified ad c (escalation_plan (ad_max_validation_attempts ad) r) new resp
            \<and> returned_by E ad (rr_decision r) d new resp result w w')
    \<or> (\<exists>e m. x = Inl e \<and> failed_by E ad (rr_decision r) d e m w w' \<and> m \<le> ad_max_validation_attempts ad)
    \<or> (\<exists>e. x = Inl e \<and> silent_error ad e \<and> view w' = view w)"
proof -
  obtain cid k where loop: "validated_loop E ad rq c (rr_decision r) cid d 1
      (escalation_plan (ad_max_validation_attempts ad) r) [] (w\<lparr>w_ix := w_ix w + k\<rparr>) = (x, w')"
  proof -
    have "\<exists>cid k. validated_loop E ad rq c (rr_decision r) cid d 1
      (escalation_plan (ad_max_validation_attempts ad) r) [] (w\<lparr>w_ix := w_ix w + k\<rparr>) = (x, w')"
    proof (cases "rid = None \<or> rid = Some []")
      case True
      then have "validated_loop E ad rq c (rr_decision r) (env_uuid E (w_ix w + 1)) d 1
          (escalation_plan (ad_max_validation_attempts ad) r) [] (w\<lparr>w_ix := w_ix w + 2\<rparr>) = (x, w')"
        using run by (auto simp: generate_validated_def uuid4_def correlation_def)
      then show ?thesis by blast
    next
      case False
      then obtain i where "rid = Some i" "i \<noteq> []" by auto
      then have "validated_loop E ad rq c (rr_decision r) i d 1
          (escalation_plan (ad_max_validation_attempts ad) r) [] (w\<lparr>w_ix := w_ix w + 1\<rparr>) = (x, w')"
        using run by (simp add: generate_validated_def uuid4_def correlation_def)
      then show ?thesis by blast
    qed
    then show thesis using that by blast
  qed
  have v: "view (w\<lparr>w_ix := w_ix w + k\<rparr>) = view w" by (rule keeps_ix)
  have one: "1 = Suc (length ([] :: adaptive_attempt list))" by simp
  from validated_loop_run [OF loop escalation_plan_Nil [OF pos] quiet clock one]
  show ?thesis
  proof (elim disjE exE conjE)
    fix e m assume "x = Inl e" "failed_by E ad (rr_decision r) d e m (w\<lparr>w_ix := w_ix w + k\<rparr>) w'"
      "m \<le> length ([] :: adaptive_attempt list) + length (escalation_plan (ad_max_validation_attempts ad) r)"
    then show ?thesis
      using failed_view [OF _ v] escalation_plan_length [of "ad_max_validation_attempts ad" r]
      by (metis add_0 le_trans list.size(3))
  qed (use v returned_view [OF _ v] in \<open>auto, blast\<close>)
qed

subsection \<open>Properties\<close>


text \<open>
  Claim C12. Every end of an adaptive execution is accounted for: when it ends in an exception,
  either one terminal metric and one row without a returned model are left, or the end is one
  of the silent ones, where neither is left: the deadline found expired between two steps, an
  error of the accounting itself, an exception of the injected validator, or a cancellation.
\<close>

theorem failed_executions_are_accounted_for:
  assumes run: "generate_validated E ad rq c routing rid d w = (Inl e, w')"
    and quiet: "quiet_adaptive ad" and clock: "clock_ok E" and pos: "0 < ad_max_validation_attempts ad"
  shows "(\<exists>row. settled E ad d row w w' \<and> ae_returned_model_id row = None
            \<and> ae_attempt_count row \<le> ad_max_validation_attempts ad
            \<and> ae_terminal_outcome row \<in> {terminal_of e, ATO_VALIDATION_FAILED})
     \<or> (silent_error ad e \<and> terminals (w_obs w') = terminals (w_obs w)
          \<and> w_adaptive_rows w' = w_adaptive_rows w)"
  using generate_validated_run [OF run quiet clock pos] unfolding failed_by_def view_def by auto

text \<open>
  Without a contract the adaptive service is routing followed by the explicit
  service: it returns exactly the response, or raises exactly the exception, of the explicit
  service for the selected model under the same correlation id and deadline.
\<close>

theorem unvalidated_path_is_the_explicit_service:
  "\<exists>cid w1. fst (generate_unvalidated E ad rq dec rid d w) =
     (case fst (service_generate E (ad_inference ad) (dc_selected_model_id dec) rq (Some cid) (Some d) ''adaptive'' w1) of
        Inl e \<Rightarrow> Inl e
      | Inr r \<Rightarrow> Inr \<lparr>ar_response = r, ar_routing_decision = dec, ar_execution = None\<rparr>)
     \<and> view w1 = view w \<and> w_calls w1 = w_calls w \<and> w_rows w1 = w_rows w"
proof -
  obtain cid w1 where c: "correlation E rid w = (Inr cid, w1)" "view w1 = view w" "w_calls w1 = w_calls w"
      "w_rows w1 = w_rows w"
  proof (cases "rid = None \<or> rid = Some []")
    case True
    then have "correlation E rid w = (Inr (env_uuid E (w_ix w)), w\<lparr>w_ix := Suc (w_ix w)\<rparr>)"
      by (auto simp: correlation_def uuid4_def ask_def)
    then show thesis by (rule that) (simp_all add: keeps_ix)
  next
    case False
    then obtain i where "rid = Some i" "i \<noteq> []" by auto
    then have "correlation E rid w = (Inr i, w)" by (simp add: correlation_def)
    then show thesis by (rule that) simp_all
  qed
  let ?run = "service_generate E (ad_inference ad) (dc_selected_model_id dec) rq (Some cid) (Some d) ''adaptive'' w1"
  obtain y w2 where y: "?run = (y, w2)" by fastforce
  have "fst (generate_unvalidated E ad rq dec rid d w) =
     (case y of Inl e \<Rightarrow> Inl e | Inr r \<Rightarrow> Inr \<lparr>ar_response = r, ar_routing_decision = dec, ar_execution = None\<rparr>)"
    using y c(1) by (cases y)
      (auto simp: generate_unvalidated_def acatch_def abind_def count_unvalidated_def)
  then show ?thesis using y c by (intro exI [of _ cid] exI [of _ w1]) simp
qed

end
