(* ===== verification/Adaptive_Frames.thy ===== *)
theory Adaptive_Frames
  imports Frames Adaptive
begin

section \<open>What the adaptive service leaves alone\<close>

text \<open>
  The frame of the explicit service extended by what the adaptive service adds: execution rows,
  routing and validation counters, and the metric of a finished execution. A wide frame is one.
\<close>

locale adaptive_frame = frame +
  assumes view_execution_row: "view (add_adaptive_row r w) = view w"
    and ok_routing: "ok (obs_routing_decision m s)"
    and ok_failures: "ok (count_failures m n res)"
    and ok_adaptive: "ok (adaptive_request t esc rec k rid v)"
begin

lemma keeps_execution_row [keeping]: "keeps (hand_over add_adaptive_row f r)"
  by (rule keepsI) (auto simp: hand_over_def view_ix view_execution_row)

lemma keeps_finish_execution [keeping]: "keeps (finish_execution E ad d row rec)"
  unfolding finish_execution_def record_execution_def loop_clock_def
  by (auto intro!: keeping ok_write ok_adaptive split: option.split)

lemma keeps_check_deadline [keeping]: "keeps (check_deadline E d)"
  unfolding check_deadline_def by (auto intro!: keeping)

lemma keeps_correlation [keeping]: "keeps (correlation E rid)"
  unfolding correlation_def by (auto intro!: keeping split: option.split)

lemma keeps_validate_with [keeping]: "keeps (validate_with ad r c)"
  by (rule keepsI) (auto simp: validate_with_def view_ix)

lemma keeps_validated_attempt [keeping]:
  "keeps (validated_attempt E ad rq c dec cid d n mid final atts)"
  unfolding validated_attempt_def adaptive_call_def judge_attempt_def
  by (auto intro!: keeping ok_failures split: option.split)

lemma keeps_validated_loop [keeping]: "keeps (validated_loop E ad rq c dec cid d n plan atts)"
proof (induction plan arbitrary: n atts)
  case Nil
  show ?case unfolding validated_loop.simps by (rule keeping)
next
  case (Cons mid rest)
  then show ?case unfolding validated_loop.simps
    by (auto intro!: keeping split: attempt_outcome.split)
qed

lemma keeps_adaptive_generate [keeping]:
  "keeps (adaptive_generate E ad rq cat v ids contract so rid dl)"
  unfolding adaptive_generate_def generate_validated_def generate_unvalidated_def count_decision_def
    count_unvalidated_def
  by (auto intro!: keeping ok_routing ok_adaptive split: option.split)

end

sublocale wide_frame \<subseteq> adaptive_frame view "\<lambda>_. True"
  by unfold_locales (auto simp: view_adaptive_row)

end
