(* ===== verification/Chat.thy ===== *)
theory Chat
  imports Adaptive_Accounting Adaptive_Frames
begin

section \<open>ChatOrchestrationService\<close>

text \<open>
  \<^verbatim>\<open>application/chat.py\<close>: the frontend-facing choice between one direct call of the
  configured default model and the adaptive service, with one activity row per request. The
  activity row is written like every other row, but nothing is counted when no repository takes
  it or no time is left.
\<close>

datatype chat_routing_mode = CRM_AUTO | CRM_MANUAL

datatype category_source = CAT_MANUAL

record chat_configuration =
  cc_default_model_id :: string

definition ChatConfiguration :: "string \<Rightarrow> exn_class + chat_configuration" where
  "ChatConfiguration model_id = rbind (Identifier model_id) (\<lambda>i. Inr \<lparr>cc_default_model_id = i\<rparr>)"

definition chat_config_from_environment :: "string option \<Rightarrow> exn_class + chat_configuration" where
  "chat_config_from_environment variable =
     (let model_id = strip (case variable of None \<Rightarrow> '''' | Some s \<Rightarrow> s) in
      if model_id = [] then Inl ValueErrorC else ChatConfiguration model_id)"

record chat_result =
  ch_response :: inference_response
  ch_execution_mode :: chat_execution_mode
  ch_category :: "routing_category option"
  ch_category_source :: "category_source option"
  ch_routing_decision :: "routing_decision option"
  ch_execution :: "adaptive_execution option"

record chat_service =
  cs_inference :: inference_service
  cs_default_model_id :: string
  cs_runtime :: "adaptive_runtime option"

text \<open>The field constraints of the activity row.\<close>

definition opt_all :: "('a \<Rightarrow> bool) \<Rightarrow> 'a option \<Rightarrow> bool" where
  "opt_all P v = (case v of None \<Rightarrow> True | Some x \<Rightarrow> P x)"

definition chat_activity_record_valid :: "chat_activity_record \<Rightarrow> bool" where
  "chat_activity_record_valid e \<longleftrightarrow>
     1 \<le> length (ca_request_id e) \<and> length (ca_request_id e) \<le> 128
   \<and> opt_all (\<lambda>s. length s \<le> 64) (ca_category e)
   \<and> opt_all (\<lambda>s. s = ''manual'') (ca_category_source e)
   \<and> opt_all (\<lambda>s. 1 \<le> length s) (ca_initial_model_id e)
   \<and> opt_all (\<lambda>s. 1 \<le> length s) (ca_final_model_id e)
   \<and> opt_all (\<lambda>s. 1 \<le> length s) (ca_provider e)
   \<and> opt_all (\<lambda>n. 0 < n \<and> n \<le> 3) (ca_attempt_count e)
   \<and> opt_all (\<lambda>s. length s \<le> 32) (ca_validation_outcome e)
   \<and> opt_all (\<lambda>s. length s \<le> 64) (ca_error_category e)
   \<and> opt_all (\<lambda>n. 0 \<le> n) (ca_input_tokens e) \<and> opt_all (\<lambda>n. 0 \<le> n) (ca_output_tokens e)
   \<and> opt_all (\<lambda>x. 0 \<le> x) (ca_latency_ms e)"

definition ChatActivityRecord :: "chat_activity_record \<Rightarrow> exn_class + chat_activity_record" where
  "ChatActivityRecord e = (if chat_activity_record_valid e then Inr e else Inl ValidationErrorC)"

definition failure_outcome :: "exn \<Rightarrow> chat_activity_outcome" where
  "failure_outcome e =
     (if isinstance e ResponseValidationErrorC then CO_VALIDATION_FAILED
      else if isinstance e InferenceDeadlineExceededErrorC then CO_DEADLINE_EXCEEDED
      else CO_PROVIDER_FAILURE)"

definition chat_repository :: "inference_service \<Rightarrow> (nat \<Rightarrow> chat_activity_record \<Rightarrow> exn option) option" where
  "chat_repository sv =
     (case sv_telemetry sv of None \<Rightarrow> None | Some repo \<Rightarrow> repo_record_chat repo)"

definition record_activity ::
  "env \<Rightarrow> inference_service \<Rightarrow> chat_activity_record \<Rightarrow> request_deadline \<Rightarrow> unit act" where
  "record_activity E sv event deadline =
     (case chat_repository sv of
        None \<Rightarrow> areturn ()
      | Some record \<Rightarrow>
          abind (constrain_timeout E deadline (sv_telemetry_timeout sv)) (\<lambda>timeout.
          case timeout of
            None \<Rightarrow> areturn ()
          | Some _ \<Rightarrow> guarded_write (perf_clock E) ''chat_activity'' (ca_request_id event)
                        (hand_over add_chat_row record event)))"

definition log_activity ::
  "env \<Rightarrow> inference_service \<Rightarrow> chat_activity_record \<Rightarrow> request_deadline \<Rightarrow> unit act" where
  "log_activity E sv event deadline =
     abind (lift_result (ChatActivityRecord event)) (\<lambda>e. record_activity E sv e deadline)"

subsection \<open>The direct path\<close>

definition direct_failure_row :: "string \<Rightarrow> string \<Rightarrow> model_config \<Rightarrow> exn \<Rightarrow> chat_activity_record" where
  "direct_failure_row request_id default_model_id model e =
     (chat_activity_defaults request_id CM_DIRECT (failure_outcome e) False)
       \<lparr>ca_initial_model_id := Some default_model_id, ca_provider := Some (mc_provider model),
        ca_error_category := Some (chat_activity_outcome_value (failure_outcome e))\<rparr>"

definition direct_success_row :: "string \<Rightarrow> inference_response \<Rightarrow> chat_activity_record" where
  "direct_success_row request_id r =
     (chat_activity_defaults request_id CM_DIRECT CO_RETURNED True)
       \<lparr>ca_final_model_id := Some (rs_model_id r), ca_provider := Some (rs_provider r),
        ca_attempt_count := Some 1, ca_escalated := Some False,
        ca_input_tokens := Some (rs_input_tokens r), ca_output_tokens := Some (rs_output_tokens r),
        ca_latency_ms := Some (rs_latency_ms r), ca_estimated_cost_usd := Some (rs_estimated_cost_usd r)\<rparr>"

definition direct_recorded :: "exn \<Rightarrow> bool" where
  "direct_recorded e \<longleftrightarrow>
     isinstance e ProviderFailureErrorC \<or> isinstance e ProviderUnavailableErrorC
   \<or> isinstance e InferenceDeadlineExceededErrorC"

definition chat_direct ::
  "env \<Rightarrow> chat_service \<Rightarrow> inference_request \<Rightarrow> string \<Rightarrow> request_deadline \<Rightarrow> chat_result act" where
  "chat_direct E ch request request_id deadline =
     abind (acatch (service_generate E (cs_inference ch) (cs_default_model_id ch) request (Some request_id)
              (Some deadline) ''explicit'')
        (\<lambda>e. if direct_recorded e
             then abind (lift_result (registry_get (sv_registry (cs_inference ch)) (cs_default_model_id ch))) (\<lambda>model.
                  abind (log_activity E (cs_inference ch)
                           (direct_failure_row request_id (cs_default_model_id ch) model e) deadline) (\<lambda>_.
                  araise e))
             else araise e)) (\<lambda>response.
     abind (log_activity E (cs_inference ch) (direct_success_row request_id response) deadline) (\<lambda>_.
     areturn \<lparr>ch_response = response, ch_execution_mode = CM_DIRECT, ch_category = None,
       ch_category_source = None, ch_routing_decision = None, ch_execution = None\<rparr>))"

subsection \<open>The adaptive path\<close>

definition adaptive_failure_row :: "string \<Rightarrow> routing_category option \<Rightarrow> exn \<Rightarrow> chat_activity_record" where
  "adaptive_failure_row request_id category e =
     (chat_activity_defaults request_id CM_ADAPTIVE (failure_outcome e) False)
       \<lparr>ca_category := map_option routing_category_value category, ca_category_source := Some ''manual'',
        ca_error_category := Some (chat_activity_outcome_value (failure_outcome e))\<rparr>"

definition result_cost :: "adaptive_inference_result \<Rightarrow> dec option" where
  "result_cost result =
     (case ar_execution result of Some x \<Rightarrow> ax_total_estimated_cost_usd x
      | None \<Rightarrow> Some (rs_estimated_cost_usd (ar_response result)))"

definition result_latency :: "adaptive_inference_result \<Rightarrow> rat" where
  "result_latency result =
     (case ar_execution result of Some x \<Rightarrow> ax_total_latency_ms x | None \<Rightarrow> rs_latency_ms (ar_response result))"

definition adaptive_success_row ::
  "string \<Rightarrow> routing_category option \<Rightarrow> adaptive_inference_result \<Rightarrow> chat_activity_record" where
  "adaptive_success_row request_id category result =
     (let decision = ar_routing_decision result; execution = ar_execution result; r = ar_response result in
      (chat_activity_defaults request_id CM_ADAPTIVE CO_RETURNED (result_cost result \<noteq> None))
        \<lparr>ca_category := map_option routing_category_value category, ca_category_source := Some ''manual'',
         ca_initial_model_id := Some (dc_selected_model_id decision), ca_final_model_id := Some (rs_model_id r),
         ca_provider := Some (rs_provider r),
         ca_routing_threshold_satisfied := Some (dc_threshold_satisfied decision),
         ca_routing_fallback_used := Some (dc_fallback_used decision),
         ca_attempt_count := Some (case execution of Some x \<Rightarrow> length (ax_attempts x) | None \<Rightarrow> 1),
         ca_escalated := Some (case execution of Some x \<Rightarrow> ax_escalated x | None \<Rightarrow> False),
         ca_validation_outcome := map_option (\<lambda>x. validation_status_value (ax_validation_outcome x)) execution,
         ca_input_tokens := Some (rs_input_tokens r), ca_output_tokens := Some (rs_output_tokens r),
         ca_latency_ms := Some (result_latency result), ca_estimated_cost_usd := result_cost result\<rparr>)"

definition adaptive_recorded :: "exn \<Rightarrow> bool" where
  "adaptive_recorded e \<longleftrightarrow> direct_recorded e \<or> isinstance e ResponseValidationErrorC"

definition chat_adaptive ::
  "env \<Rightarrow> chat_service \<Rightarrow> inference_request \<Rightarrow> routing_category option \<Rightarrow> validation_contract option \<Rightarrow> string \<Rightarrow>
   request_deadline \<Rightarrow> chat_result act" where
  "chat_adaptive E ch request category validation request_id deadline =
     (case cs_runtime ch of
        None \<Rightarrow> araise (Exn AdaptiveRoutingUnavailableErrorC)
      | Some runtime \<Rightarrow>
          abind (acatch (adaptive_generate E (ru_service runtime) request
                   (map_option routing_category_value category)
                   (PyFloat (ru_approved_quality_threshold runtime)) (ru_candidate_model_ids runtime)
                   validation False (Some request_id) (Some deadline))
             (\<lambda>e. if adaptive_recorded e
                  then abind (log_activity E (cs_inference ch) (adaptive_failure_row request_id category e) deadline)
                         (\<lambda>_. araise e)
                  else araise e)) (\<lambda>result.
          abind (log_activity E (cs_inference ch) (adaptive_success_row request_id category result) deadline) (\<lambda>_.
          areturn \<lparr>ch_response = ar_response result, ch_execution_mode = CM_ADAPTIVE, ch_category = category,
            ch_category_source = Some CAT_MANUAL, ch_routing_decision = Some (ar_routing_decision result),
            ch_execution = ar_execution result\<rparr>)))"

definition chat_generate ::
  "env \<Rightarrow> chat_service \<Rightarrow> inference_request \<Rightarrow> chat_routing_mode \<Rightarrow> routing_category option \<Rightarrow>
   validation_contract option \<Rightarrow> string \<Rightarrow> request_deadline \<Rightarrow> chat_result act" where
  "chat_generate E ch request mode category validation request_id deadline =
     (case mode of
        CRM_AUTO \<Rightarrow> chat_direct E ch request request_id deadline
      | CRM_MANUAL \<Rightarrow> chat_adaptive E ch request category validation request_id deadline)"

definition build_chat_service ::
  "inference_service \<Rightarrow> chat_configuration \<Rightarrow> adaptive_runtime option \<Rightarrow> exn_class + chat_service" where
  "build_chat_service sv config runtime =
     (case registry_get (sv_registry sv) (cc_default_model_id config) of
        Inl c \<Rightarrow> Inl (if issubclass c ModelNotFoundErrorC then ValueErrorC else c)
      | Inr model \<Rightarrow>
          if \<not> mc_enabled model then Inl ValueErrorC
          else Inr \<lparr>cs_inference = sv, cs_default_model_id = mc_model_id model, cs_runtime = runtime\<rparr>)"

subsection \<open>The activity row\<close>

interpretation chat_rows: wide_frame w_chat_rows
  by unfold_locales (simp_all add: add_inference_row_def add_adaptive_row_def)

definition quiet_chat :: "inference_service \<Rightarrow> bool" where
  "quiet_chat sv \<longleftrightarrow> (case chat_repository sv of None \<Rightarrow> True | Some f \<Rightarrow> only_exceptions f)"

definition activity_left ::
  "env \<Rightarrow> inference_service \<Rightarrow> request_deadline \<Rightarrow> chat_activity_record \<Rightarrow> world \<Rightarrow> world \<Rightarrow> bool" where
  "activity_left E sv d row w w' \<longleftrightarrow> chat_activity_record_valid row
     \<and> (w_chat_rows w' = w_chat_rows w @ [row]
        \<or> (w_chat_rows w' = w_chat_rows w
            \<and> (chat_repository sv = None \<or> rd_expires_at d \<le> env_clock E (w_ix w'))))"

lemma activity_left_rows:
  "activity_left E sv d row w1 w' \<Longrightarrow> w_chat_rows w1 = w_chat_rows w \<Longrightarrow> activity_left E sv d row w w'"
  by (simp add: activity_left_def)

lemma record_activity_run:
  assumes run: "record_activity E sv ev d w = (x, w')" and quiet: "quiet_chat sv" and clock: "clock_ok E"
    and valid: "chat_activity_record_valid ev"
  shows "x = Inr () \<and> activity_left E sv d ev w w'"
proof (cases "chat_repository sv")
  case None
  then show ?thesis using run valid by (auto simp: record_activity_def activity_left_def)
next
  case (Some f)
  show ?thesis
  proof (cases "env_clock E (w_ix w) < rd_expires_at d")
    case False
    then have "rd_expires_at d \<le> env_clock E (Suc (w_ix w))"
      using expired_stays [OF clock, of d "w_ix w" "Suc (w_ix w)"] by simp
    then show ?thesis using run Some False valid
      by (auto simp: record_activity_def activity_left_def bind_clock)
  next
    case True
    let ?w = "w\<lparr>w_ix := Suc (w_ix w)\<rparr>"
    have g: "guarded_write (perf_clock E) ''chat_activity'' (ca_request_id ev) (hand_over add_chat_row f ev) ?w = (x, w')"
      using run Some True by (simp add: record_activity_def bind_clock)
    note S = chat_log.guarded_write_run [OF g [unfolded perf_clock_def]]
    have "x = Inr ()" using S quiet Some unfolding quiet_chat_def only_exceptions_def by auto
    then show ?thesis using S valid by (auto simp: chat_log.step_def activity_left_def)
  qed
qed

lemma log_activity_run:
  assumes run: "log_activity E sv ev d w = (x, w')" and quiet: "quiet_chat sv" and clock: "clock_ok E"
  shows "(x = Inr () \<and> activity_left E sv d ev w w')
    \<or> (x = Inl (Exn ValidationErrorC) \<and> w_chat_rows w' = w_chat_rows w)"
proof (cases "chat_activity_record_valid ev")
  case True
  then show ?thesis using run record_activity_run [OF _ quiet clock]
    by (auto simp: log_activity_def ChatActivityRecord_def bind_lift)
next
  case False
  then show ?thesis using run by (auto simp: log_activity_def ChatActivityRecord_def bind_lift)
qed

text \<open>
  How a request ends: with a response and its \<^verbatim>\<open>returned\<close> row, with a recorded failure
  and its row, or silently, which happens for a row the schema refuses and for the exceptions
  that no handler names.
\<close>

definition recorded_in :: "chat_routing_mode \<Rightarrow> exn \<Rightarrow> bool" where
  "recorded_in mode e = (case mode of CRM_AUTO \<Rightarrow> direct_recorded e | CRM_MANUAL \<Rightarrow> adaptive_recorded e)"

definition chat_end ::
  "chat_routing_mode \<Rightarrow> env \<Rightarrow> inference_service \<Rightarrow> request_deadline \<Rightarrow> exn + chat_result \<Rightarrow> world \<Rightarrow> world \<Rightarrow> bool" where
  "chat_end mode E sv d x w w' \<longleftrightarrow>
     (case x of
        Inr r \<Rightarrow> (\<exists>row. activity_left E sv d row w w' \<and> ca_outcome row = CO_RETURNED
            \<and> ca_final_model_id row = Some (rs_model_id (ch_response r))
            \<and> ca_execution_mode row = ch_execution_mode r \<and> ca_error_category row = None)
      | Inl e \<Rightarrow> (\<exists>row. activity_left E sv d row w w' \<and> ca_outcome row = failure_outcome e
            \<and> ca_error_category row = Some (chat_activity_outcome_value (failure_outcome e))
            \<and> recorded_in mode e)
          \<or> (w_chat_rows w' = w_chat_rows w \<and> (e = Exn ValidationErrorC \<or> \<not> recorded_in mode e)))"

lemma finish_failure:
  assumes run: "abind (log_activity E sv row d) (\<lambda>_. araise e) w1 = (x, w')"
    and quiet: "quiet_chat sv" and clock: "clock_ok E" and rows: "w_chat_rows w1 = w_chat_rows w"
    and row: "ca_outcome row = failure_outcome e"
      "ca_error_category row = Some (chat_activity_outcome_value (failure_outcome e))" "recorded_in mode e"
  shows "\<exists>f. x = Inl f \<and> chat_end mode E sv d (Inl f) w w'"
proof -
  obtain y w2 where y: "log_activity E sv row d w1 = (y, w2)" by fastforce
  from log_activity_run [OF y quiet clock] show ?thesis
  proof
    assume l: "y = Inr () \<and> activity_left E sv d row w1 w2"
    then have "x = Inl e" "w' = w2" using run y by (simp_all add: abind_Inr)
    moreover have "activity_left E sv d row w w2" using activity_left_rows l rows by blast
    ultimately show ?thesis using row unfolding chat_end_def by auto
  next
    assume "y = Inl (Exn ValidationErrorC) \<and> w_chat_rows w2 = w_chat_rows w1"
    then show ?thesis using run y rows by (auto simp: abind_Inl chat_end_def)
  qed
qed

lemma finish_success:
  assumes run: "abind (log_activity E sv row d) (\<lambda>_. areturn r) w1 = (x, w')"
    and quiet: "quiet_chat sv" and clock: "clock_ok E" and rows: "w_chat_rows w1 = w_chat_rows w"
    and row: "ca_outcome row = CO_RETURNED" "ca_final_model_id row = Some (rs_model_id (ch_response r))"
      "ca_execution_mode row = ch_execution_mode r" "ca_error_category row = None"
  shows "chat_end mode E sv d x w w'"
proof -
  obtain y w2 where y: "log_activity E sv row d w1 = (y, w2)" by fastforce
  from log_activity_run [OF y quiet clock] show ?thesis
  proof
    assume l: "y = Inr () \<and> activity_left E sv d row w1 w2"
    then have "x = Inr r" "w' = w2" using run y by (simp_all add: abind_Inr)
    moreover have "activity_left E sv d row w w2" using activity_left_rows l rows by blast
    ultimately show ?thesis using row unfolding chat_end_def by auto
  next
    assume "y = Inl (Exn ValidationErrorC) \<and> w_chat_rows w2 = w_chat_rows w1"
    then show ?thesis using run y rows by (auto simp: abind_Inl chat_end_def)
  qed
qed

lemma chat_direct_run:
  assumes run: "chat_direct E ch rq rid d w = (x, w')"
    and quiet: "quiet_chat (cs_inference ch)" and clock: "clock_ok E"
  shows "chat_end CRM_AUTO E (cs_inference ch) d x w w'"
proof -
  let ?sv = "cs_inference ch"
  obtain y w1 where y: "service_generate E ?sv (cs_default_model_id ch) rq (Some rid) (Some d) ''explicit'' w = (y, w1)"
    by fastforce
  have rows: "w_chat_rows w1 = w_chat_rows w" using chat_rows.keepsD [OF chat_rows.keeps_service_generate y] .
  show ?thesis
  proof (cases y)
    case (Inr r)
    let ?r = "\<lparr>ch_response = r, ch_execution_mode = CM_DIRECT, ch_category = None,
       ch_category_source = None, ch_routing_decision = None, ch_execution = None\<rparr>"
    have "abind (log_activity E ?sv (direct_success_row rid r) d) (\<lambda>_. areturn ?r) w1 = (x, w')"
      using run y Inr by (simp add: chat_direct_def acatch_def abind_Inr)
    then show ?thesis
      by (rule finish_success [OF _ quiet clock rows])
        (simp_all add: direct_success_row_def chat_activity_defaults_def)
  next
    case (Inl e)
    show ?thesis
    proof (cases "direct_recorded e")
      case False
      then have "x = Inl e \<and> w' = w1" using run y Inl by (simp add: chat_direct_def acatch_def abind_Inl)
      then show ?thesis using rows False by (simp add: chat_end_def recorded_in_def)
    next
      case True
      show ?thesis
      proof (cases "registry_get (sv_registry ?sv) (cs_default_model_id ch)")
        case (Inl c)
        then have "c = ModelNotFoundErrorC" by (auto simp: registry_get_def split: option.splits)
        moreover have "x = Inl (Exn c) \<and> w' = w1"
          using run y \<open>y = Inl e\<close> True Inl
          by (auto simp: chat_direct_def acatch_def bind_lift abind_Inl abind_def lift_result_def)
        moreover have "\<not> direct_recorded (Exn ModelNotFoundErrorC)"
          by (simp add: direct_recorded_def isinstance_def issubclass_eval)
        ultimately show ?thesis using rows by (simp add: chat_end_def recorded_in_def)
      next
        case (Inr m)
        let ?fail = "abind (log_activity E ?sv (direct_failure_row rid (cs_default_model_id ch) m e) d)
          (\<lambda>_. araise e :: inference_response act)"
        obtain z w2 where z: "?fail w1 = (z, w2)" by fastforce
        have "\<exists>f. z = Inl f \<and> chat_end CRM_AUTO E ?sv d (Inl f) w w2"
          by (rule finish_failure [OF z quiet clock rows])
            (use True in \<open>simp_all add: direct_failure_row_def chat_activity_defaults_def recorded_in_def\<close>)
        then obtain f where f: "z = Inl f" "chat_end CRM_AUTO E ?sv d (Inl f) w w2" by blast
        have "x = Inl f \<and> w' = w2"
          using run y \<open>y = Inl e\<close> True Inr z f(1)
          by (auto simp: chat_direct_def acatch_def bind_lift abind_Inl)
        then show ?thesis using f by simp
      qed
    qed
  qed
qed

lemma chat_adaptive_run:
  assumes run: "chat_adaptive E ch rq cat v rid d w = (x, w')"
    and quiet: "quiet_chat (cs_inference ch)" and clock: "clock_ok E"
  shows "chat_end CRM_MANUAL E (cs_inference ch) d x w w'"
proof (cases "cs_runtime ch")
  case None
  moreover have "\<not> adaptive_recorded (Exn AdaptiveRoutingUnavailableErrorC)"
    by (simp add: adaptive_recorded_def direct_recorded_def isinstance_def issubclass_eval)
  ultimately show ?thesis using run by (auto simp: chat_adaptive_def chat_end_def recorded_in_def)
next
  case (Some rt)
  let ?sv = "cs_inference ch"
  let ?gen = "adaptive_generate E (ru_service rt) rq (map_option routing_category_value cat)
     (PyFloat (ru_approved_quality_threshold rt)) (ru_candidate_model_ids rt) v False (Some rid) (Some d)"
  obtain y w1 where y: "?gen w = (y, w1)" by fastforce
  have rows: "w_chat_rows w1 = w_chat_rows w" using chat_rows.keepsD [OF chat_rows.keeps_adaptive_generate y] .
  show ?thesis
  proof (cases y)
    case (Inr result)
    let ?r = "\<lparr>ch_response = ar_response result, ch_execution_mode = CM_ADAPTIVE, ch_category = cat,
      ch_category_source = Some CAT_MANUAL, ch_routing_decision = Some (ar_routing_decision result),
      ch_execution = ar_execution result\<rparr>"
    have "abind (log_activity E ?sv (adaptive_success_row rid cat result) d) (\<lambda>_. areturn ?r) w1 = (x, w')"
      using run y Inr Some by (simp add: chat_adaptive_def acatch_def abind_Inr)
    then show ?thesis
      by (rule finish_success [OF _ quiet clock rows])
        (simp_all add: adaptive_success_row_def chat_activity_defaults_def Let_def)
  next
    case (Inl e)
    show ?thesis
    proof (cases "adaptive_recorded e")
      case False
      then have "x = Inl e \<and> w' = w1" using run y Inl Some by (simp add: chat_adaptive_def acatch_def abind_Inl)
      then show ?thesis using rows False by (simp add: chat_end_def recorded_in_def)
    next
      case True
      let ?fail = "abind (log_activity E ?sv (adaptive_failure_row rid cat e) d)
        (\<lambda>_. araise e :: adaptive_inference_result act)"
      obtain z w2 where z: "?fail w1 = (z, w2)" by fastforce
      have "\<exists>f. z = Inl f \<and> chat_end CRM_MANUAL E ?sv d (Inl f) w w2"
        by (rule finish_failure [OF z quiet clock rows])
          (use True in \<open>simp_all add: adaptive_failure_row_def chat_activity_defaults_def recorded_in_def\<close>)
      then obtain f where f: "z = Inl f" "chat_end CRM_MANUAL E ?sv d (Inl f) w w2" by blast
      have "x = Inl f \<and> w' = w2"
        using run y Inl True Some z f(1) by (simp add: chat_adaptive_def acatch_def abind_Inl)
      then show ?thesis using f by simp
    qed
  qed
qed

text \<open>
  Claim C11. A chat request leaves exactly one activity row that tells how it ended: the
  \<^verbatim>\<open>returned\<close> row of the response that was returned, or a failure row with the class of
  the exception that left; it leaves none only when no repository takes it, the deadline has
  passed, the schema refuses the row, or the exception is one no handler of the path names.
\<close>

theorem chat_requests_leave_one_activity:
  assumes "chat_generate E ch rq mode cat v rid d w = (x, w')"
    and "quiet_chat (cs_inference ch)" and "clock_ok E"
  shows "chat_end mode E (cs_inference ch) d x w w'"
  using assms chat_direct_run chat_adaptive_run
  by (cases mode) (simp_all add: chat_generate_def)

text \<open>
  The gap of the direct path: a context-limit failure and a disabled model are
  exceptions the service announces, but the chat handler does not name them, so such a request
  leaves no activity row although its inference row exists.
\<close>

theorem direct_handler_misses_announced_failures:
  "expected_failure (Exn ContextLimitErrorC) \<and> expected_failure (Exn ModelDisabledErrorC)
   \<and> \<not> recorded_in CRM_AUTO (Exn ContextLimitErrorC) \<and> \<not> recorded_in CRM_AUTO (Exn ModelDisabledErrorC)
   \<and> \<not> recorded_in CRM_MANUAL (Exn ContextLimitErrorC)"
  by (simp add: recorded_in_def direct_recorded_def adaptive_recorded_def expected_failure_def
      isinstance_def issubclass_eval)

end
