(* ===== verification/Rate_Limit.thy ===== *)
theory Rate_Limit
  imports Inference_Service
begin

section \<open>Admission control\<close>

text \<open>
  \<^verbatim>\<open>rate_limit.py\<close>: the Lua script that decides both windows in one step, the settings,
  and the limiter around the script. The Redis server is outside the sources: its four commands
  are parameters, and the locale \<open>redis\<close> states their documented behaviour through the entry
  (value and expiry time) of a key. A key lives up to its expiry time, and the server shows one
  time during a script.
\<close>

subsection \<open>The commands the script uses\<close>

record 's redis_commands =
  rc_get :: "int \<Rightarrow> string \<Rightarrow> 's \<Rightarrow> int option"
  rc_pttl :: "int \<Rightarrow> string \<Rightarrow> 's \<Rightarrow> int"
  rc_incrby :: "int \<Rightarrow> string \<Rightarrow> int \<Rightarrow> 's \<Rightarrow> int \<times> 's"
  rc_pexpire :: "int \<Rightarrow> string \<Rightarrow> int \<Rightarrow> 's \<Rightarrow> 's"

record window_limits =
  wl_weight :: int
  wl_client_capacity :: int
  wl_client_window_ms :: int
  wl_global_capacity :: int
  wl_global_window_ms :: int

definition used :: "'s redis_commands \<Rightarrow> int \<Rightarrow> string \<Rightarrow> 's \<Rightarrow> int" where
  "used rc now key s = (case rc_get rc now key s of Some n \<Rightarrow> n | None \<Rightarrow> 0)"

definition positive_ttl :: "'s redis_commands \<Rightarrow> int \<Rightarrow> string \<Rightarrow> int \<Rightarrow> 's \<Rightarrow> int" where
  "positive_ttl rc now key window_ms s =
     (let ttl = rc_pttl rc now key s in if ttl < 1 then window_ms else ttl)"

definition count_in :: "'s redis_commands \<Rightarrow> int \<Rightarrow> string \<Rightarrow> int \<Rightarrow> int \<Rightarrow> 's \<Rightarrow> int \<times> 's" where
  "count_in rc now key weight window_ms s =
     (let (n, s1) = rc_incrby rc now key weight s in
      (n, if rc_pttl rc now key s1 < 0 then rc_pexpire rc now key window_ms s1 else s1))"

definition admit_script ::
  "'s redis_commands \<Rightarrow> int \<Rightarrow> string \<Rightarrow> string \<Rightarrow> window_limits \<Rightarrow> 's \<Rightarrow> int list \<times> 's" where
  "admit_script rc now client_key global_key lims s =
     (let client_blocked = used rc now client_key s + wl_weight lims > wl_client_capacity lims;
          global_blocked = used rc now global_key s + wl_weight lims > wl_global_capacity lims in
      if client_blocked \<or> global_blocked then
        (let (retry1, scope1) =
               (if client_blocked then (positive_ttl rc now client_key (wl_client_window_ms lims) s, 1) else (0, 0));
             (retry2, scope2) =
               (if global_blocked then
                  (let ttl = positive_ttl rc now global_key (wl_global_window_ms lims) s in
                   (if ttl > retry1 then ttl else retry1, if scope1 = 1 then 3 else 2))
                else (retry1, scope1))
         in ([0, retry2, scope2], s))
      else
        (let (new_client, s1) = count_in rc now client_key (wl_weight lims) (wl_client_window_ms lims) s;
             (new_global, s2) = count_in rc now global_key (wl_weight lims) (wl_global_window_ms lims) s1
         in ([1, 0, wl_client_capacity lims - new_client, wl_global_capacity lims - new_global], s2)))"

subsection \<open>Settings\<close>

datatype inference_kind = IK_EXPLICIT | IK_ADAPTIVE

record rate_limit_settings =
  rl_required :: bool
  rl_redis_url :: "string option"
  rl_hmac_secret :: "string option"
  rl_redis_timeout_seconds :: rat
  rl_client_capacity :: int
  rl_client_window_seconds :: int
  rl_global_capacity :: int
  rl_global_window_seconds :: int
  rl_explicit_weight :: int
  rl_adaptive_weight :: int

definition rate_limit_fields_ok :: "rate_limit_settings \<Rightarrow> bool" where
  "rate_limit_fields_ok s \<longleftrightarrow>
     0 < rl_redis_timeout_seconds s \<and> rl_redis_timeout_seconds s \<le> 5
   \<and> 0 < rl_client_capacity s \<and> rl_client_capacity s \<le> 1000000
   \<and> 0 < rl_client_window_seconds s \<and> rl_client_window_seconds s \<le> 86400
   \<and> 0 < rl_global_capacity s \<and> rl_global_capacity s \<le> 10000000
   \<and> 0 < rl_global_window_seconds s \<and> rl_global_window_seconds s \<le> 86400
   \<and> 0 < rl_explicit_weight s \<and> rl_explicit_weight s \<le> 1000000
   \<and> 0 < rl_adaptive_weight s \<and> rl_adaptive_weight s \<le> 1000000"

text \<open>\<^verbatim>\<open>urlsplit\<close> gives the scheme and the host name.\<close>

definition RateLimitSettings ::
  "(string \<Rightarrow> string \<times> string option) \<Rightarrow> rate_limit_settings \<Rightarrow> exn_class + rate_limit_settings" where
  "RateLimitSettings urlsplit s =
     (if \<not> rate_limit_fields_ok s then Inl ValidationErrorC
      else if rl_required s \<and> (rl_redis_url s = None \<or> rl_hmac_secret s = None) then Inl ValidationErrorC
      else if (case rl_redis_url s of None \<Rightarrow> False
               | Some url \<Rightarrow> (let (scheme, host) = urlsplit url in
                   scheme \<notin> {''redis'', ''rediss''} \<or> host = None \<or> host = Some [])) then Inl ValidationErrorC
      else if (case rl_hmac_secret s of None \<Rightarrow> False | Some k \<Rightarrow> length k < 32) then Inl ValidationErrorC
      else if rl_explicit_weight s > min (rl_client_capacity s) (rl_global_capacity s) then Inl ValidationErrorC
      else if rl_adaptive_weight s > min (rl_client_capacity s) (rl_global_capacity s) then Inl ValidationErrorC
      else Inr s)"

definition kind_weight :: "rate_limit_settings \<Rightarrow> inference_kind \<Rightarrow> int" where
  "kind_weight s kind = (case kind of IK_EXPLICIT \<Rightarrow> rl_explicit_weight s | IK_ADAPTIVE \<Rightarrow> rl_adaptive_weight s)"

definition limits_for :: "rate_limit_settings \<Rightarrow> inference_kind \<Rightarrow> window_limits" where
  "limits_for s kind =
     \<lparr>wl_weight = kind_weight s kind, wl_client_capacity = rl_client_capacity s,
      wl_client_window_ms = rl_client_window_seconds s * 1000, wl_global_capacity = rl_global_capacity s,
      wl_global_window_ms = rl_global_window_seconds s * 1000\<rparr>"

subsection \<open>The limiter\<close>

text \<open>
  \<^verbatim>\<open>ipaddress.ip_address(v).compressed\<close> and the keyed hash are parameters; a name
  that is no address is case-folded.
\<close>

definition normalize_client_identity :: "(string \<Rightarrow> string option) \<Rightarrow> string \<Rightarrow> string" where
  "normalize_client_identity compressed identity =
     (let value = strip identity in
      if value = [] then ''unknown''
      else case compressed value of Some a \<Rightarrow> a | None \<Rightarrow> lower value)"

definition client_identity_digest ::
  "(string \<Rightarrow> string option) \<Rightarrow> (string \<Rightarrow> string \<Rightarrow> string) \<Rightarrow> string \<Rightarrow> string \<Rightarrow> string" where
  "client_identity_digest compressed hmac secret identity =
     hmac secret (normalize_client_identity compressed identity)"

definition key_prefix :: string where "key_prefix = ''routellm:rate:{admission}''"
definition client_key :: "string \<Rightarrow> string" where "client_key digest = key_prefix @ '':client:'' @ digest"
definition global_key :: string where "global_key = key_prefix @ '':global''"

text \<open>
  What \<^verbatim>\<open>eval\<close> gives back: a list of items, each an integer or something
  \<^verbatim>\<open>int\<close> refuses with the given exception, or a value that is no list.
\<close>

datatype reply_item = ItemInt int | ItemBad exn_class
datatype redis_reply = ReplyList "reply_item list" | ReplyOther

record redis_limiter =
  lm_settings :: rate_limit_settings
  lm_secret :: string
  lm_compressed :: "string \<Rightarrow> string option"
  lm_hmac :: "string \<Rightarrow> string \<Rightarrow> string"
  lm_eval :: "nat \<Rightarrow> rat \<Rightarrow> string \<Rightarrow> string \<Rightarrow> window_limits \<Rightarrow> exn + redis_reply"
  lm_ping :: "nat \<Rightarrow> exn + bool"

definition new_redis_limiter ::
  "rate_limit_settings \<Rightarrow> (string \<Rightarrow> string option) \<Rightarrow> (string \<Rightarrow> string \<Rightarrow> string) \<Rightarrow>
   (nat \<Rightarrow> rat \<Rightarrow> string \<Rightarrow> string \<Rightarrow> window_limits \<Rightarrow> exn + redis_reply) \<Rightarrow> (nat \<Rightarrow> exn + bool) \<Rightarrow>
   exn_class + redis_limiter" where
  "new_redis_limiter s compressed hmac evaluate ping =
     (case rl_hmac_secret s of
        None \<Rightarrow> Inl ValueErrorC
      | Some secret \<Rightarrow>
          if \<not> rl_required s then Inl ValueErrorC
          else Inr \<lparr>lm_settings = s, lm_secret = secret, lm_compressed = compressed, lm_hmac = hmac,
                  lm_eval = evaluate, lm_ping = ping\<rparr>)"

definition item_int :: "reply_item \<Rightarrow> exn_class + int" where
  "item_int i = (case i of ItemInt n \<Rightarrow> Inr n | ItemBad c \<Rightarrow> Inl c)"

definition conversion_error :: "exn_class \<Rightarrow> bool" where
  "conversion_error c \<longleftrightarrow> issubclass c TypeErrorC \<or> issubclass c ValueErrorC \<or> issubclass c OverflowErrorC"

definition reply_int :: "reply_item \<Rightarrow> exn + int" where
  "reply_int i =
     (case item_int i of
        Inr n \<Rightarrow> Inr n
      | Inl c \<Rightarrow> Inl (Exn (if conversion_error c then RateLimitUnavailableErrorC else c)))"

text \<open>\<^verbatim>\<open>max(1, math.ceil(retry_ms / 1000))\<close>.\<close>

definition retry_after :: "int \<Rightarrow> int" where
  "retry_after retry_ms = max 1 \<lceil>(of_int retry_ms :: rat) / 1000\<rceil>"

definition scope_name :: "int \<Rightarrow> string option" where
  "scope_name code =
     (if code = 1 then Some ''client'' else if code = 2 then Some ''global''
      else if code = 3 then Some ''both'' else None)"

definition kind_route :: "inference_kind \<Rightarrow> string" where
  "kind_route kind = (case kind of IK_EXPLICIT \<Rightarrow> ''/v1/inference'' | IK_ADAPTIVE \<Rightarrow> ''/v1/inference/adaptive'')"

definition interpret_reply :: "inference_kind \<Rightarrow> redis_reply \<Rightarrow> exn + (int \<times> string) option" where
  "interpret_reply kind reply =
     (case reply of
        ReplyOther \<Rightarrow> Inl (Exn RateLimitUnavailableErrorC)
      | ReplyList (a # r # rest) \<Rightarrow>
          rbind (reply_int a) (\<lambda>admitted.
          rbind (reply_int r) (\<lambda>retry_ms.
          if admitted \<notin> {0, 1} then Inl (Exn RateLimitUnavailableErrorC)
          else if admitted = 1 then Inr None
          else case rest of
                 [] \<Rightarrow> Inl (Exn RateLimitUnavailableErrorC)
               | c # _ \<Rightarrow> rbind (reply_int c) (\<lambda>code.
                   case scope_name code of
                     None \<Rightarrow> Inl (Exn RateLimitUnavailableErrorC)
                   | Some scope \<Rightarrow> Inr (Some (retry_after retry_ms, scope)))))
      | ReplyList _ \<Rightarrow> Inl (Exn RateLimitUnavailableErrorC))"

definition call_redis ::
  "env \<Rightarrow> redis_limiter \<Rightarrow> rat \<Rightarrow> string \<Rightarrow> inference_kind \<Rightarrow> request_deadline \<Rightarrow> redis_reply act" where
  "call_redis E lm timeout digest kind deadline =
     acatch (\<lambda>w. (lm_eval lm (w_ix w) timeout (client_key digest) global_key (limits_for (lm_settings lm) kind),
                  w\<lparr>w_ix := Suc (w_ix w)\<rparr>))
       (\<lambda>e. if isinstance e TimeoutErrorC
            then abind (expired E deadline) (\<lambda>late.
                   araise (Exn (if late then InferenceDeadlineExceededErrorC else RateLimitUnavailableErrorC)))
            else if isinstance e RedisErrorC then araise (Exn RateLimitUnavailableErrorC)
            else araise e)"

definition redis_admit ::
  "env \<Rightarrow> redis_limiter \<Rightarrow> string \<Rightarrow> inference_kind \<Rightarrow> request_deadline \<Rightarrow> unit act" where
  "redis_admit E lm identity kind deadline =
     abind (constrain_timeout E deadline (rl_redis_timeout_seconds (lm_settings lm))) (\<lambda>timeout.
     case timeout of
       None \<Rightarrow> araise (Exn InferenceDeadlineExceededErrorC)
     | Some t \<Rightarrow>
         abind (call_redis E lm t (client_identity_digest (lm_compressed lm) (lm_hmac lm) (lm_secret lm) identity)
                  kind deadline) (\<lambda>reply.
         case interpret_reply kind reply of
           Inl e \<Rightarrow> araise e
         | Inr None \<Rightarrow> areturn ()
         | Inr (Some (seconds, scope)) \<Rightarrow>
             abind (observe_with (rate_limit_rejection scope (kind_route kind))) (\<lambda>_.
             araise (RateLimitExceeded seconds scope))))"

definition disabled_admit :: "env \<Rightarrow> request_deadline \<Rightarrow> unit act" where
  "disabled_admit E deadline =
     abind (expired E deadline) (\<lambda>late.
       if late then araise (Exn InferenceDeadlineExceededErrorC) else areturn ())"

definition redis_ready :: "redis_limiter \<Rightarrow> bool act" where
  "redis_ready lm =
     acatch (\<lambda>w. (lm_ping lm (w_ix w), w\<lparr>w_ix := Suc (w_ix w)\<rparr>))
       (\<lambda>e. if isinstance e TimeoutErrorC \<or> isinstance e RedisErrorC then areturn False else araise e)"

subsection \<open>The documented behaviour of the commands\<close>

definition alive :: "int \<Rightarrow> int option \<Rightarrow> bool" where
  "alive now expires = (case expires of None \<Rightarrow> True | Some t \<Rightarrow> now \<le> t)"

locale redis =
  fixes rc :: "'s redis_commands"
    and entry :: "string \<Rightarrow> 's \<Rightarrow> (int \<times> int option) option"
  assumes get: "rc_get rc now k s =
        (case entry k s of None \<Rightarrow> None | Some (n, e) \<Rightarrow> if alive now e then Some n else None)"
    and pttl: "rc_pttl rc now k s =
        (case entry k s of None \<Rightarrow> - 2 | Some (n, e) \<Rightarrow>
           if alive now e then (case e of None \<Rightarrow> - 1 | Some t \<Rightarrow> t - now) else - 2)"
    and incrby: "rc_incrby rc now k m s = (n, s') \<Longrightarrow> n = used rc now k s + m
        \<and> entry k s' = Some (n, if rc_get rc now k s = None then None else snd (the (entry k s)))
        \<and> (\<forall>k'. k' \<noteq> k \<longrightarrow> entry k' s' = entry k' s)"
    and pexpire: "rc_get rc now k s = Some n \<Longrightarrow>
        entry k (rc_pexpire rc now k ms s) = Some (n, Some (now + ms))
        \<and> (\<forall>k'. k' \<noteq> k \<longrightarrow> entry k' (rc_pexpire rc now k ms s) = entry k' s)"
begin

text \<open>A well-kept window: its counter is within the capacity and it ends within one window.\<close>

definition kept :: "int \<Rightarrow> string \<Rightarrow> int \<Rightarrow> int \<Rightarrow> 's \<Rightarrow> bool" where
  "kept now k capacity window s \<longleftrightarrow>
     (case entry k s of None \<Rightarrow> True
      | Some (n, e) \<Rightarrow> 0 \<le> n \<and> n \<le> capacity \<and> (\<exists>t. e = Some t \<and> t \<le> now + window))"

lemma kept_used: "kept now k c win s \<Longrightarrow> 0 \<le> c \<Longrightarrow> 0 \<le> used rc now k s \<and> used rc now k s \<le> c"
  by (auto simp: kept_def used_def get split: option.splits)

lemma kept_later: "kept now k c win s \<Longrightarrow> now \<le> now' \<Longrightarrow> kept now' k c win s"
  by (auto simp: kept_def split: option.splits)

lemma used_entry: "entry k s' = entry k s \<Longrightarrow> used rc now k s' = used rc now k s"
  by (simp add: used_def get)

lemma count_in_run:
  assumes run: "count_in rc now k m win s = (n, s')" and kept: "kept now k c win s"
    and room: "used rc now k s + m \<le> c" and pos: "0 < m" "0 < win" "0 \<le> c"
  shows "n = used rc now k s + m \<and> used rc now k s' = n \<and> kept now k c win s'
    \<and> (\<forall>k'. k' \<noteq> k \<longrightarrow> entry k' s' = entry k' s)"
proof -
  obtain v s1 where i: "rc_incrby rc now k m s = (v, s1)" by fastforce
  note I = incrby [OF i]
  have u: "0 \<le> used rc now k s" using kept_used [OF kept pos(3)] by simp
  show ?thesis
  proof (cases "rc_get rc now k s")
    case None
    then have e1: "entry k s1 = Some (v, None)" using I by simp
    then have "rc_get rc now k s1 = Some v" "rc_pttl rc now k s1 < 0" by (simp_all add: get pttl alive_def)
    moreover note P = pexpire [OF this(1), of win]
    ultimately have s': "n = v" "s' = rc_pexpire rc now k win s1"
      using run i by (auto simp: count_in_def)
    have "used rc now k s' = v" using P pos s'(2) by (simp add: used_def get alive_def)
    moreover have "kept now k c win s'" using P I u room pos s'(2) by (simp add: kept_def)
    ultimately show ?thesis using P I s' by auto
  next
    case (Some m0)
    then obtain e where e: "entry k s = Some (m0, e)" "alive now e"
      by (auto simp: get split: option.splits if_splits)
    obtain t where t: "e = Some t" "t \<le> now + win" using kept e(1) by (auto simp: kept_def)
    have e1: "entry k s1 = Some (v, Some t)" using I Some e t by simp
    then have "\<not> rc_pttl rc now k s1 < 0" using e(2) t(1) by (simp add: pttl alive_def)
    then have s': "n = v" "s' = s1" using run i by (auto simp: count_in_def)
    have "used rc now k s' = v" using e1 s'(2) e(2) t(1) by (simp add: used_def get alive_def)
    moreover have "kept now k c win s'" using e1 I u room pos t(2) s'(2) by (simp add: kept_def)
    ultimately show ?thesis using I s' by auto
  qed
qed

lemma admit_room:
  assumes run: "admit_script rc now k g lims s = (reply, s')" and ne: "k \<noteq> g"
    and kept: "kept now k (wl_client_capacity lims) (wl_client_window_ms lims) s"
      "kept now g (wl_global_capacity lims) (wl_global_window_ms lims) s"
    and pos: "0 < wl_weight lims" "0 < wl_client_window_ms lims" "0 < wl_global_window_ms lims"
      "0 \<le> wl_client_capacity lims" "0 \<le> wl_global_capacity lims"
    and room: "used rc now k s + wl_weight lims \<le> wl_client_capacity lims"
      "used rc now g s + wl_weight lims \<le> wl_global_capacity lims"
  shows "reply = [1, 0, wl_client_capacity lims - used rc now k s', wl_global_capacity lims - used rc now g s']
    \<and> used rc now k s' = used rc now k s + wl_weight lims \<and> used rc now g s' = used rc now g s + wl_weight lims
    \<and> kept now k (wl_client_capacity lims) (wl_client_window_ms lims) s'
    \<and> kept now g (wl_global_capacity lims) (wl_global_window_ms lims) s'
    \<and> (\<forall>k'. k' \<noteq> k \<longrightarrow> k' \<noteq> g \<longrightarrow> entry k' s' = entry k' s)"
proof -
  obtain n1 s1 where c1: "count_in rc now k (wl_weight lims) (wl_client_window_ms lims) s = (n1, s1)" by fastforce
  obtain n2 s2 where c2: "count_in rc now g (wl_weight lims) (wl_global_window_ms lims) s1 = (n2, s2)" by fastforce
  note A = count_in_run [OF c1 kept(1) room(1) pos(1,2,4)]
  have g1: "entry g s1 = entry g s" using A ne by auto
  then have u1: "used rc now g s1 = used rc now g s" by (rule used_entry)
  have k1: "kept now g (wl_global_capacity lims) (wl_global_window_ms lims) s1"
    using kept(2) g1 by (simp add: kept_def)
  note B = count_in_run [OF c2 k1 _ pos(1,3,5)]
  have B: "n2 = used rc now g s1 + wl_weight lims \<and> used rc now g s2 = n2
      \<and> kept now g (wl_global_capacity lims) (wl_global_window_ms lims) s2
      \<and> (\<forall>k'. k' \<noteq> g \<longrightarrow> entry k' s2 = entry k' s1)"
    using B room(2) u1 by simp
  have out: "reply = [1, 0, wl_client_capacity lims - n1, wl_global_capacity lims - n2] \<and> s' = s2"
    using run room c1 c2 by (auto simp: admit_script_def Let_def)
  have k2: "entry k s2 = entry k s1" using B ne by simp
  then have "used rc now k s2 = used rc now k s1" by (rule used_entry)
  moreover have "kept now k (wl_client_capacity lims) (wl_client_window_ms lims) s2"
    using A k2 by (simp add: kept_def)
  ultimately show ?thesis using A B out u1 by simp
qed

lemma blocked_window:
  assumes kept: "kept now k c win s" and full: "used rc now k s + m > c" and m: "0 < m" "m \<le> c" and win: "0 < win"
  shows "1 \<le> positive_ttl rc now k win s \<and> positive_ttl rc now k win s \<le> win
    \<and> (\<forall>t > now + positive_ttl rc now k win s. used rc t k s = 0)"
proof -
  obtain n e where e: "entry k s = Some (n, e)" "alive now e" "used rc now k s = n"
    using full m by (auto simp: used_def get split: option.splits if_splits)
  obtain t where t: "e = Some t" "t \<le> now + win" using kept e(1) by (auto simp: kept_def)
  have p: "rc_pttl rc now k s = t - now" "now \<le> t" using e t by (simp_all add: pttl alive_def)
  have "now + positive_ttl rc now k win s \<ge> t" using p t win by (simp add: positive_ttl_def Let_def)
  moreover have "used rc t' k s = 0" if "t < t'" for t'
    using e t that by (simp add: used_def get alive_def)
  ultimately show ?thesis using p t win by (auto simp: positive_ttl_def Let_def)
qed

lemma used_later: "kept now k c win s \<Longrightarrow> 0 \<le> c \<Longrightarrow> now \<le> t \<Longrightarrow> used rc t k s \<le> used rc now k s"
  by (auto simp: kept_def used_def get alive_def split: option.splits if_splits)

lemma admit_full:
  assumes run: "admit_script rc now k g lims s = (reply, s')"
    and kept: "kept now k (wl_client_capacity lims) (wl_client_window_ms lims) s"
      "kept now g (wl_global_capacity lims) (wl_global_window_ms lims) s"
    and pos: "0 < wl_weight lims" "0 < wl_client_window_ms lims" "0 < wl_global_window_ms lims"
    and fits: "wl_weight lims \<le> wl_client_capacity lims" "wl_weight lims \<le> wl_global_capacity lims"
    and full: "\<not> (used rc now k s + wl_weight lims \<le> wl_client_capacity lims
      \<and> used rc now g s + wl_weight lims \<le> wl_global_capacity lims)"
  shows "s' = s \<and> (\<exists>retry code. reply = [0, retry, code]
    \<and> 1 \<le> retry \<and> retry \<le> max (wl_client_window_ms lims) (wl_global_window_ms lims)
    \<and> code = (if used rc now k s + wl_weight lims \<le> wl_client_capacity lims then 2
              else if used rc now g s + wl_weight lims \<le> wl_global_capacity lims then 1 else 3)
    \<and> (\<forall>t > now + retry. used rc t k s + wl_weight lims \<le> wl_client_capacity lims
         \<and> used rc t g s + wl_weight lims \<le> wl_global_capacity lims))"
proof -
  let ?cb = "used rc now k s + wl_weight lims > wl_client_capacity lims"
  let ?gb = "used rc now g s + wl_weight lims > wl_global_capacity lims"
  let ?p = "positive_ttl rc now k (wl_client_window_ms lims) s"
  let ?q = "positive_ttl rc now g (wl_global_window_ms lims) s"
  let ?retry = "if ?cb then if ?gb then max ?p ?q else ?p else ?q"
  let ?code = "if used rc now k s + wl_weight lims \<le> wl_client_capacity lims then 2
      else if used rc now g s + wl_weight lims \<le> wl_global_capacity lims then 1 else 3"
  have P: "?cb \<Longrightarrow> 1 \<le> ?p \<and> ?p \<le> wl_client_window_ms lims \<and> (\<forall>t > now + ?p. used rc t k s = 0)"
    using blocked_window [OF kept(1) _ pos(1) fits(1) pos(2)] by blast
  have Q: "?gb \<Longrightarrow> 1 \<le> ?q \<and> ?q \<le> wl_global_window_ms lims \<and> (\<forall>t > now + ?q. used rc t g s = 0)"
    using blocked_window [OF kept(2) _ pos(1) fits(2) pos(3)] by blast
  have out: "reply = [0, ?retry, ?code] \<and> s' = s"
    using run full P Q by (auto simp: admit_script_def Let_def max_def split: if_splits)
  have bounds: "1 \<le> ?retry \<and> ?retry \<le> max (wl_client_window_ms lims) (wl_global_window_ms lims)"
    using full P Q by auto
  have later: "used rc t k s + wl_weight lims \<le> wl_client_capacity lims
         \<and> used rc t g s + wl_weight lims \<le> wl_global_capacity lims" if t: "now + ?retry < t" for t
  proof
    show "used rc t k s + wl_weight lims \<le> wl_client_capacity lims"
    proof (cases ?cb)
      case True
      then have "now + ?p < t" using t by (auto split: if_splits)
      then show ?thesis using P [OF True] fits by simp
    next
      case False
      moreover have "now \<le> t" using t bounds by linarith
      ultimately show ?thesis using used_later [OF kept(1), of t] fits pos by simp
    qed
    show "used rc t g s + wl_weight lims \<le> wl_global_capacity lims"
    proof (cases ?gb)
      case True
      then have "now + ?q < t" using t by (auto split: if_splits)
      then show ?thesis using Q [OF True] fits by simp
    next
      case False
      moreover have "now \<le> t" using t bounds by linarith
      ultimately show ?thesis using used_later [OF kept(2), of t] fits pos by simp
    qed
  qed
  show ?thesis using out bounds later by blast
qed

end

subsection \<open>A store that behaves so\<close>

type_synonym store = "string \<Rightarrow> (int \<times> int option) option"

definition live_value :: "int \<Rightarrow> string \<Rightarrow> store \<Rightarrow> int option" where
  "live_value now k s = (case s k of None \<Rightarrow> None | Some (n, e) \<Rightarrow> if alive now e then Some n else None)"

definition store_commands :: "store redis_commands" where
  "store_commands =
     \<lparr>rc_get = live_value,
      rc_pttl = (\<lambda>now k s. case s k of None \<Rightarrow> - 2 | Some (n, e) \<Rightarrow>
        if alive now e then (case e of None \<Rightarrow> - 1 | Some t \<Rightarrow> t - now) else - 2),
      rc_incrby = (\<lambda>now k m s.
        (case live_value now k s of
           None \<Rightarrow> (m, s(k \<mapsto> (m, None)))
         | Some n \<Rightarrow> (n + m, s(k \<mapsto> (n + m, snd (the (s k))))))),
      rc_pexpire = (\<lambda>now k ms s.
        (case live_value now k s of None \<Rightarrow> s | Some n \<Rightarrow> s(k \<mapsto> (n, Some (now + ms)))))\<rparr>"

interpretation redis_store: redis store_commands "\<lambda>k s. s k"
  by unfold_locales
    (auto simp: store_commands_def live_value_def used_def split: option.splits if_splits)

subsection \<open>Runs of the limiter\<close>

text \<open>
  Admissions reach the server one after another, each at a time no earlier than the last one.
\<close>

inductive reached :: "'s redis_commands \<Rightarrow> rate_limit_settings \<Rightarrow> 's \<Rightarrow> int \<Rightarrow> 's \<Rightarrow> bool"
  for rc :: "'s redis_commands" and st :: rate_limit_settings and s0 :: 's where
  reached_start: "reached rc st s0 now s0"
| reached_admission: "reached rc st s0 now s \<Longrightarrow> now \<le> now' \<Longrightarrow>
    admit_script rc now' (client_key digest) global_key (limits_for st kind) s = (reply, s') \<Longrightarrow>
    reached rc st s0 now' s'"

lemma client_not_global [simp]: "client_key digest \<noteq> global_key"
  by (simp add: client_key_def global_key_def)

lemma client_key_inj [simp]: "client_key a = client_key b \<longleftrightarrow> a = b"
  by (simp add: client_key_def)

lemma settings_limits:
  assumes "RateLimitSettings urlsplit st = Inr st"
  shows "0 < wl_weight (limits_for st kind) \<and> 0 < wl_client_window_ms (limits_for st kind)
    \<and> 0 < wl_global_window_ms (limits_for st kind)
    \<and> wl_weight (limits_for st kind) \<le> wl_client_capacity (limits_for st kind)
    \<and> wl_weight (limits_for st kind) \<le> wl_global_capacity (limits_for st kind)"
  using assms by (cases kind)
    (auto simp: RateLimitSettings_def rate_limit_fields_ok_def limits_for_def kind_weight_def split: if_splits)

lemma limits_capacity [simp]:
  "wl_client_capacity (limits_for st kind) = rl_client_capacity st"
  "wl_global_capacity (limits_for st kind) = rl_global_capacity st"
  "wl_client_window_ms (limits_for st kind) = rl_client_window_seconds st * 1000"
  "wl_global_window_ms (limits_for st kind) = rl_global_window_seconds st * 1000"
  by (simp_all add: limits_for_def)

context redis
begin

definition all_kept :: "rate_limit_settings \<Rightarrow> int \<Rightarrow> 's \<Rightarrow> bool" where
  "all_kept st now s \<longleftrightarrow>
     kept now global_key (rl_global_capacity st) (rl_global_window_seconds st * 1000) s
   \<and> (\<forall>digest. kept now (client_key digest) (rl_client_capacity st) (rl_client_window_seconds st * 1000) s)"

lemma all_kept_later: "all_kept st now s \<Longrightarrow> now \<le> now' \<Longrightarrow> all_kept st now' s"
  unfolding all_kept_def using kept_later by blast

lemma admission_cases:
  assumes st: "RateLimitSettings urlsplit st = Inr st" and inv: "all_kept st now s"
    and run: "admit_script rc now (client_key digest) global_key (limits_for st kind) s = (reply, s')"
  obtains (admitted) "used rc now (client_key digest) s + kind_weight st kind \<le> rl_client_capacity st"
      "used rc now global_key s + kind_weight st kind \<le> rl_global_capacity st"
      "reply = [1, 0, rl_client_capacity st - used rc now (client_key digest) s',
                rl_global_capacity st - used rc now global_key s']"
      "used rc now (client_key digest) s' = used rc now (client_key digest) s + kind_weight st kind"
      "used rc now global_key s' = used rc now global_key s + kind_weight st kind" "all_kept st now s'"
  | (rejected) retry code where "s' = s" "reply = [0, retry, code]" "1 \<le> retry"
      "retry \<le> max (rl_client_window_seconds st * 1000) (rl_global_window_seconds st * 1000)"
      "\<not> (used rc now (client_key digest) s + kind_weight st kind \<le> rl_client_capacity st
        \<and> used rc now global_key s + kind_weight st kind \<le> rl_global_capacity st)"
      "code = (if used rc now (client_key digest) s + kind_weight st kind \<le> rl_client_capacity st then 2
               else if used rc now global_key s + kind_weight st kind \<le> rl_global_capacity st then 1 else 3)"
      "\<forall>t > now + retry. used rc t (client_key digest) s + kind_weight st kind \<le> rl_client_capacity st
         \<and> used rc t global_key s + kind_weight st kind \<le> rl_global_capacity st"
proof -
  have w: "wl_weight (limits_for st kind) = kind_weight st kind" by (simp add: limits_for_def)
  note L = settings_limits [OF st, of kind, unfolded w limits_capacity]
  have k: "kept now (client_key digest) (wl_client_capacity (limits_for st kind)) (wl_client_window_ms (limits_for st kind)) s"
    "kept now global_key (wl_global_capacity (limits_for st kind)) (wl_global_window_ms (limits_for st kind)) s"
    using inv by (simp_all add: all_kept_def)
  show thesis
  proof (cases "used rc now (client_key digest) s + kind_weight st kind \<le> rl_client_capacity st
      \<and> used rc now global_key s + kind_weight st kind \<le> rl_global_capacity st")
    case True
    have R: "reply = [1, 0, rl_client_capacity st - used rc now (client_key digest) s',
                rl_global_capacity st - used rc now global_key s']
      \<and> used rc now (client_key digest) s' = used rc now (client_key digest) s + kind_weight st kind
      \<and> used rc now global_key s' = used rc now global_key s + kind_weight st kind
      \<and> kept now (client_key digest) (rl_client_capacity st) (rl_client_window_seconds st * 1000) s'
      \<and> kept now global_key (rl_global_capacity st) (rl_global_window_seconds st * 1000) s'
      \<and> (\<forall>k'. k' \<noteq> client_key digest \<longrightarrow> k' \<noteq> global_key \<longrightarrow> entry k' s' = entry k' s)"
      using admit_room [OF run client_not_global k] L True w by simp
    have "kept now (client_key d) (rl_client_capacity st) (rl_client_window_seconds st * 1000) s'" for d
      using R inv by (cases "d = digest") (auto simp: all_kept_def kept_def)
    then have "all_kept st now s'" using R by (simp add: all_kept_def)
    then show thesis using admitted R True by blast
  next
    case False
    have F: "s' = s \<and> (\<exists>retry code. reply = [0, retry, code]
      \<and> 1 \<le> retry \<and> retry \<le> max (rl_client_window_seconds st * 1000) (rl_global_window_seconds st * 1000)
      \<and> code = (if used rc now (client_key digest) s + kind_weight st kind \<le> rl_client_capacity st then 2
                else if used rc now global_key s + kind_weight st kind \<le> rl_global_capacity st then 1 else 3)
      \<and> (\<forall>t > now + retry. used rc t (client_key digest) s + kind_weight st kind \<le> rl_client_capacity st
           \<and> used rc t global_key s + kind_weight st kind \<le> rl_global_capacity st))"
      using admit_full [OF run k, unfolded w limits_capacity] L False by blast
    then show thesis using rejected False by blast
  qed
qed

lemma reached_all_kept:
  assumes st: "RateLimitSettings urlsplit st = Inr st" and run: "reached rc st s0 now s"
    and empty: "\<And>k. entry k s0 = None"
  shows "all_kept st now s"
  using run
proof (induction rule: reached.induct)
  case (reached_start now)
  then show ?case by (simp add: all_kept_def kept_def empty)
next
  case (reached_admission now s now' digest kind reply s')
  have inv: "all_kept st now' s" using all_kept_later reached_admission by blast
  from st inv reached_admission.hyps(3) show ?case
    by (cases rule: admission_cases) (use inv in simp_all)
qed

end

subsection \<open>Properties\<close>

text \<open>
  Claim C4. No run of admissions ever overdraws a window: whatever clients ask, in whatever
  order and at whatever times, the deployment-wide counter stays within the global capacity and
  every client's counter within the client capacity.
\<close>

theorem windows_are_never_overdrawn:
  assumes "redis rc entry" and "RateLimitSettings urlsplit st = Inr st"
    and "reached rc st s0 now s" and "\<forall>k. entry k s0 = None"
  shows "used rc now global_key s \<le> rl_global_capacity st
    \<and> (\<forall>digest. used rc now (client_key digest) s \<le> rl_client_capacity st)"
proof -
  have inv: "redis.all_kept entry st now s"
    using redis.reached_all_kept [OF assms(1,2,3)] assms(4) by blast
  have pos: "0 \<le> rl_global_capacity st" "0 \<le> rl_client_capacity st"
    using assms(2) by (auto simp: RateLimitSettings_def rate_limit_fields_ok_def split: if_splits)
  show ?thesis
    using inv redis.kept_used [OF assms(1)] pos unfolding redis.all_kept_def [OF assms(1)] by blast
qed

lemma retry_after_bounds: "retry_ms \<le> 1000 * retry_after retry_ms \<and> 1 \<le> retry_after retry_ms"
proof -
  have scale: "x / 1000 \<le> y \<Longrightarrow> x \<le> 1000 * y" for x y :: rat
    by (simp add: divide_le_eq mult.commute)
  have "(of_int retry_ms :: rat) \<le> of_int (1000 * \<lceil>(of_int retry_ms :: rat) / 1000\<rceil>)"
    using scale [OF le_of_int_ceiling] by simp
  then have "retry_ms \<le> 1000 * \<lceil>(of_int retry_ms :: rat) / 1000\<rceil>" using of_int_le_iff by blast
  then show ?thesis by (auto simp: retry_after_def)
qed

text \<open>
  Claim C21. The limiter's decision is the specified one: in every reachable state the script's
  reply, read by the client, admits the request exactly when its weight fits both windows, and
  then the weight is counted in both; otherwise nothing is counted and the scope names exactly
  the windows that are full.
\<close>

theorem admission_matches_specification:
  assumes "redis rc entry" and "RateLimitSettings urlsplit st = Inr st"
    and "reached rc st s0 now s" and "\<forall>k. entry k s0 = None" and "now \<le> now'"
    and "admit_script rc now' (client_key digest) global_key (limits_for st kind) s = (reply, s')"
  shows "let client = used rc now' (client_key digest) s + kind_weight st kind \<le> rl_client_capacity st;
             overall = used rc now' global_key s + kind_weight st kind \<le> rl_global_capacity st in
    if client \<and> overall
    then interpret_reply kind (ReplyList (map ItemInt reply)) = Inr None
       \<and> used rc now' (client_key digest) s' = used rc now' (client_key digest) s + kind_weight st kind
       \<and> used rc now' global_key s' = used rc now' global_key s + kind_weight st kind
    else s' = s \<and> (\<exists>seconds. interpret_reply kind (ReplyList (map ItemInt reply)) =
           Inr (Some (seconds, if client then ''global'' else if overall then ''client'' else ''both'')))"
proof -
  have "redis.all_kept entry st now s"
    using redis.reached_all_kept [OF assms(1,2,3)] assms(4) by blast
  then have inv: "redis.all_kept entry st now' s"
    using redis.all_kept_later [OF assms(1)] assms(5) by blast
  show ?thesis
  proof (rule redis.admission_cases [OF assms(1,2) inv assms(6)])
    assume "used rc now' (client_key digest) s + kind_weight st kind \<le> rl_client_capacity st"
      "used rc now' global_key s + kind_weight st kind \<le> rl_global_capacity st"
      "reply = [1, 0, rl_client_capacity st - used rc now' (client_key digest) s',
                rl_global_capacity st - used rc now' global_key s']"
      "used rc now' (client_key digest) s' = used rc now' (client_key digest) s + kind_weight st kind"
      "used rc now' global_key s' = used rc now' global_key s + kind_weight st kind"
    then show ?thesis by (simp add: interpret_reply_def reply_int_def item_int_def)
  next
    fix retry code
    assume "s' = s" "reply = [0, retry, code]"
      "\<not> (used rc now' (client_key digest) s + kind_weight st kind \<le> rl_client_capacity st
        \<and> used rc now' global_key s + kind_weight st kind \<le> rl_global_capacity st)"
      "code = (if used rc now' (client_key digest) s + kind_weight st kind \<le> rl_client_capacity st then 2
               else if used rc now' global_key s + kind_weight st kind \<le> rl_global_capacity st then 1 else 3)"
    then show ?thesis
      by (auto simp: interpret_reply_def reply_int_def item_int_def scope_name_def Let_def)
  qed
qed

text \<open>
  Claim C22. Waiting as told is enough: a rejected client that waits longer than the announced
  number of seconds is admitted, if nobody else is admitted in between, because the windows that
  blocked it have ended by then.
\<close>

theorem waiting_as_told_is_enough:
  assumes "redis rc entry" and "RateLimitSettings urlsplit st = Inr st"
    and "reached rc st s0 now s" and "\<forall>k. entry k s0 = None" and "now \<le> now'"
    and "admit_script rc now' (client_key digest) global_key (limits_for st kind) s = (reply, s')"
    and "interpret_reply kind (ReplyList (map ItemInt reply)) = Inr (Some (seconds, scope))"
    and "now' + 1000 * seconds < t"
  shows "interpret_reply kind (ReplyList (map ItemInt
      (fst (admit_script rc t (client_key digest) global_key (limits_for st kind) s')))) = Inr None"
proof -
  have "redis.all_kept entry st now s"
    using redis.reached_all_kept [OF assms(1,2,3)] assms(4) by blast
  then have inv: "redis.all_kept entry st now' s"
    using redis.all_kept_later [OF assms(1)] assms(5) by blast
  show ?thesis
  proof (rule redis.admission_cases [OF assms(1,2) inv assms(6)])
    assume "reply = [1, 0, rl_client_capacity st - used rc now' (client_key digest) s',
                rl_global_capacity st - used rc now' global_key s']"
    then show ?thesis using assms(7) by (simp add: interpret_reply_def reply_int_def item_int_def)
  next
    fix retry code
    assume s': "s' = s" and reply: "reply = [0, retry, code]" and one: "1 \<le> retry"
      and later: "\<forall>t > now' + retry. used rc t (client_key digest) s + kind_weight st kind \<le> rl_client_capacity st
         \<and> used rc t global_key s + kind_weight st kind \<le> rl_global_capacity st"
    have "seconds = retry_after retry"
      using assms(7) reply by (auto simp: interpret_reply_def reply_int_def item_int_def split: option.splits)
    then have t: "now' + retry < t" using assms(8) retry_after_bounds [of retry] by linarith
    then have room: "used rc t (client_key digest) s + kind_weight st kind \<le> rl_client_capacity st
         \<and> used rc t global_key s + kind_weight st kind \<le> rl_global_capacity st" using later by blast
    obtain r2 s2 where run2: "admit_script rc t (client_key digest) global_key (limits_for st kind) s = (r2, s2)"
      by fastforce
    have inv2: "redis.all_kept entry st t s"
      using redis.all_kept_later [OF assms(1) inv] t one by simp
    have "interpret_reply kind (ReplyList (map ItemInt r2)) = Inr None"
      by (rule redis.admission_cases [OF assms(1,2) inv2 run2])
        (use room in \<open>simp_all add: interpret_reply_def reply_int_def item_int_def\<close>)
    then show ?thesis using run2 s' by simp
  qed
qed

lemma interpret_reply_error:
  assumes "interpret_reply kind reply = Inl g"
    and "\<forall>xs. reply = ReplyList xs \<longrightarrow>
      (\<forall>i \<in> set xs. \<forall>f. reply_int i = Inl f \<longrightarrow> f = Exn RateLimitUnavailableErrorC)"
  shows "g = Exn RateLimitUnavailableErrorC"
proof (cases reply)
  case (ReplyList xs)
  then have "\<forall>i \<in> set xs. \<forall>f. reply_int i = Inl f \<longrightarrow> f = Exn RateLimitUnavailableErrorC"
    using assms(2) by blast
  then show ?thesis using assms(1) ReplyList unfolding interpret_reply_def
    by (auto simp: rbind_eq_Inl rbind_eq_Inr neq_Nil_conv split: list.splits if_splits option.splits)
next
  case ReplyOther
  then show ?thesis using assms(1) by (simp add: interpret_reply_def)
qed

text \<open>
  What the limiter raises: when the client library raises only its own errors or a
  timeout, an admission fails only because the deadline has passed, because the limiter is
  unavailable (a malformed reply included), or because the request was rejected, and then with a
  delay of at least one second, a known scope, and one counted rejection.
\<close>

theorem limiter_failures_are_classified:
  assumes run: "redis_admit E lm identity kind d w = (Inl e, w')"
    and client: "\<And>i t k g l f. lm_eval lm i t k g l = Inl f \<Longrightarrow> isinstance f TimeoutErrorC \<or> isinstance f RedisErrorC"
    and items: "\<And>i t k g l r c. lm_eval lm i t k g l = Inr (ReplyList r) \<Longrightarrow> ItemBad c \<in> set r \<Longrightarrow> conversion_error c"
  shows "e = Exn InferenceDeadlineExceededErrorC \<or> e = Exn RateLimitUnavailableErrorC
    \<or> (\<exists>seconds scope. e = RateLimitExceeded seconds scope \<and> 1 \<le> seconds
         \<and> scope \<in> {''client'', ''global'', ''both''}
         \<and> series (w_obs w') RATE_LIMIT_REJECTIONS [scope, kind_route kind]
             = series (w_obs w) RATE_LIMIT_REJECTIONS [scope, kind_route kind] + 1)"
proof -
  let ?digest = "client_identity_digest (lm_compressed lm) (lm_hmac lm) (lm_secret lm) identity"
  show ?thesis
  proof (cases "rd_expires_at d \<le> env_clock E (w_ix w)")
    case True
    then show ?thesis using run by (simp add: redis_admit_def bind_constrain)
  next
    case False
    let ?t = "min (rd_expires_at d - env_clock E (w_ix w)) (rl_redis_timeout_seconds (lm_settings lm))"
    let ?w = "w\<lparr>w_ix := Suc (w_ix w)\<rparr>"
    let ?handle = "\<lambda>reply. case interpret_reply kind reply of
           Inl e \<Rightarrow> araise e
         | Inr None \<Rightarrow> areturn ()
         | Inr (Some (seconds, scope)) \<Rightarrow>
             abind (observe_with (rate_limit_rejection scope (kind_route kind))) (\<lambda>_.
             araise (RateLimitExceeded seconds scope))"
    have run1: "abind (call_redis E lm ?t ?digest kind d) ?handle ?w = (Inl e, w')"
      using run False by (simp add: redis_admit_def bind_constrain max_def)
    let ?eval = "lm_eval lm (w_ix ?w) ?t (client_key ?digest) global_key (limits_for (lm_settings lm) kind)"
    show ?thesis
    proof (cases ?eval)
      case (Inl f)
      have "isinstance f TimeoutErrorC \<or> isinstance f RedisErrorC" using client Inl by blast
      then show ?thesis using run1 Inl
        by (auto simp: call_redis_def abind_def acatch_def expired_apply split: if_splits)
    next
      case (Inr reply)
      have "call_redis E lm ?t ?digest kind d ?w = (Inr reply, ?w\<lparr>w_ix := Suc (w_ix ?w)\<rparr>)"
        using Inr by (simp add: call_redis_def acatch_def)
      then have run2: "?handle reply (?w\<lparr>w_ix := Suc (w_ix ?w)\<rparr>) = (Inl e, w')"
        using run1 by (simp add: abind_Inr)
      have bad: "reply = ReplyList xs \<Longrightarrow> i \<in> set xs \<Longrightarrow> reply_int i = Inl g \<Longrightarrow> g = Exn RateLimitUnavailableErrorC"
        for xs i g
        using items [of "w_ix ?w" ?t "client_key ?digest" global_key "limits_for (lm_settings lm) kind" xs] Inr
        by (cases i) (auto simp: reply_int_def item_int_def)
      show ?thesis
      proof (cases "interpret_reply kind reply")
        case (Inl g)
        then have "e = g" using run2 by simp
        moreover have "g = Exn RateLimitUnavailableErrorC"
          by (rule interpret_reply_error [OF Inl]) (use bad in blast)
        ultimately show ?thesis by simp
      next
        case (Inr out)
        then obtain seconds scope where out: "out = Some (seconds, scope)"
          using run2 by (cases out) auto
        have "\<exists>retry code. seconds = retry_after retry \<and> scope_name code = Some scope"
          using Inr out unfolding interpret_reply_def
          by (auto simp: rbind_eq_Inr neq_Nil_conv split: redis_reply.splits list.splits if_splits option.splits)
        then have "1 \<le> seconds \<and> scope \<in> {''client'', ''global'', ''both''}"
          using retry_after_bounds by (auto simp: scope_name_def split: if_splits)
        moreover have "e = RateLimitExceeded seconds scope"
          "w_obs w' = rate_limit_rejection scope (kind_route kind) (w_obs w)"
          using run2 Inr out by auto
        ultimately show ?thesis by (auto simp: rate_limit_rejection_def)
      qed
    qed
  qed
qed

end
