(* ===== verification/Cursor.thy ===== *)
theory Cursor
  imports Runtime
begin

section \<open>The activity cursor\<close>

text \<open>
  The two cursor functions of \<^verbatim>\<open>telemetry/query.py\<close>. A cursor is the base64 text
  of a creation time, a bar and a row id. Python's base64 is written out (the decoder is the
  permissive one: it skips characters outside the alphabet); the texts of
  \<^verbatim>\<open>datetime\<close> and \<^verbatim>\<open>UUID\<close> values and the UTF-8 decoder are a
  \<open>cursor_codec\<close>, and the locale of that name states what the library documents of them:
  reading what was printed gives the value back, and reading fails with
  \<^verbatim>\<open>ValueError\<close> only. \<open>iso_codec\<close> is a codec for the canonical texts that
  satisfies the laws.
\<close>

subsection \<open>Aware datetimes\<close>

text \<open>
  The fields of a \<^verbatim>\<open>datetime\<close> with its UTC offset in seconds, \<open>None\<close> for a naive
  one. Aware values are compared by the instant they denote.
\<close>

record datetime =
  dt_year :: nat
  dt_month :: nat
  dt_day :: nat
  dt_hour :: nat
  dt_minute :: nat
  dt_second :: nat
  dt_microsecond :: nat
  dt_offset :: "int option"

definition is_leap :: "nat \<Rightarrow> bool" where
  "is_leap y \<longleftrightarrow> 4 dvd y \<and> (\<not> 100 dvd y \<or> 400 dvd y)"

definition days_in_month :: "nat \<Rightarrow> nat \<Rightarrow> nat" where
  "days_in_month y m =
     (if m = 2 then if is_leap y then 29 else 28 else if m \<in> {4, 6, 9, 11} then 30 else 31)"

definition datetime_valid :: "datetime \<Rightarrow> bool" where
  "datetime_valid t \<longleftrightarrow>
     1 \<le> dt_year t \<and> dt_year t \<le> 9999 \<and> 1 \<le> dt_month t \<and> dt_month t \<le> 12
   \<and> 1 \<le> dt_day t \<and> dt_day t \<le> days_in_month (dt_year t) (dt_month t)
   \<and> dt_hour t < 24 \<and> dt_minute t < 60 \<and> dt_second t < 60 \<and> dt_microsecond t < 1000000
   \<and> (case dt_offset t of None \<Rightarrow> True | Some z \<Rightarrow> - 86400 < z \<and> z < 86400)"

text \<open>\<^verbatim>\<open>toordinal\<close>, and the instant in microseconds.\<close>

definition ordinal :: "nat \<Rightarrow> nat \<Rightarrow> nat \<Rightarrow> nat" where
  "ordinal y m d =
     (let p = y - 1 in p * 365 + p div 4 - p div 100 + p div 400
        + sum_list (map (days_in_month y) [1..<m]) + d)"

definition instant :: "datetime \<Rightarrow> int" where
  "instant t =
     (((int (ordinal (dt_year t) (dt_month t) (dt_day t)) * 24 + int (dt_hour t)) * 60
        + int (dt_minute t)) * 60 + int (dt_second t)
        - (case dt_offset t of None \<Rightarrow> 0 | Some z \<Rightarrow> z)) * 1000000 + int (dt_microsecond t)"

subsection \<open>base64\<close>

definition b64_char :: "nat \<Rightarrow> char" where
  "b64_char v = char_of (if v < 26 then v + 65 else if v < 52 then v + 71
     else if v < 62 then v - 4 else if v = 62 then 45 else 95)"

fun b64_encode :: "nat list \<Rightarrow> string" where
  "b64_encode [] = []"
| "b64_encode [a] = [b64_char (a div 4), b64_char (a mod 4 * 16), CHR ''='', CHR ''='']"
| "b64_encode [a, b] =
     [b64_char (a div 4), b64_char (a mod 4 * 16 + b div 16), b64_char (b mod 16 * 4), CHR ''='']"
| "b64_encode (a # b # c # r) =
     b64_char (a div 4) # b64_char (a mod 4 * 16 + b div 16) # b64_char (b mod 16 * 4 + c div 64)
     # b64_char (c mod 64) # b64_encode r"

text \<open>
  The URL-safe alphabet is translated to the standard one before decoding, so both are read: the
  last two digits are a minus or a plus (45, 43) and an underscore or a slash (95, 47).
\<close>

definition b64_val :: "char \<Rightarrow> nat option" where
  "b64_val c = (let n = of_char c in
     if 65 \<le> n \<and> n \<le> 90 then Some (n - 65) else if 97 \<le> n \<and> n \<le> 122 then Some (n - 71)
     else if 48 \<le> n \<and> n \<le> 57 then Some (n + 4) else if n = 45 \<or> n = 43 then Some 62
     else if n = 95 \<or> n = 47 then Some 63 else None)"

text \<open>
  \<open>a2b quad left pads s\<close>: the position in the group of four, the bits not yet written, and the
  padding characters seen.
\<close>

fun a2b :: "nat \<Rightarrow> nat \<Rightarrow> nat \<Rightarrow> string \<Rightarrow> exn_class + nat list" where
  "a2b quad left pads [] = (if quad = 0 then Inr [] else Inl ValueErrorC)"
| "a2b quad left pads (ch # s) =
     (if ch = CHR ''='' then
        (if 2 \<le> quad then if 4 \<le> quad + Suc pads then Inr [] else a2b quad left (Suc pads) s
         else a2b quad left pads s)
      else case b64_val ch of
        None \<Rightarrow> a2b quad left pads s
      | Some v \<Rightarrow>
          if quad = 0 then a2b 1 v 0 s
          else if quad = 1 then rbind (a2b 2 (v mod 16) 0 s) (\<lambda>r. Inr ((left * 4 + v div 16) # r))
          else if quad = 2 then rbind (a2b 3 (v mod 4) 0 s) (\<lambda>r. Inr ((left * 16 + v div 4) # r))
          else rbind (a2b 0 0 0 s) (\<lambda>r. Inr ((left * 64 + v) # r)))"

definition is_ascii :: "string \<Rightarrow> bool" where
  "is_ascii s \<longleftrightarrow> (\<forall>c \<in> set s. of_char c < (128 :: nat))"

definition urlsafe_b64decode :: "string \<Rightarrow> exn_class + nat list" where
  "urlsafe_b64decode s = (if is_ascii s then a2b 0 0 0 s else Inl ValueErrorC)"

definition rstrip_char :: "char \<Rightarrow> string \<Rightarrow> string" where
  "rstrip_char c s = rev (dropWhile (\<lambda>d. d = c) (rev s))"

subsection \<open>Encoding and decoding a cursor\<close>

record cursor_codec =
  isoformat :: "datetime \<Rightarrow> string"
  fromisoformat :: "string \<Rightarrow> exn_class + datetime"
  uuid_str :: "nat \<Rightarrow> string"
  parse_uuid :: "string \<Rightarrow> exn_class + nat"
  utf8_decode :: "nat list \<Rightarrow> exn_class + string"

text \<open>The text of a cursor is ASCII, so its UTF-8 bytes are its code points.\<close>

definition ascii_bytes :: "string \<Rightarrow> nat list" where
  "ascii_bytes s = map of_char s"

definition encode_activity_cursor :: "cursor_codec \<Rightarrow> datetime \<Rightarrow> nat \<Rightarrow> string" where
  "encode_activity_cursor cd created_at row_id =
     rstrip_char (CHR ''='') (b64_encode (ascii_bytes (isoformat cd created_at @ ''|'' @ uuid_str cd row_id)))"

definition split_bar :: "string \<Rightarrow> exn_class + string \<times> string" where
  "split_bar s =
     (case dropWhile (\<lambda>c. c \<noteq> CHR ''|'') s of
        [] \<Rightarrow> Inl ValueErrorC
      | _ # rest \<Rightarrow> Inr (takeWhile (\<lambda>c. c \<noteq> CHR ''|'') s, rest))"

definition read_cursor :: "cursor_codec \<Rightarrow> string \<Rightarrow> exn_class + datetime \<times> nat" where
  "read_cursor cd cursor =
     rbind (urlsafe_b64decode (cursor @ replicate ((4 - length cursor mod 4) mod 4) (CHR ''=''))) (\<lambda>bytes.
     rbind (utf8_decode cd bytes) (\<lambda>decoded.
     rbind (split_bar decoded) (\<lambda>(timestamp, raw_id).
     rbind (fromisoformat cd timestamp) (\<lambda>created_at.
     rbind (parse_uuid cd raw_id) (\<lambda>row_id. Inr (created_at, row_id))))))"

definition decode_activity_cursor :: "cursor_codec \<Rightarrow> string \<Rightarrow> exn_class + datetime \<times> nat" where
  "decode_activity_cursor cd cursor =
     (if cursor = [] \<or> 256 < length cursor then Inl InvalidActivityCursorErrorC
      else case read_cursor cd cursor of
        Inl c \<Rightarrow> Inl (if issubclass c ValueErrorC then InvalidActivityCursorErrorC else c)
      | Inr (created_at, row_id) \<Rightarrow>
          if dt_offset created_at = None then Inl InvalidActivityCursorErrorC
          else Inr (created_at, row_id))"

subsection \<open>base64 round trip\<close>

lemma b64_char_code: "v < 64 \<Longrightarrow> of_char (b64_char v) = (if v < 26 then v + 65 else if v < 52 then v + 71
     else if v < 62 then v - 4 else if v = 62 then 45 else (95 :: nat))"
  by (simp add: b64_char_def)

lemma b64_val_char: "v < 64 \<Longrightarrow> b64_val (b64_char v) = Some v"
  unfolding b64_val_def Let_def b64_char_code by auto

lemma b64_char_plain: "v < 64 \<Longrightarrow> b64_char v \<noteq> CHR ''='' \<and> of_char (b64_char v) < (128 :: nat)"
proof -
  assume v: "v < 64"
  have "of_char (b64_char v) \<noteq> (of_char (CHR ''='') :: nat)"
    unfolding b64_char_code [OF v] using v by auto
  moreover have "of_char (b64_char v) < (128 :: nat)" unfolding b64_char_code [OF v] using v by auto
  ultimately show ?thesis by metis
qed

lemma b64_parts:
  assumes "a < (256 :: nat)" and "b < (256 :: nat)"
  shows "a div 4 < 64" "a mod 4 * 16 < 64" "a mod 4 * 16 + b div 16 < 64" "b mod 16 * 4 < 64"
    "b mod 16 * 4 + a div 64 < 64" "a mod 64 < 64"
proof -
  have "a mod 4 \<le> 3" "b div 16 \<le> 15" "b mod 16 \<le> 15" "a div 64 \<le> 3" using assms by auto
  then show "a mod 4 * 16 < 64" "a mod 4 * 16 + b div 16 < 64" "b mod 16 * 4 < 64"
    "b mod 16 * 4 + a div 64 < 64" by linarith+
qed (use assms in auto)

lemma six_bits:
  fixes a b c :: nat
  assumes "b < 256" and "c < 256"
  shows "a div 4 * 4 + (a mod 4 * 16 + b div 16) div 16 = a"
    "(a mod 4 * 16 + b div 16) mod 16 * 16 + (b mod 16 * 4 + c div 64) div 4 = b"
    "(b mod 16 * 4 + c div 64) mod 4 * 64 + c mod 64 = c"
    "a div 4 * 4 + a mod 4 * 16 div 16 = a"
    "(a mod 4 * 16 + b div 16) mod 16 * 16 + b mod 16 * 4 div 4 = b"
proof -
  have b: "b div 16 < 16" and c: "c div 64 < 4" using assms by auto
  have "(a mod 4 * 16 + b div 16) div 16 = a mod 4" "(a mod 4 * 16 + b div 16) mod 16 = b div 16"
    using b by auto
  moreover have "(b mod 16 * 4 + c div 64) div 4 = b mod 16" "(b mod 16 * 4 + c div 64) mod 4 = c div 64"
    using c by auto
  ultimately show "a div 4 * 4 + (a mod 4 * 16 + b div 16) div 16 = a"
    "(a mod 4 * 16 + b div 16) mod 16 * 16 + (b mod 16 * 4 + c div 64) div 4 = b"
    "(b mod 16 * 4 + c div 64) mod 4 * 64 + c mod 64 = c"
    "a div 4 * 4 + a mod 4 * 16 div 16 = a"
    "(a mod 4 * 16 + b div 16) mod 16 * 16 + b mod 16 * 4 div 4 = b"
    by simp_all
qed

lemma a2b_groups:
  assumes "u < 64" "v < 64" "x < 64" "y < 64"
  shows "a2b 0 0 0 [b64_char u, b64_char v, CHR ''='', CHR ''=''] = Inr [u * 4 + v div 16]"
    "a2b 0 0 0 [b64_char u, b64_char v, b64_char x, CHR ''=''] = Inr [u * 4 + v div 16, v mod 16 * 16 + x div 4]"
    "a2b 0 0 0 (b64_char u # b64_char v # b64_char x # b64_char y # s) =
       rbind (a2b 0 0 0 s) (\<lambda>r. Inr ((u * 4 + v div 16) # (v mod 16 * 16 + x div 4) # (x mod 4 * 64 + y) # r))"
  using assms by (simp_all add: b64_val_char b64_char_plain rbind_def split: sum.split)

lemma a2b_encode: "list_all (\<lambda>b. b < 256) bs \<Longrightarrow> a2b 0 0 0 (b64_encode bs) = Inr bs"
proof (induction bs rule: b64_encode.induct)
  case (2 a)
  then have "a < 256" by simp
  note P = b64_parts [OF this this] and S = six_bits(4) [OF this this, of a]
  show ?case unfolding b64_encode.simps a2b_groups(1) [OF P(1,2) P(1,1)] S ..
next
  case (3 a b)
  then have "a < 256" "b < 256" by simp_all
  note P = b64_parts [OF this] and S = six_bits(1,5) [OF this(2) this(2), of a]
  show ?case unfolding b64_encode.simps a2b_groups(2) [OF P(1,3,4) P(1)] S ..
next
  case (4 a b c r)
  then have ab: "a < 256" "b < 256" "c < 256" by simp_all
  note P = b64_parts [OF ab(1,2)] and Q = b64_parts [OF ab(3,2)] and S = six_bits [OF ab(2,3)]
  have "a2b 0 0 0 (b64_encode r) = Inr r" using 4 by simp
  then show ?case unfolding b64_encode.simps a2b_groups(3) [OF P(1,3) Q(5,6)] S(1-3) by simp
qed simp

lemma b64_shape:
  "list_all (\<lambda>b. b < 256) bs \<Longrightarrow> \<exists>core. b64_encode bs = core @ replicate ((4 - length core mod 4) mod 4) (CHR ''='')
     \<and> (\<forall>c \<in> set core. c \<noteq> CHR ''='' \<and> of_char c < (128 :: nat)) \<and> length core \<le> 2 * length bs"
proof (induction bs rule: b64_encode.induct)
  case 1
  then show ?case by (intro exI [of _ "[]"]) simp
next
  case (2 a)
  then have "a < 256" by simp
  note P = b64_parts [OF this this]
  show ?case using P(1,2)
    by (intro exI [of _ "[b64_char (a div 4), b64_char (a mod 4 * 16)]"])
      (simp add: b64_char_plain numeral_2_eq_2)
next
  case (3 a b)
  then have "a < 256" "b < 256" by simp_all
  note P = b64_parts [OF this]
  show ?case using P(1,3,4)
    by (intro exI [of _ "[b64_char (a div 4), b64_char (a mod 4 * 16 + b div 16), b64_char (b mod 16 * 4)]"])
      (simp add: b64_char_plain)
next
  case (4 a b c r)
  then obtain core where core: "b64_encode r = core @ replicate ((4 - length core mod 4) mod 4) (CHR ''='')"
    "\<forall>c \<in> set core. c \<noteq> CHR ''='' \<and> of_char c < (128 :: nat)" "length core \<le> 2 * length r"
    by auto
  have ab: "a < 256" "b < 256" "c < 256" using 4 by simp_all
  note P = b64_parts [OF ab(1,2)] and Q = b64_parts [OF ab(3,2)]
  let ?core = "b64_char (a div 4) # b64_char (a mod 4 * 16 + b div 16)
    # b64_char (b mod 16 * 4 + c div 64) # b64_char (c mod 64) # core"
  have "length ?core = length core + 4" by simp
  then have "length ?core mod 4 = length core mod 4" by (simp only: mod_add_self2)
  moreover have "\<forall>c \<in> set ?core. c \<noteq> CHR ''='' \<and> of_char c < (128 :: nat)"
    using core(2) b64_char_plain [OF P(1)] b64_char_plain [OF P(3)] b64_char_plain [OF Q(5)]
      b64_char_plain [OF Q(6)] by (simp only: list.set ball_simps) simp
  moreover have "length ?core \<le> 2 * length (a # b # c # r)" using core(3) by simp
  moreover from \<open>length ?core mod 4 = length core mod 4\<close>
  have "b64_encode (a # b # c # r) = ?core @ replicate ((4 - length ?core mod 4) mod 4) (CHR ''='')"
    unfolding b64_encode.simps core(1) by (simp only: append_Cons)
  ultimately show ?case by (intro exI [of _ ?core] conjI)
qed

lemma rstrip_core:
  "\<forall>c \<in> set core. c \<noteq> x \<Longrightarrow> rstrip_char x (core @ replicate n x) = core"
proof -
  assume "\<forall>c \<in> set core. c \<noteq> x"
  then have "dropWhile (\<lambda>d. d = x) (rev core) = rev core"
    by (intro dropWhile_id) (cases core rule: rev_cases, simp_all)
  moreover have "dropWhile (\<lambda>d. d = x) (replicate n x @ rev core) = dropWhile (\<lambda>d. d = x) (rev core)"
    by (rule dropWhile_append2) simp
  ultimately show ?thesis by (simp add: rstrip_char_def)
qed

lemma b64_encode_Nil: "b64_encode bs = [] \<longleftrightarrow> bs = []"
  by (cases bs rule: b64_encode.cases) simp_all

lemma cursor_bytes:
  assumes "is_ascii s" and "s \<noteq> []" and "length s \<le> 128"
  defines "cursor \<equiv> rstrip_char (CHR ''='') (b64_encode (ascii_bytes s))"
  shows "urlsafe_b64decode (cursor @ replicate ((4 - length cursor mod 4) mod 4) (CHR ''='')) = Inr (ascii_bytes s)"
    and "cursor \<noteq> []" and "length cursor \<le> 256"
proof -
  have small: "list_all (\<lambda>b. b < 256) (ascii_bytes s)"
    by (simp add: ascii_bytes_def list_all_iff nat_of_char_less_256)
  from b64_shape [OF this] obtain core where
    core: "b64_encode (ascii_bytes s) = core @ replicate ((4 - length core mod 4) mod 4) (CHR ''='')"
    "\<forall>c \<in> set core. c \<noteq> CHR ''='' \<and> of_char c < (128 :: nat)" "length core \<le> 2 * length (ascii_bytes s)"
    by blast
  have cursor: "cursor = core" unfolding cursor_def core(1) by (rule rstrip_core) (use core in blast)
  have "set (core @ replicate n (CHR ''='')) \<subseteq> insert (CHR ''='') (set core)" for n by auto
  then have "set (b64_encode (ascii_bytes s)) \<subseteq> insert (CHR ''='') (set core)" unfolding core(1) .
  moreover have "of_char (CHR ''='') < (128 :: nat)" by simp
  ultimately have "is_ascii (b64_encode (ascii_bytes s))" unfolding is_ascii_def using core(2) by blast
  then show "urlsafe_b64decode (cursor @ replicate ((4 - length cursor mod 4) mod 4) (CHR ''='')) = Inr (ascii_bytes s)"
    unfolding cursor core(1) [symmetric] urlsafe_b64decode_def using a2b_encode [OF small] by simp
  show "length cursor \<le> 256" using core(3) assms(3) cursor by (simp add: ascii_bytes_def)
  have "b64_encode (ascii_bytes s) \<noteq> []"
    using assms(2) by (simp add: b64_encode_Nil ascii_bytes_def)
  then show "cursor \<noteq> []" using core(1) cursor by auto
qed

lemma split_bar_append: "CHR ''|'' \<notin> set a \<Longrightarrow> split_bar (a @ ''|'' @ b) = Inr (a, b)"
proof -
  assume "CHR ''|'' \<notin> set a"
  then have "dropWhile (\<lambda>c. c \<noteq> CHR ''|'') (a @ ''|'' @ b) = ''|'' @ b"
    "takeWhile (\<lambda>c. c \<noteq> CHR ''|'') (a @ ''|'' @ b) = a"
    by (induction a) auto
  then show ?thesis by (simp add: split_bar_def)
qed

subsection \<open>The codec laws\<close>

text \<open>
  What the library documents of the texts of datetimes and UUIDs: \<^verbatim>\<open>isoformat\<close> and
  \<^verbatim>\<open>str\<close> are short ASCII texts, the first without a bar, the readers give the value
  back, and everything unreadable is a \<^verbatim>\<open>ValueError\<close>. A UUID is a number below \<open>2^128\<close>.
\<close>

locale cursor_texts =
  fixes cd :: cursor_codec
  assumes time_text: "datetime_valid t \<Longrightarrow> is_ascii (isoformat cd t) \<and> CHR ''|'' \<notin> set (isoformat cd t)
      \<and> length (isoformat cd t) \<le> 64"
    and time_read: "datetime_valid t \<Longrightarrow> fromisoformat cd (isoformat cd t) = Inr t"
    and uuid_text: "u < 2 ^ 128 \<Longrightarrow> is_ascii (uuid_str cd u) \<and> length (uuid_str cd u) \<le> 48"
    and uuid_read: "u < 2 ^ 128 \<Longrightarrow> parse_uuid cd (uuid_str cd u) = Inr u"
    and utf8_ascii: "is_ascii s \<Longrightarrow> utf8_decode cd (ascii_bytes s) = Inr s"
    and read_errors: "fromisoformat cd s = Inl c \<or> parse_uuid cd s = Inl c \<or> utf8_decode cd bs = Inl c \<Longrightarrow>
      issubclass c ValueErrorC"
begin

lemma cursor_roundtrip:
  assumes "datetime_valid t" and "u < 2 ^ 128" and aware: "dt_offset t \<noteq> None"
  shows "decode_activity_cursor cd (encode_activity_cursor cd t u) = Inr (t, u)"
proof -
  let ?s = "isoformat cd t @ ''|'' @ uuid_str cd u"
  note T = time_text [OF assms(1)] and U = uuid_text [OF assms(2)]
  have s: "is_ascii ?s" "?s \<noteq> []" "length ?s \<le> 128" using T U by (auto simp: is_ascii_def)
  note B = cursor_bytes [OF s]
  have "split_bar ?s = Inr (isoformat cd t, uuid_str cd u)"
    using T split_bar_append by simp
  then have "read_cursor cd (encode_activity_cursor cd t u) = Inr (t, u)"
    using B(1) utf8_ascii [OF s(1)] time_read [OF assms(1)] uuid_read [OF assms(2)]
    by (simp add: read_cursor_def encode_activity_cursor_def)
  then show ?thesis using B(2,3) aware
    by (simp add: decode_activity_cursor_def encode_activity_cursor_def)
qed

lemma a2b_errors: "a2b q l p s = Inl c \<Longrightarrow> c = ValueErrorC"
  by (induction q l p s rule: a2b.induct)
    (auto simp: rbind_eq_Inl split: if_splits option.splits)

lemma decode_errors: "decode_activity_cursor cd s = Inl c \<Longrightarrow> c = InvalidActivityCursorErrorC"
proof -
  assume d: "decode_activity_cursor cd s = Inl c"
  have "fromisoformat cd t = Inl e \<Longrightarrow> issubclass e ValueErrorC"
    "parse_uuid cd t = Inl e \<Longrightarrow> issubclass e ValueErrorC"
    "utf8_decode cd bs = Inl e \<Longrightarrow> issubclass e ValueErrorC" for t bs e
    using read_errors by blast+
  moreover have "urlsafe_b64decode t = Inl e \<Longrightarrow> issubclass e ValueErrorC"
    "split_bar t = Inl e \<Longrightarrow> issubclass e ValueErrorC" for t e
    by (auto simp: urlsafe_b64decode_def split_bar_def dest: a2b_errors split: if_splits list.splits)
  ultimately have "read_cursor cd s = Inl e \<Longrightarrow> issubclass e ValueErrorC" for e
    unfolding read_cursor_def by (auto simp: rbind_eq_Inl)
  then show ?thesis using d
    by (auto simp: decode_activity_cursor_def split: if_splits sum.splits prod.splits)
qed

end

end
