(* ===== verification/Persistence.thy ===== *)
theory Persistence
  imports Chat Cursor
begin

section \<open>The telemetry tables\<close>

text \<open>
  \<^verbatim>\<open>persistence/models.py\<close> and \<^verbatim>\<open>persistence/repository.py\<close>: the three tables with
  their check constraints, keys and column widths, and the repository's statements. PostgreSQL
  is outside the sources; a statement either fails as a whole, because of an outage or because a
  constraint refuses the row, or takes effect. A refused row raises a subclass of
  \<^verbatim>\<open>Exception\<close>. Amounts are unconstrained \<^verbatim>\<open>NUMERIC\<close>, so they are stored
  exactly.
\<close>

definition bigint :: "int \<Rightarrow> bool" where
  "bigint n \<longleftrightarrow> - (2 ^ 63) \<le> n \<and> n < 2 ^ 63"

definition width :: "nat \<Rightarrow> string \<Rightarrow> bool" where
  "width n s \<longleftrightarrow> length s \<le> n"

subsection \<open>Rows\<close>

definition inference_row_ok :: "telemetry_event \<Rightarrow> bool" where
  "inference_row_ok e \<longleftrightarrow>
     opt_all (\<lambda>n. 0 \<le> n) (te_input_tokens e) \<and> opt_all (\<lambda>n. 0 \<le> n) (te_output_tokens e)
   \<and> opt_all (\<lambda>c. 0 \<le> dval c) (te_estimated_cost_usd e) \<and> 0 \<le> te_latency_ms e
   \<and> 0 < te_max_output_tokens e \<and> 0 \<le> te_temperature e \<and> te_temperature e \<le> 2
   \<and> 0 \<le> int (te_prompt_characters e) \<and> 0 \<le> int (te_system_prompt_characters e)
   \<and> ((te_success e \<and> te_error_category e = None \<and> te_input_tokens e \<noteq> None
        \<and> te_output_tokens e \<noteq> None \<and> te_estimated_cost_usd e \<noteq> None)
      \<or> (\<not> te_success e \<and> te_error_category e \<noteq> None))
   \<and> width 128 (te_request_id e) \<and> opt_all (width 64) (te_error_category e)
   \<and> opt_all bigint (te_input_tokens e) \<and> opt_all bigint (te_output_tokens e)
   \<and> bigint (te_max_output_tokens e) \<and> bigint (int (te_prompt_characters e))
   \<and> bigint (int (te_system_prompt_characters e))"

record adaptive_row =
  aw_event :: adaptive_execution_telemetry
  aw_validation_outcome :: string
  aw_terminal_outcome :: string
  aw_validator_version :: "string option"
  aw_failure_codes :: "string option"

definition adaptive_row_ok :: "adaptive_row \<Rightarrow> bool" where
  "adaptive_row_ok r \<longleftrightarrow>
     0 < ae_attempt_count (aw_event r) \<and> ae_attempt_count (aw_event r) \<le> 3
   \<and> 0 \<le> dval (ae_cumulative_known_cost_usd (aw_event r)) \<and> 0 \<le> ae_cumulative_latency_ms (aw_event r)
   \<and> 0 \<le> ae_validation_duration_ms (aw_event r)
   \<and> width 128 (ae_request_id (aw_event r)) \<and> width 32 (aw_validation_outcome r)
   \<and> width 32 (aw_terminal_outcome r) \<and> opt_all (width 64) (aw_validator_version r)
   \<and> opt_all (width 512) (aw_failure_codes r)"

record chat_row =
  cr_id :: nat
  cr_created_at :: datetime
  cr_activity :: chat_activity_record

definition chat_row_ok :: "chat_row \<Rightarrow> bool" where
  "chat_row_ok r \<longleftrightarrow>
     (let a = cr_activity r in
      opt_all (\<lambda>n. 0 < n \<and> n \<le> 3) (ca_attempt_count a) \<and> opt_all (\<lambda>n. 0 \<le> n) (ca_input_tokens a)
    \<and> opt_all (\<lambda>n. 0 \<le> n) (ca_output_tokens a) \<and> opt_all (\<lambda>x. 0 \<le> x) (ca_latency_ms a)
    \<and> opt_all (\<lambda>c. 0 \<le> dval c) (ca_estimated_cost_usd a)
    \<and> width 128 (ca_request_id a) \<and> opt_all (width 64) (ca_category a)
    \<and> opt_all (width 16) (ca_category_source a) \<and> opt_all (width 32) (ca_validation_outcome a)
    \<and> width 32 (chat_activity_outcome_value (ca_outcome a)) \<and> opt_all (width 64) (ca_error_category a)
    \<and> opt_all bigint (ca_input_tokens a) \<and> opt_all bigint (ca_output_tokens a))"

record database =
  db_inference :: "telemetry_event list"
  db_adaptive :: "adaptive_row list"
  db_chat :: "chat_row list"

subsection \<open>The statements of the repository\<close>

definition insert_row :: "exn option \<Rightarrow> bool \<Rightarrow> database \<Rightarrow> exn + database" where
  "insert_row outage accepted db =
     (case outage of Some e \<Rightarrow> Inl e | None \<Rightarrow> if accepted then Inr db else Inl (Exn ExceptionC))"

definition pg_record :: "exn option \<Rightarrow> telemetry_event \<Rightarrow> database \<Rightarrow> exn + database" where
  "pg_record outage event db =
     insert_row outage (inference_row_ok event) (db\<lparr>db_inference := db_inference db @ [event]\<rparr>)"

definition adaptive_row_of :: "adaptive_execution_telemetry \<Rightarrow> adaptive_row" where
  "adaptive_row_of event =
     \<lparr>aw_event = event, aw_validation_outcome = validation_status_value (ae_validation_outcome event),
      aw_terminal_outcome = adaptive_terminal_outcome_value (ae_terminal_outcome event),
      aw_validator_version = (if ae_has_validator_version event then Some ''deterministic-v1'' else None),
      aw_failure_codes = (let joined = join '','' (map failure_code_value (ae_failure_codes event)) in
        if joined = [] then None else Some joined)\<rparr>"

definition pg_record_adaptive_execution ::
  "exn option \<Rightarrow> adaptive_execution_telemetry \<Rightarrow> database \<Rightarrow> exn + database" where
  "pg_record_adaptive_execution outage event db =
     insert_row outage (adaptive_row_ok (adaptive_row_of event))
       (db\<lparr>db_adaptive := db_adaptive db @ [adaptive_row_of event]\<rparr>)"

text \<open>The primary key, and the unique request id.\<close>

definition chat_keys_free :: "chat_row \<Rightarrow> chat_row list \<Rightarrow> bool" where
  "chat_keys_free r rows \<longleftrightarrow>
     list_all (\<lambda>x. cr_id x \<noteq> cr_id r \<and> ca_request_id (cr_activity x) \<noteq> ca_request_id (cr_activity r)) rows"

definition pg_record_chat_activity :: "exn option \<Rightarrow> chat_row \<Rightarrow> database \<Rightarrow> exn + database" where
  "pg_record_chat_activity outage r db =
     insert_row outage (chat_row_ok r \<and> chat_keys_free r (db_chat db)) (db\<lparr>db_chat := db_chat db @ [r]\<rparr>)"

definition row_key :: "chat_row \<Rightarrow> int \<times> nat" where
  "row_key r = (instant (cr_created_at r), cr_id r)"

definition is_before :: "(datetime \<times> nat) option \<Rightarrow> chat_row \<Rightarrow> bool" where
  "is_before before r =
     (case before of None \<Rightarrow> True
      | Some (created_at, row_id) \<Rightarrow>
          instant (cr_created_at r) < instant created_at
          \<or> (instant (cr_created_at r) = instant created_at \<and> cr_id r < row_id))"

text \<open>\<^verbatim>\<open>ORDER BY created_at DESC, id DESC\<close>.\<close>

definition newest_first :: "chat_row list \<Rightarrow> chat_row list" where
  "newest_first rows = rev (sort_key row_key rows)"

definition list_chat_activity ::
  "exn option \<Rightarrow> nat \<Rightarrow> (datetime \<times> nat) option \<Rightarrow> database \<Rightarrow> exn + chat_row list \<times> bool" where
  "list_chat_activity outage limit before db =
     (case outage of
        Some e \<Rightarrow> Inl e
      | None \<Rightarrow>
          (let rows = take (limit + 1) (newest_first (filter (is_before before) (db_chat db)));
               has_more = length rows > limit
           in case mapM (\<lambda>r. rbind (ChatActivityRecord (cr_activity r)) (\<lambda>_. Inr r)) (take limit rows) of
                Inl c \<Rightarrow> Inl (Exn c)
              | Inr items \<Rightarrow> Inr (items, has_more)))"

record telemetry_summary =
  ts_total_requests :: nat
  ts_successful_requests :: nat
  ts_failed_requests :: nat
  ts_total_estimated_cost_usd :: rat
  ts_average_latency_ms :: "rat option"
  ts_total_input_tokens :: int
  ts_total_output_tokens :: int

text \<open>SQL aggregates ignore \<^verbatim>\<open>NULL\<close>; a sum over nothing is made zero.\<close>

definition sql_sum :: "('a \<Rightarrow> 'b option) \<Rightarrow> 'a list \<Rightarrow> 'b::comm_monoid_add" where
  "sql_sum f rows = sum_list (List.map_filter f rows)"

definition pg_summary :: "exn option \<Rightarrow> database \<Rightarrow> exn + telemetry_summary" where
  "pg_summary outage db =
     (let rows = db_inference db in
      case outage of Some e \<Rightarrow> Inl e
      | None \<Rightarrow> Inr
          \<lparr>ts_total_requests = length rows,
           ts_successful_requests = length (filter te_success rows),
           ts_failed_requests = length (filter (\<lambda>r. \<not> te_success r) rows),
           ts_total_estimated_cost_usd = sql_sum (\<lambda>r. map_option dval (te_estimated_cost_usd r)) rows,
           ts_average_latency_ms =
             (if rows = [] then None else Some (sum_list (map te_latency_ms rows) / of_nat (length rows))),
           ts_total_input_tokens = sql_sum te_input_tokens rows,
           ts_total_output_tokens = sql_sum te_output_tokens rows\<rparr>)"

subsection \<open>The tables stay consistent\<close>

definition database_ok :: "database \<Rightarrow> bool" where
  "database_ok db \<longleftrightarrow>
     list_all inference_row_ok (db_inference db) \<and> list_all adaptive_row_ok (db_adaptive db)
   \<and> list_all chat_row_ok (db_chat db) \<and> distinct (map cr_id (db_chat db))
   \<and> distinct (map (\<lambda>r. ca_request_id (cr_activity r)) (db_chat db))"

lemma insert_row_Inr: "insert_row outage ok db = Inr db' \<Longrightarrow> ok \<and> db' = db"
  by (auto simp: insert_row_def split: option.splits if_splits)

lemma pg_record_ok: "pg_record o1 e db = Inr db' \<Longrightarrow> database_ok db \<Longrightarrow> database_ok db'"
  by (auto simp: pg_record_def database_ok_def dest!: insert_row_Inr)

lemma pg_record_adaptive_ok:
  "pg_record_adaptive_execution o1 e db = Inr db' \<Longrightarrow> database_ok db \<Longrightarrow> database_ok db'"
  by (auto simp: pg_record_adaptive_execution_def database_ok_def dest!: insert_row_Inr)

lemma pg_record_chat_ok: "pg_record_chat_activity o1 r db = Inr db' \<Longrightarrow> database_ok db \<Longrightarrow> database_ok db'"
  by (auto simp: pg_record_chat_activity_def database_ok_def chat_keys_free_def list_all_iff image_iff
      dest!: insert_row_Inr) metis+

lemma join_length:
  "(\<And>s. s \<in> set xs \<Longrightarrow> length s \<le> m) \<Longrightarrow> length (join sep xs) \<le> length xs * (m + length sep)"
proof (induction sep xs rule: join.induct)
  case (3 sep x y ys)
  then have "length (join sep (y # ys)) \<le> length (y # ys) * (m + length sep)" "length x \<le> m" by simp_all
  then show ?case by simp
qed (simp_all add: add_increasing2)

lemma failure_code_length: "length (failure_code_value c) \<le> 18"
  by (cases c) simp_all

lemma status_widths:
  "width 32 (validation_status_value s) \<and> width 32 (adaptive_terminal_outcome_value t)
   \<and> width 32 (chat_activity_outcome_value c)"
  by (cases s; cases t; cases c) (simp_all add: width_def)

lemma valid_adaptive_row: "adaptive_execution_telemetry_valid e \<Longrightarrow> adaptive_row_ok (adaptive_row_of e)"
proof -
  assume v: "adaptive_execution_telemetry_valid e"
  have "length (join '','' (map failure_code_value (ae_failure_codes e))) \<le> length (ae_failure_codes e) * (18 + 1)"
    using join_length [of "map failure_code_value (ae_failure_codes e)" 18 "'',''"] failure_code_length by auto
  also have "\<dots> \<le> 512" using v by (simp add: adaptive_execution_telemetry_valid_def MAX_FAILURES_def)
  finally have codes: "opt_all (width 512) (aw_failure_codes (adaptive_row_of e))"
    by (simp add: adaptive_row_of_def opt_all_def width_def Let_def)
  have version: "opt_all (width 64) (aw_validator_version (adaptive_row_of e))"
    by (simp add: adaptive_row_of_def opt_all_def width_def)
  have parts: "aw_event (adaptive_row_of e) = e" "width 32 (aw_validation_outcome (adaptive_row_of e))"
    "width 32 (aw_terminal_outcome (adaptive_row_of e))"
    using status_widths by (simp_all add: adaptive_row_of_def)
  show ?thesis using v unfolding adaptive_row_ok_def adaptive_execution_telemetry_valid_def parts(1)
    by (simp add: codes version parts(2,3)) (simp add: width_def)
qed

lemma valid_chat_row:
  "chat_activity_record_valid a \<Longrightarrow> opt_all bigint (ca_input_tokens a) \<Longrightarrow> opt_all bigint (ca_output_tokens a) \<Longrightarrow>
   chat_row_ok \<lparr>cr_id = u, cr_created_at = t, cr_activity = a\<rparr>"
proof -
  assume a: "chat_activity_record_valid a" "opt_all bigint (ca_input_tokens a)" "opt_all bigint (ca_output_tokens a)"
  have w: "width n = (\<lambda>s. length s \<le> n)" for n by (rule ext) (simp add: width_def)
  have "opt_all (\<lambda>c. 0 \<le> dval c) (ca_estimated_cost_usd a)" by (simp add: opt_all_def split: option.split)
  moreover have "opt_all (\<lambda>s. length s \<le> 16) (ca_category_source a)"
    using a(1) by (auto simp: chat_activity_record_valid_def opt_all_def split: option.splits)
  moreover have "length (chat_activity_outcome_value (ca_outcome a)) \<le> 32"
    using status_widths [of _ _ "ca_outcome a"] by (simp add: width_def)
  ultimately show ?thesis using a unfolding chat_row_ok_def chat_activity_record_valid_def w
    by (simp add: Let_def)
qed

text \<open>
  A row the service writes: built from a valid request and a valid response or completion whose
  numbers fit the columns, with a latency that is not negative.
\<close>

definition request_fits :: "inference_request \<Rightarrow> bool" where
  "request_fits rq \<longleftrightarrow> bigint (rq_max_output_tokens rq) \<and> bigint (int (length (rq_prompt rq)))
     \<and> bigint (int (length (system_text rq)))"

definition response_fits :: "inference_response \<Rightarrow> bool" where
  "response_fits r \<longleftrightarrow> bigint (rs_input_tokens r) \<and> bigint (rs_output_tokens r)"

lemma category_width: "width 64 (category_value c)"
  by (cases c) (simp_all add: width_def)

lemma success_row_fits:
  assumes "inference_request_valid rq" and "inference_response_valid r"
    and "request_fits rq" and "response_fits r" and "length cid \<le> 128"
  shows "inference_row_ok (success_row cid rq r)"
  using assms by (simp add: inference_row_ok_def success_row_def inference_request_valid_def
      inference_response_valid_def request_fits_def response_fits_def opt_all_def width_def
      token_count_def positive_token_count_def)

lemma expected_category:
  assumes "exn_wf e" and "expected_failure e"
  shows "\<exists>s. row_category e = Some s \<and> length s \<le> 64"
proof (cases "exn_category e")
  case (Some c)
  then show ?thesis using category_width by (simp add: row_category_def width_def)
next
  case None
  then obtain c where e: "e = Exn c \<or> (\<exists>n s. e = RateLimitExceeded n s)" by (cases e) auto
  then show ?thesis using assms
  proof (elim disjE exE)
    assume "e = Exn c"
    then show ?thesis using assms
      by (cases c) (simp_all add: expected_failure_def isinstance_def issubclass_eval row_category_def
          row_categories_def exn_wf_def)
  qed (simp add: expected_failure_def isinstance_def issubclass_eval)
qed

lemma failure_row_fits:
  assumes "inference_request_valid rq" and "request_fits rq" and "length cid \<le> 128"
    and "exn_wf e" and "expected_failure e" and "0 \<le> ms"
    and "\<And>r. exn_completion e = Some r \<Longrightarrow> inference_response_valid r \<and> response_fits r"
  shows "inference_row_ok (failure_row cid m rq e ms)"
proof -
  obtain s where s: "row_category e = Some s" "length s \<le> 64" using expected_category assms by blast
  show ?thesis
    using assms s by (cases "exn_completion e")
      (auto simp: inference_row_ok_def failure_row_def inference_request_valid_def Let_def
        inference_response_valid_def request_fits_def response_fits_def opt_all_def width_def
        token_count_def positive_token_count_def)
qed


text \<open>
  The summary adds up: successes and failures partition the requests, the token totals
  and the cost are not negative, and there is an average exactly when there is a request.
\<close>

theorem summary_adds_up:
  assumes "database_ok db" and "pg_summary None db = Inr s"
  shows "ts_total_requests s = ts_successful_requests s + ts_failed_requests s
    \<and> 0 \<le> ts_total_estimated_cost_usd s \<and> 0 \<le> ts_total_input_tokens s \<and> 0 \<le> ts_total_output_tokens s
    \<and> (ts_average_latency_ms s = None \<longleftrightarrow> ts_total_requests s = 0)
    \<and> (ts_failed_requests s = 0 \<longrightarrow>
         ts_total_input_tokens s = (\<Sum>r\<leftarrow>db_inference db. the (te_input_tokens r)))"
proof -
  have nonneg: "0 \<le> sql_sum f xs" if "\<And>x y. x \<in> set xs \<Longrightarrow> f x = Some y \<Longrightarrow> 0 \<le> y"
    for f :: "telemetry_event \<Rightarrow> 'b::ordered_comm_monoid_add option" and xs
    unfolding sql_sum_def by (rule sum_list_nonneg) (use that in \<open>auto simp: map_filter_def\<close>)
  have rows: "inference_row_ok r" if "r \<in> set (db_inference db)" for r
    using assms(1) that by (auto simp: database_ok_def list_all_iff)
  have full: "sql_sum te_input_tokens xs = (\<Sum>r\<leftarrow>xs. the (te_input_tokens r))"
    if "\<forall>r\<in>set xs. te_input_tokens r \<noteq> None" for xs
    using that by (induction xs) (auto simp: sql_sum_def List.map_filter_simps)
  have tokens: "te_input_tokens r = Some n \<Longrightarrow> 0 \<le> n" "te_output_tokens r = Some n \<Longrightarrow> 0 \<le> n"
    "te_success r \<Longrightarrow> te_input_tokens r \<noteq> None"
    if "r \<in> set (db_inference db)" for r n
    using rows [OF that] by (auto simp: inference_row_ok_def opt_all_def)
  have s: "s = \<lparr>ts_total_requests = length (db_inference db),
      ts_successful_requests = length (filter te_success (db_inference db)),
      ts_failed_requests = length (filter (\<lambda>r. \<not> te_success r) (db_inference db)),
      ts_total_estimated_cost_usd = sql_sum (\<lambda>r. map_option dval (te_estimated_cost_usd r)) (db_inference db),
      ts_average_latency_ms = (if db_inference db = [] then None
        else Some (sum_list (map te_latency_ms (db_inference db)) / of_nat (length (db_inference db)))),
      ts_total_input_tokens = sql_sum te_input_tokens (db_inference db),
      ts_total_output_tokens = sql_sum te_output_tokens (db_inference db)\<rparr>"
    using assms(2) by (simp add: pg_summary_def Let_def)
  have "0 \<le> sql_sum (\<lambda>r. map_option dval (te_estimated_cost_usd r)) (db_inference db)"
    "0 \<le> sql_sum te_input_tokens (db_inference db)" "0 \<le> sql_sum te_output_tokens (db_inference db)"
    using tokens by (auto intro!: nonneg)
  moreover have "filter (\<lambda>r. \<not> te_success r) (db_inference db) = [] \<Longrightarrow>
      sql_sum te_input_tokens (db_inference db) = (\<Sum>r\<leftarrow>db_inference db. the (te_input_tokens r))"
    using tokens(3) by (intro full) (auto simp: filter_empty_conv)
  moreover have "length (db_inference db)
      = length (filter te_success (db_inference db)) + length (filter (\<lambda>r. \<not> te_success r) (db_inference db))"
    by (simp only: sum_length_filter_compl)
  moreover from this have "filter te_success (db_inference db) = [] \<Longrightarrow>
      filter (\<lambda>r. \<not> te_success r) (db_inference db) = [] \<Longrightarrow> db_inference db = []"
    by (metis add_0 length_0_conv)
  ultimately show ?thesis unfolding s by auto
qed

end
