(* ===== verification/Cursor_Texts.thy ===== *)
theory Cursor_Texts
  imports Cursor
begin

section \<open>The canonical texts of datetimes and UUIDs\<close>

text \<open>
  \<^verbatim>\<open>datetime.isoformat\<close> and \<^verbatim>\<open>str(UUID)\<close>, and readers for exactly these
  texts (Python's readers accept more spellings, which no cursor of the gateway contains). The
  interpretation at the end shows that they obey the laws the cursor rests on.
\<close>

subsection \<open>Numbers of a fixed width\<close>

definition digit_char :: "nat \<Rightarrow> char" where
  "digit_char v = char_of (if v < 10 then v + 48 else v + 87)"

definition digit_val :: "char \<Rightarrow> nat option" where
  "digit_val c = (let n = of_char c in
     if 48 \<le> n \<and> n \<le> 57 then Some (n - 48) else if 97 \<le> n \<and> n \<le> 102 then Some (n - 87) else None)"

fun digs :: "nat \<Rightarrow> nat \<Rightarrow> nat \<Rightarrow> string" where
  "digs b 0 n = []"
| "digs b (Suc k) n = digs b k (n div b) @ [digit_char (n mod b)]"

fun read_digs :: "nat \<Rightarrow> nat \<Rightarrow> nat \<Rightarrow> string \<Rightarrow> (nat \<times> string) option" where
  "read_digs b 0 acc s = Some (acc, s)"
| "read_digs b (Suc k) acc [] = None"
| "read_digs b (Suc k) acc (c # s) =
     (case digit_val c of None \<Rightarrow> None | Some v \<Rightarrow> if v < b then read_digs b k (acc * b + v) s else None)"

definition expect :: "char \<Rightarrow> string \<Rightarrow> string option" where
  "expect c s = (case s of [] \<Rightarrow> None | d # r \<Rightarrow> if d = c then Some r else None)"

definition num :: "nat \<Rightarrow> string \<Rightarrow> (nat \<times> string) option" where
  "num k s = read_digs 10 k 0 s"

subsection \<open>The texts\<close>

definition iso_offset :: "int \<Rightarrow> string" where
  "iso_offset z =
     (let a = nat \<bar>z\<bar> in
      (if z < 0 then ''-'' else ''+'') @ digs 10 2 (a div 3600) @ '':'' @ digs 10 2 (a div 60 mod 60)
        @ (if a mod 60 = 0 then [] else '':'' @ digs 10 2 (a mod 60)))"

definition iso_text :: "datetime \<Rightarrow> string" where
  "iso_text t =
     digs 10 4 (dt_year t) @ ''-'' @ digs 10 2 (dt_month t) @ ''-'' @ digs 10 2 (dt_day t) @ ''T''
     @ digs 10 2 (dt_hour t) @ '':'' @ digs 10 2 (dt_minute t) @ '':'' @ digs 10 2 (dt_second t)
     @ (if dt_microsecond t = 0 then [] else ''.'' @ digs 10 6 (dt_microsecond t))
     @ (case dt_offset t of None \<Rightarrow> [] | Some z \<Rightarrow> iso_offset z)"

definition hex_uuid :: "nat \<Rightarrow> string" where
  "hex_uuid u =
     (let h = digs 16 32 u in
      take 8 h @ ''-'' @ take 4 (drop 8 h) @ ''-'' @ take 4 (drop 12 h) @ ''-'' @ take 4 (drop 16 h)
        @ ''-'' @ drop 20 h)"

subsection \<open>The readers\<close>

definition read_fraction :: "string \<Rightarrow> (nat \<times> string) option" where
  "read_fraction s = (case expect (CHR ''.'') s of None \<Rightarrow> Some (0, s) | Some r \<Rightarrow> num 6 r)"

definition read_offset :: "string \<Rightarrow> int option option" where
  "read_offset s =
     (case s of
        [] \<Rightarrow> Some None
      | c # r \<Rightarrow>
          if c \<noteq> CHR ''+'' \<and> c \<noteq> CHR ''-'' then None
          else Option.bind (num 2 r) (\<lambda>(h, r). Option.bind (expect (CHR '':'') r) (\<lambda>r.
            Option.bind (num 2 r) (\<lambda>(m, r).
            Option.bind (if r = [] then Some (0, []) else Option.bind (expect (CHR '':'') r) (num 2)) (\<lambda>(sec, r).
            if r \<noteq> [] then None
            else let a = int (h * 3600 + m * 60 + sec) in Some (Some (if c = CHR ''-'' then - a else a)))))))"

definition read_iso :: "string \<Rightarrow> datetime option" where
  "read_iso s =
     Option.bind (num 4 s) (\<lambda>(y, s). Option.bind (expect (CHR ''-'') s) (\<lambda>s.
     Option.bind (num 2 s) (\<lambda>(mo, s). Option.bind (expect (CHR ''-'') s) (\<lambda>s.
     Option.bind (num 2 s) (\<lambda>(d, s). Option.bind (expect (CHR ''T'') s) (\<lambda>s.
     Option.bind (num 2 s) (\<lambda>(h, s). Option.bind (expect (CHR '':'') s) (\<lambda>s.
     Option.bind (num 2 s) (\<lambda>(mi, s). Option.bind (expect (CHR '':'') s) (\<lambda>s.
     Option.bind (num 2 s) (\<lambda>(sec, s). Option.bind (read_fraction s) (\<lambda>(us, s).
     Option.bind (read_offset s) (\<lambda>z.
     let t = \<lparr>dt_year = y, dt_month = mo, dt_day = d, dt_hour = h, dt_minute = mi, dt_second = sec,
              dt_microsecond = us, dt_offset = z\<rparr>
     in if datetime_valid t then Some t else None)))))))))))))"

definition as_value :: "'a option \<Rightarrow> exn_class + 'a" where
  "as_value v = (case v of None \<Rightarrow> Inl ValueErrorC | Some x \<Rightarrow> Inr x)"

definition read_uuid :: "string \<Rightarrow> nat option" where
  "read_uuid s =
     (let h = filter (\<lambda>c. c \<noteq> CHR ''-'') s in
      if length h \<noteq> 32 then None else map_option fst (read_digs 16 32 0 h))"

definition iso_codec :: cursor_codec where
  "iso_codec =
     \<lparr>isoformat = iso_text, fromisoformat = (\<lambda>s. as_value (read_iso s)), uuid_str = hex_uuid,
      parse_uuid = (\<lambda>s. as_value (read_uuid s)),
      utf8_decode = (\<lambda>bs. if list_all (\<lambda>b. b < 128) bs then Inr (map char_of bs) else Inl UnicodeErrorC)\<rparr>"

subsection \<open>Reading what was written\<close>

lemma digit_code: "v < 16 \<Longrightarrow> of_char (digit_char v) = (if v < 10 then v + 48 else v + (87 :: nat))"
  by (simp add: digit_char_def)

lemma digit_roundtrip: "v < 16 \<Longrightarrow> digit_val (digit_char v) = Some v"
  unfolding digit_val_def Let_def digit_code by auto

lemma digs_length [simp]: "length (digs b k n) = k"
  by (induction k arbitrary: n) auto

lemma digs_chars: "0 < b \<Longrightarrow> b \<le> 16 \<Longrightarrow> c \<in> set (digs b k n) \<Longrightarrow> \<exists>v < 16. c = digit_char v"
proof (induction k arbitrary: n)
  case (Suc k)
  have "n mod b < 16" using Suc.prems(1,2) by (meson less_le_trans mod_less_divisor)
  then show ?case using Suc by auto
qed simp

lemma digit_plain: "v < 16 \<Longrightarrow> of_char (digit_char v) < (128 :: nat) \<and> digit_char v \<noteq> CHR ''|''
    \<and> digit_char v \<noteq> CHR ''-''"
proof -
  assume v: "v < 16"
  have "of_char (digit_char v) \<noteq> (of_char (CHR ''|'') :: nat)" "of_char (digit_char v) \<noteq> (of_char (CHR ''-'') :: nat)"
    "of_char (digit_char v) < (128 :: nat)"
    unfolding digit_code [OF v] using v by auto
  then show ?thesis by metis
qed

lemma read_digs_digs:
  assumes "0 < b" and "b \<le> 16"
  shows "n < b ^ k \<Longrightarrow> read_digs b (k + j) acc (digs b k n @ r) = read_digs b j (acc * b ^ k + n) r"
proof (induction k arbitrary: n r j acc)
  case (Suc k)
  have m: "n mod b < b" "n mod b < 16" using assms by (simp, meson less_le_trans mod_less_divisor)
  have d: "n div b < b ^ k" using Suc.prems assms(1) by (simp add: less_mult_imp_div_less mult.commute)
  have "read_digs b (Suc k + j) acc (digs b (Suc k) n @ r)
      = read_digs b (k + Suc j) acc (digs b k (n div b) @ digit_char (n mod b) # r)" by simp
  also have "\<dots> = read_digs b (Suc j) (acc * b ^ k + n div b) (digit_char (n mod b) # r)" by (rule Suc.IH [OF d])
  also have "\<dots> = read_digs b j ((acc * b ^ k + n div b) * b + n mod b) r"
    using m by (simp add: digit_roundtrip)
  also have "(acc * b ^ k + n div b) * b + n mod b = acc * b ^ Suc k + n"
    by (simp add: algebra_simps)
  finally show ?case .
qed simp

lemma num_digs: "n < 10 ^ k \<Longrightarrow> num k (digs 10 k n @ r) = Some (n, r)"
  using read_digs_digs [of 10 n k 0 0 r] by (simp add: num_def)

lemma expect_same [simp]: "expect c (c # r) = Some r"
  by (simp add: expect_def)

lemma read_offset_body:
  assumes "h < 10 ^ 2" and "m < 10 ^ 2" and "sec < 10 ^ 2" and "c = CHR ''+'' \<or> c = CHR ''-''"
  shows "read_offset (c # digs 10 2 h @ '':'' @ digs 10 2 m @ (if sec = 0 then [] else '':'' @ digs 10 2 sec))
    = Some (Some (if c = CHR ''-'' then - int (h * 3600 + m * 60 + sec) else int (h * 3600 + m * 60 + sec)))"
proof (cases "sec = 0")
  case True
  then show ?thesis using assms(4) num_digs [OF assms(2), of "[]"]
    by (simp add: read_offset_def num_digs [OF assms(1)] Let_def split: if_splits)
next
  case False
  then show ?thesis using assms(4) num_digs [OF assms(3), of "[]"]
    by (simp add: read_offset_def num_digs [OF assms(1)] num_digs [OF assms(2)] Let_def split: if_splits)
qed

lemma read_offset_text:
  assumes "- 86400 < z" and "z < 86400"
  shows "read_offset (iso_offset z) = Some (Some z)"
proof -
  let ?a = "nat \<bar>z\<bar>"
  have a: "?a div 3600 < 10 ^ 2" "?a div 60 mod 60 < 10 ^ 2" "?a mod 60 < 10 ^ 2" using assms by auto
  have "?a div 3600 = ?a div 60 div 60" using div_mult2_eq [of ?a 60 60] by simp
  then have sum: "?a div 3600 * 3600 + ?a div 60 mod 60 * 60 + ?a mod 60 = ?a"
    using div_mult_mod_eq [of ?a 60] div_mult_mod_eq [of "?a div 60" 60] by linarith
  let ?c = "if z < 0 then CHR ''-'' else CHR ''+''"
  have "iso_offset z = ?c # digs 10 2 (?a div 3600) @ '':'' @ digs 10 2 (?a div 60 mod 60)
      @ (if ?a mod 60 = 0 then [] else '':'' @ digs 10 2 (?a mod 60))"
    unfolding iso_offset_def Let_def by (cases "z < 0") (simp_all only: if_True if_False append_Cons append_Nil)
  moreover have "(if ?c = CHR ''-'' then - int ?a else int ?a) = z" by simp
  ultimately show ?thesis using read_offset_body [OF a, of ?c] unfolding sum by (simp only:) simp
qed

lemma read_fraction_text:
  assumes "us < 1000000" and "\<not> (\<exists>r'. rest = CHR ''.'' # r')"
  shows "read_fraction ((if us = 0 then [] else ''.'' @ digs 10 6 us) @ rest) = Some (us, rest)"
  using assms num_digs [of us 6 rest] by (auto simp: read_fraction_def expect_def split: list.split)

lemma datetime_valid_ranges:
  assumes "datetime_valid t"
  shows "dt_year t < 10 ^ 4" "dt_month t < 10 ^ 2" "dt_day t < 10 ^ 2" "dt_hour t < 10 ^ 2"
    "dt_minute t < 10 ^ 2" "dt_second t < 10 ^ 2" "dt_microsecond t < 1000000"
proof -
  have "dt_day t \<le> 31" using assms by (auto simp: datetime_valid_def days_in_month_def split: if_splits)
  then show "dt_day t < 10 ^ 2" by simp
qed (use assms in \<open>auto simp: datetime_valid_def\<close>)

lemma read_iso_text: "datetime_valid t \<Longrightarrow> read_iso (iso_text t) = Some t"
proof -
  assume v: "datetime_valid t"
  note R = datetime_valid_ranges [OF v]
  let ?off = "case dt_offset t of None \<Rightarrow> [] | Some z \<Rightarrow> iso_offset z"
  have off: "read_offset ?off = Some (dt_offset t)"
    using v read_offset_text by (cases "dt_offset t") (auto simp: datetime_valid_def read_offset_def)
  have dot: "\<not> (\<exists>r'. ?off = CHR ''.'' # r')"
    by (cases "dt_offset t") (simp_all add: iso_offset_def Let_def)
  have fields: "\<lparr>dt_year = dt_year t, dt_month = dt_month t, dt_day = dt_day t, dt_hour = dt_hour t,
      dt_minute = dt_minute t, dt_second = dt_second t, dt_microsecond = dt_microsecond t,
      dt_offset = dt_offset t\<rparr> = t" by (cases t) simp
  show ?thesis using v
    by (simp add: read_iso_def iso_text_def num_digs [OF R(1)] num_digs [OF R(2)] num_digs [OF R(3)]
        num_digs [OF R(4)] num_digs [OF R(5)] num_digs [OF R(6)] read_fraction_text [OF R(7) dot] off Let_def fields)
qed

lemma read_hex_uuid: "u < 2 ^ 128 \<Longrightarrow> read_uuid (hex_uuid u) = Some u"
proof -
  assume u: "u < 2 ^ 128"
  let ?h = "digs 16 32 u"
  have dash: "c \<noteq> CHR ''-''" if "c \<in> set ?h" for c
    using digs_chars [OF _ _ that] digit_plain by (metis numeral_le_iff order_refl zero_less_numeral)
  have plain: "filter (\<lambda>c. c \<noteq> CHR ''-'') xs = xs" if "set xs \<subseteq> set ?h" for xs
    by (rule filter_True) (use that dash in blast)
  have parts: "take 8 ?h @ take 4 (drop 8 ?h) @ take 4 (drop 12 ?h) @ take 4 (drop 16 ?h) @ drop 20 ?h = ?h"
    using take_add [of 8 4 ?h] take_add [of 12 4 ?h] take_add [of 16 4 ?h] append_take_drop_id [of 20 ?h]
    by (simp only: numeral_plus_numeral semiring_norm append_assoc)
  have "filter (\<lambda>c. c \<noteq> CHR ''-'') (hex_uuid u) = ?h"
    using parts plain [OF set_take_subset] plain [OF set_drop_subset]
      plain [OF order_trans [OF set_take_subset set_drop_subset]]
    by (simp add: hex_uuid_def Let_def)
  moreover have "read_digs 16 32 0 ?h = Some (u, [])"
    using read_digs_digs [of 16 u 32 0 0 "[]"] u by simp
  ultimately show ?thesis by (simp add: read_uuid_def)
qed

subsection \<open>The laws hold\<close>

lemma is_ascii_append [simp]: "is_ascii (a @ b) \<longleftrightarrow> is_ascii a \<and> is_ascii b"
  by (auto simp: is_ascii_def)

lemma is_ascii_Nil [simp]: "is_ascii []"
  by (simp add: is_ascii_def)

lemma is_ascii_Cons [simp]: "is_ascii (c # s) \<longleftrightarrow> of_char c < (128 :: nat) \<and> is_ascii s"
  by (simp add: is_ascii_def)

lemma digs_plain: "0 < b \<Longrightarrow> b \<le> 16 \<Longrightarrow> is_ascii (digs b k n) \<and> CHR ''|'' \<notin> set (digs b k n)"
proof -
  assume b: "0 < b" "b \<le> 16"
  have "of_char c < (128 :: nat) \<and> c \<noteq> CHR ''|''" if c: "c \<in> set (digs b k n)" for c
  proof -
    obtain v where "v < 16" "c = digit_char v" using digs_chars [OF b c] by blast
    then show ?thesis using digit_plain [of v] by simp
  qed
  then show ?thesis by (auto simp: is_ascii_def)
qed

lemma iso_offset_plain:
  "is_ascii (iso_offset z) \<and> CHR ''|'' \<notin> set (iso_offset z) \<and> length (iso_offset z) \<le> 9"
  using digs_plain [of 10] by (simp add: iso_offset_def Let_def)

lemma iso_text_plain: "is_ascii (iso_text t) \<and> CHR ''|'' \<notin> set (iso_text t) \<and> length (iso_text t) \<le> 64"
proof (cases "dt_offset t")
  case (Some z)
  then show ?thesis using digs_plain [of 10] iso_offset_plain [of z] by (simp add: iso_text_def)
qed (use digs_plain [of 10] in \<open>simp add: iso_text_def\<close>)

lemma hex_uuid_plain: "is_ascii (hex_uuid u) \<and> length (hex_uuid u) \<le> 48"
  using digs_plain [of 16 32 u] by (auto simp: hex_uuid_def Let_def is_ascii_def dest: in_set_takeD in_set_dropD)

interpretation iso: cursor_texts iso_codec
proof unfold_locales
  fix t :: datetime
  assume v: "datetime_valid t"
  show "is_ascii (isoformat iso_codec t) \<and> CHR ''|'' \<notin> set (isoformat iso_codec t) \<and> length (isoformat iso_codec t) \<le> 64"
    using iso_text_plain by (simp add: iso_codec_def)
  show "fromisoformat iso_codec (isoformat iso_codec t) = Inr t"
    using read_iso_text [OF v] by (simp add: iso_codec_def as_value_def)
next
  fix u :: nat
  assume u: "u < 2 ^ 128"
  show "is_ascii (uuid_str iso_codec u) \<and> length (uuid_str iso_codec u) \<le> 48"
    using hex_uuid_plain by (simp add: iso_codec_def)
  show "parse_uuid iso_codec (uuid_str iso_codec u) = Inr u"
    using read_hex_uuid [OF u] by (simp add: iso_codec_def as_value_def)
next
  fix s :: string
  assume "is_ascii s"
  then show "utf8_decode iso_codec (ascii_bytes s) = Inr s"
    by (simp add: iso_codec_def ascii_bytes_def is_ascii_def list_all_iff comp_def)
next
  fix s c bs
  assume "fromisoformat iso_codec s = Inl c \<or> parse_uuid iso_codec s = Inl c \<or> utf8_decode iso_codec bs = Inl c"
  then show "issubclass c ValueErrorC"
    by (auto simp: iso_codec_def as_value_def issubclass_eval split: option.splits if_splits)
qed

end
