(* ===== verification/Activity.thy ===== *)
theory Activity
  imports Persistence Cursor_Texts
begin

section \<open>Reading telemetry back\<close>

text \<open>
  The two query services of \<^verbatim>\<open>telemetry/query.py\<close>. A repository is asked through an
  interface whose answers depend on the moment of the call; \<open>pg_queries\<close> is that interface over
  a database state. The main result is that a client that follows the cursors reads every row
  exactly once, newest first, in finitely many pages.
\<close>

record query_repository =
  qr_summary :: "nat \<Rightarrow> exn + telemetry_summary"
  qr_list :: "(nat \<Rightarrow> nat \<Rightarrow> (datetime \<times> nat) option \<Rightarrow> exn + chat_row list \<times> bool) option"

definition pg_queries :: "database \<Rightarrow> query_repository" where
  "pg_queries db =
     \<lparr>qr_summary = (\<lambda>_. pg_summary None db),
      qr_list = Some (\<lambda>_ limit before. list_chat_activity None limit before db)\<rparr>"

definition degraded :: "string \<Rightarrow> observability \<Rightarrow> observability" where
  "degraded record_type =
     emit ''dependency_degraded'' LEVEL_WARNING
       [(''dependency'', Some (LStr ''postgresql'')), (''record_type'', Some (LStr record_type)),
        (''outcome'', Some (LStr ''unavailable''))]"

definition answer_of :: "(nat \<Rightarrow> exn + 'a) \<Rightarrow> 'a act" where
  "answer_of f w = (f (w_ix w), w\<lparr>w_ix := Suc (w_ix w)\<rparr>)"

definition telemetry_summary_query :: "query_repository option \<Rightarrow> telemetry_summary act" where
  "telemetry_summary_query repository =
     (case repository of
        None \<Rightarrow> araise (Exn TelemetryUnavailableErrorC)
      | Some repo \<Rightarrow>
          acatch (answer_of (qr_summary repo))
            (\<lambda>e. if isinstance e ExceptionC
                 then abind (observe_with (degraded ''summary'')) (\<lambda>_. araise (Exn TelemetryUnavailableErrorC))
                 else araise e))"

record chat_activity_page =
  pg_items :: "chat_row list"
  pg_next_cursor :: "string option"

definition next_cursor :: "cursor_codec \<Rightarrow> chat_row list \<Rightarrow> bool \<Rightarrow> string option" where
  "next_cursor cd items has_more =
     (if has_more \<and> items \<noteq> []
      then Some (encode_activity_cursor cd (cr_created_at (last items)) (cr_id (last items))) else None)"

definition optional_cursor :: "cursor_codec \<Rightarrow> string option \<Rightarrow> exn_class + (datetime \<times> nat) option" where
  "optional_cursor cd cursor =
     (case cursor of None \<Rightarrow> Inr None
      | Some c \<Rightarrow> rbind (decode_activity_cursor cd c) (\<lambda>b. Inr (Some b)))"

definition activity_page ::
  "cursor_codec \<Rightarrow> query_repository option \<Rightarrow> nat \<Rightarrow> string option \<Rightarrow> chat_activity_page act" where
  "activity_page cd repository limit cursor =
     (case (case repository of None \<Rightarrow> None | Some repo \<Rightarrow> qr_list repo) of
        None \<Rightarrow> araise (Exn TelemetryUnavailableErrorC)
      | Some list_rows \<Rightarrow>
          abind (lift_result (optional_cursor cd cursor)) (\<lambda>before.
          abind (acatch (answer_of (\<lambda>i. list_rows i limit before))
            (\<lambda>e. if isinstance e InvalidActivityCursorErrorC then araise e
                 else if isinstance e ExceptionC
                 then abind (observe_with (degraded ''chat_activity'')) (\<lambda>_. araise (Exn TelemetryUnavailableErrorC))
                 else araise e)) (\<lambda>(items, has_more).
          areturn \<lparr>pg_items = items, pg_next_cursor = next_cursor cd items has_more\<rparr>)))"

text \<open>A client that follows the cursors for at most \<open>n\<close> pages; \<open>None\<close> if there are more.\<close>

fun follow_pages ::
  "cursor_codec \<Rightarrow> query_repository option \<Rightarrow> nat \<Rightarrow> nat \<Rightarrow> string option \<Rightarrow> chat_row list option act" where
  "follow_pages cd repository limit 0 cursor = areturn None"
| "follow_pages cd repository limit (Suc n) cursor =
     abind (activity_page cd repository limit cursor) (\<lambda>page.
     case pg_next_cursor page of
       None \<Rightarrow> areturn (Some (pg_items page))
     | Some c \<Rightarrow> abind (follow_pages cd repository limit n (Some c)) (\<lambda>rest.
         areturn (map_option (\<lambda>r. pg_items page @ r) rest)))"

subsection \<open>One page\<close>

definition rows_ok :: "chat_row list \<Rightarrow> bool" where
  "rows_ok rows \<longleftrightarrow> distinct (map cr_id rows)
     \<and> (\<forall>r \<in> set rows. datetime_valid (cr_created_at r) \<and> dt_offset (cr_created_at r) \<noteq> None
          \<and> cr_id r < 2 ^ 128 \<and> chat_activity_record_valid (cr_activity r))"

lemma newest_first_set [simp]: "set (newest_first rows) = set rows"
  by (simp add: newest_first_def)

lemma newest_first_length [simp]: "length (newest_first rows) = length rows"
  by (simp add: newest_first_def)

lemma newest_first_filter: "newest_first (filter P rows) = filter P (newest_first rows)"
  by (simp add: newest_first_def filter_sort [symmetric] rev_filter [symmetric])

lemma newest_first_sorted:
  assumes "distinct (map cr_id rows)"
  shows "sorted_wrt (\<lambda>a b. row_key b < row_key a) (newest_first rows)"
proof -
  have "distinct (map row_key rows)"
    using assms by (auto simp: distinct_map inj_on_def row_key_def)
  then have "distinct (map row_key (sort_key row_key rows))"
    by (simp add: distinct_map)
  moreover have "sorted (map row_key (sort_key row_key rows))" by simp
  ultimately have "sorted_wrt (<) (map row_key (sort_key row_key rows))"
    by (simp only: strict_sorted_iff)
  then show ?thesis by (simp add: newest_first_def sorted_wrt_rev sorted_wrt_map)
qed

lemma is_before_key: "is_before (Some (cr_created_at q, cr_id q)) r \<longleftrightarrow> row_key r < row_key q"
  by (auto simp: is_before_def row_key_def)

lemma filter_before_suffix:
  assumes "sorted_wrt (\<lambda>a b. row_key b < row_key a) (xs @ ys)" and "xs \<noteq> []"
  shows "filter (is_before (Some (cr_created_at (last xs), cr_id (last xs)))) (xs @ ys) = ys"
proof -
  have before: "is_before (Some (cr_created_at (last xs), cr_id (last xs))) r \<longleftrightarrow> row_key r < row_key (last xs)" for r
    by (rule is_before_key)
  have "\<not> row_key r < row_key (last xs)" if "r \<in> set xs" for r
  proof -
    obtain p where xs: "xs = p @ [last xs]" using assms(2) by (metis append_butlast_last_id)
    have "r \<in> set p \<Longrightarrow> row_key (last xs) < row_key r"
      using assms(1) by (subst (asm) xs) (auto simp: sorted_wrt_append)
    then show ?thesis using that by (subst (asm) xs) auto
  qed
  moreover have "row_key r < row_key (last xs)" if "r \<in> set ys" for r
    using assms that by (auto simp: sorted_wrt_append)
  ultimately show ?thesis unfolding filter_append before by (simp add: filter_empty_conv filter_True)
qed

lemma page_rows:
  assumes rows: "rows_ok (db_chat db)"
    and rest: "filter (is_before before) (newest_first (db_chat db)) = rest"
    and cursor: "optional_cursor cd cursor = Inr before"
  shows "activity_page cd (Some (pg_queries db)) limit cursor w =
    (Inr \<lparr>pg_items = take limit rest, pg_next_cursor = next_cursor cd (take limit rest) (length rest > limit)\<rparr>,
     w\<lparr>w_ix := Suc (w_ix w)\<rparr>)"
proof -
  have "mapM (\<lambda>r. rbind (ChatActivityRecord (cr_activity r)) (\<lambda>_. Inr r)) (take limit rest) = Inr (map id (take limit rest))"
  proof (rule mapM_cong_Inr)
    fix r assume "r \<in> set (take limit rest)"
    then have "r \<in> set (db_chat db)" using rest by (auto dest: in_set_takeD)
    then show "rbind (ChatActivityRecord (cr_activity r)) (\<lambda>_. Inr r) = Inr (id r)"
      using rows by (simp add: rows_ok_def ChatActivityRecord_def)
  qed
  moreover have "(length (take (limit + 1) rest) > limit) = (length rest > limit)"
    "take limit (take (limit + 1) rest) = take limit rest" by (auto simp: min_def)
  ultimately have "list_chat_activity None limit before db = Inr (take limit rest, length rest > limit)"
    using rest by (simp add: list_chat_activity_def Let_def newest_first_filter)
  then show ?thesis using cursor
    by (simp add: activity_page_def pg_queries_def bind_lift abind_def acatch_def answer_of_def lift_result_def)
qed

text \<open>Following the cursors from a row reads exactly the rows after it.\<close>

lemma follow_from:
  assumes codec: "cursor_texts cd" and rows: "rows_ok (db_chat db)" and limit: "0 < limit"
  shows "newest_first (db_chat db) = seen @ rest \<Longrightarrow> length rest < n
    \<Longrightarrow> optional_cursor cd cursor = Inr before
    \<Longrightarrow> filter (is_before before) (newest_first (db_chat db)) = rest
    \<Longrightarrow> \<exists>w'. follow_pages cd (Some (pg_queries db)) limit n cursor w = (Inr (Some rest), w')"
proof (induction n arbitrary: seen rest cursor before w)
  case (Suc n)
  let ?items = "take limit rest"
  note page = page_rows [OF rows Suc.prems(4,3), of limit]
  show ?case
  proof (cases "length rest > limit")
    case False
    then show ?thesis using page by (simp add: abind_def next_cursor_def)
  next
    case True
    then have ne: "?items \<noteq> []" using limit by auto
    let ?q = "last ?items"
    have q: "?q \<in> set (db_chat db)"
      using last_in_set [OF ne] Suc.prems(4) by (auto dest: in_set_takeD)
    then have ok: "datetime_valid (cr_created_at ?q)" "cr_id ?q < 2 ^ 128" "dt_offset (cr_created_at ?q) \<noteq> None"
      using rows by (simp_all add: rows_ok_def)
    let ?c = "encode_activity_cursor cd (cr_created_at ?q) (cr_id ?q)"
    have nxt: "next_cursor cd ?items (length rest > limit) = Some ?c"
      using True ne by (simp add: next_cursor_def)
    have cur: "optional_cursor cd (Some ?c) = Inr (Some (cr_created_at ?q, cr_id ?q))"
      using cursor_texts.cursor_roundtrip [OF codec ok] by (simp add: optional_cursor_def)
    have split: "newest_first (db_chat db) = (seen @ ?items) @ drop limit rest" using Suc.prems(1) by simp
    have "sorted_wrt (\<lambda>a b. row_key b < row_key a) ((seen @ ?items) @ drop limit rest)"
      using newest_first_sorted rows split unfolding rows_ok_def by metis
    from filter_before_suffix [OF this] ne
    have "filter (is_before (Some (cr_created_at ?q, cr_id ?q))) (newest_first (db_chat db)) = drop limit rest"
      unfolding split by simp
    from Suc.IH [OF split _ cur this] Suc.prems(2) limit True
    obtain w' where "follow_pages cd (Some (pg_queries db)) limit n (Some ?c) (w\<lparr>w_ix := Suc (w_ix w)\<rparr>)
        = (Inr (Some (drop limit rest)), w')" by fastforce
    then show ?thesis using page nxt by (simp add: abind_def)
  qed
qed simp

subsection \<open>Properties\<close>

text \<open>
  Claim C39. An activity cursor is read back exactly: decoding the cursor of a row gives its
  creation time and its id, so a page starts exactly after the row the last one ended with.
\<close>

theorem cursor_is_read_back:
  assumes "cursor_texts cd" and "datetime_valid t" and "u < 2 ^ 128" and "dt_offset t \<noteq> None"
  shows "decode_activity_cursor cd (encode_activity_cursor cd t u) = Inr (t, u)"
  using cursor_texts.cursor_roundtrip assms by blast

text \<open>
  Whatever a client sends as a cursor, decoding gives a value or the one cursor
  error, never another exception.
\<close>

theorem bad_cursors_have_one_error:
  assumes "cursor_texts cd" and "decode_activity_cursor cd s = Inl c"
  shows "c = InvalidActivityCursorErrorC"
  using cursor_texts.decode_errors assms by blast

text \<open>
  Claim C5. Following the cursors terminates and is complete: over an unchanged table, whatever
  the page size, a client reads every activity row exactly once, newest first, in at most one
  page more than there are rows.
\<close>

theorem pagination_terminates_and_is_complete:
  assumes "cursor_texts cd" and "rows_ok (db_chat db)" and "0 < limit"
  shows "\<exists>w'. follow_pages cd (Some (pg_queries db)) limit (Suc (length (db_chat db))) None w
      = (Inr (Some (newest_first (db_chat db))), w')"
proof -
  have "filter (is_before None) (newest_first (db_chat db)) = newest_first (db_chat db)"
    by (simp add: is_before_def)
  then show ?thesis
    using follow_from [OF assms, of "[]" "newest_first (db_chat db)" "Suc (length (db_chat db))" None None w]
    by (simp add: optional_cursor_def)
qed

end
