(* ===== verification/Api_Errors.thy ===== *)
theory Api_Errors
  imports Chat Rate_Limit Activity
begin

section \<open>HTTP responses and the error table\<close>

text \<open>
  The response side of \<^verbatim>\<open>api/app.py\<close> and \<^verbatim>\<open>api/schemas.py\<close>: public result
  models, error bodies, the \<^verbatim>\<open>_ERRORS\<close> table and the handlers. FastAPI is outside the
  sources. What is used of it is documented behaviour: an exception goes to the handler registered
  for its class or for a superclass, and one that only the handler for
  \<^verbatim>\<open>Exception\<close> covers passes through the middleware before it is answered.
\<close>

subsection \<open>Public results\<close>

record inference_result =
  ir_response :: inference_response
  ir_request_id :: string

record public_routing_metadata =
  pr_selected_model_id :: string
  pr_threshold_satisfied :: bool
  pr_fallback_used :: bool
  pr_reason :: routing_decision_reason

record public_execution_metadata =
  pe_attempts :: nat
  pe_escalated :: bool
  pe_validation_outcome :: string
  pe_total_estimated_cost_usd :: "dec option"
  pe_total_latency_ms :: rat

record adaptive_api_result =
  aa_response :: inference_response
  aa_request_id :: string
  aa_routing :: public_routing_metadata
  aa_execution :: "public_execution_metadata option"

record chat_api_result =
  cx_response :: inference_response
  cx_request_id :: string
  cx_execution_mode :: chat_execution_mode
  cx_category :: "routing_category option"
  cx_category_source :: "category_source option"
  cx_routing :: "public_routing_metadata option"
  cx_execution :: "public_execution_metadata option"

record public_model =
  pu_model_id :: string
  pu_provider :: string
  pu_context_window :: int

datatype body =
    InferenceBody inference_result
  | AdaptiveBody adaptive_api_result
  | ChatBody chat_api_result
  | SummaryBody telemetry_summary
  | ActivityBody chat_activity_page
  | ModelsBody "public_model list"
  | HealthBody
  | ReadyBody bool
  | MetricsBody observability
  | TextBody string
  | ErrorBody string string string

record http_response =
  hr_status :: nat
  hr_body :: body
  hr_headers :: "string dict"

definition ok_response :: "body \<Rightarrow> http_response" where
  "ok_response b = \<lparr>hr_status = 200, hr_body = b, hr_headers = []\<rparr>"

definition error_response :: "string \<Rightarrow> nat \<Rightarrow> string \<Rightarrow> string \<Rightarrow> http_response" where
  "error_response request_id status code message =
     \<lparr>hr_status = status, hr_body = ErrorBody code message request_id,
      hr_headers = [(''X-Request-ID'', request_id)]\<rparr>"

definition set_header :: "string \<Rightarrow> string \<Rightarrow> http_response \<Rightarrow> http_response" where
  "set_header name v r = r\<lparr>hr_headers := dict_set (hr_headers r) name v\<rparr>"

subsection \<open>The error table\<close>

definition error_table :: "(exn_class \<times> nat \<times> string \<times> string) list" where
  "error_table =
     [(InferenceDeadlineExceededErrorC, 504, ''inference_deadline_exceeded'', ''The inference deadline was exceeded.''),
      (RateLimitExceededErrorC, 429, ''rate_limit_exceeded'', ''The inference rate limit was exceeded.''),
      (RateLimitUnavailableErrorC, 503, ''rate_limit_unavailable'', ''Inference protection is currently unavailable.''),
      (ResponseValidationErrorC, 502, ''response_validation_failed'', ''No response passed the configured validation checks.''),
      (AdaptiveRoutingUnavailableErrorC, 503, ''adaptive_routing_unavailable'', ''Adaptive inference is not configured.''),
      (PredictorArtifactErrorC, 503, ''adaptive_routing_unavailable'', ''Adaptive inference is unavailable.''),
      (UnsupportedPredictorCandidateErrorC, 503, ''adaptive_routing_unavailable'', ''Adaptive inference is unavailable.''),
      (NoEligibleCandidatesErrorC, 503, ''adaptive_routing_unavailable'', ''Adaptive inference is unavailable.''),
      (InvalidQualityThresholdErrorC, 422, ''invalid_adaptive_request'', ''The adaptive routing request is invalid.''),
      (RequestLimitExceededErrorC, 422, ''invalid_request'', ''The request exceeds the configured production limits.''),
      (InvalidActivityCursorErrorC, 422, ''invalid_activity_cursor'', ''The activity cursor is invalid.''),
      (MissingRoutingCategoryErrorC, 422, ''invalid_adaptive_request'', ''The adaptive routing request is invalid.''),
      (EvaluationNotFoundErrorC, 404, ''evaluation_not_found'', ''The benchmark evaluation was not found.''),
      (EvaluationArtifactErrorC, 422, ''evaluation_artifact_invalid'', ''The benchmark evaluation artifact is invalid.''),
      (TelemetryUnavailableErrorC, 503, ''telemetry_unavailable'', ''Telemetry is currently unavailable.''),
      (ModelNotFoundErrorC, 404, ''model_not_found'', ''The requested model was not found.''),
      (ModelDisabledErrorC, 403, ''model_disabled'', ''The requested model is disabled.''),
      (ContextLimitErrorC, 422, ''context_limit_exceeded'', ''Input plus requested output exceeds the context window.''),
      (ProviderUnavailableErrorC, 503, ''provider_unavailable'', ''No adapter is available for this model.''),
      (ProviderFailureErrorC, 502, ''provider_failure'', ''The provider could not complete inference.'')]"

definition gateway_status :: "gateway_error_category \<Rightarrow> nat" where
  "gateway_status c =
     (case c of
        NOT_CONFIGURED \<Rightarrow> 503 | RATE_LIMIT \<Rightarrow> 429 | TIMEOUT \<Rightarrow> 504
      | CONTEXT_LIMIT \<Rightarrow> 422 | INVALID_REQUEST \<Rightarrow> 422 | _ \<Rightarrow> 502)"

definition show_int :: "int \<Rightarrow> string" where
  "show_int n = (if n < 0 then ''-'' @ show_nat (nat (- n)) else show_nat (nat n))"

definition internal_error :: "string \<Rightarrow> http_response" where
  "internal_error request_id = error_response request_id 500 ''internal_error'' ''An internal error occurred.''"

definition application_error :: "string \<Rightarrow> exn \<Rightarrow> http_response" where
  "application_error request_id e =
     (case exn_category e of
        Some c \<Rightarrow> error_response request_id (gateway_status c) (category_value c)
                    ''The gateway request could not be completed.''
      | None \<Rightarrow>
          case find (\<lambda>(kind, _). isinstance e kind) error_table of
            Some (kind, status, code, message) \<Rightarrow>
              (let response = error_response request_id status code message in
               case e of
                 RateLimitExceeded seconds _ \<Rightarrow> set_header ''Retry-After'' (show_int seconds) response
               | _ \<Rightarrow> response)
          | None \<Rightarrow> internal_error request_id)"

definition invalid_request :: "string \<Rightarrow> http_response" where
  "invalid_request request_id =
     error_response request_id 422 ''invalid_request'' ''Request body does not match the inference schema.''"

text \<open>Whether a handler other than the one for \<^verbatim>\<open>Exception\<close> takes the exception.\<close>

definition registered :: "exn \<Rightarrow> bool" where
  "registered e = list_ex (\<lambda>(kind, _). isinstance e kind) error_table"

definition with_handlers :: "string \<Rightarrow> http_response act \<Rightarrow> http_response act" where
  "with_handlers request_id m =
     acatch m (\<lambda>e. if registered e then areturn (application_error request_id e) else araise e)"

subsection \<open>The correlation middleware\<close>

definition valid_request_id :: "string \<Rightarrow> bool" where
  "valid_request_id s = safe_label ''._-'' 127 s"

definition request_id_of :: "string list \<Rightarrow> string \<Rightarrow> string" where
  "request_id_of supplied fresh =
     (case supplied of [s] \<Rightarrow> if valid_request_id s then s else fresh | _ \<Rightarrow> fresh)"

definition id_refused :: "string list \<Rightarrow> bool" where
  "id_refused supplied = (case supplied of [] \<Rightarrow> False | [s] \<Rightarrow> \<not> valid_request_id s | _ \<Rightarrow> True)"

definition bad_request_id :: "string \<Rightarrow> http_response" where
  "bad_request_id request_id =
     error_response request_id 400 ''invalid_request_id''
       ''X-Request-ID must contain 1-128 ASCII letters, digits, dots, underscores or hyphens, starting with a letter or digit.''"

definition outcome_of_status :: "nat \<Rightarrow> string" where
  "outcome_of_status status =
     (if status < 400 then ''success'' else if status < 500 then ''client_error'' else ''server_error'')"

definition status_class :: "nat \<Rightarrow> string" where
  "status_class status = show_nat (status div 100) @ ''xx''"

definition finish_request ::
  "env \<Rightarrow> string \<Rightarrow> string \<Rightarrow> string \<Rightarrow> rat \<Rightarrow> nat \<Rightarrow> string \<Rightarrow> string \<Rightarrow> bool \<Rightarrow> unit act" where
  "finish_request E path method request_id started status cls outcome cancelled =
     abind (perf_counter E) (\<lambda>t.
     abind (observe_with (http_finished path method cls outcome (t - started))) (\<lambda>_.
     observe_with (emit (if cancelled then ''request_cancelled'' else ''http_request_completed'') LEVEL_INFO
       [(''request_id'', Some (LStr request_id)), (''route'', Some (LStr path)),
        (''method'', Some (LStr method)), (''status_code'', Some (LInt (int status))),
        (''outcome'', Some (LStr outcome)), (''latency_ms'', Some (LNum ((t - started) * 1000)))])))"

definition counted ::
  "env \<Rightarrow> string \<Rightarrow> string \<Rightarrow> string \<Rightarrow> rat \<Rightarrow> http_response act \<Rightarrow> http_response act" where
  "counted E path method request_id started m w =
     (case m w of
        (Inr r, w1) \<Rightarrow>
          (let response = set_header ''X-Request-ID'' request_id r; status = hr_status r in
           abind (finish_request E path method request_id started status (status_class status)
                    (outcome_of_status status) False) (\<lambda>_. areturn response) w1)
      | (Inl e, w1) \<Rightarrow>
          (if isinstance e CancelledErrorC
           then abind (finish_request E path method request_id started 499 ''cancelled'' ''cancelled'' True)
                  (\<lambda>_. araise e) w1
           else abind (finish_request E path method request_id started 500 ''5xx'' ''server_error'' False)
                  (\<lambda>_. araise e) w1))"

definition http_request ::
  "env \<Rightarrow> string \<Rightarrow> string \<Rightarrow> string list \<Rightarrow> (string \<Rightarrow> http_response act) \<Rightarrow> http_response act" where
  "http_request E path method supplied endpoint =
     abind (perf_counter E) (\<lambda>started.
     abind (observe_with (http_started path)) (\<lambda>_.
     abind (uuid4 E) (\<lambda>fresh.
       let request_id = request_id_of supplied fresh in
       acatch
         (counted E path method request_id started
            (if id_refused supplied then areturn (bad_request_id request_id)
             else with_handlers request_id (endpoint request_id)))
         (\<lambda>e. if isinstance e ExceptionC then areturn (internal_error request_id) else araise e))))"

subsection \<open>What the table promises\<close>

text \<open>No class matches two entries, so the order of the table does not matter.\<close>

lemma table_matches: "length (filter (\<lambda>(kind, _). issubclass c kind) error_table) \<le> 1"
  unfolding error_table_def by (cases c) (simp_all add: issubclass_eval)

lemma find_filter: "find P xs = (case filter P xs of [] \<Rightarrow> None | x # _ \<Rightarrow> Some x)"
  by (induction xs) auto

text \<open>
  The error table is unambiguous: an exception of a listed class or of a subclass gets
  the status and code of that one entry, wherever the entry stands in the table; a rejected
  admission also tells the client when to come back.
\<close>

theorem error_table_is_unambiguous:
  assumes "(kind, status, code, message) \<in> set error_table"
    and "isinstance e kind" and "exn_category e = None"
  shows "hr_status (application_error rid e) = status
    \<and> hr_body (application_error rid e) = ErrorBody code message rid
    \<and> map_of (hr_headers (application_error rid e)) ''X-Request-ID'' = Some rid
    \<and> (\<forall>seconds scope. e = RateLimitExceeded seconds scope \<longrightarrow>
         map_of (hr_headers (application_error rid e)) ''Retry-After'' = Some (show_int seconds))"
proof -
  let ?m = "filter (\<lambda>(k, _). isinstance e k) error_table"
  have "(kind, status, code, message) \<in> set ?m" using assms by auto
  moreover have "length ?m \<le> 1" using table_matches unfolding isinstance_def .
  ultimately have "?m = [(kind, status, code, message)]"
    by (cases ?m) auto
  then have "find (\<lambda>(k, _). isinstance e k) error_table = Some (kind, status, code, message)"
    unfolding find_filter by simp
  then show ?thesis using assms(3)
    by (cases e) (simp_all add: application_error_def error_response_def set_header_def)
qed

end
