(* ===== verification/Api.thy ===== *)
theory Api
  imports Api_Errors Portfolio
begin

section \<open>The HTTP endpoints\<close>

text \<open>
  \<^verbatim>\<open>api/routes.py\<close>, \<^verbatim>\<open>api/limits.py\<close>, \<^verbatim>\<open>api/dependencies.py\<close>, the payload
  models of \<^verbatim>\<open>api/schemas.py\<close> and the assembly in \<^verbatim>\<open>api/app.py\<close>. Parsing a body into
  a payload is FastAPI's work: an endpoint gets \<open>None\<close> for a body that does not match its schema,
  which is answered after the dependencies have been resolved.
\<close>

subsection \<open>Request limits\<close>

record request_limits =
  li_max_prompt_characters :: int
  li_max_output_tokens :: int

definition request_limits_valid :: "request_limits \<Rightarrow> bool" where
  "request_limits_valid l \<longleftrightarrow>
     0 < li_max_prompt_characters l \<and> li_max_prompt_characters l \<le> 100000
   \<and> 0 < li_max_output_tokens l \<and> li_max_output_tokens l \<le> 8192"

definition validate_request :: "request_limits \<Rightarrow> inference_request \<Rightarrow> exn_class + unit" where
  "validate_request l request =
     (if int (length (rq_prompt request) + length (system_text request)) > li_max_prompt_characters l
      then Inl RequestLimitExceededErrorC
      else if rq_max_output_tokens request > li_max_output_tokens l then Inl RequestLimitExceededErrorC
      else Inr ())"

subsection \<open>Payloads\<close>

record inference_payload =
  ip_request :: inference_request
  ip_model_id :: string

definition InferencePayload :: "inference_request \<Rightarrow> string \<Rightarrow> exn_class + inference_payload" where
  "InferencePayload request model_id =
     (if \<not> inference_request_valid request then Inl ValidationErrorC
      else rbind (Identifier model_id) (\<lambda>i. Inr \<lparr>ip_request = request, ip_model_id = i\<rparr>))"

record adaptive_payload =
  ap_request :: inference_request
  ap_validation :: "validation_contract option"
  ap_category :: routing_category
  ap_quality_threshold :: "rat option"

text \<open>A \<^verbatim>\<open>ValueError\<close> of a field validator becomes a validation error; others pass.\<close>

definition AdaptiveInferencePayload ::
  "inference_request \<Rightarrow> validation_contract option \<Rightarrow> routing_category \<Rightarrow> py_value option \<Rightarrow>
   exn_class + adaptive_payload" where
  "AdaptiveInferencePayload request validation category quality_threshold =
     (if \<not> inference_request_valid request then Inl ValidationErrorC
      else case quality_threshold of
        None \<Rightarrow> Inr \<lparr>ap_request = request, ap_validation = validation, ap_category = category,
                  ap_quality_threshold = None\<rparr>
      | Some v \<Rightarrow>
          (case validate_quality_threshold v of
             Inl c \<Rightarrow> Inl (if issubclass c ValueErrorC then ValidationErrorC else c)
           | Inr x \<Rightarrow> Inr \<lparr>ap_request = request, ap_validation = validation, ap_category = category,
                        ap_quality_threshold = Some x\<rparr>))"

record chat_payload =
  hp_request :: inference_request
  hp_routing_mode :: chat_routing_mode
  hp_category :: "routing_category option"
  hp_validation :: "validation_contract option"

definition ChatPayload ::
  "inference_request \<Rightarrow> chat_routing_mode \<Rightarrow> routing_category option \<Rightarrow> validation_contract option \<Rightarrow>
   exn_class + chat_payload" where
  "ChatPayload request mode category validation =
     (if \<not> inference_request_valid request then Inl ValidationErrorC
      else if (case mode of
          CRM_AUTO \<Rightarrow> category \<noteq> None \<or> validation \<noteq> None
        | CRM_MANUAL \<Rightarrow> category = None) then Inl ValidationErrorC
      else Inr \<lparr>hp_request = request, hp_routing_mode = mode, hp_category = category, hp_validation = validation\<rparr>)"

subsection \<open>Application state and dependencies\<close>

datatype limiter = DisabledLimiter | RedisLimiter redis_limiter

definition limiter_admit ::
  "env \<Rightarrow> limiter \<Rightarrow> string \<Rightarrow> inference_kind \<Rightarrow> request_deadline \<Rightarrow> unit act" where
  "limiter_admit E l identity kind deadline =
     (case l of
        DisabledLimiter \<Rightarrow> disabled_admit E deadline
      | RedisLimiter lm \<Rightarrow> redis_admit E lm identity kind deadline)"

definition limiter_ready :: "limiter \<Rightarrow> bool act" where
  "limiter_ready l = (case l of DisabledLimiter \<Rightarrow> areturn True | RedisLimiter lm \<Rightarrow> redis_ready lm)"

text \<open>\<^verbatim>\<open>st_queries\<close> is the reading side of the service's telemetry repository.\<close>

record app_state =
  st_service :: inference_service
  st_queries :: "query_repository option"
  st_adaptive_runtime :: "adaptive_runtime option"
  st_adaptive_required :: bool
  st_chat_service :: "chat_service option"
  st_rate_limiter :: limiter
  st_request_limits :: request_limits
  st_settings :: observability_settings
  st_initialized :: bool

definition get_adaptive_runtime :: "app_state \<Rightarrow> exn_class + adaptive_runtime" where
  "get_adaptive_runtime app =
     (case st_adaptive_runtime app of None \<Rightarrow> Inl AdaptiveRoutingUnavailableErrorC | Some r \<Rightarrow> Inr r)"

definition get_chat_service :: "app_state \<Rightarrow> exn_class + chat_service" where
  "get_chat_service app =
     (case st_chat_service app of None \<Rightarrow> Inl AdaptiveRoutingUnavailableErrorC | Some s \<Rightarrow> Inr s)"

definition effective_client :: "string option \<Rightarrow> string" where
  "effective_client host = (case host of None \<Rightarrow> ''unknown'' | Some h \<Rightarrow> h)"

text \<open>A body that did not parse is answered with 422.\<close>

definition with_body :: "string \<Rightarrow> 'p option \<Rightarrow> ('p \<Rightarrow> http_response act) \<Rightarrow> http_response act" where
  "with_body request_id payload f =
     (case payload of None \<Rightarrow> areturn (invalid_request request_id) | Some p \<Rightarrow> f p)"

subsection \<open>Inference endpoints\<close>

text \<open>The common beginning: limits, a fresh deadline, admission.\<close>

definition admitted ::
  "env \<Rightarrow> app_state \<Rightarrow> string option \<Rightarrow> inference_kind \<Rightarrow> request_deadline act" where
  "admitted E app host kind =
     abind (service_new_deadline E (st_service app)) (\<lambda>deadline.
     abind (limiter_admit E (st_rate_limiter app) (effective_client host) kind deadline) (\<lambda>_.
     areturn deadline))"

definition inference_endpoint ::
  "env \<Rightarrow> app_state \<Rightarrow> string option \<Rightarrow> inference_payload option \<Rightarrow> string \<Rightarrow> http_response act" where
  "inference_endpoint E app host payload request_id =
     with_body request_id payload (\<lambda>p.
     abind (lift_result (validate_request (st_request_limits app) (ip_request p))) (\<lambda>_.
     abind (admitted E app host IK_EXPLICIT) (\<lambda>deadline.
     abind (service_generate E (st_service app) (ip_model_id p) (ip_request p) (Some request_id)
              (Some deadline) ''explicit'') (\<lambda>r.
     if inference_response_valid r
     then areturn (ok_response (InferenceBody \<lparr>ir_response = r, ir_request_id = request_id\<rparr>))
     else araise (Exn ValidationErrorC)))))"

definition public_routing :: "routing_decision \<Rightarrow> public_routing_metadata" where
  "public_routing d =
     \<lparr>pr_selected_model_id = dc_selected_model_id d, pr_threshold_satisfied = dc_threshold_satisfied d,
      pr_fallback_used = dc_fallback_used d, pr_reason = dc_reason d\<rparr>"

definition public_execution :: "adaptive_execution option \<Rightarrow> exn_class + public_execution_metadata option" where
  "public_execution execution =
     (case execution of
        None \<Rightarrow> Inr None
      | Some x \<Rightarrow>
          (if 0 < length (ax_attempts x) \<and> length (ax_attempts x) \<le> 3 \<and> 0 \<le> ax_total_latency_ms x
           then Inr (Some \<lparr>pe_attempts = length (ax_attempts x), pe_escalated = ax_escalated x,
                  pe_validation_outcome = ''passed'',
                  pe_total_estimated_cost_usd = ax_total_estimated_cost_usd x,
                  pe_total_latency_ms = ax_total_latency_ms x\<rparr>)
           else Inl ValidationErrorC))"

definition adaptive_endpoint ::
  "env \<Rightarrow> app_state \<Rightarrow> string option \<Rightarrow> adaptive_payload option \<Rightarrow> string \<Rightarrow> http_response act" where
  "adaptive_endpoint E app host payload request_id =
     abind (lift_result (get_adaptive_runtime app)) (\<lambda>runtime.
     with_body request_id payload (\<lambda>p.
     abind (lift_result (validate_request (st_request_limits app) (ap_request p))) (\<lambda>_.
     let approved = ru_approved_quality_threshold runtime in
     if ap_quality_threshold p \<noteq> None \<and> ap_quality_threshold p \<noteq> Some approved
     then araise (Exn InvalidQualityThresholdErrorC)
     else
       abind (admitted E app host IK_ADAPTIVE) (\<lambda>deadline.
       abind (adaptive_generate E (ru_service runtime) (ap_request p)
                (Some (routing_category_value (ap_category p))) (PyFloat approved)
                (ru_candidate_model_ids runtime) (ap_validation p) False (Some request_id) (Some deadline))
         (\<lambda>result.
       abind (lift_result (public_execution (ar_execution result))) (\<lambda>execution.
       if inference_response_valid (ar_response result)
       then areturn (ok_response (AdaptiveBody \<lparr>aa_response = ar_response result, aa_request_id = request_id,
              aa_routing = public_routing (ar_routing_decision result), aa_execution = execution\<rparr>))
       else araise (Exn ValidationErrorC)))))))"

definition kind_of_mode :: "chat_routing_mode \<Rightarrow> inference_kind" where
  "kind_of_mode mode = (case mode of CRM_AUTO \<Rightarrow> IK_EXPLICIT | CRM_MANUAL \<Rightarrow> IK_ADAPTIVE)"

definition chat_endpoint ::
  "env \<Rightarrow> app_state \<Rightarrow> string option \<Rightarrow> chat_payload option \<Rightarrow> string \<Rightarrow> http_response act" where
  "chat_endpoint E app host payload request_id =
     abind (lift_result (get_chat_service app)) (\<lambda>chat.
     with_body request_id payload (\<lambda>p.
     abind (lift_result (validate_request (st_request_limits app) (hp_request p))) (\<lambda>_.
     abind (admitted E app host (kind_of_mode (hp_routing_mode p))) (\<lambda>deadline.
     abind (chat_generate E chat (hp_request p) (hp_routing_mode p) (hp_category p) (hp_validation p)
              request_id deadline) (\<lambda>result.
     abind (lift_result (public_execution (ch_execution result))) (\<lambda>execution.
     if inference_response_valid (ch_response result)
     then areturn (ok_response (ChatBody \<lparr>cx_response = ch_response result, cx_request_id = request_id,
            cx_execution_mode = ch_execution_mode result, cx_category = ch_category result,
            cx_category_source = ch_category_source result,
            cx_routing = map_option public_routing (ch_routing_decision result), cx_execution = execution\<rparr>))
     else araise (Exn ValidationErrorC)))))))"

subsection \<open>Reading endpoints\<close>

definition health_endpoint :: "string \<Rightarrow> http_response act" where
  "health_endpoint request_id = areturn (ok_response HealthBody)"

definition public_model_of :: "model_config \<Rightarrow> public_model" where
  "public_model_of m = \<lparr>pu_model_id = mc_model_id m, pu_provider = mc_provider m, pu_context_window = mc_context_window m\<rparr>"

definition list_models_endpoint :: "app_state \<Rightarrow> string \<Rightarrow> http_response act" where
  "list_models_endpoint app request_id =
     areturn (ok_response (ModelsBody (map public_model_of (service_list_models (st_service app)))))"

definition missing_dependency :: "app_state \<Rightarrow> bool \<Rightarrow> bool \<Rightarrow> string option" where
  "missing_dependency app adaptive_available redis_available =
     (if \<not> st_initialized app then Some ''initialization''
      else if service_list_models (st_service app) = [] then Some ''provider_registry''
      else if \<not> adaptive_available then Some ''adaptive_routing''
      else if \<not> redis_available then Some ''redis'' else None)"

definition ready_endpoint :: "app_state \<Rightarrow> string \<Rightarrow> http_response act" where
  "ready_endpoint app request_id =
     (let adaptive_available = (\<not> st_adaptive_required app \<or> st_adaptive_runtime app \<noteq> None) in
      abind (acatch (limiter_ready (st_rate_limiter app))
               (\<lambda>e. if isinstance e ExceptionC then areturn False else araise e)) (\<lambda>redis_available.
      case missing_dependency app adaptive_available redis_available of
        None \<Rightarrow> areturn (ok_response (ReadyBody True))
      | Some dependency \<Rightarrow>
          abind (observe_with (emit ''dependency_degraded'' LEVEL_WARNING
             [(''dependency'', Some (LStr dependency)), (''outcome'', Some (LStr ''not_ready''))])) (\<lambda>_.
          areturn \<lparr>hr_status = 503, hr_body = ReadyBody False, hr_headers = []\<rparr>)))"

text \<open>\<^verbatim>\<open>hmac.compare_digest\<close> on texts raises \<^verbatim>\<open>TypeError\<close> unless both are ASCII.\<close>

definition compare_digest :: "string \<Rightarrow> string \<Rightarrow> exn_class + bool" where
  "compare_digest a b = (if is_ascii a \<and> is_ascii b then Inr (a = b) else Inl TypeErrorC)"

definition bearer_candidate :: "string option \<Rightarrow> string" where
  "bearer_candidate authorization =
     (let a = (case authorization of None \<Rightarrow> '''' | Some s \<Rightarrow> s) in
      if startswith a ''Bearer '' then drop 7 a else '''')"

definition metrics_endpoint :: "app_state \<Rightarrow> string option \<Rightarrow> string \<Rightarrow> http_response act" where
  "metrics_endpoint app authorization request_id =
     (if \<not> metrics_enabled (st_settings app) then areturn \<lparr>hr_status = 404, hr_body = TextBody '''', hr_headers = []\<rparr>
      else case metrics_bearer_token (st_settings app) of
        None \<Rightarrow> areturn \<lparr>hr_status = 404, hr_body = TextBody '''', hr_headers = []\<rparr>
      | Some expected \<Rightarrow>
          abind (lift_result (compare_digest (bearer_candidate authorization) expected)) (\<lambda>same.
          if \<not> same
          then areturn \<lparr>hr_status = 401, hr_body = TextBody ''Unauthorized'',
                 hr_headers = [(''WWW-Authenticate'', ''Bearer'')]\<rparr>
          else (\<lambda>w. (Inr (ok_response (MetricsBody (w_obs w))), w))))"

definition summary_endpoint :: "app_state \<Rightarrow> string \<Rightarrow> http_response act" where
  "summary_endpoint app request_id =
     abind (telemetry_summary_query (st_queries app)) (\<lambda>s. areturn (ok_response (SummaryBody s)))"

text \<open>The query parameters are checked by FastAPI before the endpoint runs.\<close>

definition activity_query_ok :: "int \<Rightarrow> string option \<Rightarrow> bool" where
  "activity_query_ok limit cursor \<longleftrightarrow> 1 \<le> limit \<and> limit \<le> 100
     \<and> opt_all (\<lambda>c. 1 \<le> length c \<and> length c \<le> 256) cursor"

definition activity_endpoint ::
  "cursor_codec \<Rightarrow> app_state \<Rightarrow> int \<Rightarrow> string option \<Rightarrow> string \<Rightarrow> http_response act" where
  "activity_endpoint cd app limit cursor request_id =
     (if \<not> activity_query_ok limit cursor then areturn (invalid_request request_id)
      else abind (activity_page cd (st_queries app) (nat limit) cursor) (\<lambda>p.
        areturn (ok_response (ActivityBody p))))"

subsection \<open>One request\<close>

datatype api_call =
    Health | Ready | Metrics "string option" | ListModels
  | Inference "string option" "inference_payload option"
  | AdaptiveInference "string option" "adaptive_payload option"
  | ChatInference "string option" "chat_payload option"
  | MetricsSummary | ActivityQuery int "string option"

definition call_endpoint :: "env \<Rightarrow> cursor_codec \<Rightarrow> app_state \<Rightarrow> api_call \<Rightarrow> string \<Rightarrow> http_response act" where
  "call_endpoint E cd app c =
     (case c of
        Health \<Rightarrow> health_endpoint
      | Ready \<Rightarrow> ready_endpoint app
      | Metrics authorization \<Rightarrow> metrics_endpoint app authorization
      | ListModels \<Rightarrow> list_models_endpoint app
      | Inference host p \<Rightarrow> inference_endpoint E app host p
      | AdaptiveInference host p \<Rightarrow> adaptive_endpoint E app host p
      | ChatInference host p \<Rightarrow> chat_endpoint E app host p
      | MetricsSummary \<Rightarrow> summary_endpoint app
      | ActivityQuery n cursor \<Rightarrow> activity_endpoint cd app n cursor)"

definition route_of :: "api_call \<Rightarrow> string" where
  "route_of c =
     (case c of
        Health \<Rightarrow> ''/health'' | Ready \<Rightarrow> ''/ready'' | Metrics _ \<Rightarrow> ''/metrics'' | ListModels \<Rightarrow> ''/v1/models''
      | Inference _ _ \<Rightarrow> ''/v1/inference'' | AdaptiveInference _ _ \<Rightarrow> ''/v1/inference/adaptive''
      | ChatInference _ _ \<Rightarrow> ''/v1/chat'' | MetricsSummary \<Rightarrow> ''/v1/metrics/summary''
      | ActivityQuery _ _ \<Rightarrow> ''/v1/activity'')"

definition method_of :: "api_call \<Rightarrow> string" where
  "method_of c =
     (case c of Inference _ _ \<Rightarrow> ''POST'' | AdaptiveInference _ _ \<Rightarrow> ''POST'' | ChatInference _ _ \<Rightarrow> ''POST''
      | _ \<Rightarrow> ''GET'')"

definition serve ::
  "env \<Rightarrow> cursor_codec \<Rightarrow> app_state \<Rightarrow> string list \<Rightarrow> api_call \<Rightarrow> http_response act" where
  "serve E cd app supplied_ids c =
     http_request E (route_of c) (method_of c) supplied_ids (call_endpoint E cd app c)"

subsection \<open>Assembly\<close>

text \<open>
  \<^verbatim>\<open>create_app\<close> with its injected parts, and the start-up of the configured
  application from the values of its environment variables.
\<close>

definition create_app ::
  "inference_service \<Rightarrow> query_repository option \<Rightarrow> adaptive_runtime option \<Rightarrow> limiter option \<Rightarrow>
   observability_settings \<Rightarrow> request_limits \<Rightarrow> string option \<Rightarrow> exn_class + app_state" where
  "create_app service queries runtime limiter settings limits default_model_id =
     rbind (case default_model_id of
              None \<Rightarrow> Inr None
            | Some mid \<Rightarrow> rbind (ChatConfiguration mid) (\<lambda>config.
                rbind (build_chat_service service config runtime) (\<lambda>s. Inr (Some s)))) (\<lambda>chat.
     Inr \<lparr>st_service = service, st_queries = queries, st_adaptive_runtime = runtime,
       st_adaptive_required = (runtime \<noteq> None), st_chat_service = chat,
       st_rate_limiter = (case limiter of None \<Rightarrow> DisabledLimiter | Some l \<Rightarrow> l),
       st_request_limits = limits, st_settings = settings, st_initialized = False\<rparr>)"

definition rate_limiter_service ::
  "rate_limit_settings \<Rightarrow> (string \<Rightarrow> string option) \<Rightarrow> (string \<Rightarrow> string \<Rightarrow> string) \<Rightarrow>
   (nat \<Rightarrow> rat \<Rightarrow> string \<Rightarrow> string \<Rightarrow> window_limits \<Rightarrow> exn + redis_reply) \<Rightarrow> (nat \<Rightarrow> exn + bool) \<Rightarrow>
   exn_class + limiter" where
  "rate_limiter_service s compressed hmac evaluate ping =
     (if \<not> rl_required s then Inr DisabledLimiter
      else if rl_redis_url s = None then Inl ValueErrorC
      else rbind (new_redis_limiter s compressed hmac evaluate ping) (\<lambda>lm. Inr (RedisLimiter lm)))"

definition start_application ::
  "env \<Rightarrow> runtime_versions \<Rightarrow> artifact_tools \<Rightarrow> (string \<Rightarrow> artifact_directory) \<Rightarrow> inference_service \<Rightarrow>
   query_repository option \<Rightarrow> limiter \<Rightarrow> string option \<Rightarrow> string option \<Rightarrow> string option \<Rightarrow>
   app_state \<Rightarrow> exn_class + app_state" where
  "start_application E rv tools file_system service queries limiter artifact_variable candidates_variable
       default_model_variable app =
     rbind (config_from_environment artifact_variable candidates_variable) (\<lambda>config.
     rbind (build_adaptive_runtime E rv tools file_system service config) (\<lambda>runtime.
     rbind (chat_config_from_environment default_model_variable) (\<lambda>chat_config.
     rbind (build_chat_service service chat_config runtime) (\<lambda>chat.
     Inr (app\<lparr>st_service := service, st_queries := queries, st_rate_limiter := limiter,
            st_adaptive_required := adaptive_enabled config, st_adaptive_runtime := runtime,
            st_chat_service := Some chat, st_initialized := True\<rparr>)))))"

end
