(* ===== verification/Api_Frames.thy ===== *)
theory Api_Frames
  imports Api
begin

section \<open>What an endpoint leaves alone\<close>

text \<open>
  The frames of the services carried to the endpoints. A \<open>gateway_frame\<close> also ignores the
  activity rows, the rejections of the limiter and the degradation events; its view is then kept
  by every endpoint. The HTTP series of the metrics are such a view: only the middleware
  changes them.
\<close>

locale gateway_frame = adaptive_frame +
  assumes view_chat_row: "view (add_chat_row r w) = view w"
    and ok_rejection: "ok (rate_limit_rejection s p)"
begin

lemma keeps_chat_row [keeping]: "keeps (hand_over add_chat_row f r)"
  by (rule keepsI) (auto simp: hand_over_def view_ix view_chat_row)

lemma keeps_answer [keeping]: "keeps (answer_of f)"
  by (rule keepsI) (auto simp: answer_of_def view_ix)

lemma keeps_external [keeping]: "keeps (\<lambda>w. (f (w_ix w), w\<lparr>w_ix := Suc (w_ix w)\<rparr>))"
  by (rule keepsI) (auto simp: view_ix)

lemma keeps_log_activity [keeping]: "keeps (log_activity E sv ev d)"
  unfolding log_activity_def record_activity_def perf_clock_def
  by (auto intro!: keeping split: option.split)

lemma keeps_chat_generate [keeping]: "keeps (chat_generate E ch rq mode cat v rid d)"
  unfolding chat_generate_def chat_direct_def chat_adaptive_def
  by (auto intro!: keeping split: chat_routing_mode.split option.split)

lemma keeps_redis_admit [keeping]: "keeps (redis_admit E lm host kind d)"
  unfolding redis_admit_def call_redis_def
  by (auto intro!: keeping ok_rejection split: option.split sum.split prod.split)

lemma keeps_limiter_admit [keeping]: "keeps (limiter_admit E l host kind d)"
  unfolding limiter_admit_def disabled_admit_def by (auto intro!: keeping split: limiter.split)

lemma keeps_limiter_ready [keeping]: "keeps (limiter_ready l)"
  unfolding limiter_ready_def redis_ready_def by (auto intro!: keeping split: limiter.split)

lemma keeps_admitted [keeping]: "keeps (admitted E app host kind)"
  unfolding admitted_def by (auto intro!: keeping)

lemma keeps_with_body [keeping]: "(\<And>p. keeps (f p)) \<Longrightarrow> keeps (with_body rid payload f)"
  unfolding with_body_def by (auto intro!: keeping split: option.split)

lemma keeps_inference_endpoint [keeping]: "keeps (inference_endpoint E app host p rid)"
  unfolding inference_endpoint_def by (auto intro!: keeping)

lemma keeps_adaptive_endpoint [keeping]: "keeps (adaptive_endpoint E app host p rid)"
  unfolding adaptive_endpoint_def by (auto intro!: keeping simp: Let_def)

lemma keeps_chat_endpoint [keeping]: "keeps (chat_endpoint E app host p rid)"
  unfolding chat_endpoint_def by (auto intro!: keeping)

lemma keeps_activity_page [keeping]: "keeps (activity_page cd repo n cursor)"
  unfolding activity_page_def degraded_def
  by (auto intro!: keeping ok_emit split: option.split prod.split)

lemma keeps_summary_query [keeping]: "keeps (telemetry_summary_query repo)"
  unfolding telemetry_summary_query_def degraded_def by (auto intro!: keeping ok_emit split: option.split)

lemma keeps_metrics: "keeps (\<lambda>w. (Inr (f w), w))"
  by (rule keepsI) auto

lemma keeps_call_endpoint: "keeps (call_endpoint E cd app c rid)"
proof (cases c)
  case Ready
  show ?thesis unfolding Ready call_endpoint_def ready_endpoint_def
    by (auto intro!: keeping ok_emit simp: Let_def split: option.split)
next
  case (Metrics a)
  show ?thesis unfolding Metrics call_endpoint_def metrics_endpoint_def
    by (auto intro!: keeping keeps_metrics split: option.split)
qed (auto intro!: keeping simp: call_endpoint_def health_endpoint_def list_models_endpoint_def
    summary_endpoint_def activity_endpoint_def)

end

text \<open>The two HTTP series: the requests served and those in progress.\<close>

definition http_series :: "observability \<Rightarrow> (string list \<Rightarrow> rat) \<times> (string list \<Rightarrow> rat)" where
  "http_series ob = (series ob HTTP_REQUESTS, series ob HTTP_IN_PROGRESS)"

definition keeps_http :: "(observability \<Rightarrow> observability) \<Rightarrow> bool" where
  "keeps_http g \<longleftrightarrow> (\<forall>ob. http_series (g ob) = http_series ob)"

lemma keeps_http_inc: "m \<noteq> HTTP_REQUESTS \<Longrightarrow> m \<noteq> HTTP_IN_PROGRESS \<Longrightarrow> http_series (inc m l a ob) = http_series ob"
  by (auto simp: http_series_def inc_def)

lemma keeps_http_observe: "http_series (observe m l x ob) = http_series ob"
  and keeps_http_emit: "http_series (emit e lv fs ob) = http_series ob"
  by (simp_all add: http_series_def)

lemmas http_kept = keeps_http_inc keeps_http_observe keeps_http_emit

lemma count_failures_http: "http_series (count_failures m n res ob) = http_series ob"
proof -
  have "http_series (fold (\<lambda>f. obs_validation_failure m (failure_code_value (vf_code f)) n) fs ob) = http_series ob"
    for fs ob
    by (induction fs arbitrary: ob) (simp_all add: obs_validation_failure_def http_kept)
  then show ?thesis by (simp add: count_failures_def)
qed

interpretation http: gateway_frame "\<lambda>w. http_series (w_obs w)" keeps_http
  by unfold_locales
    (auto simp: keeps_http_def http_kept count_failures_http record_method_defs add_inference_row_def
      add_adaptive_row_def add_chat_row_def Let_def split: option.split)

end
