(* ===== verification/Api_Properties.thy ===== *)
theory Api_Properties
  imports Api_Frames
begin

section \<open>What the HTTP interface promises\<close>

text \<open>
  The middleware counts every request once and answers every ordinary exception; an answer has
  one of the documented statuses and never the text of an exception; no provider is called for a
  request that was not admitted; the metrics are only for the holder of the token.
\<close>

subsection \<open>The middleware\<close>

lemma show_nat_5: "status_class 500 = ''5xx''"
  unfolding status_class_def by (subst show_nat.simps) code_simp

lemma finish_request_apply:
  "finish_request E p m rid started status cls outcome cancelled w =
     (Inr (), w\<lparr>w_ix := Suc (w_ix w),
        w_obs := emit (if cancelled then ''request_cancelled'' else ''http_request_completed'') LEVEL_INFO
          [(''request_id'', Some (LStr rid)), (''route'', Some (LStr p)), (''method'', Some (LStr m)),
           (''status_code'', Some (LInt (int status))), (''outcome'', Some (LStr outcome)),
           (''latency_ms'', Some (LNum ((env_perf E (w_ix w) - started) * 1000)))]
          (http_finished p m cls outcome (env_perf E (w_ix w) - started) (w_obs w))\<rparr>)"
  by (simp add: finish_request_def)

definition served_once :: "string \<Rightarrow> string \<Rightarrow> string \<Rightarrow> string \<Rightarrow> observability \<Rightarrow> observability \<Rightarrow> bool" where
  "served_once p m cls outcome ob ob' \<longleftrightarrow>
     series ob' HTTP_REQUESTS = (series ob HTTP_REQUESTS)
       ([p, m, cls, outcome] := series ob HTTP_REQUESTS [p, m, cls, outcome] + 1)
   \<and> series ob' HTTP_IN_PROGRESS = series ob HTTP_IN_PROGRESS"

lemma served_once_finish:
  assumes "http_series ob1 = http_series (http_started p ob)"
  shows "served_once p m cls outcome ob (emit ev lv fs (http_finished p m cls outcome t ob1))"
  using assms by (auto simp: served_once_def http_series_def http_started_def http_finished_def inc_def)

text \<open>The answer of the guarded endpoint, before the middleware looks at it.\<close>

definition guarded_endpoint ::
  "env \<Rightarrow> cursor_codec \<Rightarrow> app_state \<Rightarrow> string list \<Rightarrow> api_call \<Rightarrow> string \<Rightarrow> http_response act" where
  "guarded_endpoint E cd app ids c rid =
     (if id_refused ids then areturn (bad_request_id rid)
      else with_handlers rid (call_endpoint E cd app c rid))"

lemma guarded_http: "http.keeps (guarded_endpoint E cd app ids c rid)"
  unfolding guarded_endpoint_def with_handlers_def
  by (auto intro!: keeping http.keeps_call_endpoint)

lemma serve_guarded:
  "serve E cd app ids c =
     abind (perf_counter E) (\<lambda>started.
     abind (observe_with (http_started (route_of c))) (\<lambda>_.
     abind (uuid4 E) (\<lambda>fresh.
       let rid = request_id_of ids fresh in
       acatch (counted E (route_of c) (method_of c) rid started (guarded_endpoint E cd app ids c rid))
         (\<lambda>e. if isinstance e ExceptionC then areturn (internal_error rid) else araise e))))"
  by (simp only: serve_def http_request_def guarded_endpoint_def)

lemma serve_run:
  fixes E :: env and ids :: "string list" and w :: world
  defines "rid \<equiv> request_id_of ids (env_uuid E (Suc (w_ix w)))"
  assumes run: "serve E cd app ids c w = (x, w')"
  obtains y w1 cls outcome where
    "guarded_endpoint E cd app ids c rid
       (w\<lparr>w_obs := http_started (route_of c) (w_obs w), w_ix := Suc (Suc (w_ix w))\<rparr>) = (y, w1)"
    "served_once (route_of c) (method_of c) cls outcome (w_obs w) (w_obs w')"
    "w_calls w' = w_calls w1"
    "case y of
       Inr r \<Rightarrow> x = Inr (set_header ''X-Request-ID'' rid r) \<and> cls = status_class (hr_status r)
         \<and> outcome = outcome_of_status (hr_status r)
     | Inl e \<Rightarrow> if isinstance e ExceptionC
         then x = Inr (internal_error rid) \<and> cls = ''5xx'' \<and> outcome = ''server_error'' else x = Inl e"
proof -
  let ?w = "w\<lparr>w_obs := http_started (route_of c) (w_obs w), w_ix := Suc (Suc (w_ix w))\<rparr>"
  obtain y w1 where y: "guarded_endpoint E cd app ids c rid ?w = (y, w1)" by fastforce
  have kept: "http_series (w_obs w1) = http_series (http_started (route_of c) (w_obs w))"
    using http.keepsD [OF guarded_http y] by simp
  have run1: "acatch (counted E (route_of c) (method_of c) rid (env_perf E (w_ix w)) (guarded_endpoint E cd app ids c rid))
      (\<lambda>e. if isinstance e ExceptionC then areturn (internal_error rid) else araise e) ?w = (x, w')"
    using run unfolding serve_guarded rid_def by (simp add: perf_counter_def uuid4_def Let_def cong: if_cong)
  have cancelled: "isinstance e CancelledErrorC \<Longrightarrow> \<not> isinstance e ExceptionC" for e
    unfolding isinstance_def by (cases "class_of e") (simp_all add: issubclass_eval)
  show thesis
  proof (cases y)
    case (Inr r)
    let ?s = "hr_status r"
    have "w_obs w' = emit ''http_request_completed'' LEVEL_INFO
          [(''request_id'', Some (LStr rid)), (''route'', Some (LStr (route_of c))), (''method'', Some (LStr (method_of c))),
           (''status_code'', Some (LInt (int ?s))), (''outcome'', Some (LStr (outcome_of_status ?s))),
           (''latency_ms'', Some (LNum ((env_perf E (w_ix w1) - env_perf E (w_ix w)) * 1000)))]
          (http_finished (route_of c) (method_of c) (status_class ?s) (outcome_of_status ?s)
             (env_perf E (w_ix w1) - env_perf E (w_ix w)) (w_obs w1))
      \<and> x = Inr (set_header ''X-Request-ID'' rid r) \<and> w_calls w' = w_calls w1"
      using run1 y Inr by (auto simp: acatch_def counted_def Let_def abind_def finish_request_apply)
    then show thesis
      using that [OF y, of "status_class ?s" "outcome_of_status ?s"] served_once_finish [OF kept] Inr by simp
  next
    case (Inl e)
    let ?cls = "if isinstance e CancelledErrorC then ''cancelled'' else ''5xx''"
    let ?out = "if isinstance e CancelledErrorC then ''cancelled'' else ''server_error''"
    have "served_once (route_of c) (method_of c) ?cls ?out (w_obs w) (w_obs w') \<and> w_calls w' = w_calls w1
      \<and> (if isinstance e ExceptionC then x = Inr (internal_error rid) else x = Inl e)"
      using run1 y Inl served_once_finish [OF kept]
      by (auto simp: acatch_def counted_def abind_def finish_request_apply split: if_splits)
    then show thesis
      using that [OF y, of ?cls ?out] Inl cancelled [of e] by (auto split: if_splits)
  qed
qed

text \<open>
  Claim C10. Every HTTP request is counted exactly once and leaves the in-progress gauge where it
  was, whatever the endpoint and its services do. The labels are those of the answer that the
  client gets, which carries the request id; only an exception that is no
  \<^verbatim>\<open>Exception\<close> (a cancellation) leaves the application unanswered.
\<close>

theorem every_request_is_counted_once:
  "case serve E cd app ids c w of (x, w') \<Rightarrow>
     (\<exists>cls outcome. served_once (route_of c) (method_of c) cls outcome (w_obs w) (w_obs w')
      \<and> (case x of
           Inr r \<Rightarrow> cls = status_class (hr_status r) \<and> outcome = outcome_of_status (hr_status r)
             \<and> map_of (hr_headers r) ''X-Request-ID'' = Some (request_id_of ids (env_uuid E (Suc (w_ix w))))
         | Inl e \<Rightarrow> \<not> isinstance e ExceptionC))"
proof (cases "serve E cd app ids c w")
  case (Pair x w')
  from Pair show ?thesis
  proof (rule serve_run)
    fix y w1 cls outcome
    assume s: "served_once (route_of c) (method_of c) cls outcome (w_obs w) (w_obs w')"
      and y: "case y of
       Inr r \<Rightarrow> x = Inr (set_header ''X-Request-ID'' (request_id_of ids (env_uuid E (Suc (w_ix w)))) r)
         \<and> cls = status_class (hr_status r) \<and> outcome = outcome_of_status (hr_status r)
     | Inl e \<Rightarrow> if isinstance e ExceptionC
         then x = Inr (internal_error (request_id_of ids (env_uuid E (Suc (w_ix w))))) \<and> cls = ''5xx'' \<and> outcome = ''server_error''
         else x = Inl e"
    have "status_class 500 = ''5xx''" "outcome_of_status 500 = ''server_error''"
      by (simp_all add: show_nat_5 outcome_of_status_def)
    then show ?thesis using Pair s y
      by (cases y) (auto simp: set_header_def internal_error_def error_response_def split: if_splits)
  qed
qed

subsection \<open>Statuses and texts\<close>

text \<open>The texts an error body can hold: fixed sentences, whatever the exception carried.\<close>

definition public_messages :: "string list" where
  "public_messages =
     map (\<lambda>(_, _, _, message). message) error_table
     @ [''The gateway request could not be completed.'', ''An internal error occurred.'',
        ''Request body does not match the inference schema.'',
        ''X-Request-ID must contain 1-128 ASCII letters, digits, dots, underscores or hyphens, starting with a letter or digit.'']"

definition documented_statuses :: "nat list" where
  "documented_statuses = [200, 400, 401, 403, 404, 422, 429, 500, 502, 503, 504]"

definition documented :: "http_response \<Rightarrow> bool" where
  "documented r \<longleftrightarrow> hr_status r \<in> set documented_statuses
     \<and> (case hr_body r of ErrorBody code message rid \<Rightarrow> message \<in> set public_messages | _ \<Rightarrow> hr_status r \<noteq> 500)"

lemma documented_error:
  "status \<in> set documented_statuses \<Longrightarrow> message \<in> set public_messages \<Longrightarrow>
     documented (error_response rid status code message)"
  by (simp add: documented_def error_response_def)

lemma documented_header [simp]: "documented (set_header k v r) = documented r"
  by (cases "hr_body r") (simp_all add: documented_def set_header_def)

lemma table_statuses: "(kind, status, code, message) \<in> set error_table \<Longrightarrow> status \<in> set documented_statuses"
  by (auto simp: error_table_def documented_statuses_def)

lemma documented_application_error: "documented (application_error rid e)"
proof (cases "exn_category e")
  case (Some c)
  have "gateway_status c \<in> set documented_statuses"
    by (cases c) (simp_all add: gateway_status_def documented_statuses_def)
  then show ?thesis using Some
    by (simp add: application_error_def documented_error public_messages_def)
next
  case None
  show ?thesis
  proof (cases "find (\<lambda>(kind, _). isinstance e kind) error_table")
    case None
    then show ?thesis using \<open>exn_category e = None\<close>
      by (simp add: application_error_def internal_error_def documented_error public_messages_def documented_statuses_def)
  next
    case (Some row)
    obtain kind status code message where row: "row = (kind, status, code, message)" by (cases row)
    then have mem: "(kind, status, code, message) \<in> set error_table"
      using Some by (metis find_Some_iff nth_mem)
    then have "documented (error_response rid status code message)"
      by (intro documented_error table_statuses) (force simp: public_messages_def)+
    then show ?thesis using None Some row
      by (cases e) (simp_all add: application_error_def Let_def)
  qed
qed

definition answers_documented :: "http_response act \<Rightarrow> bool" where
  "answers_documented m \<longleftrightarrow> (\<forall>w r w'. m w = (Inr r, w') \<longrightarrow> documented r)"

named_theorems answers

lemma answers_bind [answers]: "(\<And>a. answers_documented (f a)) \<Longrightarrow> answers_documented (abind m f)"
  unfolding answers_documented_def abind_eq_Inr by blast

lemma answers_raise [answers]: "answers_documented (araise e)"
  by (simp add: answers_documented_def)

lemma answers_return [answers]: "documented r \<Longrightarrow> answers_documented (areturn r)"
  by (simp add: answers_documented_def)

lemma answers_ok [answers]: "(\<And>c m i. b \<noteq> ErrorBody c m i) \<Longrightarrow> documented (ok_response b)"
  by (cases b) (auto simp: documented_def ok_response_def documented_statuses_def)

lemma answers_invalid [answers]: "documented (invalid_request rid)"
  by (simp add: invalid_request_def documented_error public_messages_def documented_statuses_def)

lemma answers_body [answers]: "(\<And>p. answers_documented (f p)) \<Longrightarrow> answers_documented (with_body rid payload f)"
  by (cases payload) (auto simp: with_body_def intro!: answers)

lemma answers_endpoint: "answers_documented (call_endpoint E cd app c rid)"
proof (cases c)
  case Ready
  have "documented \<lparr>hr_status = 503, hr_body = ReadyBody False, hr_headers = []\<rparr>"
    by (simp add: documented_def documented_statuses_def)
  then show ?thesis unfolding Ready call_endpoint_def ready_endpoint_def
    by (auto intro!: answers simp: Let_def split: option.split)
next
  case (Metrics a)
  have "answers_documented (\<lambda>w. (Inr (ok_response (MetricsBody (w_obs w))), w))"
    by (auto simp: answers_documented_def intro!: answers)
  then show ?thesis unfolding Metrics call_endpoint_def metrics_endpoint_def
    by (auto intro!: answers simp: documented_def documented_statuses_def split: option.split)
qed (auto intro!: answers simp: call_endpoint_def health_endpoint_def list_models_endpoint_def
    summary_endpoint_def activity_endpoint_def inference_endpoint_def adaptive_endpoint_def
    chat_endpoint_def Let_def)

lemma guarded_documented:
  assumes "guarded_endpoint E cd app ids c rid w = (Inr r, w')"
  shows "documented r"
proof (cases "id_refused ids")
  case True
  then show ?thesis using assms
    by (auto simp: guarded_endpoint_def bad_request_id_def intro!: documented_error)
      (simp_all add: documented_statuses_def public_messages_def)
next
  case False
  then have "with_handlers rid (call_endpoint E cd app c rid) w = (Inr r, w')"
    using assms by (simp add: guarded_endpoint_def)
  then show ?thesis using answers_endpoint [of E cd app c rid] documented_application_error
    by (auto simp: with_handlers_def acatch_def answers_documented_def split: prod.splits sum.splits if_splits)
qed


subsection \<open>Admission comes first\<close>

text \<open>What a call asks the limiter for: the peer, the request and the weight class.\<close>

definition admission_asked :: "api_call \<Rightarrow> (string option \<times> inference_request \<times> inference_kind) option" where
  "admission_asked c =
     (case c of
        Inference host (Some p) \<Rightarrow> Some (host, ip_request p, IK_EXPLICIT)
      | AdaptiveInference host (Some p) \<Rightarrow> Some (host, ap_request p, IK_ADAPTIVE)
      | ChatInference host (Some p) \<Rightarrow> Some (host, hp_request p, kind_of_mode (hp_routing_mode p))
      | _ \<Rightarrow> None)"

definition granted :: "env \<Rightarrow> app_state \<Rightarrow> api_call \<Rightarrow> world \<Rightarrow> bool" where
  "granted E app c w \<longleftrightarrow>
     (\<exists>host rq kind d w1 w2. admission_asked c = Some (host, rq, kind)
        \<and> validate_request (st_request_limits app) rq = Inr ()
        \<and> limiter_admit E (st_rate_limiter app) (effective_client host) kind d w1 = (Inr (), w2)
        \<and> w_calls w1 = w_calls w)"

lemma calls_quiet: "calls_within [] m \<Longrightarrow> m w = (x, w') \<Longrightarrow> w_calls w' = w_calls w"
  by (erule calls_withinE, assumption) (auto dest: list_emb_length)

lemma calls_limiter [calls]: "calls_within ms (limiter_admit E l host kind d)"
proof (rule calls_more, cases l)
  case DisabledLimiter
  then show "calls_within [] (limiter_admit E l host kind d)"
    unfolding limiter_admit_def disabled_admit_def by (auto intro!: calls)
next
  case (RedisLimiter lm)
  have "calls_within [] (\<lambda>w. (f (w_ix w), w\<lparr>w_ix := Suc (w_ix w)\<rparr>))" for f :: "nat \<Rightarrow> exn + redis_reply"
    by (rule calls_none) auto
  then show "calls_within [] (limiter_admit E l host kind d)"
    unfolding RedisLimiter limiter_admit_def redis_admit_def call_redis_def
    by (auto intro!: calls calls_catch split: option.split sum.split prod.split)
qed

lemma admitted_first:
  assumes run: "abind (lift_result (validate_request (st_request_limits app) rq))
      (\<lambda>_. abind (admitted E app host kind) k) w = (x, w')"
    and asked: "admission_asked c = Some (host, rq, kind)" and paid: "w_calls w' \<noteq> w_calls w"
  shows "granted E app c w"
proof -
  have ok: "validate_request (st_request_limits app) rq = Inr ()"
    using run paid by (cases "validate_request (st_request_limits app) rq") (auto simp: bind_lift)
  have run1: "abind (admitted E app host kind) k w = (x, w')" using run ok by (simp add: bind_lift)
  obtain y w1 where y: "service_new_deadline E (st_service app) w = (y, w1)" by fastforce
  have c1: "w_calls w1 = w_calls w" using calls_quiet [OF calls_clock(7) y] .
  show ?thesis
  proof (cases y)
    case (Inl e)
    then have "w' = w1" using run1 y by (simp add: admitted_def abind_def)
    then show ?thesis using paid c1 by simp
  next
    case (Inr d)
    obtain z w2 where z: "limiter_admit E (st_rate_limiter app) (effective_client host) kind d w1 = (z, w2)" by fastforce
    have c2: "w_calls w2 = w_calls w1" using calls_quiet [OF calls_limiter z] .
    show ?thesis
    proof (cases z)
      case (Inl e)
      then have "w' = w2" using run1 y Inr z by (simp add: admitted_def abind_def)
      then show ?thesis using paid c1 c2 by simp
    next
      case (Inr u)
      then show ?thesis using z c1 ok asked unfolding granted_def by auto
    qed
  qed
qed

lemma calls_answer [calls]: "calls_within ms (answer_of f)"
  by (rule calls_none) (auto simp: answer_of_def)

lemma calls_reading:
  assumes "admission_asked c = None"
  shows "calls_within [] (call_endpoint E cd app c rid)"
proof -
  have m: "calls_within [] (\<lambda>w. (Inr (f w), w))" for f :: "world \<Rightarrow> http_response"
    by (rule calls_none) auto
  have p: "calls_within [] (\<lambda>w. (f (w_ix w), w\<lparr>w_ix := Suc (w_ix w)\<rparr>))" for f :: "nat \<Rightarrow> exn + bool"
    by (rule calls_none) auto
  have ready: "calls_within [] (limiter_ready l)" for l
    unfolding limiter_ready_def redis_ready_def by (auto intro!: calls calls_catch p split: limiter.split)
  show ?thesis
  proof (cases c)
    case (Inference host q)
    then show ?thesis using assms by (cases q)
      (auto simp: call_endpoint_def inference_endpoint_def with_body_def admission_asked_def intro!: calls)
  next
    case (AdaptiveInference host q)
    then show ?thesis using assms by (cases q)
      (auto simp: call_endpoint_def adaptive_endpoint_def with_body_def admission_asked_def intro!: calls)
  next
    case (ChatInference host q)
    then show ?thesis using assms by (cases q)
      (auto simp: call_endpoint_def chat_endpoint_def with_body_def admission_asked_def intro!: calls)
  next
    case Ready
    then show ?thesis by (auto simp: call_endpoint_def ready_endpoint_def Let_def
          intro!: calls calls_catch ready split: option.split)
  next
    case (Metrics a)
    then show ?thesis by (auto simp: call_endpoint_def metrics_endpoint_def intro!: calls m split: option.split)
  next
    case MetricsSummary
    then show ?thesis by (auto simp: call_endpoint_def summary_endpoint_def telemetry_summary_query_def
          intro!: calls calls_catch split: option.split)
  next
    case (ActivityQuery n s)
    then show ?thesis by (auto simp: call_endpoint_def activity_endpoint_def activity_page_def
          intro!: calls calls_catch split: option.split prod.split)
  qed (auto simp: call_endpoint_def health_endpoint_def list_models_endpoint_def intro!: calls)
qed

lemma endpoint_admitted:
  assumes run: "call_endpoint E cd app c rid w = (x, w')" and paid: "w_calls w' \<noteq> w_calls w"
  shows "granted E app c w"
proof (cases "admission_asked c")
  case None
  then show ?thesis using calls_quiet [OF calls_reading [OF None] run] paid by simp
next
  case (Some a)
  show ?thesis
  proof (cases c)
    case (Inference host q)
    then obtain p where p: "q = Some p" using Some by (cases q) (auto simp: admission_asked_def)
    show ?thesis using run paid unfolding Inference p
      by (intro admitted_first [OF _ _ paid]) (auto simp: call_endpoint_def inference_endpoint_def with_body_def admission_asked_def)
  next
    case (AdaptiveInference host q)
    then obtain p where p: "q = Some p" using Some by (cases q) (auto simp: admission_asked_def)
    obtain rt where rt: "get_adaptive_runtime app = Inr rt"
      using run paid unfolding AdaptiveInference
      by (cases "get_adaptive_runtime app") (auto simp: call_endpoint_def adaptive_endpoint_def bind_lift)
    let ?approved = "ru_approved_quality_threshold rt"
    let ?k = "\<lambda>deadline.
       abind (adaptive_generate E (ru_service rt) (ap_request p)
                (Some (routing_category_value (ap_category p))) (PyFloat ?approved)
                (ru_candidate_model_ids rt) (ap_validation p) False (Some rid) (Some deadline)) (\<lambda>result.
       abind (lift_result (public_execution (ar_execution result))) (\<lambda>execution.
       if inference_response_valid (ar_response result)
       then areturn (ok_response (AdaptiveBody \<lparr>aa_response = ar_response result, aa_request_id = rid,
              aa_routing = public_routing (ar_routing_decision result), aa_execution = execution\<rparr>))
       else araise (Exn ValidationErrorC)))"
    let ?unapproved = "ap_quality_threshold p \<noteq> None \<and> ap_quality_threshold p \<noteq> Some ?approved"
    have run1: "abind (lift_result (validate_request (st_request_limits app) (ap_request p)))
        (\<lambda>_. if ?unapproved then araise (Exn InvalidQualityThresholdErrorC)
              else abind (admitted E app host IK_ADAPTIVE) ?k) w = (x, w')"
      using run rt unfolding AdaptiveInference p
      by (simp only: call_endpoint_def adaptive_endpoint_def api_call.case with_body_def option.case bind_lift
          sum.case Let_def)
    have "\<not> ?unapproved"
    proof
      assume u: ?unapproved
      show False using run1 paid unfolding if_P [OF u]
        by (cases "validate_request (st_request_limits app) (ap_request p)") (auto simp: bind_lift)
    qed
    from run1 [unfolded if_not_P [OF this]] show ?thesis
      by (rule admitted_first [OF _ _ paid]) (simp add: admission_asked_def AdaptiveInference p)
  next
    case (ChatInference host q)
    then obtain p where p: "q = Some p" using Some by (cases q) (auto simp: admission_asked_def)
    obtain chat where chat: "get_chat_service app = Inr chat"
      using run paid unfolding ChatInference
      by (cases "get_chat_service app") (auto simp: call_endpoint_def chat_endpoint_def bind_lift)
    show ?thesis using run paid chat unfolding ChatInference p
      by (intro admitted_first [OF _ _ paid])
        (auto simp: call_endpoint_def chat_endpoint_def with_body_def admission_asked_def bind_lift)
  qed (use Some in \<open>auto simp: admission_asked_def\<close>)
qed

text \<open>
  Claim C8. No provider is called for a request that was not admitted: when a request makes a
  paid call, it is one of the three inference calls, its request was within the configured
  limits, and the limiter had granted the weight of its kind before the first call.
\<close>

theorem paid_calls_are_admitted:
  assumes run: "serve E cd app ids c w = (x, w')" and paid: "w_calls w' \<noteq> w_calls w"
  shows "granted E app c w"
  using run
proof (rule serve_run)
  fix y w1 cls outcome
  let ?w = "w\<lparr>w_obs := http_started (route_of c) (w_obs w), w_ix := Suc (Suc (w_ix w))\<rparr>"
  let ?rid = "request_id_of ids (env_uuid E (Suc (w_ix w)))"
  assume g: "guarded_endpoint E cd app ids c ?rid ?w = (y, w1)" and calls: "w_calls w' = w_calls w1"
  have accepted: "\<not> id_refused ids" using g calls paid by (auto simp: guarded_endpoint_def)
  obtain z w2 where z: "call_endpoint E cd app c ?rid ?w = (z, w2)" by fastforce
  have "w_calls w1 = w_calls w2" using g z accepted
    by (cases z) (auto simp: guarded_endpoint_def with_handlers_def acatch_def split: if_splits)
  then have "granted E app c ?w" using endpoint_admitted [OF z] paid calls by simp
  then show ?thesis by (simp add: granted_def)
qed

subsection \<open>The metrics endpoint\<close>

lemma startswith_drop: "startswith s p \<longleftrightarrow> (\<exists>r. s = p @ r)"
  by (auto simp: startswith_def) (metis append_take_drop_id)

text \<open>
  Claim C9. The metrics are served exactly to the holder of the token: with valid settings, the
  endpoint answers with the metrics if and only if they are enabled and the request carries the
  configured bearer token.
\<close>

theorem metrics_need_the_token:
  assumes "require_token_when_enabled (st_settings app) = Inr (st_settings app)"
  shows "(\<exists>ob. fst (metrics_endpoint app authorization rid w) = Inr (ok_response (MetricsBody ob)))
    \<longleftrightarrow> metrics_enabled (st_settings app)
      \<and> (\<exists>t. metrics_bearer_token (st_settings app) = Some t \<and> is_ascii t
           \<and> authorization = Some (''Bearer '' @ t))"
proof (cases "metrics_bearer_token (st_settings app)")
  case None
  then show ?thesis by (simp add: metrics_endpoint_def ok_response_def)
next
  case (Some t)
  then have long: "t \<noteq> []"
    using assms by (auto simp: require_token_when_enabled_def split: if_splits)
  have same: "bearer_candidate authorization = t \<longleftrightarrow> authorization = Some (''Bearer '' @ t)"
    using long by (auto simp: bearer_candidate_def startswith_drop split: option.split)
  show ?thesis
  proof (cases "is_ascii (bearer_candidate authorization) \<and> is_ascii t")
    case True
    then show ?thesis using Some same
      by (auto simp: metrics_endpoint_def compare_digest_def bind_lift ok_response_def)
  next
    case False
    then have "compare_digest (bearer_candidate authorization) t = Inl TypeErrorC" by (simp add: compare_digest_def)
    then have "fst (metrics_endpoint app authorization rid w) \<noteq> Inr (ok_response (MetricsBody ob))" for ob
      using Some by (simp add: metrics_endpoint_def bind_lift ok_response_def)
    moreover have "\<not> (is_ascii t \<and> authorization = Some (''Bearer '' @ t))" using False same by auto
    ultimately show ?thesis using Some by auto
  qed
qed

text \<open>
  A credential with a byte outside ASCII is not refused with 401: the comparison raises, no
  handler of the table takes the exception, and the client gets an internal error.
\<close>

theorem non_ascii_credentials_are_internal_errors:
  assumes "metrics_enabled (st_settings app)" and "metrics_bearer_token (st_settings app) = Some t"
    and "\<not> is_ascii (bearer_candidate authorization)"
  shows "fst (serve E cd app [] (Metrics authorization) w) = Inr (internal_error (env_uuid E (Suc (w_ix w))))"
proof (cases "serve E cd app [] (Metrics authorization) w")
  case (Pair x w')
  have un: "\<not> registered (Exn TypeErrorC)"
    by (simp add: registered_def error_table_def isinstance_def issubclass_eval)
  from Pair show ?thesis
  proof (rule serve_run)
    fix y w1 cls outcome
    assume g: "guarded_endpoint E cd app [] (Metrics authorization) (request_id_of [] (env_uuid E (Suc (w_ix w))))
       (w\<lparr>w_obs := http_started (route_of (Metrics authorization)) (w_obs w), w_ix := Suc (Suc (w_ix w))\<rparr>) = (y, w1)"
      and y: "case y of
       Inr r \<Rightarrow> x = Inr (set_header ''X-Request-ID'' (request_id_of [] (env_uuid E (Suc (w_ix w)))) r)
         \<and> cls = status_class (hr_status r) \<and> outcome = outcome_of_status (hr_status r)
     | Inl e \<Rightarrow> if isinstance e ExceptionC
         then x = Inr (internal_error (request_id_of [] (env_uuid E (Suc (w_ix w))))) \<and> cls = ''5xx'' \<and> outcome = ''server_error''
         else x = Inl e"
    have "y = Inl (Exn TypeErrorC)" using g assms un
      by (auto simp: guarded_endpoint_def id_refused_def with_handlers_def acatch_def call_endpoint_def
          metrics_endpoint_def compare_digest_def bind_lift)
    then show ?thesis using y Pair by (simp add: isinstance_def issubclass_eval request_id_of_def)
  qed
qed

text \<open>
  An integer threshold that no double can hold is not refused as an invalid request either: the
  validator of the payload raises \<^verbatim>\<open>OverflowError\<close>.
\<close>

lemma huge_threshold_escapes_the_payload:
  assumes "inference_request_valid rq"
  shows "AdaptiveInferencePayload rq validation cat (Some (PyInt (2 ^ 1024))) = Inl OverflowErrorC
    \<and> \<not> registered (Exn OverflowErrorC)"
  using assms float_of_limit
  by (simp add: AdaptiveInferencePayload_def validate_quality_threshold_def validated_probability_def py_float_def
      registered_def error_table_def isinstance_def issubclass_eval)

end
