(* ===== verification/Governance.thy ===== *)
theory Governance
  imports Quality_Features
begin

section \<open>The governance tables of the routing features\<close>

text \<open>
  The tables of \<^verbatim>\<open>routing/features.py\<close>: which feature comes from where, which names
  may never be a feature, and how each training feature compares with production. The lemmas
  compare the tables with the record the extractor builds and with the canonical features.
\<close>

datatype feature_source =
  FS_REQUEST_CONTENT | FS_REQUEST_CONFIGURATION | FS_CLIENT_HINT | FS_DERIVED_METADATA

datatype leakage_status = LS_PRE_GENERATION_ALLOWED | LS_POST_GENERATION_FORBIDDEN

datatype feature_compatibility_status =
  FC_EXACT_MATCH | FC_COMPATIBLE_WITH_DOCUMENTED_DIFFERENCE | FC_NOT_AVAILABLE_IN_PRODUCTION
| FC_EXPERIMENT_ONLY

record feature_governance_entry =
  fg_name :: string
  fg_value_type :: string
  fg_source :: feature_source
  fg_extraction_semantics :: string
  fg_required :: bool
  fg_client_controlled :: bool
  fg_directly_derived :: bool
  fg_leakage_status :: leakage_status

record training_serving_audit_entry =
  ta_feature_name :: string
  ta_status :: feature_compatibility_status
  ta_production_semantics :: string
  ta_difference :: "string option"

definition PRODUCTION_FEATURE_GOVERNANCE :: "feature_governance_entry list" where
  "PRODUCTION_FEATURE_GOVERNANCE =
     [
      \<lparr>fg_name = ''category'', fg_value_type = ''RoutingCategory | None'', fg_source = FS_CLIENT_HINT,
       fg_extraction_semantics = ''Validated advisory hint; None is explicit absence.'',
       fg_required = False, fg_client_controlled = True, fg_directly_derived = False,
       fg_leakage_status = LS_PRE_GENERATION_ALLOWED\<rparr>,
      \<lparr>fg_name = ''category_provenance'', fg_value_type = ''CategoryProvenance'', fg_source = FS_DERIVED_METADATA,
       fg_extraction_semantics = ''CLIENT_HINT when supplied; otherwise ABSENT.'',
       fg_required = True, fg_client_controlled = False, fg_directly_derived = True,
       fg_leakage_status = LS_PRE_GENERATION_ALLOWED\<rparr>,
      \<lparr>fg_name = ''prompt_characters'', fg_value_type = ''int'', fg_source = FS_REQUEST_CONTENT,
       fg_extraction_semantics = ''Python character length of the user prompt.'',
       fg_required = True, fg_client_controlled = True, fg_directly_derived = True,
       fg_leakage_status = LS_PRE_GENERATION_ALLOWED\<rparr>,
      \<lparr>fg_name = ''system_prompt_characters'', fg_value_type = ''int'', fg_source = FS_REQUEST_CONTENT,
       fg_extraction_semantics = ''Character length of system prompt, or zero.'',
       fg_required = True, fg_client_controlled = True, fg_directly_derived = True,
       fg_leakage_status = LS_PRE_GENERATION_ALLOWED\<rparr>,
      \<lparr>fg_name = ''message_count'', fg_value_type = ''int'', fg_source = FS_REQUEST_CONTENT,
       fg_extraction_semantics = ''One user message plus one when a system prompt exists.'',
       fg_required = True, fg_client_controlled = True, fg_directly_derived = True,
       fg_leakage_status = LS_PRE_GENERATION_ALLOWED\<rparr>,
      \<lparr>fg_name = ''system_prompt_present'', fg_value_type = ''bool'', fg_source = FS_REQUEST_CONTENT,
       fg_extraction_semantics = ''True exactly when a system prompt exists.'',
       fg_required = True, fg_client_controlled = True, fg_directly_derived = True,
       fg_leakage_status = LS_PRE_GENERATION_ALLOWED\<rparr>,
      \<lparr>fg_name = ''approximate_input_tokens'', fg_value_type = ''int'', fg_source = FS_REQUEST_CONTENT,
       fg_extraction_semantics = ''Whitespace-token count over system and user text.'',
       fg_required = True, fg_client_controlled = True, fg_directly_derived = True,
       fg_leakage_status = LS_PRE_GENERATION_ALLOWED\<rparr>,
      \<lparr>fg_name = ''contains_code'', fg_value_type = ''bool'', fg_source = FS_REQUEST_CONTENT,
       fg_extraction_semantics = ''Frozen Phase 7 regular-expression indicator.'',
       fg_required = True, fg_client_controlled = True, fg_directly_derived = True,
       fg_leakage_status = LS_PRE_GENERATION_ALLOWED\<rparr>,
      \<lparr>fg_name = ''requests_structured_output'', fg_value_type = ''bool'', fg_source = FS_REQUEST_CONFIGURATION,
       fg_extraction_semantics = ''Explicit internal structured-output requirement only.'',
       fg_required = True, fg_client_controlled = True, fg_directly_derived = True,
       fg_leakage_status = LS_PRE_GENERATION_ALLOWED\<rparr>,
      \<lparr>fg_name = ''max_output_tokens'', fg_value_type = ''int'', fg_source = FS_REQUEST_CONFIGURATION,
       fg_extraction_semantics = ''Requested base output-token allowance.'',
       fg_required = True, fg_client_controlled = True, fg_directly_derived = False,
       fg_leakage_status = LS_PRE_GENERATION_ALLOWED\<rparr>,
      \<lparr>fg_name = ''constraint_indicator_count'', fg_value_type = ''int'', fg_source = FS_REQUEST_CONTENT,
       fg_extraction_semantics = ''Count from the frozen Phase 7 constraint vocabulary.'',
       fg_required = True, fg_client_controlled = True, fg_directly_derived = True,
       fg_leakage_status = LS_PRE_GENERATION_ALLOWED\<rparr>,
      \<lparr>fg_name = ''reasoning_indicator_count'', fg_value_type = ''int'', fg_source = FS_REQUEST_CONTENT,
       fg_extraction_semantics = ''Count from the frozen Phase 7 reasoning vocabulary.'',
       fg_required = True, fg_client_controlled = True, fg_directly_derived = True,
       fg_leakage_status = LS_PRE_GENERATION_ALLOWED\<rparr>]"

definition FORBIDDEN_ROUTING_FEATURES :: "string list" where
  "FORBIDDEN_ROUTING_FEATURES =
     [''acceptable'', ''analysis_difficulty'', ''benchmark_label'', ''candidate_cost_usd'',
      ''error_category'', ''estimated_cost_usd'', ''evaluation_call_made'',
      ''evaluation_cost_usd'', ''evaluation_input_tokens'', ''evaluation_latency_ms'',
      ''evaluation_output_tokens'', ''evaluation_status'', ''evaluator_name'',
      ''evaluator_version'', ''generated_at'', ''ground_truth'', ''input_tokens'',
      ''label_status'', ''latency_ms'', ''missing_label_reason'', ''output_tokens'',
      ''provider_error_category'', ''provider_outcome'', ''quality_score'',
      ''realized_cost_usd'', ''reasoning_tokens'', ''response_text'', ''success'']"

definition ACCEPTED_INTERACTION_FEATURES :: "string list" where
  "ACCEPTED_INTERACTION_FEATURES =
     [''category'', ''candidate_id'', ''upstream_provider_pin'', ''reasoning_effort'',
      ''prompt_characters'', ''approximate_input_tokens'', ''requested_max_output_tokens'',
      ''constraint_indicator_count'', ''reasoning_indicator_count'',
      ''configured_input_cost_per_1m_tokens'', ''configured_output_cost_per_1m_tokens'',
      ''context_window'', ''effective_max_output_tokens'', ''contains_code'',
      ''requests_structured_output'', ''supports_temperature'', ''category_candidate'']"

definition TRAINING_SERVING_SKEW_AUDIT :: "training_serving_audit_entry list" where
  "TRAINING_SERVING_SKEW_AUDIT =
     [
      \<lparr>ta_feature_name = ''category'', ta_status = FC_COMPATIBLE_WITH_DOCUMENTED_DIFFERENCE,
       ta_production_semantics = ''Optional controlled enum with explicit absence and provenance.'',
       ta_difference = Some ''Phase 7 always had a category and used json; production uses structured_json. Phase 8C must map or retrain.''\<rparr>,
      \<lparr>ta_feature_name = ''candidate_id'', ta_status = FC_EXACT_MATCH,
       ta_production_semantics = ''ModelConfig.model_id.'',
       ta_difference = None\<rparr>,
      \<lparr>ta_feature_name = ''upstream_provider_pin'', ta_status = FC_EXPERIMENT_ONLY,
       ta_production_semantics = ''No generic registry field exists.'',
       ta_difference = Some ''Frozen benchmark protocol recorded an upstream pin behind the gateway.''\<rparr>,
      \<lparr>ta_feature_name = ''reasoning_effort'', ta_status = FC_COMPATIBLE_WITH_DOCUMENTED_DIFFERENCE,
       ta_production_semantics = ''ModelConfig.reasoning_effort enum or None.'',
       ta_difference = Some ''Phase 7 normalized None to the string none.''\<rparr>,
      \<lparr>ta_feature_name = ''prompt_characters'', ta_status = FC_EXACT_MATCH,
       ta_production_semantics = ''Length of the user prompt.'',
       ta_difference = None\<rparr>,
      \<lparr>ta_feature_name = ''approximate_input_tokens'', ta_status = FC_EXACT_MATCH,
       ta_production_semantics = ''Whitespace count over optional system plus user text.'',
       ta_difference = None\<rparr>,
      \<lparr>ta_feature_name = ''requested_max_output_tokens'', ta_status = FC_EXACT_MATCH,
       ta_production_semantics = ''RoutingRequestFeatures.max_output_tokens.'',
       ta_difference = None\<rparr>,
      \<lparr>ta_feature_name = ''constraint_indicator_count'', ta_status = FC_EXACT_MATCH,
       ta_production_semantics = ''Shared frozen Phase 7 regular expression.'',
       ta_difference = None\<rparr>,
      \<lparr>ta_feature_name = ''reasoning_indicator_count'', ta_status = FC_EXACT_MATCH,
       ta_production_semantics = ''Shared frozen Phase 7 regular expression.'',
       ta_difference = None\<rparr>,
      \<lparr>ta_feature_name = ''configured_input_cost_per_1m_tokens'', ta_status = FC_EXACT_MATCH,
       ta_production_semantics = ''ModelConfig input Decimal price.'',
       ta_difference = None\<rparr>,
      \<lparr>ta_feature_name = ''configured_output_cost_per_1m_tokens'', ta_status = FC_EXACT_MATCH,
       ta_production_semantics = ''ModelConfig output Decimal price.'',
       ta_difference = None\<rparr>,
      \<lparr>ta_feature_name = ''context_window'', ta_status = FC_EXACT_MATCH,
       ta_production_semantics = ''ModelConfig context window.'',
       ta_difference = None\<rparr>,
      \<lparr>ta_feature_name = ''effective_max_output_tokens'', ta_status = FC_NOT_AVAILABLE_IN_PRODUCTION,
       ta_production_semantics = ''No production candidate-budget resolver exists yet.'',
       ta_difference = Some ''Phase 7 used task-candidate protocol overrides.''\<rparr>,
      \<lparr>ta_feature_name = ''contains_code'', ta_status = FC_EXACT_MATCH,
       ta_production_semantics = ''Shared frozen Phase 7 regular expression.'',
       ta_difference = None\<rparr>,
      \<lparr>ta_feature_name = ''requests_structured_output'', ta_status = FC_COMPATIBLE_WITH_DOCUMENTED_DIFFERENCE,
       ta_production_semantics = ''Explicit internal extractor configuration.'',
       ta_difference = Some ''Phase 7 read explicit BenchmarkTask expected_output_type.''\<rparr>,
      \<lparr>ta_feature_name = ''supports_temperature'', ta_status = FC_EXACT_MATCH,
       ta_production_semantics = ''ModelConfig capability flag.'',
       ta_difference = None\<rparr>,
      \<lparr>ta_feature_name = ''category_candidate'', ta_status = FC_COMPATIBLE_WITH_DOCUMENTED_DIFFERENCE,
       ta_production_semantics = ''Future derived interaction of controlled category and model ID.'',
       ta_difference = Some ''Inherits category absence and structured_json mapping requirements.''\<rparr>]"

text \<open>The names of the fields of the extracted record, in the order the class declares them.\<close>

definition routing_feature_names :: "string list" where
  "routing_feature_names =
     [''category'', ''category_provenance'', ''prompt_characters'', ''system_prompt_characters'',
      ''message_count'', ''system_prompt_present'', ''approximate_input_tokens'', ''contains_code'',
      ''requests_structured_output'', ''max_output_tokens'', ''constraint_indicator_count'',
      ''reasoning_indicator_count'']"

text \<open>
  The governance table is complete and leak-free: it governs every field of the
  extracted record exactly once, every entry is allowed before generation, no governed name is
  forbidden, and the skew audit covers every accepted interaction feature exactly once.
\<close>

theorem governance_is_complete:
  "(\<forall>n. count_list (map fg_name PRODUCTION_FEATURE_GOVERNANCE) n = count_list routing_feature_names n)
   \<and> list_all (\<lambda>e. fg_leakage_status e = LS_PRE_GENERATION_ALLOWED) PRODUCTION_FEATURE_GOVERNANCE
   \<and> list_all (\<lambda>n. n \<notin> set FORBIDDEN_ROUTING_FEATURES)
       (map fg_name PRODUCTION_FEATURE_GOVERNANCE @ ACCEPTED_INTERACTION_FEATURES)
   \<and> map ta_feature_name TRAINING_SERVING_SKEW_AUDIT = ACCEPTED_INTERACTION_FEATURES
   \<and> distinct ACCEPTED_INTERACTION_FEATURES"
proof -
  have "map fg_name PRODUCTION_FEATURE_GOVERNANCE = routing_feature_names"
    by (simp add: PRODUCTION_FEATURE_GOVERNANCE_def routing_feature_names_def)
  moreover have "list_all (\<lambda>e. fg_leakage_status e = LS_PRE_GENERATION_ALLOWED) PRODUCTION_FEATURE_GOVERNANCE"
    by (simp add: PRODUCTION_FEATURE_GOVERNANCE_def)
  moreover have "map ta_feature_name TRAINING_SERVING_SKEW_AUDIT = ACCEPTED_INTERACTION_FEATURES"
    by (simp add: TRAINING_SERVING_SKEW_AUDIT_def ACCEPTED_INTERACTION_FEATURES_def)
  moreover have "list_all (\<lambda>n. n \<notin> set FORBIDDEN_ROUTING_FEATURES) (routing_feature_names @ ACCEPTED_INTERACTION_FEATURES)"
    by (simp add: routing_feature_names_def ACCEPTED_INTERACTION_FEATURES_def FORBIDDEN_ROUTING_FEATURES_def)
  moreover have "distinct ACCEPTED_INTERACTION_FEATURES"
    by (simp add: ACCEPTED_INTERACTION_FEATURES_def)
  ultimately show ?thesis by simp
qed

text \<open>
  The two audits disagree: the older one still lists the effective output allowance
  as unavailable in production, the canonical one as matched.
\<close>

theorem allowance_audits_disagree:
  "map ta_status (filter (\<lambda>e. ta_feature_name e = ''effective_max_output_tokens'') TRAINING_SERVING_SKEW_AUDIT)
     = [FC_NOT_AVAILABLE_IN_PRODUCTION]
   \<and> map_of CANONICAL_TRAINING_SERVING_AUDIT ''effective_max_output_tokens'' = Some CS_CANONICALIZED_MATCH"
  by (simp add: TRAINING_SERVING_SKEW_AUDIT_def CANONICAL_TRAINING_SERVING_AUDIT_def)

end
