(* ===== verification/Service_Examples.thy ===== *)
theory Service_Examples
  imports Portfolio
begin

section \<open>Concrete runs of the inference service\<close>

text \<open>
  A stopped clock, a one-model registry, an adapter that always answers and one that always
  times out, and a repository that accepts every row. The general theorems of
  \<open>Inference_Service\<close> and \<open>Portfolio\<close> are applied to these runs, so their hypotheses
  hold together in a state the program can be in.
\<close>

definition still_env :: env where
  "still_env = \<lparr>env_clock = (\<lambda>_. 0), env_perf = (\<lambda>_. 0), env_uuid = (\<lambda>_. ''uuid'')\<rparr>"

definition sample_reply :: inference_response where
  "sample_reply =
     \<lparr>rs_text = ''ok'', rs_model_id = ''m'', rs_provider = ''fake'', rs_input_tokens = 3,
      rs_output_tokens = 1, rs_latency_ms = 5, rs_estimated_cost_usd = \<lparr>coeff = 1, expo = -6\<rparr>,
      rs_termination_reason = TR_COMPLETE, rs_provider_termination_reason = None\<rparr>"

definition steady_adapter :: provider where
  "steady_adapter = \<lparr>pv_generate = (\<lambda>_ _ _. Inr (Reply sample_reply)), pv_generate_with_timeout = None\<rparr>"

definition slow_adapter :: provider where
  "slow_adapter = \<lparr>pv_generate = (\<lambda>_ _ _. Inl (Exn TimeoutErrorC)), pv_generate_with_timeout = None\<rparr>"

definition accepting_repository :: telemetry_repository where
  "accepting_repository =
     \<lparr>repo_record = (\<lambda>_ _. None), repo_record_adaptive = Some (\<lambda>_ _. None),
      repo_record_chat = Some (\<lambda>_ _. None)\<rparr>"

definition failing_repository :: telemetry_repository where
  "failing_repository = accepting_repository\<lparr>repo_record := (\<lambda>_ _. Some (Exn TelemetryUnavailableErrorC))\<rparr>"

definition sample_service :: "provider \<Rightarrow> telemetry_repository option \<Rightarrow> inference_service" where
  "sample_service p repo =
     \<lparr>sv_registry = [(''m'', sample_priced_model)], sv_resolver = [(''fake'', \<lambda>_. Inr p)],
      sv_telemetry = repo, sv_telemetry_timeout = 2, sv_inference_deadline_seconds = 60\<rparr>"

definition sample_request :: inference_request where
  "sample_request =
     \<lparr>rq_prompt = ''two words'', rq_system_prompt = None, rq_max_output_tokens = 16, rq_temperature = 0\<rparr>"

lemmas sample_defs = still_env_def sample_reply_def steady_adapter_def slow_adapter_def
  accepting_repository_def failing_repository_def sample_service_def sample_request_def
  sample_priced_model_def

lemma still_clock: "clock_ok still_env"
  by (simp add: clock_ok_def still_env_def)

lemma sample_registry_inv: "registry_inv (sv_registry (sample_service p repo))"
  by (simp add: registry_inv_def sample_service_def sample_priced_model_def)

lemma sample_quiet: "quiet_service (sample_service p (Some accepting_repository))"
  by (simp add: quiet_service_def only_exceptions_def sample_service_def accepting_repository_def)

lemmas run_defs = service_generate_def generate_within_def generate_and_record_def
  service_new_deadline_def new_request_deadline_def service_generate_model_def attempt_body_def
  guarded_call_def call_provider_def check_reply_def lift_result_def acatch_def abind_def
  on_attempt_failure_def log_attempt_def registry_get_def resolver_resolve_def uuid4_def ask_def
  perf_counter_def expired_apply remaining_apply constrain_timeout_apply service_record_def
  guarded_write_def hand_over_def on_write_failure_def perf_clock_def add_inference_row_def
  on_generate_failure_def expected_failure_def isinstance_def issubclass_eval initial_world_def

lemma steady_run:
  "fst (service_generate still_env (sample_service steady_adapter (Some accepting_repository)) ''m''
     sample_request (Some ''id'') None ''explicit'' initial_world) = Inr sample_reply"
  by (simp add: run_defs sample_defs)

lemma slow_run:
  "fst (service_generate still_env (sample_service slow_adapter (Some accepting_repository)) ''m''
     sample_request (Some ''id'') None ''explicit'' initial_world) = Inl (Exn ProviderFailureErrorC)"
  by (simp add: run_defs sample_defs)

subsection \<open>The theorems at these runs\<close>

theorem generate_returns_checked_response_witness:
  "\<exists>w' m d. registry_get (sv_registry (sample_service steady_adapter (Some accepting_repository))) ''m'' = Inr m
     \<and> mc_enabled m \<and> rs_model_id sample_reply = ''m'' \<and> w_calls w' = [''m'']
     \<and> row_left still_env (sample_service steady_adapter (Some accepting_repository)) d
         (success_row ''id'' sample_request sample_reply) initial_world w'"
proof -
  obtain w' where run: "service_generate still_env (sample_service steady_adapter (Some accepting_repository))
      ''m'' sample_request (Some ''id'') None ''explicit'' initial_world = (Inr sample_reply, w')"
    using fst_eqD [OF steady_run] by blast
  show ?thesis
    using generate_returns_checked_response [OF run sample_registry_inv still_clock sample_quiet]
    by (auto simp: initial_world_def)
qed


theorem metric_and_row_categories_agree_witness:
  "row_category (GatewayErr RATE_LIMIT []) = Some ''gateway_rate_limit''"
  using metric_and_row_categories_agree [of "GatewayErr RATE_LIMIT []"]
  by (simp add: exn_wf_def expected_failure_def isinstance_def issubclass_eval attempt_category_def)

theorem telemetry_cannot_change_the_result_witness:
  "fst (service_generate still_env (sample_service steady_adapter (Some failing_repository)) ''m''
     sample_request None None ''explicit'' initial_world) =
   fst (service_generate still_env (sample_service steady_adapter None) ''m''
     sample_request None None ''explicit'' initial_world)"
proof -
  have "quiet_service ((sample_service steady_adapter None)\<lparr>sv_telemetry := Some failing_repository\<rparr>)"
    by (simp add: quiet_service_def only_exceptions_def failing_repository_def accepting_repository_def
        isinstance_def issubclass_eval)
  from telemetry_cannot_change_the_result [OF this, of still_env "''m''" sample_request None None "''explicit''"]
  show ?thesis by (simp add: sample_service_def)
qed

theorem fake_reply_is_a_bounded_echo_witness:
  "\<exists>r. fake_generate sample_priced_model sample_request = Inr (Reply r)
     \<and> rs_output_tokens r \<le> rq_max_output_tokens sample_request"
proof -
  have "model_config_valid sample_priced_model" by code_simp
  moreover have "inference_request_valid sample_request" by code_simp
  moreover have "prices_in_range (mc_context_window sample_priced_model)
      (mc_context_window sample_priced_model) sample_priced_model"
    using ndigits_le_iff [of 7 4096] ndigits_le_iff [of 7 15] ndigits_le_iff [of 7 60]
    by (simp add: sample_priced_model_def prices_in_range_def rate_in_range_def Let_def)
  moreover have "int (length (split_ws (rq_prompt sample_request)) + length (split_ws (system_text sample_request)))
      + rq_max_output_tokens sample_request \<le> mc_context_window sample_priced_model"
  proof -
    have "length (split_ws (rq_prompt sample_request)) + length (split_ws (system_text sample_request)) = 2"
      by code_simp
    then show ?thesis by (simp add: sample_request_def sample_priced_model_def)
  qed
  ultimately show ?thesis
    using fake_reply_is_a_bounded_echo [of sample_priced_model sample_request]
    by (auto simp: sample_priced_model_def)
qed

theorem configure_gateway_adds_the_portfolio_witness:
  "\<exists>sv'. configure_gateway (\<lambda>_ _. Inr steady_adapter) (sample_service steady_adapter None)
      \<lparr>gs_api_key = Some ''key'', gs_timeout_seconds = 60\<rparr> = Inr sv'
     \<and> registry_list_models (sv_registry sv') = sample_priced_model # REAL_MODELS"
proof -
  let ?sv = "sample_service steady_adapter None"
  have "resolver_inv (sv_resolver ?sv)"
    using Identifier_idem [of "''fake''"]
    by (simp add: resolver_inv_def sample_service_def) code_simp
  moreover have "\<forall>m\<in>set REAL_MODELS. map_of (sv_registry ?sv) (mc_model_id m) = None"
    by (simp add: sample_service_def portfolio_defs)
  moreover have "\<not> resolver_supports (sv_resolver ?sv) ''vercel''"
    by (simp add: resolver_supports_def sample_service_def)
  ultimately obtain sv' where "configure_gateway (\<lambda>_ _. Inr steady_adapter) ?sv
      \<lparr>gs_api_key = Some ''key'', gs_timeout_seconds = 60\<rparr> = Inr sv'"
    "registry_list_models (sv_registry sv') = registry_list_models (sv_registry ?sv) @ REAL_MODELS"
    using configure_gateway_adds_the_portfolio [OF sample_registry_inv, of steady_adapter None
        "\<lambda>_ _. Inr steady_adapter" "\<lparr>gs_api_key = Some ''key'', gs_timeout_seconds = 60\<rparr>"]
    by auto
  then show ?thesis by (auto simp: sample_service_def registry_list_models_def)
qed

end
