(* ===== verification/Routing_Examples.thy ===== *)
theory Routing_Examples
  imports Governance Predictor Service_Examples
begin

section \<open>Concrete routing runs\<close>

text \<open>
  Two candidates, a predictor that answers the same probability for every candidate, and a
  build artifact: the theorems on routing, prediction and feature extraction are applied to
  them, so their hypotheses hold together for inputs the program can meet.
\<close>

definition luna_model :: model_config where
  "luna_model = sample_priced_model
     \<lparr>mc_model_id := ''candidate-gpt-6-luna'', mc_input_cost_per_1m_tokens := \<lparr>coeff = 2, expo = 0\<rparr>,
      mc_output_cost_per_1m_tokens := \<lparr>coeff = 8, expo = 0\<rparr>\<rparr>"

definition sample_features :: routing_request_features where
  "sample_features =
     \<lparr>rf_category = Some RC_QA, rf_category_provenance = CP_CLIENT_HINT, rf_prompt_characters = 9,
      rf_system_prompt_characters = 0, rf_message_count = 1, rf_system_prompt_present = False,
      rf_approximate_input_tokens = 2, rf_contains_code = False,
      rf_requests_structured_output = False, rf_max_output_tokens = 16,
      rf_constraint_indicator_count = 0, rf_reasoning_indicator_count = 0\<rparr>"

definition cheap_candidate :: candidate_prediction where
  "cheap_candidate = \<lparr>cp_model_id = ''a'', cp_predicted_acceptability = 3/4,
     cp_projected_cost_usd = \<lparr>coeff = 1, expo = -3\<rparr>\<rparr>"

definition good_candidate :: candidate_prediction where
  "good_candidate = \<lparr>cp_model_id = ''b'', cp_predicted_acceptability = 9/10,
     cp_projected_cost_usd = \<lparr>coeff = 2, expo = -3\<rparr>\<rparr>"

definition constant_predictor :: quality_predictor where
  "constant_predictor f cands =
     Inr (map (\<lambda>m. \<lparr>mp_model_id = mc_model_id m, mp_predicted_acceptability = 3/4\<rparr>) cands)"

definition constant_routing :: routing_service where
  "constant_routing = \<lparr>rt_predictor = constant_predictor, rt_eligibility_filter = None\<rparr>"

definition sample_digest :: string where
  "sample_digest = replicate 64 CHR ''0''"

definition sample_versions :: runtime_versions where
  "sample_versions = \<lparr>rv_sklearn = ''1.7.2'', rv_python = ''3.12.4''\<rparr>"

definition sample_metadata :: artifact_metadata where
  "sample_metadata =
     expected_metadata sample_versions sample_digest FOUNDATION_V3_CANDIDATE_IDS routing_categories 216 8"

definition sample_pipeline :: quality_pipeline where
  "sample_pipeline = \<lparr>pl_steps = [''preprocess'', ''classifier''],
     pl_predict = (\<lambda>mat. Inr (map (\<lambda>_. PyFloat (3/4)) mat))\<rparr>"

definition sample_tools :: artifact_tools where
  "sample_tools = \<lparr>tool_decode = (\<lambda>_. Inr (BuildMetadata (Inr sample_metadata))),
     tool_sha256 = (\<lambda>_. sample_digest), tool_unpickle = (\<lambda>_. Inr (Pipeline sample_pipeline))\<rparr>"

definition sample_artifact :: artifact_directory where
  "sample_artifact = \<lparr>ad_metadata = Content ''{}'', ad_model = Content ''''\<rparr>"

definition sample_predictor :: sklearn_predictor where
  "sample_predictor = \<lparr>sp_pipeline = sample_pipeline, sp_metadata = LoadedBuild sample_metadata\<rparr>"

lemma half_threshold: "validate_quality_threshold (PyFloat (1/2)) = Inr (1/2)"
  by (simp add: validate_quality_threshold_def validated_probability_def py_float_def in_unit_def)

lemma sample_metadata_ok: "validate_metadata sample_versions sample_metadata = None"
  by (simp add: sample_metadata_def validate_metadata_def expected_metadata_def sample_digest_def
      hex_digits_def list_ex_iff)

lemma sample_metadata_checksum: "am_model_sha256 sample_metadata = sample_digest"
  by (simp add: sample_metadata_def expected_metadata_def)

lemma structured_category: "RoutingCategory (strip ''structured_json'') = Inr RC_STRUCTURED_JSON"
  by code_simp

lemma canonical_qa: "canonicalize_category ''qa'' = Inr RC_QA"
  by code_simp

lemma sample_allowance: "resolve_effective_output_allowance sample_features luna_model = Inr 16"
  by (simp add: resolve_effective_output_allowance_def sample_features_def luna_model_def
      sample_priced_model_def default_output_token_policy_def canonical_qa Let_def)

lemma canonical_json: "canonicalize_category ''structured_json'' = Inr RC_STRUCTURED_JSON"
  by code_simp

lemma sample_features_tokens: "rf_approximate_input_tokens sample_features = 2"
  by (simp add: sample_features_def)

lemma luna_id: "mc_model_id luna_model = ''candidate-gpt-6-luna''"
  by (simp add: luna_model_def)

lemma luna_identifier: "is_identifier ''candidate-gpt-6-luna''"
  by code_simp

subsection \<open>The theorems at these runs\<close>

theorem extraction_is_total_and_consistent_witness:
  "\<exists>f. extract_features sample_request (Some '' qa '') False = Inr f \<and> metadata_is_consistent f
     \<and> rf_category f = Some RC_QA"
proof -
  have valid: "inference_request_valid sample_request" by code_simp
  have hint: "strip '' qa '' = ''qa''" by code_simp
  have known: "''qa'' \<in> set (map routing_category_value routing_categories)"
    by (simp add: routing_categories_def)
  have qa: "routing_category_value c = ''qa'' \<Longrightarrow> c = RC_QA" for c
    by (cases c) simp_all
  show ?thesis
    using extraction_is_total_and_consistent [OF valid, of "Some '' qa ''" False] known qa
    unfolding option.case hint if_P [OF known] by blast
qed


theorem routing_ignores_candidate_order_witness:
  "policy_route [good_candidate, cheap_candidate] (PyFloat (1/2))
   = policy_route [cheap_candidate, good_candidate] (PyFloat (1/2))"
  by (rule routing_ignores_candidate_order) simp


theorem routing_result_is_faithful_witness:
  "\<exists>r. route_features_with_snapshot constant_routing sample_features [luna_model] (PyFloat (1/2)) = Inr r
     \<and> map cp_model_id (rr_candidates r) = [''candidate-gpt-6-luna''] \<and> map sn_qualifies (rr_candidates r) = [True]"
proof -
  obtain cost where cost: "calculate_cost 2 16 luna_model = Inr cost"
  proof -
    have "prices_in_range 2 16 luna_model" by code_simp
    then show thesis using that cost_exact_core [of 2 16 luna_model] by auto
  qed
  let ?c = "\<lparr>cp_model_id = ''candidate-gpt-6-luna'', cp_predicted_acceptability = 3/4, cp_projected_cost_usd = cost\<rparr>"
  have price: "price_candidate sample_features [\<lparr>mp_model_id = ''candidate-gpt-6-luna'', mp_predicted_acceptability = 3/4\<rparr>]
      luna_model = Inr ?c"
    using cost by (simp add: price_candidate_def sample_allowance luna_id calculate_projected_cost_def
        sample_features_tokens CandidatePrediction_def in_unit_def luna_identifier)
  obtain r where r: "route_features_with_snapshot constant_routing sample_features [luna_model] (PyFloat (1/2)) = Inr r"
    by (simp add: route_features_with_snapshot_def constant_routing_def constant_predictor_def
        luna_id price policy_route_def half_threshold Let_def)
  have one: "eligible_for constant_routing sample_features [luna_model] = [luna_model]"
    by (simp add: eligible_for_def constant_routing_def)
  have ps: "rt_predictor constant_routing sample_features [luna_model]
      = Inr [\<lparr>mp_model_id = ''candidate-gpt-6-luna'', mp_predicted_acceptability = 3/4\<rparr>]"
    by (simp add: constant_routing_def constant_predictor_def luna_id)
  obtain ps' t where a: "rt_predictor constant_routing sample_features [luna_model] = Inr ps'"
    "validate_quality_threshold (PyFloat (1/2)) = Inr t"
    "list_all2 (\<lambda>m s. cp_model_id s = mc_model_id m
          \<and> (\<exists>p\<in>set ps'. mp_model_id p = mc_model_id m
                \<and> cp_predicted_acceptability s = mp_predicted_acceptability p)
          \<and> (\<exists>a. resolve_effective_output_allowance sample_features m = Inr a
                \<and> calculate_cost (rf_approximate_input_tokens sample_features) a m = Inr (cp_projected_cost_usd s))
          \<and> sn_qualifies s = (t \<le> cp_predicted_acceptability s)) [luna_model] (rr_candidates r)"
    using routing_result_is_faithful [OF r] unfolding one by blast
  have "t = 1/2" "ps' = [\<lparr>mp_model_id = ''candidate-gpt-6-luna'', mp_predicted_acceptability = 3/4\<rparr>]"
    using a(1,2) ps half_threshold by simp_all
  then show ?thesis using a(3) r by (auto simp: list_all2_Cons1 luna_id)
qed

lemma sample_predictor_loads:
  "predictor_from_trusted_artifact sample_versions sample_tools sample_artifact = Inr sample_predictor"
  by (simp add: predictor_from_trusted_artifact_def load_trusted_quality_artifact_def sample_artifact_def
      read_metadata_def sample_tools_def check_loaded_def sample_metadata_ok new_sklearn_predictor_def
      sample_predictor_def sample_pipeline_def sample_metadata_checksum)

theorem loaded_predictor_is_trusted_witness:
  "predictor_from_trusted_artifact sample_versions sample_tools sample_artifact = Inr sample_predictor
   \<and> metadata_candidates (sp_metadata sample_predictor) = FOUNDATION_V3_CANDIDATE_IDS"
  using loaded_predictor_is_trusted [OF sample_predictor_loads] sample_predictor_loads by blast

theorem load_failures_are_artifact_errors_witness:
  "\<exists>e. load_trusted_quality_artifact sample_versions (sample_tools\<lparr>tool_sha256 := \<lambda>_. ''''\<rparr>) sample_artifact = Inl e
     \<and> issubclass e PredictorArtifactErrorC"
proof -
  let ?tools = "sample_tools\<lparr>tool_sha256 := \<lambda>_. ''''\<rparr>"
  have "sample_digest \<noteq> ''''" by (simp add: sample_digest_def)
  then have "load_trusted_quality_artifact sample_versions ?tools sample_artifact = Inl PredictorArtifactChecksumErrorC"
    by (auto simp: load_trusted_quality_artifact_def sample_artifact_def read_metadata_def sample_tools_def
        check_loaded_def sample_metadata_ok sample_metadata_checksum)
  moreover have "tools_announce ?tools" "files_announce sample_artifact"
    by (simp_all add: tools_announce_def files_announce_def sample_tools_def sample_artifact_def)
  ultimately show ?thesis using load_failures_are_artifact_errors by blast
qed

theorem written_metadata_is_accepted_witness:
  "validate_metadata sample_versions
     (expected_metadata sample_versions sample_digest FOUNDATION_V3_CANDIDATE_IDS routing_categories 216 8) = None"
  by (rule written_metadata_is_accepted) (simp_all add: sample_digest_def hex_digits_def list_all_iff)

theorem predictions_match_candidates_witness:
  "\<exists>ps. predict sample_predictor sample_features [luna_model] = Inr ps
     \<and> map mp_model_id ps = [''candidate-gpt-6-luna'']"
proof -
  have floats: "int_float n = Inr (of_int n)" if "0 \<le> n" "n < 2 ^ 53" for n :: int
    using float_of_small_int [OF that] by (simp add: int_float_def)
  have decs: "dec_float \<lparr>coeff = n, expo = 0\<rparr> = Inr (of_nat n)" if "n < 2 ^ 53" for n :: nat
    using float_of_small_int [of "int n"] that by (simp add: dec_float_def dval_def pow10_def)
  have "\<exists>c. canonical_from_production sample_features luna_model = Inr c"
    using luna_identifier sample_allowance floats [of 9] floats [of 2] floats [of 16] floats [of 0]
      floats [of 4096] decs [of 2] decs [of 8]
    by (simp add: canonical_from_production_def sample_features_def luna_model_def sample_priced_model_def
        canonical_qa canonicalize_reasoning_effort_def CanonicalQualityFeatures_def)
  then obtain c where c: "canonical_from_production sample_features luna_model = Inr c" by blast
  obtain mat where mat: "canonical_feature_matrix [c] = Inr mat" "length mat = 1"
    using feature_matrix_exists [of "[c]"] by auto
  have known: "RC_QA \<in> set (metadata_categories (sp_metadata sample_predictor))"
    "''candidate-gpt-6-luna'' \<in> set (metadata_candidates (sp_metadata sample_predictor))"
    by (simp_all add: sample_predictor_def sample_metadata_def expected_metadata_def
        routing_categories_def FOUNDATION_V3_CANDIDATE_IDS_def)
  obtain cells where cells: "mat = [cells]" using mat(2) by (auto simp: length_Suc_conv)
  have "\<exists>p. ModelAcceptabilityPrediction ''candidate-gpt-6-luna'' (PyFloat (3/4)) = Inr p"
    using luna_identifier
    by (simp add: ModelAcceptabilityPrediction_def validated_probability_def py_float_def in_unit_def
        Identifier_def is_identifier_def)
  then obtain p where p: "ModelAcceptabilityPrediction ''candidate-gpt-6-luna'' (PyFloat (3/4)) = Inr p" by blast
  have ps: "predict sample_predictor sample_features [luna_model] = Inr [p]"
    using known c mat(1) p
    by (simp add: predict_def luna_id cells sample_features_def sample_pipeline_def sample_predictor_def Let_def)
  have "map mp_model_id [p] = map mc_model_id [luna_model]"
    using predictions_match_candidates [OF ps] luna_identifier
    by (auto simp: luna_id sample_predictor_def sample_pipeline_def)
  then show ?thesis using ps by (auto simp: luna_id)
qed

end
