(* ===== verification/Adaptive_Examples.thy ===== *)
theory Adaptive_Examples
  imports Adaptive_Accounting Routing_Examples
begin

section \<open>Concrete adaptive runs\<close>

text \<open>
  One model behind the steady adapter, an accepting validator and an accepting repository; a
  clock that stands still and one that jumps past the deadline after the provider has answered.
\<close>

definition accepting_validator :: response_validator where
  "accepting_validator i r c = Inr \<lparr>vr_status = VS_PASSED, vr_failures = [], vr_duration_ms = 0\<rparr>"

definition sample_adaptive :: "provider \<Rightarrow> adaptive_service" where
  "sample_adaptive p =
     \<lparr>ad_inference = sample_service p (Some accepting_repository), ad_routing = constant_routing,
      ad_validator = accepting_validator, ad_max_validation_attempts = 3, ad_predictor_metadata = None\<rparr>"

definition sample_contract :: validation_contract where
  "sample_contract = sample_label_contract"

definition sample_decision :: routing_decision where
  "sample_decision =
     \<lparr>dc_selected_model_id = ''m'', dc_selected_predicted_acceptability = 3/4,
      dc_selected_projected_cost_usd = \<lparr>coeff = 1, expo = -6\<rparr>, dc_quality_threshold = 1/2,
      dc_threshold_satisfied = True, dc_fallback_used = False, dc_eligible_candidate_count = 1,
      dc_qualifying_candidate_count = 1, dc_reason = QUALITY_THRESHOLD_MET\<rparr>"

definition sample_routing :: routing_result where
  "sample_routing =
     \<lparr>rr_decision = sample_decision,
      rr_candidates = [\<lparr>cp_model_id = ''m'', cp_predicted_acceptability = 3/4,
        cp_projected_cost_usd = \<lparr>coeff = 1, expo = -6\<rparr>, sn_qualifies = True\<rparr>]\<rparr>"

definition minute :: request_deadline where "minute = \<lparr>rd_expires_at = 60\<rparr>"

text \<open>The clock shows 0 up to its ninth reading and 100 afterwards.\<close>

definition late_env :: env where
  "late_env = \<lparr>env_clock = (\<lambda>i. if i < 9 then 0 else 100), env_perf = (\<lambda>_. 0), env_uuid = (\<lambda>_. ''uuid'')\<rparr>"

lemma late_clock: "clock_ok late_env"
  by (simp add: clock_ok_def late_env_def)

lemma sample_quiet_adaptive: "quiet_adaptive (sample_adaptive p)"
  by (simp add: quiet_adaptive_def adaptive_repository_def sample_adaptive_def sample_service_def
      accepting_repository_def only_exceptions_def)

lemma sample_plan: "escalation_plan 3 sample_routing = [''m'']"
  by (simp add: escalation_plan_def sample_routing_def sample_decision_def Let_def)

lemma sample_routing_decision: "rr_decision sample_routing = sample_decision"
  "dc_selected_model_id sample_decision = ''m''"
  by (simp_all add: sample_routing_def sample_decision_def)

lemma check_deadline_apply:
  "check_deadline E d w =
     (if rd_expires_at d \<le> env_clock E (w_ix w) then Inl (Exn InferenceDeadlineExceededErrorC) else Inr (),
      w\<lparr>w_ix := Suc (w_ix w)\<rparr>)"
  by (simp add: check_deadline_def abind_def expired_apply)

lemmas adaptive_run_defs = run_defs generate_validated_def correlation_def validated_attempt_def
  check_deadline_apply adaptive_call_def validate_with_def accepting_validator_def
  judge_attempt_def sample_adaptive_def sample_routing_decision minute_def sample_plan count_failures_def

lemma terminals_fresh [simp]: "terminals fresh_observability = 0"
  by (simp add: terminals_def fresh_observability_def)

lemma late_run:
  "\<exists>w'. generate_validated late_env (sample_adaptive steady_adapter) sample_request sample_contract
      sample_routing (Some ''id'') minute initial_world = (Inl (Exn InferenceDeadlineExceededErrorC), w')
    \<and> w_calls w' = [''m''] \<and> w_adaptive_rows w' = [] \<and> terminals (w_obs w') = 0 \<and> length (w_rows w') = 1"
  by (simp add: adaptive_run_defs late_env_def sample_defs)

lemma sample_cost_sum:
  "dec_add 28 dec_zero \<lparr>coeff = Suc 0, expo = - 6\<rparr> = Inr \<lparr>coeff = Suc 0, expo = - 6\<rparr>"
proof -
  have "ndigits (Suc 0) = 1" by (subst ndigits.simps) simp
  then show ?thesis
    by (simp add: dec_zero_def dec_add_def dec_add_exact_def dec_fix_def Let_def Etop_def Etiny_def Emax_def Emin_def)
qed

lemma sample_identifier: "is_identifier ''m''"
  by code_simp

lemma sample_model_id: "mc_model_id sample_priced_model = ''m''"
  by (simp add: sample_priced_model_def)

lemma sample_route:
  "\<exists>r. route_with_snapshot constant_routing sample_request [sample_priced_model] (PyFloat (1/2)) (Some ''qa'') False = Inr r
     \<and> dc_selected_model_id (rr_decision r) = ''m'' \<and> escalation_plan 3 r = [''m'']"
proof -
  have qa: "RoutingCategory (strip ''qa'') = Inr RC_QA" by code_simp
  have tokens: "approximate_input_tokens sample_request = 2" by code_simp
  have "\<exists>f. extract_features sample_request (Some ''qa'') False = Inr f \<and> rf_category f = Some RC_QA
      \<and> rf_max_output_tokens f = 16 \<and> rf_approximate_input_tokens f = 2"
    by (simp add: extract_features_def qa Let_def RoutingRequestFeatures_def features_fields_ok_def tokens
        metadata_is_consistent_def constraint_indicator_count_def reasoning_indicator_count_def
        sample_request_def system_text_def)
      (simp add: tokens [unfolded sample_request_def])
  then obtain f where f: "extract_features sample_request (Some ''qa'') False = Inr f" "rf_category f = Some RC_QA"
    "rf_max_output_tokens f = 16" "rf_approximate_input_tokens f = 2" by blast
  obtain cost where cost: "calculate_cost 2 16 sample_priced_model = Inr cost"
  proof -
    have "prices_in_range 2 16 sample_priced_model" by code_simp
    then show thesis using that cost_exact_core [of 2 16 sample_priced_model] by auto
  qed
  have allow: "resolve_effective_output_allowance f sample_priced_model = Inr 16"
    by (simp add: resolve_effective_output_allowance_def f sample_priced_model_def
        default_output_token_policy_def canonical_qa Let_def)
  have price: "price_candidate f [\<lparr>mp_model_id = ''m'', mp_predicted_acceptability = 3/4\<rparr>] sample_priced_model
      = Inr \<lparr>cp_model_id = ''m'', cp_predicted_acceptability = 3/4, cp_projected_cost_usd = cost\<rparr>"
    using cost by (simp add: price_candidate_def allow sample_model_id calculate_projected_cost_def f
        CandidatePrediction_def in_unit_def sample_identifier)
  obtain r where r: "route_features_with_snapshot constant_routing f [sample_priced_model] (PyFloat (1/2)) = Inr r"
    by (simp add: route_features_with_snapshot_def constant_routing_def constant_predictor_def
        sample_model_id price policy_route_def half_threshold Let_def)
  have run: "route_with_snapshot constant_routing sample_request [sample_priced_model] (PyFloat (1/2)) (Some ''qa'') False = Inr r"
    by (simp add: route_with_snapshot_def f r)
  have "filter_drops constant_routing" by (simp add: filter_drops_def constant_routing_def)
  from route_plan [OF run this, of 3]
  have plan: "distinct (escalation_plan 3 r)" "set (escalation_plan 3 r) \<subseteq> {''m''}"
    "dc_selected_model_id (rr_decision r) = ''m''"
    by (simp_all add: sample_model_id)
  obtain m ms where "escalation_plan 3 r = m # ms"
    using escalation_plan_Nil [of 3 r] by (cases "escalation_plan 3 r") auto
  then have "escalation_plan 3 r = [''m'']" using plan(1,2) by (cases ms) auto
  then show ?thesis using run plan(3) by blast
qed

lemma sample_resolved:
  "resolve_candidates (sample_service p repo) [''m''] = Inr [sample_priced_model]"
  by (simp add: resolve_candidates_def resolve_candidate_def sample_service_def registry_get_def
      sample_priced_model_def resolver_supports_def)

lemma steady_adaptive_run:
  "\<exists>w' result. adaptive_generate still_env (sample_adaptive steady_adapter) sample_request (Some ''qa'')
      (PyFloat (1/2)) [''m''] (Some sample_contract) False (Some ''id'') (Some minute) initial_world = (Inr result, w')
    \<and> ar_response result = sample_reply"
proof -
  obtain r where r: "route_with_snapshot constant_routing sample_request [sample_priced_model] (PyFloat (1/2)) (Some ''qa'') False = Inr r"
     "dc_selected_model_id (rr_decision r) = ''m''" "escalation_plan 3 r = [''m'']"
    using sample_route by blast
  have rate: "ad_routing (sample_adaptive steady_adapter) = constant_routing"
    "ad_inference (sample_adaptive steady_adapter) = sample_service steady_adapter (Some accepting_repository)"
    by (simp_all add: sample_adaptive_def)
  show ?thesis
    by (simp add: adaptive_generate_def rate sample_resolved r(1) count_decision_def lift_result_def
        check_deadline_apply abind_def still_env_def minute_def initial_world_def)
      (simp add: adaptive_run_defs r still_env_def sample_defs AdaptiveAttempt_def sample_identifier
        build_execution_def total_cost_def known_cost_def sample_cost_sum List.map_filter_def
        outcome_execution_row_def finish_execution_def AdaptiveExecutionTelemetry_def
        adaptive_execution_telemetry_valid_def record_execution_def loop_clock_def add_adaptive_row_def
        total_latency_def total_validation_def validation_telemetry_from_result_def MAX_FAILURES_def)
qed

subsection \<open>The theorems at these runs\<close>

theorem adaptive_calls_are_bounded_witness:
  "\<exists>x w'. adaptive_generate still_env (sample_adaptive steady_adapter) sample_request (Some ''qa'')
      (PyFloat (1/2)) [''m''] (Some sample_contract) False (Some ''id'') (Some minute) initial_world = (x, w')
    \<and> length (w_calls w') \<le> 3 \<and> set (w_calls w') \<subseteq> {''m''}"
proof -
  obtain x w' where run: "adaptive_generate still_env (sample_adaptive steady_adapter) sample_request (Some ''qa'')
      (PyFloat (1/2)) [''m''] (Some sample_contract) False (Some ''id'') (Some minute) initial_world = (x, w')"
    by fastforce
  have "registry_inv (sv_registry (ad_inference (sample_adaptive steady_adapter)))"
    using sample_registry_inv by (simp add: sample_adaptive_def)
  moreover have "filter_drops (ad_routing (sample_adaptive steady_adapter))"
    by (simp add: sample_adaptive_def filter_drops_def constant_routing_def)
  moreover have "ad_max_validation_attempts (sample_adaptive steady_adapter) \<le> 3"
    by (simp add: sample_adaptive_def)
  ultimately show ?thesis
    using adaptive_calls_are_bounded [OF run] run by (auto simp: initial_world_def)
qed


theorem failed_executions_are_accounted_for_witness:
  "\<exists>w'. generate_validated late_env (sample_adaptive steady_adapter) sample_request sample_contract
      sample_routing (Some ''id'') minute initial_world = (Inl (Exn InferenceDeadlineExceededErrorC), w')
    \<and> silent_error (sample_adaptive steady_adapter) (Exn InferenceDeadlineExceededErrorC)"
proof -
  obtain w' where run: "generate_validated late_env (sample_adaptive steady_adapter) sample_request sample_contract
      sample_routing (Some ''id'') minute initial_world = (Inl (Exn InferenceDeadlineExceededErrorC), w')"
    "terminals (w_obs w') = 0" using late_run by blast
  have pos: "0 < ad_max_validation_attempts (sample_adaptive steady_adapter)"
    by (simp add: sample_adaptive_def)
  show ?thesis
    using failed_executions_are_accounted_for [OF run(1) sample_quiet_adaptive late_clock pos] run
    by (auto simp: settled_def initial_world_def)
qed

definition luna_service :: inference_service where
  "luna_service = (sample_service steady_adapter None)\<lparr>sv_registry := [(''candidate-gpt-6-luna'', luna_model)]\<rparr>"

theorem configured_runtime_is_ready_witness:
  "\<exists>rt. build_adaptive_runtime still_env sample_versions sample_tools (\<lambda>_. sample_artifact) luna_service
      \<lparr>cf_artifact_path = Some ''artifact'', cf_candidate_model_ids = [''candidate-gpt-6-luna'']\<rparr> = Inr (Some rt)
     \<and> ru_candidate_model_ids rt = [''candidate-gpt-6-luna''] \<and> ad_max_validation_attempts (ru_service rt) = 3"
proof -
  let ?c = "\<lparr>cf_artifact_path = Some ''artifact'', cf_candidate_model_ids = [''candidate-gpt-6-luna'']\<rparr>"
  have config: "config_from_environment (Some ''artifact'') (Some ''candidate-gpt-6-luna'') = Inr ?c"
    by code_simp
  have predictor: "predictor_from_trusted_artifact sample_versions sample_tools sample_artifact = Inr sample_predictor"
    by (rule sample_predictor_loads)
  have inv: "registry_inv (sv_registry luna_service)"
    by (simp add: luna_service_def registry_inv_def luna_model_def)
  have known: "metadata_candidates (sp_metadata sample_predictor) = FOUNDATION_V3_CANDIDATE_IDS"
    by (simp add: sample_predictor_def sample_metadata_def expected_metadata_def)
  have resolved: "resolve_candidates luna_service [''candidate-gpt-6-luna''] = Inr [luna_model]"
    by (simp add: resolve_candidates_def resolve_candidate_def luna_service_def registry_get_def
        luna_model_def sample_priced_model_def resolver_supports_def sample_service_def)
  have "\<exists>rt. build_adaptive_runtime still_env sample_versions sample_tools (\<lambda>_. sample_artifact) luna_service ?c
      = Inr (Some rt)"
    by (simp add: build_adaptive_runtime_def adaptive_from_trusted_artifact_def predictor new_adaptive_service_def
        resolved known luna_id FOUNDATION_V3_CANDIDATE_IDS_def Let_def)
  then obtain rt where rt: "build_adaptive_runtime still_env sample_versions sample_tools (\<lambda>_. sample_artifact)
      luna_service ?c = Inr (Some rt)" by blast
  then have "ru_candidate_model_ids rt = [''candidate-gpt-6-luna'']"
    by (auto simp: build_adaptive_runtime_def rbind_eq_Inr)
  then show ?thesis using configured_runtime_is_ready [OF config rt inv] rt by blast
qed

text \<open>
  A paid execution can vanish from the accounting: with a repository configured and a
  clock that passes the deadline after the provider has answered, the run ends in the deadline
  error, one provider call was made and its own row was written, and neither an adaptive row nor
  a terminal metric exists.
\<close>

theorem late_execution_is_not_accounted_for:
  "\<exists>w'. generate_validated late_env (sample_adaptive steady_adapter) sample_request sample_contract
      sample_routing (Some ''id'') minute initial_world = (Inl (Exn InferenceDeadlineExceededErrorC), w')
    \<and> adaptive_repository (sample_adaptive steady_adapter) \<noteq> None
    \<and> w_calls w' = [''m''] \<and> length (w_rows w') = 1
    \<and> w_adaptive_rows w' = [] \<and> terminals (w_obs w') = 0"
  using late_run
  by (auto simp: adaptive_repository_def sample_adaptive_def sample_service_def accepting_repository_def)

end
