(* ===== verification/Edge_Examples.thy ===== *)
theory Edge_Examples
  imports Chat Rate_Limit Adaptive_Examples
begin

section \<open>Concrete chat requests and admissions\<close>

text \<open>
  A chat service over the steady adapter, and the limiter of the default settings over an empty
  store that behaves like the documented server.
\<close>

definition sample_chat :: chat_service where
  "sample_chat =
     \<lparr>cs_inference = sample_service steady_adapter (Some accepting_repository),
      cs_default_model_id = ''m'', cs_runtime = None\<rparr>"

lemma sample_quiet_chat: "quiet_chat (cs_inference sample_chat)"
  by (simp add: quiet_chat_def chat_repository_def sample_chat_def sample_service_def
      accepting_repository_def only_exceptions_def)

definition sample_limits :: rate_limit_settings where
  "sample_limits =
     \<lparr>rl_required = True, rl_redis_url = Some ''redis://cache'',
      rl_hmac_secret = Some ''0123456789abcdef0123456789abcdef'', rl_redis_timeout_seconds = 1/4,
      rl_client_capacity = 10, rl_client_window_seconds = 60, rl_global_capacity = 100,
      rl_global_window_seconds = 60, rl_explicit_weight = 1, rl_adaptive_weight = 10\<rparr>"

definition sample_urlsplit :: "string \<Rightarrow> string \<times> string option" where
  "sample_urlsplit url = (''redis'', Some ''cache'')"

lemma sample_limits_ok: "RateLimitSettings sample_urlsplit sample_limits = Inr sample_limits"
  by (simp add: RateLimitSettings_def sample_limits_def sample_urlsplit_def rate_limit_fields_ok_def)

definition empty_store :: store where "empty_store = (\<lambda>_. None)"

lemma empty_store_entries: "\<forall>k. empty_store k = None"
  by (simp add: empty_store_def)

definition ask_adaptive :: "int \<Rightarrow> store \<Rightarrow> int list \<times> store" where
  "ask_adaptive now s = admit_script store_commands now (client_key ''c'') global_key (limits_for sample_limits IK_ADAPTIVE) s"

lemmas script_defs = admit_script_def limits_for_def kind_weight_def sample_limits_def used_def
  count_in_def positive_ttl_def store_commands_def live_value_def alive_def Let_def

definition full_store :: store where
  "full_store = empty_store(client_key ''c'' \<mapsto> (10, Some 60000), global_key \<mapsto> (10, Some 60000))"

lemma global_not_client [simp]: "global_key \<noteq> client_key digest"
  using client_not_global [of digest] by metis

lemma first_admission: "ask_adaptive 0 empty_store = ([1, 0, 0, 90], full_store)"
  by (simp add: ask_adaptive_def script_defs empty_store_def full_store_def fun_upd_twist)

lemma second_admission: "ask_adaptive 1000 full_store = ([0, 59000, 1], full_store)"
  by (simp add: ask_adaptive_def script_defs empty_store_def full_store_def)

lemma full_reached: "reached store_commands sample_limits empty_store 0 full_store"
  by (rule reached_admission [OF reached_start order.refl first_admission [unfolded ask_adaptive_def]])

subsection \<open>The theorems at these runs\<close>

theorem chat_requests_leave_one_activity_witness:
  "\<exists>x w'. chat_generate still_env sample_chat sample_request CRM_AUTO None None ''id'' minute initial_world = (x, w')
     \<and> chat_end CRM_AUTO still_env (cs_inference sample_chat) minute x initial_world w'"
proof -
  obtain x w' where run:
    "chat_generate still_env sample_chat sample_request CRM_AUTO None None ''id'' minute initial_world = (x, w')"
    by fastforce
  show ?thesis
    using run chat_requests_leave_one_activity [OF run sample_quiet_chat still_clock] by blast
qed

theorem windows_are_never_overdrawn_witness:
  "used store_commands 0 global_key full_store \<le> 100
    \<and> (\<forall>digest. used store_commands 0 (client_key digest) full_store \<le> 10)"
  using windows_are_never_overdrawn [where rc = store_commands and entry = "\<lambda>k s. s k", OF redis_store.redis_axioms sample_limits_ok full_reached empty_store_entries]
  by (simp add: sample_limits_def)

theorem admission_matches_specification_witness:
  "\<exists>seconds. interpret_reply IK_ADAPTIVE (ReplyList (map ItemInt [0, 59000, 1])) = Inr (Some (seconds, ''client''))"
proof -
  have "used store_commands 1000 (client_key ''c'') full_store = 10"
    "used store_commands 1000 global_key full_store = 10"
    by (simp_all add: script_defs full_store_def)
  then show ?thesis
    using admission_matches_specification [where rc = store_commands and entry = "\<lambda>k s. s k", OF redis_store.redis_axioms sample_limits_ok full_reached
        empty_store_entries _ second_admission [unfolded ask_adaptive_def]]
    by (simp add: Let_def kind_weight_def sample_limits_def)
qed

theorem waiting_as_told_is_enough_witness:
  "interpret_reply IK_ADAPTIVE (ReplyList (map ItemInt
      (fst (admit_script store_commands 60001 (client_key ''c'') global_key (limits_for sample_limits IK_ADAPTIVE) full_store))))
    = Inr None"
proof -
  have c: "\<lceil>59 :: rat\<rceil> = 59" by simp
  have r: "interpret_reply IK_ADAPTIVE (ReplyList (map ItemInt [0, 59000, 1])) = Inr (Some (59, ''client''))"
    by (simp add: interpret_reply_def reply_int_def item_int_def scope_name_def retry_after_def)
  show ?thesis
    by (rule waiting_as_told_is_enough [where rc = store_commands and entry = "\<lambda>k s. s k", OF redis_store.redis_axioms sample_limits_ok full_reached
        empty_store_entries _ second_admission [unfolded ask_adaptive_def] r]) simp_all
qed

definition absent_redis :: redis_limiter where
  "absent_redis =
     \<lparr>lm_settings = sample_limits, lm_secret = ''s'', lm_compressed = (\<lambda>_. None), lm_hmac = (\<lambda>_ s. s),
      lm_eval = (\<lambda>_ _ _ _ _. Inl (Exn RedisErrorC)), lm_ping = (\<lambda>_. Inr True)\<rparr>"

theorem limiter_failures_are_classified_witness:
  "\<exists>e w'. redis_admit still_env absent_redis ''peer'' IK_EXPLICIT minute initial_world = (Inl e, w')
     \<and> (e = Exn InferenceDeadlineExceededErrorC \<or> e = Exn RateLimitUnavailableErrorC
        \<or> (\<exists>seconds scope. e = RateLimitExceeded seconds scope))"
proof -
  have eval: "lm_eval absent_redis i t k g l = Inl (Exn RedisErrorC)" for i t k g l
    by (simp add: absent_redis_def)
  have "isinstance (Exn RedisErrorC) RedisErrorC" "\<not> isinstance (Exn RedisErrorC) TimeoutErrorC"
    by (simp_all add: isinstance_def issubclass_eval)
  then obtain e w' where run: "redis_admit still_env absent_redis ''peer'' IK_EXPLICIT minute initial_world = (Inl e, w')"
    by (simp add: redis_admit_def call_redis_def acatch_def abind_def eval constrain_timeout_apply
        still_env_def minute_def absent_redis_def sample_limits_def)
  have "e = Exn InferenceDeadlineExceededErrorC \<or> e = Exn RateLimitUnavailableErrorC
        \<or> (\<exists>seconds scope. e = RateLimitExceeded seconds scope)"
    using limiter_failures_are_classified [OF run]
    by (auto simp: eval isinstance_def issubclass_eval)
  then show ?thesis using run by blast
qed

end
