(* ===== verification/Api_Examples.thy ===== *)
theory Api_Examples
  imports Api_Properties Edge_Examples
begin

section \<open>Concrete tables, pages and requests\<close>

text \<open>
  Two activity rows, the canonical codec, an application over the steady adapter without a
  limiter, and a scrape endpoint with a token.
\<close>

definition sample_time :: "nat \<Rightarrow> datetime" where
  "sample_time s =
     \<lparr>dt_year = 2026, dt_month = 2, dt_day = 28, dt_hour = 12, dt_minute = 0, dt_second = s,
      dt_microsecond = 250000, dt_offset = Some 0\<rparr>"

definition sample_activity :: "string \<Rightarrow> chat_activity_record" where
  "sample_activity rid = chat_activity_defaults rid CM_DIRECT CO_RETURNED True"

definition sample_rows :: "chat_row list" where
  "sample_rows =
     [\<lparr>cr_id = 7, cr_created_at = sample_time 1, cr_activity = sample_activity ''a''\<rparr>,
      \<lparr>cr_id = 3, cr_created_at = sample_time 2, cr_activity = sample_activity ''b''\<rparr>]"

definition sample_database :: database where
  "sample_database = \<lparr>db_inference = [success_row ''a'' sample_request sample_reply], db_adaptive = [], db_chat = sample_rows\<rparr>"

lemma sample_time_valid: "s < 60 \<Longrightarrow> datetime_valid (sample_time s)"
  by (simp add: datetime_valid_def sample_time_def days_in_month_def is_leap_def)

lemma sample_activity_valid: "rid = ''a'' \<or> rid = ''b'' \<Longrightarrow> chat_activity_record_valid (sample_activity rid)"
  by (auto simp: chat_activity_record_valid_def sample_activity_def chat_activity_defaults_def opt_all_def)

lemma sample_rows_ok: "rows_ok sample_rows"
  using sample_time_valid [of 1] sample_time_valid [of 2] sample_activity_valid
  by (simp add: rows_ok_def sample_rows_def) (simp add: sample_time_def)

lemma sample_request_ok: "inference_request_valid sample_request"
  by code_simp

lemma sample_reply_ok: "inference_response_valid sample_reply"
  by code_simp

lemma sample_fits: "request_fits sample_request" "response_fits sample_reply"
  by (simp_all add: request_fits_def response_fits_def bigint_def sample_request_def sample_reply_def system_text_def)

lemma sample_row_ok: "inference_row_ok (success_row ''a'' sample_request sample_reply)"
  by (simp add: inference_row_ok_def success_row_def sample_request_def sample_reply_def opt_all_def
      width_def bigint_def system_text_def)

lemma sample_database_ok: "database_ok sample_database"
  using sample_row_ok
  by (simp add: database_ok_def sample_database_def sample_rows_def chat_row_ok_def sample_activity_def
      chat_activity_defaults_def opt_all_def width_def Let_def)

definition sample_app :: app_state where
  "sample_app =
     \<lparr>st_service = sample_service steady_adapter (Some accepting_repository),
      st_queries = Some (pg_queries sample_database), st_adaptive_runtime = None, st_adaptive_required = False,
      st_chat_service = None, st_rate_limiter = DisabledLimiter,
      st_request_limits = \<lparr>li_max_prompt_characters = 4000, li_max_output_tokens = 512\<rparr>,
      st_settings = \<lparr>metrics_enabled = True, metrics_bearer_token = Some ''0123456789abcdef0123456789abcdef''\<rparr>,
      st_initialized = True\<rparr>"

definition sample_call :: api_call where
  "sample_call = Inference (Some ''127.0.0.1'') (Some \<lparr>ip_request = sample_request, ip_model_id = ''m''\<rparr>)"

lemma steady_call:
  "\<exists>w'. service_generate still_env (sample_service steady_adapter (Some accepting_repository)) ''m''
     sample_request (Some rid) (Some minute) ''explicit'' w = (Inr sample_reply, w') \<and> w_calls w' = w_calls w @ [''m'']"
  by (simp add: run_defs sample_defs minute_def)

lemma sample_call_run:
  "\<exists>x w'. call_endpoint still_env iso_codec sample_app sample_call rid w = (x, w') \<and> w_calls w' = w_calls w @ [''m'']"
proof -
  let ?w = "w\<lparr>w_ix := Suc (Suc (w_ix w))\<rparr>"
  obtain w' where s: "service_generate still_env (sample_service steady_adapter (Some accepting_repository)) ''m''
     sample_request (Some rid) (Some minute) ''explicit'' ?w = (Inr sample_reply, w')" "w_calls w' = w_calls w @ [''m'']"
    using steady_call [of rid ?w] by auto
  have limits: "validate_request (st_request_limits sample_app) sample_request = Inr ()"
    by (simp add: validate_request_def sample_app_def sample_request_def system_text_def)
  have "admitted still_env sample_app (Some ''127.0.0.1'') IK_EXPLICIT w = (Inr minute, ?w)"
    by (simp add: admitted_def service_new_deadline_def new_request_deadline_def sample_app_def sample_service_def
        limiter_admit_def disabled_admit_def minute_def abind_def expired_apply still_env_def ask_def)
  then have "abind (admitted still_env sample_app (Some ''127.0.0.1'') IK_EXPLICIT) k w = k minute ?w" for k :: "request_deadline \<Rightarrow> http_response act"
    by (simp add: abind_Inr)
  then have "\<exists>x. call_endpoint still_env iso_codec sample_app sample_call rid w = (x, w')"
    using limits s(1) sample_reply_ok
    by (simp add: call_endpoint_def sample_call_def inference_endpoint_def with_body_def bind_lift)
      (simp add: sample_app_def abind_Inr)
  then show ?thesis using s(2) by blast
qed

subsection \<open>The theorems at these values\<close>


theorem summary_adds_up_witness:
  "\<exists>s. pg_summary None sample_database = Inr s \<and> ts_total_requests s = ts_successful_requests s + ts_failed_requests s"
proof -
  obtain s where s: "pg_summary None sample_database = Inr s" by (simp add: pg_summary_def Let_def)
  then show ?thesis using summary_adds_up [OF sample_database_ok s] by blast
qed

theorem cursor_is_read_back_witness:
  "decode_activity_cursor iso_codec (encode_activity_cursor iso_codec (sample_time 1) 7) = Inr (sample_time 1, 7)"
proof -
  have "dt_offset (sample_time 1) \<noteq> None" "(7 :: nat) < 2 ^ 128" by (simp_all add: sample_time_def)
  then show ?thesis
    using cursor_is_read_back [OF iso.cursor_texts_axioms sample_time_valid [of 1], of 7] by simp
qed

theorem bad_cursors_have_one_error_witness:
  "decode_activity_cursor iso_codec '''' = Inl InvalidActivityCursorErrorC"
proof -
  obtain c where c: "decode_activity_cursor iso_codec '''' = Inl c" by (simp add: decode_activity_cursor_def)
  then show ?thesis using bad_cursors_have_one_error [OF iso.cursor_texts_axioms c] by simp
qed

theorem pagination_terminates_and_is_complete_witness:
  "\<exists>w'. follow_pages iso_codec (Some (pg_queries sample_database)) 1 3 None initial_world
     = (Inr (Some (newest_first sample_rows)), w')"
proof -
  have "rows_ok (db_chat sample_database)" "(0 :: nat) < 1" using sample_rows_ok by (simp_all add: sample_database_def)
  from pagination_terminates_and_is_complete [OF iso.cursor_texts_axioms this, of initial_world]
  show ?thesis by (simp add: sample_database_def sample_rows_def numeral_3_eq_3)
qed

theorem error_table_is_unambiguous_witness:
  "map_of (hr_headers (application_error ''r'' (RateLimitExceeded 30 ''client''))) ''Retry-After'' = Some (show_int 30)"
proof -
  have "(RateLimitExceededErrorC, 429, ''rate_limit_exceeded'', ''The inference rate limit was exceeded.'') \<in> set error_table"
    by (simp add: error_table_def)
  moreover have "isinstance (RateLimitExceeded 30 ''client'') RateLimitExceededErrorC"
    by (simp add: isinstance_def)
  ultimately show ?thesis
    using error_table_is_unambiguous [of RateLimitExceededErrorC 429 "''rate_limit_exceeded''"
        "''The inference rate limit was exceeded.''" "RateLimitExceeded 30 ''client''" "''r''"] by simp
qed

theorem paid_calls_are_admitted_witness: "granted still_env sample_app sample_call initial_world"
proof -
  let ?w = "initial_world\<lparr>w_obs := http_started (route_of sample_call) (w_obs initial_world),
    w_ix := Suc (Suc (w_ix initial_world))\<rparr>"
  obtain x w' where run: "serve still_env iso_codec sample_app [] sample_call initial_world = (x, w')" by fastforce
  have "w_calls w' = [''m'']" using run
  proof (rule serve_run)
    fix y w1 cls outcome
    assume g: "guarded_endpoint still_env iso_codec sample_app [] sample_call
        (request_id_of [] (env_uuid still_env (Suc (w_ix initial_world)))) ?w = (y, w1)"
      and c: "w_calls w' = w_calls w1"
    obtain z w2 where "call_endpoint still_env iso_codec sample_app sample_call
        (request_id_of [] (env_uuid still_env (Suc (w_ix initial_world)))) ?w = (z, w2)" "w_calls w2 = [''m'']"
      using sample_call_run [of "request_id_of [] (env_uuid still_env (Suc (w_ix initial_world)))" ?w]
      by (auto simp: initial_world_def)
    then show ?thesis using g c
      by (cases z) (auto simp: guarded_endpoint_def id_refused_def with_handlers_def acatch_def split: if_splits)
  qed
  then show ?thesis using paid_calls_are_admitted [OF run] by (simp add: initial_world_def)
qed

theorem metrics_need_the_token_witness:
  "\<exists>ob. fst (metrics_endpoint sample_app (Some ''Bearer 0123456789abcdef0123456789abcdef'') ''r'' initial_world)
     = Inr (ok_response (MetricsBody ob))"
proof -
  have "require_token_when_enabled (st_settings sample_app) = Inr (st_settings sample_app)"
    by (simp add: require_token_when_enabled_def sample_app_def)
  from metrics_need_the_token [OF this, of "Some ''Bearer 0123456789abcdef0123456789abcdef''" "''r''" initial_world]
  show ?thesis by (simp add: sample_app_def is_ascii_def)
qed

end
