(* ===== verification/Float_Arith.thy ===== *)
theory Float_Arith
  imports Py_Float
begin

section \<open>Float arithmetic on scores\<close>

text \<open>
  Python's \<^verbatim>\<open>+\<close>, \<^verbatim>\<open>*\<close> and \<^verbatim>\<open>/\<close> on finite doubles round the exact
  result once. The offline evaluation computes scores with them and then compares the scores
  with thresholds and bounds, so rounding matters: \<open>float_of_mono\<close> (rounding keeps the order) is
  why a score computed from fractions never leaves the unit interval.
\<close>

definition fl :: "rat \<Rightarrow> rat" where
  "fl x = of_int (round_even (x / pow2 (unit_exponent x))) * pow2 (unit_exponent x)"

text \<open>The operations on operands whose exact result is in range; every score is.\<close>

definition fadd :: "rat \<Rightarrow> rat \<Rightarrow> rat" where "fadd x y = fl (x + y)"
definition fmul :: "rat \<Rightarrow> rat \<Rightarrow> rat" where "fmul x y = fl (x * y)"
definition fdiv :: "rat \<Rightarrow> rat \<Rightarrow> rat" where "fdiv x y = fl (x / y)"

lemma float_of_fl: "float_of x = (if \<bar>fl x\<bar> < float_limit then Some (fl x) else None)"
  by (simp add: float_of_def fl_def Let_def)

subsection \<open>Powers of two\<close>

lemma pow2_powi: "pow2 k = 2 powi k"
  by (simp add: pow2_def power_int_def divide_simps)

lemma pow2_add: "pow2 (a + b) = pow2 a * pow2 b"
  unfolding pow2_powi by (simp add: power_int_add)

lemma pow2_mono: "a \<le> b \<Longrightarrow> pow2 a \<le> pow2 b"
  unfolding pow2_powi by (simp add: power_int_increasing)

lemma pow2_less: "pow2 a < pow2 b \<Longrightarrow> a < b"
  using pow2_mono [of b a] by linarith

lemma pow2_ratio: "e \<le> k \<Longrightarrow> \<exists>n. pow2 k / pow2 e = of_int n"
proof -
  assume "e \<le> k"
  then have "pow2 k / pow2 e = pow2 (k - e)"
    using pow2_add [of "k - e" e] by (simp add: pow2_nz)
  also have "\<dots> = of_int (2 ^ nat (k - e))" using \<open>e \<le> k\<close> by (simp add: pow2_def)
  finally show ?thesis ..
qed

subsection \<open>The leading bit\<close>

lemma bitlen_pow2_bounds: "0 < n \<Longrightarrow> pow2 (bitlen n - 1) \<le> of_int n \<and> of_int n < pow2 (bitlen n)"
proof -
  assume n: "0 < n"
  have b: "0 \<le> bitlen n - 1" using n bitlen_eq_zero_iff [of n] bitlen_nonneg [of n] by linarith
  have "2 ^ nat (bitlen n - 1) \<le> n \<and> n < 2 ^ nat (bitlen n)" using bitlen_bounds [OF n] .
  then have "(of_int (2 ^ nat (bitlen n - 1)) :: rat) \<le> of_int n" "(of_int n :: rat) < of_int (2 ^ nat (bitlen n))"
    by (simp_all only: of_int_le_iff of_int_less_iff)
  then show ?thesis using b by (simp add: pow2_def)
qed

lemma leading_bit_bounds:
  assumes "0 < x"
  shows "pow2 (leading_bit x) \<le> x" and "x < pow2 (leading_bit x + 1)"
proof -
  obtain p q where pq: "quotient_of x = (p, q)" by (cases "quotient_of x")
  have q: "0 < q" by (rule quotient_of_denom_pos [OF pq])
  have x: "x = of_int p / of_int q" by (rule quotient_of_div [OF pq])
  then have p: "0 < p" using assms q by (simp add: zero_less_divide_iff)
  let ?k = "bitlen p - bitlen q"
  have P: "pow2 (bitlen p - 1) \<le> of_int p" "of_int p < pow2 (bitlen p)" using bitlen_pow2_bounds [OF p] by auto
  have Q: "pow2 (bitlen q - 1) \<le> of_int q" "of_int q < pow2 (bitlen q)" using bitlen_pow2_bounds [OF q] by auto
  have "x < pow2 (?k + 1)"
  proof -
    have "x * of_int q < pow2 (bitlen p)" using P(2) x q by simp
    also have "\<dots> = pow2 (?k + 1) * pow2 (bitlen q - 1)" using pow2_add [of "?k + 1" "bitlen q - 1"] by simp
    also have "\<dots> \<le> pow2 (?k + 1) * of_int q" using Q(1) by (simp add: mult_left_mono pow2_nonneg)
    finally show ?thesis using q by (simp add: mult_less_cancel_right)
  qed
  moreover have "pow2 (?k - 1) \<le> x"
  proof -
    have "pow2 (?k - 1) * of_int q \<le> pow2 (?k - 1) * pow2 (bitlen q)"
      using Q(2) by (simp add: mult_left_mono pow2_nonneg)
    also have "\<dots> = pow2 (bitlen p - 1)" using pow2_add [of "?k - 1" "bitlen q"] by simp
    also have "\<dots> \<le> x * of_int q" using P(1) x q by simp
    finally show ?thesis using q by (simp add: mult_le_cancel_right)
  qed
  ultimately show "pow2 (leading_bit x) \<le> x" "x < pow2 (leading_bit x + 1)"
    by (simp_all add: leading_bit_def pq Let_def)
qed

lemma leading_bit_mono: "0 < x \<Longrightarrow> x \<le> y \<Longrightarrow> leading_bit x \<le> leading_bit y"
  using leading_bit_bounds(1) [of x] leading_bit_bounds(2) [of y] pow2_less [of "leading_bit x" "leading_bit y + 1"]
  by linarith

subsection \<open>Rounding keeps the order\<close>

lemma round_even_mono: "x \<le> y \<Longrightarrow> round_even x \<le> round_even y"
proof -
  assume le: "x \<le> y"
  show ?thesis
  proof (cases "\<lfloor>x\<rfloor> = \<lfloor>y\<rfloor>")
    case True
    then show ?thesis using le by (auto simp: round_even_def Let_def)
  next
    case False
    then have "\<lfloor>x\<rfloor> + 1 \<le> \<lfloor>y\<rfloor>" using le floor_mono [OF le] by linarith
    then have "x \<le> of_int \<lfloor>y\<rfloor>" by linarith
    then have "round_even x \<le> \<lfloor>y\<rfloor>" by (rule round_even_le)
    also have "\<dots> \<le> round_even y" by (rule round_even_ge) simp
    finally show ?thesis .
  qed
qed

lemma fl_le_pow2: "x \<le> pow2 k \<Longrightarrow> unit_exponent x \<le> k \<Longrightarrow> fl x \<le> pow2 k"
proof -
  assume x: "x \<le> pow2 k" and e: "unit_exponent x \<le> k"
  let ?u = "pow2 (unit_exponent x)"
  obtain n where n: "pow2 k / ?u = of_int n" using pow2_ratio [OF e] by blast
  have "x / ?u \<le> of_int n" using x n [symmetric] by (simp add: divide_right_mono pow2_nonneg)
  then have "(of_int (round_even (x / ?u)) :: rat) \<le> pow2 k / ?u" unfolding n using round_even_le by simp
  then show ?thesis unfolding fl_def by (simp add: pos_le_divide_eq)
qed

lemma fl_ge_pow2: "pow2 k \<le> x \<Longrightarrow> unit_exponent x \<le> k \<Longrightarrow> pow2 k \<le> fl x"
proof -
  assume x: "pow2 k \<le> x" and e: "unit_exponent x \<le> k"
  let ?u = "pow2 (unit_exponent x)"
  obtain n where n: "pow2 k / ?u = of_int n" using pow2_ratio [OF e] by blast
  have "of_int n \<le> x / ?u" using x n [symmetric] by (simp add: divide_right_mono pow2_nonneg)
  then have "pow2 k / ?u \<le> (of_int (round_even (x / ?u)) :: rat)" unfolding n using round_even_ge by simp
  then show ?thesis unfolding fl_def by (simp add: pos_divide_le_eq)
qed

lemma fl_zero [simp]: "fl 0 = 0"
  using round_even_of_int [of 0] by (simp add: fl_def)

lemma fl_nonneg: "0 \<le> x \<Longrightarrow> 0 \<le> fl x"
  using round_even_ge [of 0 "x / pow2 (unit_exponent x)"] by (simp add: fl_def pow2_nonneg)

lemma fl_mono:
  assumes "0 \<le> x" "x \<le> y"
  shows "fl x \<le> fl y"
proof (cases "x = 0")
  case True
  then show ?thesis using fl_nonneg [of y] assms by simp
next
  case False
  then have pos: "0 < x" "0 < y" using assms by auto
  have lead: "leading_bit x \<le> leading_bit y" by (rule leading_bit_mono [OF pos(1) assms(2)])
  then have ue: "unit_exponent x \<le> unit_exponent y" using pos by (simp add: unit_exponent_def)
  show ?thesis
  proof (cases "unit_exponent x = unit_exponent y")
    case True
    have "round_even (x / pow2 (unit_exponent y)) \<le> round_even (y / pow2 (unit_exponent y))"
      using assms(2) by (intro round_even_mono divide_right_mono) (simp_all add: pow2_nonneg)
    then show ?thesis unfolding fl_def True by (simp add: mult_right_mono pow2_nonneg)
  next
    case False
    then have ey: "unit_exponent y = leading_bit y - 52" and ex: "leading_bit x < leading_bit y"
      "unit_exponent x < leading_bit y - 52"
      using ue pos by (auto simp: unit_exponent_def max_def split: if_splits)
    let ?k = "leading_bit y"
    have "x < pow2 (leading_bit x + 1)" by (rule leading_bit_bounds(2) [OF pos(1)])
    also have "\<dots> \<le> pow2 ?k" using ex(1) by (intro pow2_mono) simp
    finally have "fl x \<le> pow2 ?k" using ex(2) by (intro fl_le_pow2) simp_all
    also have "\<dots> \<le> fl y"
      using leading_bit_bounds(1) [OF pos(2)] ey by (intro fl_ge_pow2) simp_all
    finally show ?thesis .
  qed
qed

lemma fl_small_int: "0 \<le> n \<Longrightarrow> n < 2 ^ 53 \<Longrightarrow> fl (of_int n) = of_int n"
  using float_of_small_int [of n] by (simp add: float_of_fl split: if_splits)

lemma fl_one [simp]: "fl 1 = 1"
  using fl_small_int [of 1] by simp

subsection \<open>The unit interval\<close>

definition unit :: "rat \<Rightarrow> bool" where
  "unit x \<longleftrightarrow> 0 \<le> x \<and> x \<le> 1"

named_theorems in_unit \<open>scores that stay in the unit interval\<close>

lemma unit_0 [simp]: "unit 0" and unit_1 [simp]: "unit 1"
  by (simp_all add: unit_def)

lemma unit_fl [in_unit]: "unit x \<Longrightarrow> unit (fl x)"
  using fl_mono [of x 1] by (simp add: unit_def fl_nonneg)

lemma unit_fdiv [in_unit]: "0 \<le> x \<Longrightarrow> x \<le> y \<Longrightarrow> unit (fdiv x y)"
  unfolding fdiv_def by (rule unit_fl) (auto simp: unit_def divide_le_eq_1)

lemma unit_fmul [in_unit]: "unit x \<Longrightarrow> unit y \<Longrightarrow> unit (fmul x y)"
  unfolding fmul_def by (rule unit_fl) (simp add: unit_def mult_le_one)

subsection \<open>Exact values and the F1 bound\<close>

lemma fl_exact: "unit_exponent (of_int n * pow2 e) \<le> e \<Longrightarrow> fl (of_int n * pow2 e) = of_int n * pow2 e"
proof -
  let ?u = "unit_exponent (of_int n * pow2 e)"
  assume "?u \<le> e"
  then obtain m where m: "pow2 e / pow2 ?u = of_int m" using pow2_ratio by blast
  have "of_int n * pow2 e / pow2 ?u = of_int (n * m)" using m by (metis of_int_mult times_divide_eq_right)
  then have "fl (of_int n * pow2 e) = of_int (n * m) * pow2 ?u"
    unfolding fl_def using round_even_of_int [of "n * m"] by simp
  also have "\<dots> = of_int n * pow2 e" using m by (simp add: field_simps pow2_nz)
  finally show ?thesis .
qed

lemma unit_exponent_below: "0 < x \<Longrightarrow> x < pow2 (k + 1) \<Longrightarrow> unit_exponent x \<le> max (k - 52) (- 1074)"
  using leading_bit_bounds(1) [of x] pow2_less [of "leading_bit x" "k + 1"] by (simp add: unit_exponent_def)

lemma fl_double:
  assumes "0 \<le> x"
  shows "fl (2 * fl x) = 2 * fl x"
proof (cases "fl x = 0")
  case False
  then have x: "0 < x" using assms by (metis fl_zero less_eq_rat_def)
  then have pos: "0 < fl x" using False fl_nonneg [of x] by simp
  let ?e = "unit_exponent x"
  let ?k = "leading_bit x"
  have e: "?k - 52 \<le> ?e" "- 1074 \<le> ?e" using x by (simp_all add: unit_exponent_def)
  have two: "2 * pow2 j = pow2 (j + 1)" for j using pow2_add [of j 1] by (simp add: pow2_def)
  have y: "2 * fl x = of_int (round_even (x / pow2 ?e)) * pow2 (?e + 1)"
    using two [of ?e] by (simp add: fl_def)
  have mono: "pow2 i < pow2 (i + 1)" for i using two [of i] pow2_pos [of i] by linarith
  have low: "fl (2 * fl x) = 2 * fl x" if "2 * fl x < pow2 (j + 1)" "max (j - 52) (- 1074) \<le> ?e + 1" for j
    by (rule fl_exact [of "round_even (x / pow2 ?e)" "?e + 1", folded y],
        rule order_trans [OF unit_exponent_below that(2)]) (use pos that(1) in simp_all)
  show ?thesis
  proof (cases "?e \<le> ?k + 1")
    case False
    have "fl x \<le> pow2 ?e"
      using leading_bit_bounds(2) [OF x] pow2_mono [of "?k + 1" ?e] False by (intro fl_le_pow2) simp_all
    then have "2 * fl x < pow2 (?e + 1 + 1)" using two [of ?e] mono [of "?e + 1"] by linarith
    then show ?thesis by (rule low) (use e in simp)
  next
    case True
    have le: "2 * fl x \<le> pow2 (?k + 1 + 1)"
      using leading_bit_bounds(2) [OF x] True two [of "?k + 1"] fl_le_pow2 [of x "?k + 1"] by simp
    show ?thesis
    proof (cases "2 * fl x = pow2 (?k + 1 + 1)")
      case True
      have pos2: "0 < 2 * fl x" using pos by simp
      have "unit_exponent (2 * fl x) \<le> max (?k + 1 + 1 - 52) (- 1074)"
        using unit_exponent_below [OF pos2 mono [of "?k + 1 + 1", folded True]] .
      then have "unit_exponent (2 * fl x) \<le> ?k + 1 + 1" using \<open>?e \<le> ?k + 1\<close> e by simp
      then show ?thesis using fl_exact [of 1 "?k + 1 + 1"] by (simp add: True)
    next
      case False
      then show ?thesis using le e by (intro low [of "?k + 1"]) simp_all
    qed
  qed
qed simp

lemma fl_le_of: "0 \<le> x \<Longrightarrow> x \<le> y \<Longrightarrow> fl y = y \<Longrightarrow> fl x \<le> y"
  using fl_mono [of x y] by simp

text \<open>The F1 of fractions of counts: \<open>2pr \<le> p + r\<close>, and doubling is exact.\<close>

lemma unit_harmonic:
  assumes p: "unit (fl p)" "0 \<le> p" and r: "unit r"
  shows "unit (fdiv (fmul (fmul 2 (fl p)) r) (fadd (fl p) r))"
proof -
  have "2 * fl p * r \<le> fl p + r"
  proof -
    have "fl p * r \<le> fl p" "fl p * r \<le> r" using p r by (auto simp: unit_def mult_left_le mult_left_le_one_le)
    then show ?thesis by (simp add: algebra_simps)
  qed
  then have "fmul (fmul 2 (fl p)) r \<le> fadd (fl p) r"
    unfolding fmul_def fadd_def fl_double [OF p(2)] using p r by (intro fl_mono) (auto simp: unit_def)
  moreover have "0 \<le> fmul (fmul 2 (fl p)) r" 
    unfolding fmul_def using p r by (intro fl_nonneg mult_nonneg_nonneg) (auto simp: unit_def intro: fl_nonneg)
  ultimately show ?thesis by (rule unit_fdiv [rotated])
qed

subsection \<open>Summation\<close>

text \<open>
  \<^verbatim>\<open>sum\<close> of Python 3.12 on floats: it starts with the integer 0 and then carries the
  rounding errors in a compensation \<open>c\<close>, which it adds in the end.
\<close>

definition fsub :: "rat \<Rightarrow> rat \<Rightarrow> rat" where "fsub x y = fl (x - y)"

fun fsum_from :: "rat \<Rightarrow> rat \<Rightarrow> rat list \<Rightarrow> rat" where
  "fsum_from f c [] = (if c \<noteq> 0 then fadd f c else f)"
| "fsum_from f c (x # xs) =
     (let t = fadd f x;
          e = (if \<bar>x\<bar> \<le> \<bar>f\<bar> then fadd (fsub f t) x else fadd (fsub x t) f) in
      fsum_from t (fadd c e) xs)"

definition fsum :: "rat list \<Rightarrow> rat" where
  "fsum xs = (case xs of [] \<Rightarrow> 0 | x # rest \<Rightarrow> fsum_from x 0 rest)"

lemma pow2_0 [simp]: "pow2 0 = 1"
  by (simp add: pow2_def)

lemma unit_exponent_abs: "unit_exponent \<bar>x\<bar> = unit_exponent x"
  by (simp add: unit_exponent_def)

lemma fl_grid: "\<bar>of_int n * pow2 (- 52)\<bar> < 2 \<Longrightarrow> fl (of_int n * pow2 (- 52)) = of_int n * pow2 (- 52)"
proof (rule fl_exact)
  let ?x = "of_int n * pow2 (- 52)"
  assume "\<bar>?x\<bar> < 2"
  then show "unit_exponent ?x \<le> - 52"
    using unit_exponent_below [of "\<bar>?x\<bar>" 0] unfolding unit_exponent_abs
    by (cases "n = 0") (auto simp: pow2_def unit_exponent_def)
qed

lemma on_grid: "1 \<le> x \<Longrightarrow> \<exists>n. fl x = of_int n * pow2 (- 52)"
proof -
  assume x: "1 \<le> x"
  have "pow2 0 < pow2 (leading_bit x + 1)" using x leading_bit_bounds(2) [of x] by simp
  then have "0 < leading_bit x + 1" by (rule pow2_less)
  then have "- 52 \<le> unit_exponent x" using x by (simp add: unit_exponent_def)
  then obtain m where "pow2 (unit_exponent x) / pow2 (- 52) = of_int m" using pow2_ratio by blast
  then have "pow2 (unit_exponent x) = of_int m * pow2 (- 52)" by (simp add: field_simps pow2_nz)
  then have "fl x = of_int (round_even (x / pow2 (unit_exponent x)) * m) * pow2 (- 52)" by (simp add: fl_def)
  then show ?thesis ..
qed

lemma int_on_grid: "\<exists>n. of_int k = of_int n * pow2 (- 52)"
  by (rule exI [of _ "k * 2 ^ 52"]) (simp add: pow2_def)

lemma fl_minus_one [simp]: "fl (- 1) = - 1"
  using fl_exact [of "- 1" 0] unit_exponent_below [of 1 0] unit_exponent_abs [of "- 1"] by (simp add: pow2_def)

text \<open>Sums of zeros and ones are exact, and one more score cannot leave the range.\<close>

definition zero_one :: "rat \<Rightarrow> bool" where "zero_one x \<longleftrightarrow> x = 0 \<or> x = 1"

definition ones :: "rat list \<Rightarrow> nat" where "ones xs = length (filter (\<lambda>x. x = 1) xs)"

lemma ones_le: "ones xs \<le> length xs"
  by (simp add: ones_def)

lemma fsum_from_bits:
  "list_all zero_one xs \<Longrightarrow> k + length xs < 2 ^ 53 \<Longrightarrow>
   fsum_from (of_nat k) 0 (xs @ ys) = fsum_from (of_nat (k + ones xs)) 0 ys"
proof (induction xs arbitrary: k)
  case (Cons x xs)
  have small: "fl (of_nat j) = of_nat j" if "j < 2 ^ 53" for j
    using fl_small_int [of "int j"] that by simp
  show ?case
  proof (cases "x = 0")
    case True
    then show ?thesis using Cons.IH [of k] Cons.prems small [of k]
      by (simp add: fadd_def fsub_def ones_def)
  next
    case False
    then have x: "x = 1" using Cons.prems by (simp add: zero_one_def)
    have t: "fl (of_nat k + 1) = of_nat (Suc k)" using small [of "Suc k"] Cons.prems by (simp add: add.commute)
    have e: "(if 1 \<le> (of_nat k :: rat) then fl (fl (of_nat k - of_nat (Suc k)) + 1) else fl (fl (1 - of_nat (Suc k)) + of_nat k)) = 0"
      by (cases k) simp_all
    show ?thesis using Cons.IH [of "Suc k"] Cons.prems e
      by (simp add: x fadd_def fsub_def ones_def t Let_def split: if_splits)
  qed
qed (simp add: ones_def)

lemma fsum_bits: "list_all zero_one xs \<Longrightarrow> length xs < 2 ^ 53 \<Longrightarrow> fsum xs = of_nat (ones xs)"
proof (cases xs)
  case (Cons x rest)
  assume *: "list_all zero_one xs" "length xs < 2 ^ 53"
  then have x: "x = of_nat (if x = 1 then 1 else 0)" using Cons by (auto simp: zero_one_def)
  have "fsum xs = fsum_from (of_nat (if x = 1 then 1 else 0)) 0 (rest @ [])"
    using x by (simp add: fsum_def Cons)
  also have "\<dots> = of_nat ((if x = 1 then 1 else 0) + ones rest)"
    using * by (subst fsum_from_bits) (auto simp: Cons)
  finally show ?thesis by (simp add: ones_def Cons)
qed (simp add: fsum_def ones_def)

lemma fl_unit_negative: "- 1 \<le> y \<Longrightarrow> y \<le> 0 \<Longrightarrow> - 1 \<le> fl y \<and> fl y \<le> 0"
proof -
  assume y: "- 1 \<le> y" "y \<le> 0"
  let ?u = "unit_exponent y"
  have "?u \<le> 0"
  proof (cases "y = 0")
    case False
    then have "unit_exponent \<bar>y\<bar> \<le> max (0 - 52) (- 1074)" using y by (intro unit_exponent_below) (auto simp: pow2_def)
    then show ?thesis unfolding unit_exponent_abs by simp
  qed (simp add: unit_exponent_def)
  then obtain n where "pow2 0 / pow2 ?u = of_int n" using pow2_ratio by blast
  then have n: "1 / pow2 ?u = of_int n" by simp
  have "of_int (- n) \<le> y / pow2 ?u" using divide_right_mono [OF y(1) pow2_nonneg, of ?u] n by simp
  then have "of_int (- n) \<le> (of_int (round_even (y / pow2 ?u)) :: rat)" by (simp only: of_int_le_iff round_even_ge)
  then have "of_int (- n) * pow2 ?u \<le> fl y" unfolding fl_def by (rule mult_right_mono) (rule pow2_nonneg)
  moreover have "of_int (- n) * pow2 ?u = - 1" using n by (simp add: field_simps pow2_nz)
  moreover have "round_even (y / pow2 ?u) \<le> 0"
    using y(2) by (intro round_even_le) (simp add: divide_le_0_iff pow2_nonneg)
  then have "fl y \<le> 0" unfolding fl_def by (simp add: mult_nonpos_nonneg pow2_nonneg)
  ultimately show ?thesis by simp
qed

lemma fl_between:
  assumes "- 1 \<le> y" "y \<le> d" "0 \<le> d" "fl d = d"
  shows "- 1 \<le> fl y \<and> fl y \<le> d"
proof (cases "0 \<le> y")
  case True
  then show ?thesis using fl_le_of [of y d] fl_nonneg [of y] assms by simp
next
  case False
  then show ?thesis using fl_unit_negative [of y] assms by simp
qed

lemma fsum_bits_last:
  assumes xs: "list_all zero_one xs" "1 \<le> ones xs" "length xs < 2 ^ 52" and q: "unit q"
  shows "0 \<le> fsum (xs @ [q]) \<and> fsum (xs @ [q]) \<le> of_nat (ones xs) + 1"
proof -
  obtain x rest where xrest: "xs = x # rest" using xs(2) by (cases xs) (auto simp: ones_def)
  define k where "k = ones xs"
  have k: "1 \<le> k" "k + 1 < 2 ^ 53" using xs ones_le [of xs] by (simp_all add: k_def)
  have x: "x = of_nat (if x = 1 then 1 else 0)" using xs(1) by (auto simp: xrest zero_one_def)
  have "fsum (xs @ [q]) = fsum_from (of_nat (if x = 1 then 1 else 0)) 0 (rest @ [q])"
    using x by (simp add: fsum_def xrest)
  also have "\<dots> = fsum_from (of_nat ((if x = 1 then 1 else 0) + ones rest)) 0 [q]"
    using xs by (subst fsum_from_bits) (auto simp: xrest)
  also have "(if x = 1 then 1 else 0) + ones rest = k" by (simp add: k_def ones_def xrest)
  finally have sum: "fsum (xs @ [q]) = fsum_from (of_nat k) 0 [q]" .
  let ?t = "fl (of_nat k + q)" and ?k = "of_nat k :: rat"
  have exact: "fl ?k = ?k" "fl (?k + 1) = ?k + 1"
    using fl_small_int [of "int k"] fl_small_int [of "int k + 1"] k by simp_all
  have t: "?k \<le> ?t" "?t \<le> ?k + 1"
    using fl_mono [of ?k "?k + q"] fl_mono [of "?k + q" "?k + 1"] q exact by (auto simp: unit_def)
  have "1 \<le> ?k + q" using k q by (simp add: unit_def add_increasing2)
  then obtain n where n: "?t = of_int n * pow2 (- 52)" using on_grid by blast
  obtain i where i: "?k = of_int i * pow2 (- 52)" using int_on_grid [of "int k"] by auto
  obtain l where l: "?k + 1 = of_int l * pow2 (- 52)" using int_on_grid [of "int k + 1"] by auto
  have e1: "fl (?k - ?t) = ?k - ?t"
  proof -
    have "?k - ?t = of_int (i - n) * pow2 (- 52)" unfolding n by (simp add: i algebra_simps)
    moreover have "\<bar>?k - ?t\<bar> < 2" using t by linarith
    ultimately show ?thesis using fl_grid [of "i - n"] by simp
  qed
  define d where "d = ?k + 1 - ?t"
  have d: "0 \<le> d" "fl d = d"
  proof -
    have "d = of_int (l - n) * pow2 (- 52)" unfolding d_def n l by (simp add: algebra_simps)
    moreover have "\<bar>d\<bar> < 2" using t unfolding d_def by linarith
    ultimately show "fl d = d" using fl_grid [of "l - n"] by simp
    show "0 \<le> d" using t unfolding d_def by linarith
  qed
  define e where "e = fl (?k - ?t + q)"
  have e: "- 1 \<le> e \<and> e \<le> d" unfolding e_def using t q d by (intro fl_between) (auto simp: unit_def d_def)
  then have c: "- 1 \<le> fl e \<and> fl e \<le> d" using d by (intro fl_between) auto
  have le: "\<bar>q\<bar> \<le> \<bar>?k\<bar>" using q k by (auto simp: unit_def)
  have fsum: "fsum (xs @ [q]) = (if fl e \<noteq> 0 then fl (?t + fl e) else ?t)"
    using le unfolding sum by (simp add: fadd_def fsub_def e1 e_def Let_def)
  have "0 \<le> ?t + fl e" "?t + fl e \<le> ?k + 1" using c t k unfolding d_def by auto
  then have "0 \<le> fl (?t + fl e)" "fl (?t + fl e) \<le> ?k + 1"
    using fl_nonneg fl_le_of [OF _ _ exact(2)] by auto
  then show ?thesis using t k unfolding fsum k_def [symmetric] by auto
qed

end
