(* ===== verification/Py_Json.thy ===== *)
theory Py_Json
  imports Errors
begin

section \<open>JSON values as Python holds them\<close>

text \<open>
  What \<^verbatim>\<open>json.loads\<close> without hooks and \<^verbatim>\<open>httpx.Response.json\<close> give, and what
  \<^verbatim>\<open>pydantic.JsonValue\<close> holds: the gateway adapter reads answers of this type, the
  evaluation reads task metadata and model output of it.
\<close>

text \<open>A number with a fraction or exponent is a float; Python also reads the three constants.\<close>

datatype nonfinite = NaN | PlusInf | MinusInf

datatype pyj =
    PNull | PBool bool | PInt int | PFlt rat | PNonFinite nonfinite | PStr string | PList "pyj list"
  | PDict "(string \<times> pyj) list"

fun truthy :: "pyj \<Rightarrow> bool" where
  "truthy PNull = False"
| "truthy (PBool b) = b"
| "truthy (PInt n) = (n \<noteq> 0)"
| "truthy (PFlt x) = (x \<noteq> 0)"
| "truthy (PNonFinite x) = True"
| "truthy (PStr s) = (s \<noteq> [])"
| "truthy (PList xs) = (xs \<noteq> [])"
| "truthy (PDict d) = (d \<noteq> [])"

definition py_or :: "pyj \<Rightarrow> pyj \<Rightarrow> pyj" where
  "py_or a b = (if truthy a then a else b)"

text \<open>\<^verbatim>\<open>d.get(k)\<close>, \<^verbatim>\<open>v[k]\<close> and \<^verbatim>\<open>v[0]\<close>.\<close>

definition jget :: "pyj dict \<Rightarrow> string \<Rightarrow> pyj" where
  "jget d k = (case map_of d k of None \<Rightarrow> PNull | Some v \<Rightarrow> v)"

definition jkey :: "pyj \<Rightarrow> string \<Rightarrow> exn_class + pyj" where
  "jkey v k =
     (case v of
        PDict d \<Rightarrow> (case map_of d k of None \<Rightarrow> Inl KeyErrorC | Some x \<Rightarrow> Inr x)
      | _ \<Rightarrow> Inl TypeErrorC)"

definition jfirst :: "pyj \<Rightarrow> exn_class + pyj" where
  "jfirst v =
     (case v of
        PList xs \<Rightarrow> (case xs of [] \<Rightarrow> Inl IndexErrorC | x # _ \<Rightarrow> Inr x)
      | PStr s \<Rightarrow> (case s of [] \<Rightarrow> Inl IndexErrorC | c # _ \<Rightarrow> Inr (PStr [c]))
      | PDict _ \<Rightarrow> Inl KeyErrorC
      | _ \<Rightarrow> Inl TypeErrorC)"

lemma jkey_Inr: "jkey v k = Inr x \<longleftrightarrow> (\<exists>d. v = PDict d \<and> map_of d k = Some x)"
  by (auto simp: jkey_def split: pyj.splits option.splits)

lemma jget_eq: "map_of d k = Some x \<Longrightarrow> jget d k = x"
  by (simp add: jget_def)

text \<open>\<^verbatim>\<open>needle in text\<close>.\<close>

fun contains :: "string \<Rightarrow> string \<Rightarrow> bool" where
  "contains needle [] = (needle = [])"
| "contains needle (c # cs) = (take (length needle) (c # cs) = needle \<or> contains needle cs)"

end
