(* ===== verification/Evaluation_Data.thy ===== *)
theory Evaluation_Data
  imports Float_Arith Py_Json Schemas
begin

section \<open>Benchmark runs and evaluation results\<close>

text \<open>
  The data of the offline evaluation: \<^verbatim>\<open>benchmarks/models.py\<close> as far as the evaluation
  reads it, and \<^verbatim>\<open>evaluation/models.py\<close>. UUIDs are numbers; the creation time stamps,
  which nothing reads, are left out. \<^verbatim>\<open>JsonValue\<close> metadata is \<open>pyj\<close>. Scores are
  doubles (\<open>Float_Arith\<close>).
\<close>

datatype benchmark_category =
  BC_QA | BC_SUMMARIZATION | BC_EXTRACTION | BC_CLASSIFICATION | BC_JSON | BC_REASONING | BC_CODING

fun benchmark_category_value :: "benchmark_category \<Rightarrow> string" where
  "benchmark_category_value BC_QA = ''qa''"
| "benchmark_category_value BC_SUMMARIZATION = ''summarization''"
| "benchmark_category_value BC_EXTRACTION = ''extraction''"
| "benchmark_category_value BC_CLASSIFICATION = ''classification''"
| "benchmark_category_value BC_JSON = ''json''"
| "benchmark_category_value BC_REASONING = ''reasoning''"
| "benchmark_category_value BC_CODING = ''coding''"

text \<open>The task extends the inference request; the provenance fields are for split tooling only.\<close>

record benchmark_task = inference_request +
  bt_task_id :: string
  bt_category :: benchmark_category
  bt_evaluation_metadata :: "pyj dict"
  bt_acceptable_threshold :: "rat option"

record benchmark_dataset =
  bd_name :: string
  bd_version :: string
  bd_tasks :: "benchmark_task list"

record benchmark_run =
  bn_run_id :: nat
  bn_dataset :: benchmark_dataset
  bn_dataset_sha256 :: string
  bn_selected_task_ids :: "string list"
  bn_models :: "model_config list"

record benchmark_result =
  br_result_id :: nat
  br_run_id :: nat
  br_task_id :: string
  br_model_id :: string
  br_success :: bool
  br_response :: "inference_response option"
  br_error_category :: "string option"
  br_error_details :: "pyj dict"
  br_latency_ms :: rat

definition unique_ids :: "benchmark_dataset \<Rightarrow> bool" where
  "unique_ids d \<longleftrightarrow> \<not> has_duplicates (map bt_task_id (bd_tasks d)) \<and> bd_tasks d \<noteq> []"

definition consistent_outcome :: "benchmark_result \<Rightarrow> bool" where
  "consistent_outcome r \<longleftrightarrow>
     \<not> (br_success r \<noteq> (br_response r \<noteq> None) \<or> br_success r \<noteq> (br_error_category r = None))
   \<and> (case br_response r of None \<Rightarrow> True | Some x \<Rightarrow> rs_model_id x = br_model_id r)
   \<and> \<not> (br_success r \<and> br_error_details r \<noteq> []) \<and> 0 \<le> br_latency_ms r"

subsection \<open>EvaluationResult\<close>

datatype evaluation_status = ES_EVALUATED | ES_PARTIAL | ES_REQUIRES_SEMANTIC_JUDGE | ES_REQUIRES_FUNCTIONAL_EXECUTION

record evaluation_result =
  ev_benchmark_result_id :: nat
  ev_run_id :: nat
  ev_task_id :: string
  ev_model_id :: string
  ev_evaluator_name :: string
  ev_evaluator_version :: string
  ev_status :: evaluation_status
  ev_quality_score :: "rat option"
  ev_acceptable_threshold :: rat
  ev_acceptable :: "bool option"
  ev_reason :: string
  ev_component_scores :: "rat dict"
  ev_details :: "pyj dict"
  ev_call_made :: bool
  ev_input_tokens :: int
  ev_output_tokens :: int
  ev_latency_ms :: rat
  ev_cost_usd :: dec

definition consistent_acceptability :: "evaluation_result \<Rightarrow> bool" where
  "consistent_acceptability e \<longleftrightarrow>
     (if ev_status e = ES_EVALUATED
      then (case ev_quality_score e of None \<Rightarrow> False
            | Some q \<Rightarrow> ev_acceptable e = Some (ev_acceptable_threshold e \<le> q))
      else ev_acceptable e = None)
   \<and> list_all (\<lambda>(k, x). 0 \<le> x \<and> x \<le> 1) (ev_component_scores e)"

definition evaluation_result_valid :: "evaluation_result \<Rightarrow> bool" where
  "evaluation_result_valid e \<longleftrightarrow>
     (case ev_quality_score e of None \<Rightarrow> True | Some q \<Rightarrow> 0 \<le> q \<and> q \<le> 1)
   \<and> 0 \<le> ev_acceptable_threshold e \<and> ev_acceptable_threshold e \<le> 1
   \<and> 0 \<le> ev_input_tokens e \<and> 0 \<le> ev_output_tokens e \<and> 0 \<le> ev_latency_ms e
   \<and> consistent_acceptability e"

definition EvaluationResult :: "evaluation_result \<Rightarrow> exn_class + evaluation_result" where
  "EvaluationResult e = (if evaluation_result_valid e then Inr e else Inl ValidationErrorC)"

text \<open>The defaults of the fields of an evaluation that made no call.\<close>

definition plain_evaluation ::
  "benchmark_task \<Rightarrow> benchmark_result \<Rightarrow> string \<Rightarrow> string \<Rightarrow> evaluation_status \<Rightarrow> rat option \<Rightarrow> rat \<Rightarrow> bool option \<Rightarrow>
   string \<Rightarrow> rat dict \<Rightarrow> pyj dict \<Rightarrow> evaluation_result" where
  "plain_evaluation task result name version status quality threshold acceptable reason components details =
     \<lparr>ev_benchmark_result_id = br_result_id result, ev_run_id = br_run_id result, ev_task_id = bt_task_id task,
      ev_model_id = br_model_id result, ev_evaluator_name = name, ev_evaluator_version = version,
      ev_status = status, ev_quality_score = quality, ev_acceptable_threshold = threshold,
      ev_acceptable = acceptable, ev_reason = reason, ev_component_scores = components, ev_details = details,
      ev_call_made = False, ev_input_tokens = 0, ev_output_tokens = 0, ev_latency_ms = 0,
      ev_cost_usd = \<lparr>coeff = 0, expo = 0\<rparr>\<rparr>"

end
