(* ===== verification/Eval_Text.thy ===== *)
theory Eval_Text
  imports Py_Regex Py_Json
begin

section \<open>Normalizing model output for scoring\<close>

text \<open>
  \<^verbatim>\<open>evaluation/normalization.py\<close>: what the evaluators read out of a model's answer. The
  two sentence patterns are written out as scans, because a run of marks, of closers and the
  look-ahead leave the backtracking engine no choice; the short prefix pattern of
  \<^verbatim>\<open>final_answer\<close> runs on the engine of \<open>Py_Regex\<close>.
\<close>

text \<open>
  \<^verbatim>\<open>str.casefold\<close> on Latin-1. (The micro sign folds to a Greek letter outside Latin-1;
  kept as it is, the comparisons of folded texts come out the same.)
\<close>

definition casefold :: "string \<Rightarrow> string" where
  "casefold s = concat (map (\<lambda>c. if c = CHR 0xDF then ''ss'' else [lower_char c]) s)"

definition rstrip :: "string \<Rightarrow> string" where
  "rstrip s = rev (dropWhile isspace (rev s))"

definition lstrip_of :: "string \<Rightarrow> string \<Rightarrow> string" where
  "lstrip_of chars s = dropWhile (\<lambda>c. c \<in> set chars) s"

definition ascii_letter :: "char \<Rightarrow> bool" where
  "ascii_letter c = (let n = (of_char c :: nat) in (65 \<le> n \<and> n \<le> 90) \<or> (97 \<le> n \<and> n \<le> 122))"

definition ascii_upper :: "char \<Rightarrow> bool" where
  "ascii_upper c = (let n = (of_char c :: nat) in 65 \<le> n \<and> n \<le> 90)"

text \<open>\<^verbatim>\<open>str.isdigit\<close> also accepts the three superscript digits of Latin-1.\<close>

definition py_isdigit :: "char \<Rightarrow> bool" where
  "py_isdigit c = (let n = (of_char c :: nat) in (48 \<le> n \<and> n \<le> 57) \<or> n \<in> {178, 179, 185})"

subsection \<open>Counting sentences\<close>

definition sentence_mark :: "char \<Rightarrow> bool" where
  "sentence_mark c \<longleftrightarrow> c \<in> set ''.!?''"

definition closer :: "char \<Rightarrow> bool" where
  "closer c \<longleftrightarrow> c \<in> {CHR 0x22, CHR 0x27, CHR '')'', CHR '']'', CHR ''}''}"

definition HONORIFICS :: "string list" where
  "HONORIFICS = [''mr.'', ''mrs.'', ''ms.'', ''dr.'', ''prof.'', ''sr.'', ''jr.'']"

definition ALWAYS_CONTINUING_ABBREVIATIONS :: "string list" where
  "ALWAYS_CONTINUING_ABBREVIATIONS = [''e.g.'', ''i.e.'']"

definition CLOCK_ABBREVIATIONS :: "string list" where
  "CLOCK_ABBREVIATIONS = [''a.m.'', ''p.m.'']"

definition CALENDAR_CONTINUATIONS :: "string list" where
  "CALENDAR_CONTINUATIONS =
     [''monday'', ''tuesday'', ''wednesday'', ''thursday'', ''friday'', ''saturday'', ''sunday'',
      ''january'', ''february'', ''march'', ''april'', ''may'', ''june'', ''july'', ''august'',
      ''september'', ''october'', ''november'', ''december'', ''today'', ''tomorrow'', ''tonight'']"

definition STRONG_SENTENCE_STARTERS :: "string list" where
  "STRONG_SENTENCE_STARTERS =
     [''a'', ''an'', ''the'', ''he'', ''she'', ''it'', ''they'', ''we'', ''i'', ''this'', ''that'', ''these'', ''those'',
      ''however'', ''nevertheless'', ''meanwhile'', ''then'']"

text \<open>
  The token that ends with the period, read backwards from it: letter-period pairs or a run of
  letters. \<^verbatim>\<open>search\<close> finds the leftmost start, so the longer of the two.
\<close>

fun pairs_length :: "string \<Rightarrow> nat" where
  "pairs_length (d # l # rest) = (if d = CHR ''.'' \<and> ascii_letter l then 2 + pairs_length rest else 0)"
| "pairs_length _ = 0"

definition run_length :: "string \<Rightarrow> nat" where
  "run_length s = (case s of [] \<Rightarrow> 0 | d # rest \<Rightarrow>
     let n = length (takeWhile ascii_letter rest) in if d = CHR ''.'' \<and> 0 < n then n + 1 else 0)"

definition period_token :: "string \<Rightarrow> string option" where
  "period_token backwards =
     (let n = max (pairs_length backwards) (run_length backwards) in
      if n = 0 then None else Some (rev (take n backwards)))"

text \<open>
  \<open>before\<close> is the text before the marks, backwards; \<open>after_marks\<close> and \<open>after\<close> what follows the
  marks and the whole match.
\<close>

definition period_is_nonterminal :: "string \<Rightarrow> string \<Rightarrow> string \<Rightarrow> string \<Rightarrow> bool" where
  "period_is_nonterminal before marks after_marks after =
     (if marks \<noteq> ''.'' then False
      else if (case (before, after_marks) of (p # _, n # _) \<Rightarrow> py_isdigit p \<and> py_isdigit n | _ \<Rightarrow> False) then True
      else case period_token (CHR ''.'' # before) of
        None \<Rightarrow> False
      | Some token \<Rightarrow>
          let normalized = casefold token;
              following0 = lstrip after;
              following = (if normalized \<in> set ALWAYS_CONTINUING_ABBREVIATIONS
                then lstrip (lstrip_of '',;:'' following0) else following0);
              next_token = takeWhile ascii_letter following;
              next_word = casefold next_token in
          if following = [] then False
          else if next_token = [] then False
          else if normalized \<in> set HONORIFICS \<or> normalized \<in> set ALWAYS_CONTINUING_ABBREVIATIONS then True
          else if length token = 2 \<and> ascii_upper (hd token) then True
          else if normalized \<in> set CLOCK_ABBREVIATIONS
          then next_word \<in> set CALENDAR_CONTINUATIONS \<or> \<not> ascii_upper (hd next_token)
          else if normalized = ''u.s.'' then next_word \<notin> set STRONG_SENTENCE_STARTERS
          else False)"

text \<open>The texts that follow the terminal boundaries, in order.\<close>

function sentence_tails :: "string \<Rightarrow> string \<Rightarrow> string list" where
  "sentence_tails before [] = []"
| "sentence_tails before (c # cs) =
     (if \<not> sentence_mark c then sentence_tails (c # before) cs
      else
        let marks = c # takeWhile sentence_mark cs;
            after_marks = dropWhile sentence_mark cs;
            closers = takeWhile closer after_marks;
            after = dropWhile closer after_marks in
        if after \<noteq> [] \<and> \<not> isspace (hd after) then sentence_tails (c # before) cs
        else (if period_is_nonterminal before marks after_marks after then [] else [after])
          @ sentence_tails (rev closers @ rev marks @ before) after)"
  by pat_completeness auto
termination
proof (relation "measure (\<lambda>(before, s). length s)")
  show "wf (measure (\<lambda>(before :: string, s :: string). length s))" by simp
next
  fix before :: string and c :: char and cs :: string and marks after_marks closers after
  assume "after_marks = dropWhile sentence_mark cs" "after = dropWhile closer after_marks"
  then have "length after \<le> length cs" using length_dropWhile_le le_trans by metis
  then show "((rev closers @ rev marks @ before, after), before, c # cs) \<in> measure (\<lambda>(before, s). length s)" by simp
qed simp_all

definition count_sentences :: "string \<Rightarrow> nat" where
  "count_sentences value =
     (let stripped = strip value in
      if stripped = [] then 0
      else
        let tails = sentence_tails [] stripped;
            tail = (if tails = [] then stripped else last tails) in
        length tails + (if strip tail = [] then 0 else 1))"

subsection \<open>Short answers\<close>

definition numeric_end :: "string \<Rightarrow> bool" where
  "numeric_end s =
     (case rev s of m # d2 # p # d1 # _ \<Rightarrow> sentence_mark m \<and> digit_char d2 \<and> p = CHR ''.'' \<and> digit_char d1
      | _ \<Rightarrow> False)"

definition normalize_answer :: "string \<Rightarrow> bool \<Rightarrow> string" where
  "normalize_answer value case_sensitive =
     (let v0 = join '' '' (split_ws (strip value));
          v1 = (if 2 \<le> length v0 \<and> hd v0 = last v0 \<and> hd v0 \<in> {CHR 0x22, CHR 0x27, CHR 0x60}
                then strip (butlast (tl v0)) else v0);
          v2 = (if v1 \<noteq> [] \<and> sentence_mark (last v1) \<and> \<not> numeric_end v1 then rstrip (butlast v1) else v1)
      in if case_sensitive then v2 else casefold v2)"

text \<open>\<^verbatim>\<open>str.splitlines\<close> on Latin-1.\<close>

definition line_break :: "char \<Rightarrow> bool" where
  "line_break c \<longleftrightarrow> (of_char c :: nat) \<in> {10, 11, 12, 13, 28, 29, 30, 133}"

fun splitlines_from :: "string \<Rightarrow> string \<Rightarrow> string list" where
  "splitlines_from line [] = (if line = [] then [] else [rev line])"
| "splitlines_from line (c # cs) =
     (if c = CHR 0x0D \<and> cs \<noteq> [] \<and> hd cs = CHR 0x0A then splitlines_from line cs
      else if line_break c then rev line # splitlines_from [] cs
      else splitlines_from (c # line) cs)"

definition splitlines :: "string \<Rightarrow> string list" where
  "splitlines s = splitlines_from [] s"

definition answer_prefix :: regex where
  "answer_prefix =
     RSeq (RAlt (RSeq (rlit ''final'') (RAlt (rlit '' answer'') REmpty)) (rlit ''answer''))
    (RSeq (RStar (RClass isspace)) (RSeq (rchar CHR '':'') (RStar (RClass isspace))))"

definition final_answer :: "string \<Rightarrow> string" where
  "final_answer value =
     (let lines = filter (\<lambda>l. l \<noteq> []) (map strip (splitlines value));
          candidate = (if lines = [] then [] else last lines) in
      case rm answer_prefix (None, candidate) of
        [] \<Rightarrow> candidate
      | (_, rest) # _ \<Rightarrow> drop (length candidate - length rest) candidate)"

text \<open>
  The fence pattern must match the whole text: three backticks, an optional language, and the
  three backticks at the end; its lazy group and the white space around it leave, after
  \<^verbatim>\<open>strip\<close>, the stripped text between.
\<close>

definition fence :: string where "fence = replicate 3 CHR 0x60"

definition drop_language :: "string \<Rightarrow> string" where
  "drop_language s =
     (if lower (take 4 s) = ''json'' then drop 4 s else if lower (take 6 s) = ''python'' then drop 6 s else s)"

definition strip_code_fence :: "string \<Rightarrow> string" where
  "strip_code_fence value =
     (let t = strip value in
      if 6 \<le> length t \<and> take 3 t = fence \<and> drop (length t - 3) t = fence
      then strip (drop_language (take (length t - 6) (drop 3 t))) else t)"

subsection \<open>Flattening\<close>

definition dict_update :: "pyj dict \<Rightarrow> pyj dict \<Rightarrow> pyj dict" where
  "dict_update d e = foldl (\<lambda>acc (k, v). dict_set acc k v) d e"

fun flatten_json :: "string \<Rightarrow> pyj \<Rightarrow> pyj dict"
  and flatten_fields :: "string \<Rightarrow> (string \<times> pyj) list \<Rightarrow> pyj dict \<Rightarrow> pyj dict"
  and flatten_elements :: "string \<Rightarrow> nat \<Rightarrow> pyj list \<Rightarrow> pyj dict \<Rightarrow> pyj dict" where
  "flatten_json path (PDict d) = flatten_fields path d []"
| "flatten_json path (PList xs) = flatten_elements path 0 xs []"
| "flatten_json path PNull = [(path, PNull)]"
| "flatten_json path (PBool b) = [(path, PBool b)]"
| "flatten_json path (PInt n) = [(path, PInt n)]"
| "flatten_json path (PFlt x) = [(path, PFlt x)]"
| "flatten_json path (PNonFinite x) = [(path, PNonFinite x)]"
| "flatten_json path (PStr s) = [(path, PStr s)]"
| "flatten_fields path [] acc = acc"
| "flatten_fields path ((key, child) # d) acc =
     flatten_fields path d (dict_update acc (flatten_json (path @ ''.'' @ key) child))"
| "flatten_elements path i [] acc = acc"
| "flatten_elements path i (child # xs) acc =
     flatten_elements path (Suc i) xs (dict_update acc (flatten_json (path @ ''['' @ show_nat i @ '']'') child))"

subsection \<open>Facts about the readings\<close>

text \<open>Every boundary consumes a mark.\<close>

lemma sentence_tails_bound: "length (sentence_tails before s) \<le> length (filter sentence_mark s)"
proof (induction before s rule: sentence_tails.induct)
  case (1 before)
  then show ?case by simp
next
  case (2 before c cs)
  define marks where "marks = c # takeWhile sentence_mark cs"
  define after_marks where "after_marks = dropWhile sentence_mark cs"
  define after where "after = dropWhile closer after_marks"
  have less: "length (filter sentence_mark after) \<le> length (filter sentence_mark cs)"
  proof -
    have "cs = takeWhile sentence_mark cs @ takeWhile closer after_marks @ after"
      by (simp add: after_marks_def after_def)
    then have "filter sentence_mark cs = filter sentence_mark (takeWhile sentence_mark cs)
        @ filter sentence_mark (takeWhile closer after_marks) @ filter sentence_mark after"
      by (metis filter_append)
    then show ?thesis by simp
  qed
  show ?case
  proof (cases "sentence_mark c \<and> (after = [] \<or> isspace (hd after))")
    case True
    have "length (sentence_tails (rev (takeWhile closer after_marks) @ rev marks @ before) after)
        \<le> length (filter sentence_mark after)"
      by (rule "2.IH"(3)) (use True in \<open>simp_all add: marks_def after_marks_def after_def\<close>)
    then show ?thesis using True less
      by (auto simp: Let_def marks_def [symmetric] after_marks_def [symmetric] after_def [symmetric]
          simp del: dropWhile_eq_Nil_conv)
  next
    case False
    then have "length (sentence_tails (c # before) cs) \<le> length (filter sentence_mark cs)"
      using "2.IH"(1,2) by (cases "sentence_mark c") (simp_all add: after_def after_marks_def)
    then show ?thesis using False
      by (auto simp: Let_def after_marks_def [symmetric] after_def [symmetric] simp del: dropWhile_eq_Nil_conv)
  qed
qed

lemma count_sentences_bounds:
  "count_sentences s = 0 \<longleftrightarrow> strip s = []"
  "count_sentences s \<le> Suc (length (filter sentence_mark (strip s)))"
proof -
  show "count_sentences s = 0 \<longleftrightarrow> strip s = []"
    by (cases "sentence_tails [] (strip s)") (auto simp: count_sentences_def Let_def)
  show "count_sentences s \<le> Suc (length (filter sentence_mark (strip s)))"
    using sentence_tails_bound [of "[]" "strip s"] by (simp add: count_sentences_def Let_def)
qed

definition scalar :: "pyj \<Rightarrow> bool" where
  "scalar v = (case v of PDict _ \<Rightarrow> False | PList _ \<Rightarrow> False | _ \<Rightarrow> True)"

definition flat :: "pyj dict \<Rightarrow> bool" where
  "flat d \<longleftrightarrow> distinct (map fst d) \<and> (\<forall>(k, v)\<in>set d. scalar v)"

lemma dict_set_subset: "set (dict_set d k v) \<subseteq> insert (k, v) (set d)"
  by (induction d k v rule: dict_set.induct) auto

lemma flat_set: "flat d \<Longrightarrow> scalar v \<Longrightarrow> flat (dict_set d k v)"
  using dict_set_subset [of d k v] dict_set_distinct [of d k v] unfolding flat_def by blast

lemma flat_update: "flat d \<Longrightarrow> flat e \<Longrightarrow> flat (dict_update d e)"
  unfolding dict_update_def
proof (induction e arbitrary: d)
  case (Cons kv e)
  obtain k v where kv: "kv = (k, v)" by (cases kv)
  have "flat (dict_set d k v)" "flat e" using Cons.prems by (auto intro: flat_set simp: kv flat_def [of "_ # _"] flat_def [of e])
  then show ?case using Cons.IH by (simp add: kv)
qed simp

text \<open>Flattening gives each path once, with a scalar.\<close>

lemma flat_flatten:
  "flat (flatten_json path v)"
  "flat acc \<Longrightarrow> flat (flatten_fields path d acc)"
  "flat acc \<Longrightarrow> flat (flatten_elements path i xs acc)"
  by (induction path v and path d acc and path i xs acc rule: flatten_json_flatten_fields_flatten_elements.induct)
    (simp_all add: flat_update, simp_all add: flat_def scalar_def)

text \<open>
  Paths do not determine structure: a key with a dot reads like a nested object, and empty
  containers leave no trace.
\<close>

lemma flatten_confuses_structure:
  "flatten_json ''$'' (PDict [(''a'', PDict [(''b'', PInt 1)])]) = flatten_json ''$'' (PDict [(''a.b'', PInt 1)])"
  "flatten_json ''$'' (PDict [(''items'', PList [])]) = flatten_json ''$'' (PDict [])"
  by (simp_all add: dict_update_def)

end
