(* ===== verification/Evaluators.thy ===== *)
theory Evaluators
  imports Evaluation_Data Eval_Text
begin

section \<open>The deterministic evaluators\<close>

text \<open>
  \<^verbatim>\<open>evaluation/evaluators.py\<close>: a score for a model's answer per benchmark category.
  Python's own readers (\<^verbatim>\<open>json.loads\<close>, \<^verbatim>\<open>ast.parse\<close> with the attributes of
  \<^verbatim>\<open>ast\<close>, and \<^verbatim>\<open>str\<close> of a float or container) are the fields of a record
  \<open>tools\<close>; a syntax tree is seen through what the evaluator asks of it.
\<close>

record ast_node =
  nd_class :: string
  nd_called_name :: "string option"

record ast_function =
  fn_name :: string
  fn_arity :: nat
  fn_vararg :: bool
  fn_kwarg :: bool
  fn_nodes :: "ast_node list"

text \<open>\<open>md_functions\<close>: the (async) function definitions of the body; \<open>md_nodes\<close>: \<^verbatim>\<open>ast.walk\<close>.\<close>

record ast_module =
  md_functions :: "ast_function list"
  md_nodes :: "ast_node list"

datatype parsed_source = BadSyntax | ParseRaised exn_class | Parsed ast_module

datatype ast_attribute = NoAttribute | NotAClass | NodeClass "string \<Rightarrow> bool"

record tools =
  tl_loads :: "string \<Rightarrow> exn_class + pyj"
  tl_parse :: "string \<Rightarrow> parsed_source"
  tl_ast :: "string \<Rightarrow> ast_attribute"
  tl_repr :: "pyj \<Rightarrow> string"

definition EVALUATION_VERSION :: string where "EVALUATION_VERSION = ''1.1.0''"

text \<open>The literal 0.8 is the nearest double.\<close>

definition DEFAULT_THRESHOLDS :: "benchmark_category \<Rightarrow> rat" where
  "DEFAULT_THRESHOLDS c = (if c = BC_SUMMARIZATION then fl (8 / 10) else 1)"

subsection \<open>Shared parts\<close>

definition f1 :: "nat \<Rightarrow> nat \<Rightarrow> nat \<Rightarrow> rat" where
  "f1 matched expected predicted =
     (if expected = 0 \<and> predicted = 0 then 1
      else
        let precision = (if predicted \<noteq> 0 then fdiv (of_nat matched) (of_nat predicted) else 0);
            recall = (if expected \<noteq> 0 then fdiv (of_nat matched) (of_nat expected) else 0) in
        if fadd precision recall \<noteq> 0
        then fdiv (fmul (fmul 2 precision) recall) (fadd precision recall) else 0)"

text \<open>Python's \<^verbatim>\<open>type(left) is type(right)\<close> on JSON scalars and containers.\<close>

fun type_name :: "pyj \<Rightarrow> string" where
  "type_name PNull = ''NoneType''"
| "type_name (PBool _) = ''bool''"
| "type_name (PInt _) = ''int''"
| "type_name (PFlt _) = ''float''"
| "type_name (PNonFinite _) = ''float''"
| "type_name (PStr _) = ''str''"
| "type_name (PList _) = ''list''"
| "type_name (PDict _) = ''dict''"

text \<open>Values of a flattened object are scalars; NaN equals nothing.\<close>

definition json_equal :: "pyj \<Rightarrow> pyj \<Rightarrow> bool" where
  "json_equal l r =
     (if type_name l \<noteq> type_name r then False
      else case (l, r) of
        (PStr a, PStr b) \<Rightarrow> normalize_answer a False = normalize_answer b False
      | (PNonFinite a, PNonFinite b) \<Rightarrow> a = b \<and> a \<noteq> NaN
      | _ \<Rightarrow> l = r)"

definition show_signed :: "int \<Rightarrow> string" where
  "show_signed n = (if n < 0 then ''-'' @ show_nat (nat (- n)) else show_nat (nat n))"

definition py_str :: "tools \<Rightarrow> pyj \<Rightarrow> string" where
  "py_str tools v =
     (case v of PStr s \<Rightarrow> s | PInt n \<Rightarrow> show_signed n | PBool b \<Rightarrow> (if b then ''True'' else ''False'')
      | PNull \<Rightarrow> ''None'' | _ \<Rightarrow> tl_repr tools v)"

text \<open>\<^verbatim>\<open>d.get(k, d.get(k'))\<close>.\<close>

definition jget_or :: "pyj dict \<Rightarrow> string \<Rightarrow> string \<Rightarrow> pyj" where
  "jget_or d k k' = (case map_of d k of Some v \<Rightarrow> v | None \<Rightarrow> jget d k')"

text \<open>A scored answer: score, reason, component scores, details.\<close>

type_synonym scored = "rat \<times> string \<times> rat dict \<times> pyj dict"

definition bool_score :: "bool \<Rightarrow> rat" where
  "bool_score b = (if b then 1 else 0)"

subsection \<open>Accepted answers\<close>

definition is_text_or_number :: "pyj \<Rightarrow> bool" where
  "is_text_or_number v = (type_name v \<in> {''str'', ''int'', ''float'', ''bool''})"

definition accepted_answers :: "tools \<Rightarrow> benchmark_task \<Rightarrow> exn_class + string list" where
  "accepted_answers tools task =
     (let answers0 = jget_or (bt_evaluation_metadata task) ''accepted_answers'' ''reference'';
          answers = (if type_name answers0 \<in> {''str'', ''int'', ''float''} then PList [PStr (py_str tools answers0)]
            else answers0) in
      case answers of
        PList xs \<Rightarrow> if xs = [] \<or> \<not> list_all is_text_or_number xs then Inl ValueErrorC
          else Inr (map (py_str tools) xs)
      | _ \<Rightarrow> Inl ValueErrorC)"

definition expected_label :: "benchmark_task \<Rightarrow> exn_class + string list" where
  "expected_label task =
     (case jget_or (bt_evaluation_metadata task) ''expected_label'' ''reference'' of
        PStr s \<Rightarrow> Inr [s] | _ \<Rightarrow> Inl ValueErrorC)"

definition accepted :: "tools \<Rightarrow> benchmark_task \<Rightarrow> exn_class + string list" where
  "accepted tools task =
     (if bt_category task = BC_CLASSIFICATION then expected_label task else accepted_answers tools task)"

definition candidate :: "benchmark_task \<Rightarrow> string \<Rightarrow> string" where
  "candidate task response = (if bt_category task = BC_REASONING then final_answer response else response)"

definition answer_score :: "tools \<Rightarrow> benchmark_task \<Rightarrow> string \<Rightarrow> exn_class + scored" where
  "answer_score tools task response =
     rbind (accepted tools task) (\<lambda>answers.
     let predicted = normalize_answer (candidate task response) False;
         matched = list_ex (\<lambda>a. predicted = normalize_answer a False) answers in
     Inr (bool_score matched,
       (if matched then ''Matched an explicitly accepted answer.'' else ''Did not match an explicitly accepted answer.''),
       [(''exact_match'', bool_score matched)],
       [(''predicted'', PStr predicted), (''accepted_answers'', PList (map PStr answers))]))"

subsection \<open>Structured answers\<close>

definition parse_json_response :: "tools \<Rightarrow> string \<Rightarrow> exn_class + pyj" where
  "parse_json_response tools value = tl_loads tools (strip_code_fence value)"

definition count_paths :: "(pyj \<Rightarrow> pyj \<Rightarrow> bool) \<Rightarrow> pyj dict \<Rightarrow> pyj dict \<Rightarrow> nat" where
  "count_paths same expected predicted =
     length (filter (\<lambda>(path, v). case map_of predicted path of None \<Rightarrow> False | Some w \<Rightarrow> same v w) expected)"

definition not_json :: "exn_class \<Rightarrow> bool" where
  "not_json c \<longleftrightarrow> issubclass c ValueErrorC \<or> issubclass c TypeErrorC"

definition extraction_score :: "tools \<Rightarrow> benchmark_task \<Rightarrow> string \<Rightarrow> exn_class + scored" where
  "extraction_score tools task response =
     (let expected = jget_or (bt_evaluation_metadata task) ''expected'' ''reference'' in
      case parse_json_response tools response of
        Inl c \<Rightarrow>
          if not_json c
          then Inr (0, ''Response was not valid JSON.'', [(''syntax'', 0), (''field_f1'', 0)], [(''valid_json'', PBool False)])
          else Inl c
      | Inr predicted \<Rightarrow>
          let e = flatten_json ''$'' expected; p = flatten_json ''$'' predicted;
              matched = count_paths json_equal e p; score = f1 matched (length e) (length p) in
          Inr (score,
            ''Matched '' @ show_nat matched @ '' of '' @ show_nat (length e) @ '' expected values with ''
              @ show_nat (length p) @ '' predicted values.'',
            [(''syntax'', 1), (''field_f1'', score)],
            [(''matched_fields'', PInt (int matched)), (''expected_fields'', PInt (int (length e))),
             (''predicted_fields'', PInt (int (length p)))]))"

definition json_score :: "tools \<Rightarrow> benchmark_task \<Rightarrow> string \<Rightarrow> exn_class + scored" where
  "json_score tools task response =
     (let expected = jget_or (bt_evaluation_metadata task) ''expected'' ''reference'' in
      case parse_json_response tools response of
        Inl c \<Rightarrow>
          if not_json c
          then Inr (0, ''Response was not valid JSON.'', [(''syntax'', 0), (''schema'', 0), (''values'', 0)],
                 [(''valid_json'', PBool False)])
          else Inl c
      | Inr predicted \<Rightarrow>
          let e = flatten_json ''$'' expected; p = flatten_json ''$'' predicted;
              structural = count_paths (\<lambda>v w. type_name w = type_name v) e p;
              values = count_paths json_equal e p;
              schema_score = f1 structural (length e) (length p);
              value_score = (if e \<noteq> [] then fdiv (of_nat values) (of_nat (length e)) else bool_score (p = [])) in
          Inr (fdiv (fadd (fadd 1 schema_score) value_score) 3,
            ''Combined JSON syntax, required structure, and expected-value scores.'',
            [(''syntax'', 1), (''schema'', schema_score), (''values'', value_score)],
            [(''expected_fields'', PInt (int (length e))), (''predicted_fields'', PInt (int (length p))),
             (''matched_values'', PInt (int values))]))"

subsection \<open>Summaries\<close>

definition nonblank_string :: "pyj \<Rightarrow> bool" where
  "nonblank_string v = (case v of PStr s \<Rightarrow> strip s \<noteq> [] | _ \<Rightarrow> False)"

definition text_of :: "pyj \<Rightarrow> string" where
  "text_of v = (case v of PStr s \<Rightarrow> s | _ \<Rightarrow> [])"

definition fact_group :: "pyj \<Rightarrow> exn_class + string list" where
  "fact_group f =
     (let group = (case f of PList xs \<Rightarrow> xs | v \<Rightarrow> [v]) in
      if group = [] \<or> \<not> list_all nonblank_string group then Inl ValueErrorC else Inr (map text_of group))"

definition fact_groups :: "benchmark_task \<Rightarrow> exn_class + string list list" where
  "fact_groups task =
     (case jget_or (bt_evaluation_metadata task) ''required_facts'' ''reference'' of
        PList facts \<Rightarrow> if facts = [] then Inl ValueErrorC else mapM fact_group facts
      | _ \<Rightarrow> Inl ValueErrorC)"

definition is_string :: "pyj \<Rightarrow> bool" where
  "is_string v = (type_name v = ''str'')"

definition forbidden_claims :: "benchmark_task \<Rightarrow> exn_class + string list" where
  "forbidden_claims task =
     (case (case map_of (bt_evaluation_metadata task) ''forbidden_claims'' of None \<Rightarrow> PList [] | Some v \<Rightarrow> v) of
        PList xs \<Rightarrow> if list_all is_string xs then Inr (map text_of xs) else Inl ValueErrorC
      | _ \<Rightarrow> Inl ValueErrorC)"

definition coverage_score :: "benchmark_task \<Rightarrow> string \<Rightarrow> exn_class + scored" where
  "coverage_score task response =
     (let normalized = normalize_answer response False in
      rbind (fact_groups task) (\<lambda>groups.
      let matched = length (filter (\<lambda>group. list_ex (\<lambda>v. contains (normalize_answer v False) normalized) group) groups);
          coverage = fdiv (of_nat matched) (of_nat (length groups));
          one_sentence = bool_score (count_sentences response = 1) in
      rbind (forbidden_claims task) (\<lambda>forbidden.
      let violations = filter (\<lambda>claim. contains (normalize_answer claim False) normalized) forbidden;
          score = (if violations \<noteq> [] then 0 else fadd (fmul (fl (8 / 10)) coverage) (fmul (fl (2 / 10)) one_sentence)) in
      Inr (score,
        ''Covered '' @ show_nat matched @ '' of '' @ show_nat (length groups) @ '' required facts; one-sentence constraint ''
          @ (if one_sentence \<noteq> 0 then ''met'' else ''not met'') @ ''.''
          @ (if violations \<noteq> [] then '' An explicitly forbidden claim was detected.'' else []),
        [(''required_fact_coverage'', coverage), (''format_compliance'', one_sentence),
         (''forbidden_claim_compliance'', bool_score (violations = []))],
        [(''matched_facts'', PInt (int matched)), (''required_facts'', PInt (int (length groups))),
         (''forbidden_violations'', PList (map PStr violations))]))))"

text \<open>\<^verbatim>\<open>n <= v\<close> for a count and a JSON value.\<close>

definition count_at_most :: "nat \<Rightarrow> pyj \<Rightarrow> exn_class + bool" where
  "count_at_most n v =
     (case v of
        PInt m \<Rightarrow> Inr (int n \<le> m)
      | PBool b \<Rightarrow> Inr (n \<le> (if b then 1 else 0))
      | PFlt x \<Rightarrow> Inr (of_nat n \<le> x)
      | PNonFinite x \<Rightarrow> Inr (x = PlusInf)
      | _ \<Rightarrow> Inl TypeErrorC)"

text \<open>The elements a \<^verbatim>\<open>for\<close> loop visits.\<close>

definition iterate :: "pyj \<Rightarrow> exn_class + pyj list" where
  "iterate v =
     (case v of
        PList xs \<Rightarrow> Inr xs | PStr s \<Rightarrow> Inr (map (\<lambda>c. PStr [c]) s) | PDict d \<Rightarrow> Inr (map (PStr \<circ> fst) d)
      | _ \<Rightarrow> Inl TypeErrorC)"

definition optional_check :: "string \<Rightarrow> pyj option \<Rightarrow> (pyj \<Rightarrow> exn_class + bool) \<Rightarrow> exn_class + rat dict" where
  "optional_check name v check =
     (case v of None \<Rightarrow> Inr [] | Some x \<Rightarrow> rbind (check x) (\<lambda>b. Inr [(name, bool_score b)]))"

definition constraint_checks :: "tools \<Rightarrow> pyj dict \<Rightarrow> string \<Rightarrow> exn_class + rat dict" where
  "constraint_checks tools constraints response =
     rbind (optional_check ''sentence_limit'' (map_of constraints ''max_sentences'')
              (count_at_most (count_sentences response))) (\<lambda>c1.
     rbind (optional_check ''word_limit'' (map_of constraints ''max_words'')
              (count_at_most (length (split_ws response)))) (\<lambda>c2.
     rbind (optional_check ''required_prefix'' (map_of constraints ''required_prefix'')
              (\<lambda>v. Inr (startswith (casefold (strip response)) (casefold (py_str tools v))))) (\<lambda>c3.
     rbind (iterate (case map_of constraints ''forbidden_strings'' of None \<Rightarrow> PList [] | Some v \<Rightarrow> v)) (\<lambda>forbidden.
     Inr (c1 @ c2 @ c3
       @ [(''forbidden_string_compliance'',
           bool_score (\<not> list_ex (\<lambda>v. contains (casefold (py_str tools v)) (casefold response)) forbidden))])))))"

text \<open>
  Constraints that are no object: the three membership tests work on a list or string, then
  either the subscript raises \<^verbatim>\<open>TypeError\<close> or \<^verbatim>\<open>.get\<close> raises
  \<^verbatim>\<open>AttributeError\<close>, here its base class.
\<close>

definition constraint_object :: "pyj \<Rightarrow> exn_class + pyj dict" where
  "constraint_object v =
     (case v of
        PDict d \<Rightarrow> Inr d
      | PList xs \<Rightarrow>
          Inl (if list_ex (\<lambda>k. PStr k \<in> set xs) [''max_sentences'', ''max_words'', ''required_prefix'']
               then TypeErrorC else ExceptionC)
      | PStr s \<Rightarrow>
          Inl (if list_ex (\<lambda>k. contains k s) [''max_sentences'', ''max_words'', ''required_prefix'']
               then TypeErrorC else ExceptionC)
      | _ \<Rightarrow> Inl TypeErrorC)"

definition constraints_score :: "tools \<Rightarrow> benchmark_task \<Rightarrow> string \<Rightarrow> exn_class + scored" where
  "constraints_score tools task response =
     rbind (constraint_object (case map_of (bt_evaluation_metadata task) ''deterministic_constraints'' of
              None \<Rightarrow> PDict [] | Some v \<Rightarrow> v)) (\<lambda>constraints.
     rbind (constraint_checks tools constraints response) (\<lambda>checks.
     Inr (fdiv (fsum (map snd checks)) (of_nat (length checks)),
       ''Deterministic format constraints checked; semantic summary quality requires a future judge.'',
       checks,
       [(''word_count'', PInt (int (length (split_ws response)))),
        (''sentence_count'', PInt (int (count_sentences response))),
        (''semantic_requirements_used_for_scoring'', PBool False)])))"

definition summary_score :: "tools \<Rightarrow> benchmark_task \<Rightarrow> string \<Rightarrow> exn_class + scored" where
  "summary_score tools task response =
     (if map_of (bt_evaluation_metadata task) ''semantic_requirements'' \<noteq> None
      then constraints_score tools task response else coverage_score task response)"

subsection \<open>Code, without running it\<close>

definition forbidden_calls :: "string list" where
  "forbidden_calls = [''__import__'', ''breakpoint'', ''compile'', ''eval'', ''exec'', ''input'', ''open'']"

definition forbidden_types :: "string list" where
  "forbidden_types = [''Import'', ''ImportFrom'', ''Global'', ''Nonlocal'', ''ClassDef'', ''AsyncFunctionDef'',
     ''With'', ''AsyncWith'', ''Try'', ''Raise'']"

definition called_forbidden :: "ast_node list \<Rightarrow> string list" where
  "called_forbidden nodes =
     sort (remdups (filter (\<lambda>n. n \<in> set forbidden_calls)
       (concat (map (\<lambda>node. case nd_called_name node of None \<Rightarrow> [] | Some n \<Rightarrow> [n]) nodes))))"

text \<open>The named attributes of \<^verbatim>\<open>ast\<close>, then which of them occur; names are dict keys.\<close>

definition node_present :: "tools \<Rightarrow> ast_node list \<Rightarrow> string \<Rightarrow> exn_class + (string \<times> bool)" where
  "node_present tools nodes name =
     (case tl_ast tools name of
        NodeClass is_instance \<Rightarrow> Inr (name, list_ex (\<lambda>node. is_instance (nd_class node)) nodes)
      | _ \<Rightarrow> if nodes = [] then Inr (name, False) else Inl TypeErrorC)"

definition required_present :: "tools \<Rightarrow> ast_node list \<Rightarrow> string list \<Rightarrow> exn_class + (string \<times> bool) list" where
  "required_present tools nodes names =
     (if list_ex (\<lambda>n. tl_ast tools n = NoAttribute) names then Inl ValueErrorC
      else mapM (node_present tools nodes) (remdups names))"

definition coding_metadata :: "benchmark_task \<Rightarrow> exn_class + (string \<times> int \<times> string list)" where
  "coding_metadata task =
     (let metadata = bt_evaluation_metadata task;
          legacy = (case map_of metadata ''reference'' of None \<Rightarrow> PDict [] | Some v \<Rightarrow> v);
          function_name = (case map_of metadata ''function_name'' of Some v \<Rightarrow> v
            | None \<Rightarrow> (case legacy of PDict d \<Rightarrow> jget d ''function'' | _ \<Rightarrow> PNull));
          parameters = (case map_of metadata ''parameters'' of None \<Rightarrow> PInt 1 | Some v \<Rightarrow> v);
          required_ast = (case map_of metadata ''required_ast'' of None \<Rightarrow> PList [] | Some v \<Rightarrow> v) in
      case (function_name, parameters, required_ast) of
        (PStr f, PInt n, PList names) \<Rightarrow>
          if n < 0 \<or> \<not> list_all is_string names then Inl ValueErrorC else Inr (f, n, map text_of names)
      | _ \<Rightarrow> Inl ValueErrorC)"

definition coding_result :: "tools \<Rightarrow> string \<Rightarrow> int \<Rightarrow> string list \<Rightarrow> ast_module \<Rightarrow> exn_class + scored" where
  "coding_result tools function_name parameters required_ast tree =
     (let functions = filter (\<lambda>f. fn_name f = function_name) (md_functions tree);
          function_score = bool_score (length functions = 1);
          signature_score = (case functions of
              [f] \<Rightarrow> bool_score (int (fn_arity f) = parameters \<and> \<not> fn_vararg f \<and> \<not> fn_kwarg f) | _ \<Rightarrow> 0);
          calls = called_forbidden (md_nodes tree);
          safety_score = bool_score (\<not> list_ex (\<lambda>n. nd_class n \<in> set forbidden_types) (md_nodes tree) \<and> calls = []);
          scope = (case functions of [f] \<Rightarrow> fn_nodes f | _ \<Rightarrow> md_nodes tree) in
      rbind (required_present tools scope required_ast) (\<lambda>present.
      let required_score = (if present \<noteq> []
            then fdiv (of_nat (length (filter snd present))) (of_nat (length present)) else 1);
          components = [(''syntax'', 1), (''function'', function_score), (''signature'', signature_score),
            (''safety'', safety_score), (''required_constructs'', required_score)] in
      Inr (fdiv (fsum (map snd components)) (of_nat (length components)),
        ''Static validation only: syntax, named function, signature, restricted AST, and required constructs.'',
        components,
        [(''executed'', PBool False), (''function_name'', PStr function_name),
         (''required_ast_present'', PDict (map (\<lambda>(n, b). (n, PBool b)) present)),
         (''forbidden_calls'', PList (map PStr calls)),
         (''limitation'', PStr ''Generated code was not executed; behavioral correctness is not proven.'')])))"

definition bad_syntax_score :: scored where
  "bad_syntax_score =
     (0, ''Response was not valid Python syntax.'',
      [(''syntax'', 0), (''function'', 0), (''signature'', 0), (''safety'', 0), (''required_constructs'', 0)],
      [(''executed'', PBool False)])"

definition coding_score :: "tools \<Rightarrow> benchmark_task \<Rightarrow> string \<Rightarrow> exn_class + scored" where
  "coding_score tools task response =
     rbind (coding_metadata task) (\<lambda>(function_name, parameters, required_ast).
     case tl_parse tools (strip_code_fence response) of
       BadSyntax \<Rightarrow> Inr bad_syntax_score
     | ParseRaised c \<Rightarrow> if not_json c then Inr bad_syntax_score else Inl c
     | Parsed tree \<Rightarrow> coding_result tools function_name parameters required_ast tree)"

subsection \<open>The evaluator of a task\<close>

definition evaluator_name :: "benchmark_category \<Rightarrow> string" where
  "evaluator_name c =
     (case c of BC_QA \<Rightarrow> ''accepted_answer_exact_match'' | BC_CLASSIFICATION \<Rightarrow> ''classification_label_match''
      | BC_REASONING \<Rightarrow> ''reasoning_final_answer_match'' | BC_EXTRACTION \<Rightarrow> ''structured_extraction_f1''
      | BC_JSON \<Rightarrow> ''json_structure_and_value'' | BC_SUMMARIZATION \<Rightarrow> ''required_fact_coverage''
      | BC_CODING \<Rightarrow> ''constrained_python_static_analysis'')"

definition score_answer :: "tools \<Rightarrow> benchmark_task \<Rightarrow> string \<Rightarrow> exn_class + scored" where
  "score_answer tools task response =
     (case bt_category task of
        BC_EXTRACTION \<Rightarrow> extraction_score tools task response
      | BC_JSON \<Rightarrow> json_score tools task response
      | BC_SUMMARIZATION \<Rightarrow> summary_score tools task response
      | BC_CODING \<Rightarrow> coding_score tools task response
      | _ \<Rightarrow> answer_score tools task response)"

definition status_for :: "benchmark_task \<Rightarrow> evaluation_status option" where
  "status_for task =
     (if bt_category task = BC_SUMMARIZATION \<and> map_of (bt_evaluation_metadata task) ''semantic_requirements'' \<noteq> None
      then Some ES_REQUIRES_SEMANTIC_JUDGE
      else if bt_category task = BC_CODING
        \<and> map_of (bt_evaluation_metadata task) ''evaluation_mode'' = Some (PStr ''static_pending_functional'')
      then Some ES_REQUIRES_FUNCTIONAL_EXECUTION
      else None)"

definition clip :: "rat \<Rightarrow> rat" where
  "clip s = min 1 (max 0 s)"

definition threshold_of :: "benchmark_task \<Rightarrow> rat" where
  "threshold_of task =
     (case bt_acceptable_threshold task of Some t \<Rightarrow> t | None \<Rightarrow> DEFAULT_THRESHOLDS (bt_category task))"

definition evaluate :: "tools \<Rightarrow> benchmark_task \<Rightarrow> benchmark_result \<Rightarrow> exn_class + evaluation_result" where
  "evaluate tools task result =
     (let threshold = threshold_of task in
      case (br_success result, br_response result) of
        (True, Some response) \<Rightarrow>
          rbind (score_answer tools task (rs_text response)) (\<lambda>(s, reason, components, details).
          let quality = clip s; incomplete = status_for task in
          EvaluationResult (plain_evaluation task result (evaluator_name (bt_category task)) EVALUATION_VERSION
            (case incomplete of None \<Rightarrow> ES_EVALUATED | Some st \<Rightarrow> st) (Some quality) threshold
            (if incomplete \<noteq> None then None else Some (threshold \<le> quality)) reason components details))
      | _ \<Rightarrow>
          EvaluationResult (plain_evaluation task result ''call_failure'' EVALUATION_VERSION ES_PARTIAL None threshold
            None ''Provider infrastructure failed; no candidate response was available to score.'' []
            [(''error_category'', PStr (case br_error_category result of
                Some c \<Rightarrow> if c = [] then ''missing_response'' else c | None \<Rightarrow> ''missing_response''))]))"

end
