(* ===== verification/Evaluator_Scores.thy ===== *)
theory Evaluator_Scores
  imports Evaluators
begin

section \<open>What the evaluators guarantee\<close>

text \<open>
  Every scorer returns scores of the unit interval, whatever the task's metadata and the
  answer say, so an evaluation that was computed is never refused by the validators of
  \<^verbatim>\<open>EvaluationResult\<close>; and it is accepted exactly when its score reaches the threshold.
\<close>

definition sound_score :: "scored \<Rightarrow> bool" where
  "sound_score = (\<lambda>(s, reason, components, details). unit s \<and> list_all unit (map snd components))"

lemma sound_score_iff [simp]: "sound_score (s, reason, components, details) \<longleftrightarrow> unit s \<and> list_all unit (map snd components)"
  by (simp add: sound_score_def)

lemma unit_bool_score [simp]: "unit (bool_score b)"
  by (simp add: bool_score_def)

subsection \<open>Counts\<close>

lemma unit_fraction: "m \<le> n \<Longrightarrow> unit (fdiv (of_nat m) (of_nat n))"
  by (intro unit_fdiv) simp_all

lemma unit_f1: "m \<le> e \<Longrightarrow> m \<le> p \<Longrightarrow> unit (f1 m e p)"
  using unit_harmonic [of "of_nat m / of_nat p" "fdiv (of_nat m) (of_nat e)"] unit_fraction [of m p] unit_fraction [of m e]
  by (auto simp: f1_def Let_def fdiv_def)

lemma count_paths_le: "count_paths same e p \<le> length e"
  by (simp add: count_paths_def)

lemma count_paths_le_predicted: "distinct (map fst e) \<Longrightarrow> count_paths same e p \<le> length p"
proof -
  assume e: "distinct (map fst e)"
  let ?hits = "filter (\<lambda>(path, v). case map_of p path of None \<Rightarrow> False | Some w \<Rightarrow> same v w) e"
  have d: "distinct (map fst ?hits)" using e by (rule distinct_map_filter)
  have "set (map fst ?hits) \<subseteq> set (map fst p)"
    by (auto split: option.splits dest!: map_of_SomeD intro: rev_image_eqI)
  then have "card (set (map fst ?hits)) \<le> card (set (map fst p))" by (rule card_mono [rotated]) simp
  also have "\<dots> \<le> length p" using card_length [of "map fst p"] by simp
  finally show ?thesis using distinct_card [OF d] by (simp add: count_paths_def)
qed

lemma flatten_distinct: "distinct (map fst (flatten_json path v))"
  using flat_flatten(1) [of path v] by (simp add: flat_def)

lemma count_paths_Nil [simp]: "count_paths same [] p = 0"
  by (simp add: count_paths_def)

lemmas count_bounds = count_paths_le count_paths_le_predicted [OF flatten_distinct]

subsection \<open>The scorers\<close>

lemma answer_score_sound: "answer_score tools task response = Inr r \<Longrightarrow> sound_score r"
  by (auto simp: answer_score_def rbind_eq_Inr Let_def)

lemma extraction_score_sound: "extraction_score tools task response = Inr r \<Longrightarrow> sound_score r"
  by (auto simp: extraction_score_def Let_def count_bounds intro!: unit_f1 split: sum.splits if_splits)

lemma unit_third: "unit a \<Longrightarrow> unit b \<Longrightarrow> unit (fdiv (fadd (fadd 1 a) b) 3)"
proof -
  assume ab: "unit a" "unit b"
  have "fadd 1 a \<le> fl (of_int 2)" using ab by (auto simp: fadd_def unit_def intro!: fl_mono)
  then have two: "fadd 1 a \<le> 2" "0 \<le> fadd 1 a" using ab fl_small_int [of 2] by (auto simp: fadd_def unit_def fl_nonneg)
  then have "fadd (fadd 1 a) b \<le> fl (of_int 3)" using ab unfolding fadd_def [of "fadd 1 a" b] by (auto simp: unit_def intro!: fl_mono)
  then have "fadd (fadd 1 a) b \<le> 3" using fl_small_int [of 3] by simp
  moreover have "0 \<le> fadd (fadd 1 a) b" unfolding fadd_def [of "fadd 1 a" b] using two ab by (auto simp: unit_def fl_nonneg)
  ultimately show ?thesis by (intro unit_fdiv)
qed

lemma json_score_sound: "json_score tools task response = Inr r \<Longrightarrow> sound_score r"
  by (auto simp: json_score_def Let_def count_bounds intro!: unit_f1 unit_third unit_fraction split: sum.splits if_splits)

text \<open>The two weights sum to one after rounding.\<close>

lemma unit_weighted: "unit a \<Longrightarrow> unit b \<Longrightarrow> unit (fadd (fmul (fl (8 / 10)) a) (fmul (fl (2 / 10)) b))"
proof -
  assume ab: "unit a" "unit b"
  have part: "0 \<le> fmul (fl w) x \<and> fmul (fl w) x \<le> fl (fl w)" if "unit x" "0 \<le> w" for w x
    using that fl_nonneg [of w] unfolding fmul_def unit_def
    by (auto intro!: fl_nonneg fl_mono mult_nonneg_nonneg mult_left_le)
  have "fl (fl (fl (8 / 10)) + fl (fl (2 / 10))) = 1" by code_simp
  moreover have "fadd (fmul (fl (8 / 10)) a) (fmul (fl (2 / 10)) b) \<le> fl (fl (fl (8 / 10)) + fl (fl (2 / 10)))"
    unfolding fadd_def using part [OF ab(1), of "8 / 10"] part [OF ab(2), of "2 / 10"] by (intro fl_mono) linarith+
  moreover have "0 \<le> fadd (fmul (fl (8 / 10)) a) (fmul (fl (2 / 10)) b)"
    unfolding fadd_def using part [OF ab(1), of "8 / 10"] part [OF ab(2), of "2 / 10"] by (intro fl_nonneg) linarith
  ultimately show ?thesis by (simp add: unit_def)
qed

lemma coverage_score_sound: "coverage_score task response = Inr r \<Longrightarrow> sound_score r"
  by (auto simp: coverage_score_def Let_def rbind_eq_Inr intro!: unit_weighted [simplified] unit_fraction split: if_splits)

lemma zero_one_bool_score [simp]: "zero_one (bool_score b)"
  by (simp add: bool_score_def zero_one_def)

lemma unit_bit: "zero_one x \<Longrightarrow> unit x"
  by (auto simp: zero_one_def)

lemma constraint_checks_sound:
  "constraint_checks tools constraints response = Inr checks \<Longrightarrow>
   list_all zero_one (map snd checks) \<and> length checks \<le> 4"
  by (auto simp: constraint_checks_def optional_check_def Let_def rbind_eq_Inr split: option.splits)

lemma mean_of_bits: "list_all zero_one xs \<Longrightarrow> length xs \<le> 4 \<Longrightarrow> unit (fdiv (fsum xs) (of_nat (length xs)))"
  using fsum_bits [of xs] ones_le [of xs] by (simp add: unit_fraction)

lemma constraints_score_sound: "constraints_score tools task response = Inr r \<Longrightarrow> sound_score r"
proof -
  assume "constraints_score tools task response = Inr r"
  then obtain constraints checks where "constraint_checks tools constraints response = Inr checks"
    and r: "fst r = fdiv (fsum (map snd checks)) (of_nat (length checks))" "fst (snd (snd r)) = checks"
    by (auto simp: constraints_score_def rbind_eq_Inr)
  then have bits: "list_all zero_one (map snd checks)" "length (map snd checks) \<le> 4"
    using constraint_checks_sound by auto
  then have "list_all unit (map snd checks)" by (auto simp: list_all_iff intro: unit_bit)
  then show ?thesis using mean_of_bits [OF bits] r by (simp add: sound_score_def case_prod_unfold)
qed

lemma unit_singleton_case: "unit (case xs of [f] \<Rightarrow> bool_score (P f) | _ \<Rightarrow> 0)"
  by (simp add: zero_one_def [of 0] split: list.splits)

lemma mean_of_five:
  "list_all zero_one [a, b, c] \<Longrightarrow> unit q \<Longrightarrow> unit (fdiv (fsum [1, a, b, c, q]) 5)"
proof -
  assume *: "list_all zero_one [a, b, c]" "unit q"
  have "ones [1, a, b, c] \<le> 4" using ones_le [of "[1, a, b, c]"] by simp
  then have "(of_nat (ones [1, a, b, c]) :: rat) + 1 \<le> 5" by simp
  then show ?thesis
    using fsum_bits_last [of "[1, a, b, c]" q] * by (intro unit_fdiv) (auto simp: zero_one_def ones_def)
qed

lemma zero_one_singleton_case: "zero_one (case xs of [f] \<Rightarrow> bool_score (P f) | _ \<Rightarrow> 0)"
  by (simp add: zero_one_def [of 0] split: list.splits)

lemma coding_result_sound: "coding_result tools name parameters required tree = Inr r \<Longrightarrow> sound_score r"
  by (auto simp: coding_result_def Let_def rbind_eq_Inr simp del: list.case
      intro!: mean_of_five unit_singleton_case zero_one_singleton_case unit_fraction)

lemma coding_score_sound: "coding_score tools task response = Inr r \<Longrightarrow> sound_score r"
  by (cases "tl_parse tools (strip_code_fence response)")
    (auto simp: coding_score_def bad_syntax_score_def rbind_eq_Inr coding_result_sound split: if_splits)

lemma summary_score_sound: "summary_score tools task response = Inr r \<Longrightarrow> sound_score r"
  by (simp add: summary_score_def coverage_score_sound constraints_score_sound split: if_splits)

lemma score_answer_sound: "score_answer tools task response = Inr r \<Longrightarrow> sound_score r"
  by (simp add: score_answer_def answer_score_sound extraction_score_sound json_score_sound summary_score_sound
      coding_score_sound split: benchmark_category.splits)

subsection \<open>Every computed evaluation is accepted by the validators\<close>

text \<open>What an evaluation says of a scored answer, with neither clipping nor validation.\<close>

definition scored_evaluation :: "benchmark_task \<Rightarrow> benchmark_result \<Rightarrow> scored \<Rightarrow> evaluation_result" where
  "scored_evaluation task result = (\<lambda>(s, reason, components, details).
     plain_evaluation task result (evaluator_name (bt_category task)) EVALUATION_VERSION
       (case status_for task of None \<Rightarrow> ES_EVALUATED | Some st \<Rightarrow> st) (Some s) (threshold_of task)
       (if status_for task = None then Some (threshold_of task \<le> s) else None) reason components details)"

lemma unit_threshold:
  "(case bt_acceptable_threshold task of None \<Rightarrow> True | Some t \<Rightarrow> unit t) \<Longrightarrow> unit (threshold_of task)"
  using unit_fl [of "8 / 10"]
  by (auto simp: threshold_of_def DEFAULT_THRESHOLDS_def unit_def split: option.splits)

lemma clip_unit: "unit s \<Longrightarrow> clip s = s"
  by (simp add: clip_def unit_def)

lemma status_for_incomplete: "status_for task \<noteq> Some ES_EVALUATED"
  by (simp add: status_for_def)

lemma scored_evaluation_valid:
  assumes "unit (threshold_of task)" "sound_score r"
  shows "evaluation_result_valid (scored_evaluation task result r)"
proof -
  obtain s reason components details where r: "r = (s, reason, components, details)" by (cases r)
  have "list_all (\<lambda>(k, x). 0 \<le> x \<and> x \<le> 1) components"
    using assms(2) by (auto simp: r list_all_iff unit_def)
  then show ?thesis
    using assms status_for_incomplete [of task]
    by (auto simp: r scored_evaluation_def plain_evaluation_def evaluation_result_valid_def consistent_acceptability_def
        unit_def split: option.splits)
qed

lemma evaluate_answer:
  assumes "unit (threshold_of task)" "br_success result" "br_response result = Some response"
  shows "evaluate tools task result
    = rbind (score_answer tools task (rs_text response)) (\<lambda>r. Inr (scored_evaluation task result r))"
proof (cases "score_answer tools task (rs_text response)")
  case (Inr r)
  obtain s reason components details where r: "r = (s, reason, components, details)" by (cases r)
  have sound: "sound_score r" by (rule score_answer_sound [OF Inr])
  show ?thesis
    using assms Inr scored_evaluation_valid [OF assms(1) sound, of result] sound
    by (cases "status_for task")
      (simp_all add: evaluate_def r clip_unit scored_evaluation_def EvaluationResult_def Let_def)
qed (use assms in \<open>simp add: evaluate_def\<close>)

lemma partial_valid:
  "unit t \<Longrightarrow> evaluation_result_valid (plain_evaluation task result name version ES_PARTIAL None t None reason [] details)"
  by (simp add: plain_evaluation_def evaluation_result_valid_def consistent_acceptability_def unit_def)

lemma evaluate_failure:
  assumes "unit (threshold_of task)" "\<not> br_success result \<or> br_response result = None"
  shows "\<exists>e. evaluate tools task result = Inr e \<and> evaluation_result_valid e \<and> ev_status e = ES_PARTIAL
      \<and> ev_quality_score e = None \<and> ev_acceptable e = None"
proof -
  let ?e = "\<lambda>details. plain_evaluation task result ''call_failure'' EVALUATION_VERSION ES_PARTIAL None (threshold_of task)
    None ''Provider infrastructure failed; no candidate response was available to score.'' [] details"
  have "\<exists>details. evaluate tools task result = EvaluationResult (?e details)"
    using assms(2) by (auto simp: evaluate_def Let_def split: bool.splits option.splits)
  then obtain details where "evaluate tools task result = EvaluationResult (?e details)" by blast
  then show ?thesis
    using partial_valid [OF assms(1)] by (intro exI [of _ "?e details"]) (simp add: EvaluationResult_def plain_evaluation_def)
qed

text \<open>
  Claim C26. Whatever a task's metadata and a model's answer contain, an evaluation is
  never refused by its own validators: a scored answer gives exactly the scorer's result (the
  clipping of the score has no effect), with a score and component scores between 0 and 1 and
  acceptance exactly when a complete evaluation reaches the threshold; a failed call gives an
  unscored partial evaluation; and an error is the scorer's own.
\<close>

theorem evaluations_are_consistent:
  assumes "case bt_acceptable_threshold task of None \<Rightarrow> True | Some t \<Rightarrow> unit t"
  shows "case evaluate tools task result of
      Inl c \<Rightarrow> br_success result \<and> (\<exists>response. br_response result = Some response
        \<and> score_answer tools task (rs_text response) = Inl c)
    | Inr e \<Rightarrow> evaluation_result_valid e
        \<and> (if br_success result \<and> br_response result \<noteq> None
           then \<exists>r. score_answer tools task (rs_text (the (br_response result))) = Inr r
             \<and> e = scored_evaluation task result r
           else ev_status e = ES_PARTIAL \<and> ev_quality_score e = None \<and> ev_acceptable e = None)"
proof -
  have t: "unit (threshold_of task)" by (rule unit_threshold [OF assms])
  show ?thesis
  proof (cases "br_success result \<and> br_response result \<noteq> None")
    case True
    then obtain response where r: "br_success result" "br_response result = Some response" by auto
    show ?thesis
    proof (cases "score_answer tools task (rs_text response)")
      case (Inl c)
      then show ?thesis by (simp add: evaluate_answer [OF t r] r)
    next
      case (Inr s)
      then show ?thesis
        using scored_evaluation_valid [OF t score_answer_sound [OF Inr], of result]
        by (simp add: evaluate_answer [OF t r] r)
    qed
  next
    case False
    then show ?thesis using evaluate_failure [OF t, of result tools] by auto
  qed
qed

subsection \<open>Extraction scores see paths and values only\<close>

lemma f1_all: "f1 n n n = 1"
  by (simp add: f1_def Let_def fdiv_def fmul_def fadd_def fl_small_int [of 2, simplified])

definition comparable :: "pyj dict \<Rightarrow> bool" where
  "comparable d \<longleftrightarrow> (\<forall>(k, v)\<in>set d. v \<noteq> PNonFinite NaN)"

lemma json_equal_refl: "v \<noteq> PNonFinite NaN \<Longrightarrow> json_equal v v"
  by (cases v) (auto simp: json_equal_def)

lemma count_paths_all:
  assumes "flat d" "\<forall>(k, v)\<in>set d. same v v"
  shows "count_paths same d d = length d"
proof -
  have "filter (\<lambda>(path, v). case map_of d path of None \<Rightarrow> False | Some w \<Rightarrow> same v w) d = d"
    using assms by (intro filter_True) (auto simp: flat_def)
  then show ?thesis by (simp add: count_paths_def)
qed

text \<open>
  Extraction answers are compared by the paths and values of their
  leaves: an answer whose leaves are the expected ones gets the full score and is accepted, also
  where its structure differs, as with a dotted key for a nested object.
\<close>

theorem equal_leaves_get_full_marks:
  assumes "bt_category task = BC_EXTRACTION" "br_success result" "br_response result = Some response"
    and "case bt_acceptable_threshold task of None \<Rightarrow> True | Some t \<Rightarrow> unit t"
    and "parse_json_response tools (rs_text response) = Inr predicted"
    and "flatten_json ''$'' predicted = flatten_json ''$'' (jget_or (bt_evaluation_metadata task) ''expected'' ''reference'')"
    and "comparable (flatten_json ''$'' predicted)"
  shows "\<exists>e. evaluate tools task result = Inr e \<and> ev_quality_score e = Some 1 \<and> ev_acceptable e = Some True"
proof -
  have flat: "flat (flatten_json ''$'' predicted)" by (rule flat_flatten)
  have "\<forall>(k, v)\<in>set (flatten_json ''$'' predicted). json_equal v v"
    using assms(7) by (auto simp: comparable_def intro: json_equal_refl)
  note full = count_paths_all [where same = json_equal, OF flat this]
  obtain r where score: "score_answer tools task (rs_text response) = Inr r" "fst r = 1"
    using assms(1,5) by (simp add: score_answer_def extraction_score_def Let_def assms(6) [symmetric] full f1_all)
  have t: "unit (threshold_of task)" by (rule unit_threshold [OF assms(4)])
  have "status_for task = None" using assms(1) by (simp add: status_for_def)
  then show ?thesis
    using score t unfolding evaluate_answer [OF t assms(2,3)]
    by (cases r) (simp add: scored_evaluation_def plain_evaluation_def unit_def)
qed

end
