(* ===== verification/Aggregation.thy ===== *)
theory Aggregation
  imports Evaluator_Scores
begin

section \<open>Aggregating a run\<close>

text \<open>
  \<^verbatim>\<open>evaluation/aggregation.py\<close> and the summary classes of
  \<^verbatim>\<open>evaluation/models.py\<close>: metrics over all results, per model and per model and
  category, and the comparison of every two models. Money is \<open>dec\<close> in the default context of 28
  digits and in the local one of 50; the sums of latencies are taken to stay in the range of
  floats. \<open>decimal\<close> is \<^verbatim>\<open>Decimal(text)\<close>.
\<close>

datatype decimal_value = DecFinite bool dec | DecInfinite | DecNaN

record metric_group =
  mg_model_id :: "string option"
  mg_category :: "benchmark_category option"
  mg_evaluated_tasks :: int
  mg_fully_evaluated_tasks :: int
  mg_incomplete_evaluations :: int
  mg_successful_responses :: int
  mg_acceptable_responses :: int
  mg_mean_quality_score :: "rat option"
  mg_acceptable_rate :: "rat option"
  mg_total_estimated_cost_usd :: dec
  mg_average_cost_per_task_usd :: dec
  mg_cost_per_acceptable_response_usd :: "dec option"
  mg_average_latency_ms :: rat

definition unit_option :: "rat option \<Rightarrow> bool" where
  "unit_option x = (case x of None \<Rightarrow> True | Some q \<Rightarrow> 0 \<le> q \<and> q \<le> 1)"

definition metric_fields_valid :: "metric_group \<Rightarrow> bool" where
  "metric_fields_valid g \<longleftrightarrow>
     0 \<le> mg_evaluated_tasks g \<and> 0 \<le> mg_fully_evaluated_tasks g \<and> 0 \<le> mg_incomplete_evaluations g
   \<and> 0 \<le> mg_successful_responses g \<and> 0 \<le> mg_acceptable_responses g
   \<and> unit_option (mg_mean_quality_score g) \<and> unit_option (mg_acceptable_rate g) \<and> 0 \<le> mg_average_latency_ms g"

definition consistent_evaluation_counts :: "metric_group \<Rightarrow> exn_class + metric_group" where
  "consistent_evaluation_counts g =
     (let g = (if mg_evaluated_tasks g \<noteq> 0 \<and> mg_fully_evaluated_tasks g = 0 \<and> mg_incomplete_evaluations g = 0
               then g\<lparr>mg_fully_evaluated_tasks := mg_evaluated_tasks g\<rparr> else g) in
      if mg_fully_evaluated_tasks g + mg_incomplete_evaluations g \<noteq> mg_evaluated_tasks g then Inl ValidationErrorC
      else if mg_acceptable_responses g > mg_fully_evaluated_tasks g then Inl ValidationErrorC
      else Inr g)"

definition MetricGroup :: "metric_group \<Rightarrow> exn_class + metric_group" where
  "MetricGroup g = (if metric_fields_valid g then consistent_evaluation_counts g else Inl ValidationErrorC)"

text \<open>A signed difference of costs.\<close>

record signed_dec =
  sd_negative :: bool
  sd_magnitude :: dec

definition dec_sub :: "nat \<Rightarrow> dec \<Rightarrow> dec \<Rightarrow> exn_class + signed_dec" where
  "dec_sub prec a b =
     (let e = min (expo a) (expo b);
          x = int (coeff a * 10 ^ nat (expo a - e)); y = int (coeff b * 10 ^ nat (expo b - e)) in
      rbind (dec_fix prec \<lparr>coeff = nat \<bar>x - y\<bar>, expo = e\<rparr>) (\<lambda>m. Inr \<lparr>sd_negative = x < y, sd_magnitude = m\<rparr>))"

record model_comparison =
  cp_left_model_id :: string
  cp_right_model_id :: string
  cp_mean_quality_difference :: "rat option"
  cp_total_cost_difference_usd :: signed_dec
  cp_average_latency_difference_ms :: rat

record evaluation_summary =
  es_run_id :: nat
  es_dataset_sha256 :: string
  es_evaluation_version :: string
  es_overall :: metric_group
  es_by_model :: "metric_group list"
  es_by_model_category :: "metric_group list"
  es_comparisons :: "model_comparison list"
  es_candidate_inference_cost_usd :: dec
  es_judge_evaluation_cost_usd :: dec
  es_judge_calls :: int
  es_judge_input_tokens :: int
  es_judge_output_tokens :: int
  es_judge_latency_ms :: rat
  es_evaluation_configuration :: "pyj dict"

definition zero_cost :: dec where "zero_cost = \<lparr>coeff = 0, expo = 0\<rparr>"

definition known_candidate_cost :: "tools \<Rightarrow> (string \<Rightarrow> decimal_value option) \<Rightarrow> benchmark_result \<Rightarrow> dec" where
  "known_candidate_cost tools decimal result =
     (case br_response result of
        Some response \<Rightarrow> rs_estimated_cost_usd response
      | None \<Rightarrow>
          (case decimal (py_str tools (jget (br_error_details result) ''estimated_cost_usd'')) of
             Some (DecFinite negative d) \<Rightarrow> if \<not> negative \<or> coeff d = 0 then d else zero_cost
           | _ \<Rightarrow> zero_cost))"

type_synonym evaluated = "benchmark_result \<times> evaluation_result"

definition fully :: "evaluated list \<Rightarrow> evaluated list" where
  "fully items = filter (\<lambda>(r, e). ev_status e = ES_EVALUATED) items"

definition metric_group_of ::
  "tools \<Rightarrow> (string \<Rightarrow> decimal_value option) \<Rightarrow> evaluated list \<Rightarrow> string option \<Rightarrow> benchmark_category option \<Rightarrow>
   exn_class + metric_group" where
  "metric_group_of tools decimal items model_id category =
     (let count = length items;
          fully_evaluated = fully items;
          fully_count = length fully_evaluated;
          successful = length (filter (\<lambda>(r, e). br_success r) items);
          acceptable = length (filter (\<lambda>(r, e). ev_acceptable e = Some True) fully_evaluated) in
      rbind (dec_sum 28 zero_cost (map (\<lambda>(r, e). known_candidate_cost tools decimal r) items)) (\<lambda>total_cost.
      let mean_quality = (if fully_count \<noteq> 0
            then Some (fdiv (fsum (map (\<lambda>(r, e). case ev_quality_score e of Some q \<Rightarrow> q | None \<Rightarrow> 0) fully_evaluated))
                   (of_nat fully_count)) else None);
          average_latency = fdiv (fsum (map (\<lambda>(r, e). br_latency_ms r) items)) (of_nat count) in
      rbind (dec_div 50 total_cost (dec_of_int count)) (\<lambda>average_cost.
      rbind (if acceptable \<noteq> 0 then rbind (dec_div 50 total_cost (dec_of_int acceptable)) (\<lambda>c. Inr (Some c)) else Inr None)
        (\<lambda>cost_per_acceptable.
      MetricGroup
        \<lparr>mg_model_id = model_id, mg_category = category, mg_evaluated_tasks = int count,
         mg_fully_evaluated_tasks = int fully_count, mg_incomplete_evaluations = int count - int fully_count,
         mg_successful_responses = int successful, mg_acceptable_responses = int acceptable,
         mg_mean_quality_score = mean_quality,
         mg_acceptable_rate = (if fully_count \<noteq> 0 then Some (fdiv (of_nat acceptable) (of_nat fully_count)) else None),
         mg_total_estimated_cost_usd = total_cost, mg_average_cost_per_task_usd = average_cost,
         mg_cost_per_acceptable_response_usd = cost_per_acceptable, mg_average_latency_ms = average_latency\<rparr>))))"

text \<open>\<^verbatim>\<open>combinations(xs, 2)\<close>.\<close>

fun combinations2 :: "'a list \<Rightarrow> ('a \<times> 'a) list" where
  "combinations2 [] = []"
| "combinations2 (x # xs) = map (Pair x) xs @ combinations2 xs"

definition compare_models :: "metric_group \<times> metric_group \<Rightarrow> exn_class + model_comparison" where
  "compare_models = (\<lambda>(left, right).
     rbind (dec_sub 28 (mg_total_estimated_cost_usd left) (mg_total_estimated_cost_usd right)) (\<lambda>cost.
     let difference = (case (mg_mean_quality_score left, mg_mean_quality_score right) of
           (Some l, Some r) \<Rightarrow> Some (fsub l r) | _ \<Rightarrow> None) in
     if (case difference of None \<Rightarrow> False | Some d \<Rightarrow> d < - 1 \<or> 1 < d) then Inl ValidationErrorC
     else Inr \<lparr>cp_left_model_id = (case mg_model_id left of Some m \<Rightarrow> m | None \<Rightarrow> ''''),
        cp_right_model_id = (case mg_model_id right of Some m \<Rightarrow> m | None \<Rightarrow> ''''),
        cp_mean_quality_difference = difference, cp_total_cost_difference_usd = cost,
        cp_average_latency_difference_ms = fsub (mg_average_latency_ms left) (mg_average_latency_ms right)\<rparr>))"

text \<open>The sorted keys of the two \<^verbatim>\<open>defaultdict\<close>s; pairs of model and category sort by the model first.\<close>

definition sorted_keys :: "('a \<Rightarrow> string) \<Rightarrow> 'a list \<Rightarrow> string list" where
  "sorted_keys key items = sort (remdups (map key items))"

definition model_of :: "evaluated \<Rightarrow> string" where
  "model_of = (\<lambda>(r, e). br_model_id r)"

definition of_model :: "string \<Rightarrow> evaluated list \<Rightarrow> evaluated list" where
  "of_model m items = filter (\<lambda>i. model_of i = m) items"

definition category_of :: "benchmark_category dict \<Rightarrow> evaluated \<Rightarrow> benchmark_category option" where
  "category_of categories = (\<lambda>(r, e). map_of categories (br_task_id r))"

definition of_category :: "benchmark_category dict \<Rightarrow> benchmark_category \<Rightarrow> evaluated list \<Rightarrow> evaluated list" where
  "of_category categories c items = filter (\<lambda>i. category_of categories i = Some c) items"

definition all_categories :: "benchmark_category list" where
  "all_categories = [BC_CLASSIFICATION, BC_CODING, BC_EXTRACTION, BC_JSON, BC_QA, BC_REASONING, BC_SUMMARIZATION]"

definition group_keys :: "benchmark_category dict \<Rightarrow> evaluated list \<Rightarrow> (string \<times> benchmark_category) list" where
  "group_keys categories paired =
     concat (map (\<lambda>m. map (Pair m) (filter (\<lambda>c. of_category categories c (of_model m paired) \<noteq> []) all_categories))
       (sorted_keys model_of paired))"

definition paired_with :: "evaluation_result list \<Rightarrow> benchmark_result list \<Rightarrow> evaluated list" where
  "paired_with evaluations results =
     (let by_result = map (\<lambda>e. (ev_benchmark_result_id e, e)) evaluations in
      map (\<lambda>r. (r, the (map_of by_result (br_result_id r)))) results)"

text \<open>The identifiers of evaluations and of a dataset's tasks are distinct where they are looked up.\<close>

definition aggregate ::
  "tools \<Rightarrow> (string \<Rightarrow> decimal_value option) \<Rightarrow> benchmark_run \<Rightarrow> benchmark_result list \<Rightarrow> evaluation_result list \<Rightarrow>
   pyj dict \<Rightarrow> exn_class + evaluation_summary" where
  "aggregate tools decimal run results evaluations configuration =
     (if results = [] then Inl ValueErrorC
      else
        let ids = map ev_benchmark_result_id evaluations in
        if has_duplicates ids \<or> set ids \<noteq> set (map br_result_id results) then Inl ValueErrorC
        else
          let categories = map (\<lambda>t. (bt_task_id t, bt_category t)) (bd_tasks (bn_dataset run));
              paired = paired_with evaluations results in
          if list_ex (\<lambda>i. category_of categories i = None) paired then Inl KeyErrorC
          else
            rbind (mapM (\<lambda>m. metric_group_of tools decimal (of_model m paired) (Some m) None)
                     (sorted_keys model_of paired)) (\<lambda>by_model.
            rbind (mapM (\<lambda>(m, c). metric_group_of tools decimal (of_category categories c (of_model m paired)) (Some m) (Some c))
                     (group_keys categories paired)) (\<lambda>by_model_category.
            rbind (mapM compare_models (combinations2 by_model)) (\<lambda>comparisons.
            rbind (metric_group_of tools decimal paired None None) (\<lambda>overall.
            let judged = filter ev_call_made evaluations in
            rbind (dec_sum 28 zero_cost (map ev_cost_usd judged)) (\<lambda>judge_cost.
            Inr \<lparr>es_run_id = bn_run_id run, es_dataset_sha256 = bn_dataset_sha256 run,
               es_evaluation_version = EVALUATION_VERSION, es_overall = overall, es_by_model = by_model,
               es_by_model_category = by_model_category, es_comparisons = comparisons,
               es_candidate_inference_cost_usd = mg_total_estimated_cost_usd overall,
               es_judge_evaluation_cost_usd = judge_cost, es_judge_calls = int (length judged),
               es_judge_input_tokens = sum_list (map ev_input_tokens judged),
               es_judge_output_tokens = sum_list (map ev_output_tokens judged),
               es_judge_latency_ms = fsum (map ev_latency_ms judged),
               es_evaluation_configuration = configuration\<rparr>))))))"

subsection \<open>Every result is counted once\<close>

text \<open>The counts of a group of results.\<close>

definition counts :: "evaluated list \<Rightarrow> int list" where
  "counts items =
     [int (length items), int (length (fully items)), int (length (filter (\<lambda>(r, e). ev_status e \<noteq> ES_EVALUATED) items)),
      int (length (filter (\<lambda>(r, e). br_success r) items)),
      int (length (filter (\<lambda>(r, e). ev_status e = ES_EVALUATED \<and> ev_acceptable e = Some True) items))]"

definition reported :: "metric_group \<Rightarrow> int list" where
  "reported g = [mg_evaluated_tasks g, mg_fully_evaluated_tasks g, mg_incomplete_evaluations g,
     mg_successful_responses g, mg_acceptable_responses g]"

lemma length_filter_split: "length (filter P xs) + length (filter (\<lambda>x. \<not> P x) xs) = length xs"
  by (induction xs) simp_all

lemma incomplete_count:
  "int (length items) - int (length (fully items)) = int (length (filter (\<lambda>(r, e). ev_status e \<noteq> ES_EVALUATED) items))"
  using length_filter_split [of "\<lambda>(r, e). ev_status e = ES_EVALUATED" items]
  by (simp add: fully_def case_prod_unfold)

lemma metric_group_counts:
  assumes "metric_group_of tools decimal items m c = Inr g"
  shows "reported g = counts items \<and> mg_model_id g = m \<and> mg_category g = c
    \<and> (mg_acceptable_rate g = (if fully items = [] then None
         else Some (fdiv (of_int (mg_acceptable_responses g)) (of_int (mg_fully_evaluated_tasks g)))))"
proof -
  have *: "MetricGroup h = Inr g \<Longrightarrow> mg_incomplete_evaluations h = mg_evaluated_tasks h - mg_fully_evaluated_tasks h \<Longrightarrow> g = h" for h
    by (cases "mg_evaluated_tasks h = 0") (auto simp: MetricGroup_def consistent_evaluation_counts_def Let_def split: if_splits)
  let ?ok = "\<lambda>h. reported h = counts items \<and> mg_model_id h = m \<and> mg_category h = c
    \<and> (mg_acceptable_rate h = (if fully items = [] then None
         else Some (fdiv (of_int (mg_acceptable_responses h)) (of_int (mg_fully_evaluated_tasks h)))))"
  have "\<exists>h. MetricGroup h = Inr g \<and> ?ok h"
    using assms unfolding metric_group_of_def Let_def rbind_eq_Inr
    by (elim exE conjE) (rule exI, rule conjI, assumption,
        simp add: reported_def counts_def incomplete_count,
        auto simp: fully_def case_prod_unfold conj_commute filter_empty_conv)
  then obtain h where h: "MetricGroup h = Inr g" "?ok h" by blast
  then have "mg_incomplete_evaluations h = mg_evaluated_tasks h - mg_fully_evaluated_tasks h"
    using incomplete_count [of items] by (auto simp: reported_def counts_def)
  then show ?thesis using * [OF h(1)] h(2) by simp
qed

lemma sum_by_key:
  "finite K \<Longrightarrow> key ` set xs \<subseteq> K \<Longrightarrow> (\<Sum>k\<in>K. int (length (filter P (filter (\<lambda>x. key x = k) xs)))) = int (length (filter P xs))"
proof (induction xs)
  case (Cons x xs)
  have "(\<Sum>k\<in>K. int (length (filter P (filter (\<lambda>x. key x = k) (x # xs)))))
      = (\<Sum>k\<in>K. (if k = key x then (if P x then 1 else 0) else 0) + int (length (filter P (filter (\<lambda>x. key x = k) xs))))"
    by (intro sum.cong) auto
  also have "\<dots> = (if P x then 1 else 0) + int (length (filter P xs))"
    using Cons by (simp add: sum.distrib sum.delta)
  finally show ?case by simp
qed simp

lemma sum_list_sorted_keys: "sum_list (map f (sorted_keys key xs)) = (\<Sum>k\<in>key ` set xs. f k)"
  by (subst sum_list_distinct_conv_sum_set) (simp_all add: sorted_keys_def)

lemma sum_by_sorted_key:
  "sum_list (map (\<lambda>k. int (length (filter P (filter (\<lambda>x. key x = k) xs)))) (sorted_keys key xs)) = int (length (filter P xs))"
  unfolding sum_list_sorted_keys by (rule sum_by_key) simp_all

definition kinds :: "(evaluated \<Rightarrow> bool) list" where
  "kinds = [\<lambda>i. True, \<lambda>(r, e). ev_status e = ES_EVALUATED, \<lambda>(r, e). ev_status e \<noteq> ES_EVALUATED,
     \<lambda>(r, e). br_success r, \<lambda>(r, e). ev_status e = ES_EVALUATED \<and> ev_acceptable e = Some True]"

lemma counts_kinds: "counts items = map (\<lambda>P. int (length (filter P items))) kinds"
  by (simp add: counts_def kinds_def fully_def)

lemma mapM_map: "mapM f xs = Inr ys \<Longrightarrow> (\<And>x y. f x = Inr y \<Longrightarrow> h y = k x) \<Longrightarrow> map h ys = map k xs"
  unfolding mapM_Inr_iff by (induction xs ys rule: list_all2_induct) simp_all

lemma all_categories_set [simp]: "set all_categories = UNIV" "distinct all_categories"
proof -
  show "set all_categories = UNIV"
  proof -
    have "c \<in> set all_categories" for c by (cases c) (simp_all add: all_categories_def)
    then show ?thesis by blast
  qed
qed (simp add: all_categories_def)

lemma sum_categories:
  assumes "\<forall>i\<in>set items. category_of categories i \<noteq> None"
  shows "sum_list (map (\<lambda>c. int (length (filter P (of_category categories c items))))
      (filter (\<lambda>c. of_category categories c items \<noteq> []) all_categories)) = int (length (filter P items))"
proof -
  have K: "category_of categories ` set items \<subseteq> Some ` set all_categories" using assms by auto
  have "sum_list (map (\<lambda>c. int (length (filter P (of_category categories c items))))
      (filter (\<lambda>c. of_category categories c items \<noteq> []) all_categories))
    = sum_list (map (\<lambda>c. int (length (filter P (of_category categories c items)))) all_categories)"
    by (subst sum_list_map_filter') (intro arg_cong [where f = sum_list] map_cong, auto)
  also have "\<dots> = (\<Sum>c\<in>set all_categories. int (length (filter P (of_category categories c items))))"
    by (rule sum_list_distinct_conv_sum_set) simp
  also have "\<dots> = (\<Sum>k\<in>Some ` set all_categories. int (length (filter P (filter (\<lambda>x. category_of categories x = k) items))))"
    by (subst sum.reindex) (simp_all add: of_category_def)
  also have "\<dots> = int (length (filter P items))" by (rule sum_by_key [OF _ K]) (rule finite_imageI, rule List.finite_set)
  finally show ?thesis .
qed

lemma length_combinations2: "length (combinations2 xs) = length xs * (length xs - 1) div 2"
proof (induction xs)
  case (Cons x xs)
  have "(length xs + 1) * length xs = length xs * (length xs - 1) + 2 * length xs" by (cases xs) simp_all
  then show ?case using Cons.IH by simp
qed simp

text \<open>What a successful aggregation computed.\<close>

lemma aggregate_parts:
  assumes "aggregate tools decimal run results evaluations configuration = Inr s"
  obtains categories where "categories = map (\<lambda>t. (bt_task_id t, bt_category t)) (bd_tasks (bn_dataset run))"
    and "\<forall>i\<in>set (paired_with evaluations results). category_of categories i \<noteq> None"
    and "mapM (\<lambda>m. metric_group_of tools decimal (of_model m (paired_with evaluations results)) (Some m) None)
        (sorted_keys model_of (paired_with evaluations results)) = Inr (es_by_model s)"
    and "mapM (\<lambda>(m, c). metric_group_of tools decimal (of_category categories c (of_model m (paired_with evaluations results))) (Some m) (Some c))
        (group_keys categories (paired_with evaluations results)) = Inr (es_by_model_category s)"
    and "metric_group_of tools decimal (paired_with evaluations results) None None = Inr (es_overall s)"
    and "mapM compare_models (combinations2 (es_by_model s)) = Inr (es_comparisons s)"
    and "es_judge_calls s = int (length (filter ev_call_made evaluations))"
    and "results \<noteq> []" "distinct (map ev_benchmark_result_id evaluations)"
    and "set (map ev_benchmark_result_id evaluations) = set (map br_result_id results)"
proof -
  let ?cs = "map (\<lambda>t. (bt_task_id t, bt_category t)) (bd_tasks (bn_dataset run))"
  have ok: "results \<noteq> []" "distinct (map ev_benchmark_result_id evaluations)"
      "set (map ev_benchmark_result_id evaluations) = set (map br_result_id results)"
      "\<not> list_ex (\<lambda>i. category_of ?cs i = None) (paired_with evaluations results)"
    using assms by (auto simp: aggregate_def Let_def split: if_splits)
  show thesis
    using assms ok
    by (intro that [OF refl]) (auto simp: aggregate_def Let_def rbind_eq_Inr list_ex_iff split: if_splits)
qed

text \<open>
  Claim C31. A summary counts every result of the run exactly once: the groups per
  model, and those per model and category, add up to the overall numbers of evaluated, complete,
  incomplete, successful and acceptable results; the acceptable rate is taken over the complete
  evaluations only; and every two models are compared once.
\<close>

theorem summaries_count_every_result_once:
  assumes "aggregate tools decimal run results evaluations configuration = Inr s" and "i < 5"
  shows "reported (es_overall s) = counts (paired_with evaluations results)
    \<and> mg_evaluated_tasks (es_overall s) = int (length results)
    \<and> sum_list (map (\<lambda>g. reported g ! i) (es_by_model s)) = reported (es_overall s) ! i
    \<and> sum_list (map (\<lambda>g. reported g ! i) (es_by_model_category s)) = reported (es_overall s) ! i
    \<and> mg_acceptable_rate (es_overall s) = (if mg_fully_evaluated_tasks (es_overall s) = 0 then None
        else Some (fdiv (of_int (mg_acceptable_responses (es_overall s))) (of_int (mg_fully_evaluated_tasks (es_overall s)))))
    \<and> length (es_comparisons s) = length (es_by_model s) * (length (es_by_model s) - 1) div 2"
proof -
  let ?p = "paired_with evaluations results"
  let ?P = "kinds ! i"
  obtain categories where cs: "\<forall>i\<in>set ?p. category_of categories i \<noteq> None"
    and models: "mapM (\<lambda>m. metric_group_of tools decimal (of_model m ?p) (Some m) None) (sorted_keys model_of ?p) = Inr (es_by_model s)"
    and cats: "mapM (\<lambda>(m, c). metric_group_of tools decimal (of_category categories c (of_model m ?p)) (Some m) (Some c))
        (group_keys categories ?p) = Inr (es_by_model_category s)"
    and all: "metric_group_of tools decimal ?p None None = Inr (es_overall s)"
    and pairs: "mapM compare_models (combinations2 (es_by_model s)) = Inr (es_comparisons s)"
    by (rule aggregate_parts [OF assms(1)]) blast
  note overall = metric_group_counts [OF all]
  have nth: "counts items ! i = int (length (filter ?P items))" for items
    using assms(2) unfolding counts_kinds by (intro nth_map) (simp add: kinds_def)
  have by_model: "map (\<lambda>g. reported g ! i) (es_by_model s) = map (\<lambda>m. int (length (filter ?P (of_model m ?p)))) (sorted_keys model_of ?p)"
    by (rule mapM_map [OF models]) (drule metric_group_counts, simp add: nth)
  have "sum_list (map (\<lambda>g. reported g ! i) (es_by_model s)) = int (length (filter ?P ?p))"
    unfolding by_model of_model_def by (rule sum_by_sorted_key)
  moreover have "sum_list (map (\<lambda>g. reported g ! i) (es_by_model_category s)) = int (length (filter ?P ?p))"
  proof -
    have "map (\<lambda>g. reported g ! i) (es_by_model_category s)
        = map (\<lambda>(m, c). int (length (filter ?P (of_category categories c (of_model m ?p))))) (group_keys categories ?p)"
      by (rule mapM_map [OF cats]) (auto dest!: metric_group_counts simp: nth)
    also have "sum_list \<dots> = sum_list (map (\<lambda>m. int (length (filter ?P (of_model m ?p)))) (sorted_keys model_of ?p))"
    proof -
      have one: "sum_list (map (\<lambda>c. int (length (filter ?P (of_category categories c (of_model m ?p)))))
          (filter (\<lambda>c. of_category categories c (of_model m ?p) \<noteq> []) all_categories)) = int (length (filter ?P (of_model m ?p)))" for m
        using cs by (intro sum_categories) (auto simp: of_model_def)
      have "sum_list (map (\<lambda>(m, c). f m c) (concat (map (\<lambda>m. map (Pair m) (g m)) ms))) = sum_list (map (\<lambda>m. sum_list (map (f m) (g m))) ms)"
        for f :: "string \<Rightarrow> benchmark_category \<Rightarrow> int" and g ms
        by (induction ms) (simp_all add: comp_def)
      then show ?thesis unfolding group_keys_def using one by simp
    qed
    also have "\<dots> = int (length (filter ?P ?p))" unfolding of_model_def by (rule sum_by_sorted_key)
    finally show ?thesis .
  qed
  moreover have "length (es_comparisons s) = length (es_by_model s) * (length (es_by_model s) - 1) div 2"
    using mapM_Inr_length [OF pairs] by (simp add: length_combinations2)
  moreover have "mg_evaluated_tasks (es_overall s) = int (length results)"
      "mg_fully_evaluated_tasks (es_overall s) = int (length (fully ?p))"
    using overall by (auto simp: reported_def counts_def paired_with_def Let_def)
  ultimately show ?thesis using overall nth [of ?p] by auto
qed

end
