(* ===== verification/Sandbox.thy ===== *)
theory Sandbox
  imports Float_Arith Py_Json
begin

section \<open>Functional tests in a container\<close>

text \<open>
  \<^verbatim>\<open>evaluation/sandbox.py\<close>: the result of running a candidate's tests, the harness that
  runs inside the container, and the host side that starts, feeds, kills and removes the
  container. Docker, the Python parser and the candidate's own behaviour are parameters.
\<close>

subsection \<open>Requests and results\<close>

record functional_test =
  ft_args :: "pyj list"
  ft_expected :: pyj

record functional_request =
  fq_source :: string
  fq_function_name :: string
  fq_parameter_count :: int
  fq_tests :: "functional_test list"
  fq_preserve_inputs :: bool

definition ascii_word :: "char \<Rightarrow> bool" where
  "ascii_word c = (let n = (of_char c :: nat) in
     (48 \<le> n \<and> n \<le> 57) \<or> (65 \<le> n \<and> n \<le> 90) \<or> n = 95 \<or> (97 \<le> n \<and> n \<le> 122))"

text \<open>\<^verbatim>\<open>^[A-Za-z_][A-Za-z0-9_]*$\<close>.\<close>

definition python_name :: "string \<Rightarrow> bool" where
  "python_name s \<longleftrightarrow> s \<noteq> [] \<and> list_all ascii_word s \<and> (let n = (of_char (hd s) :: nat) in \<not> (48 \<le> n \<and> n \<le> 57))"

definition functional_request_valid :: "functional_request \<Rightarrow> bool" where
  "functional_request_valid q \<longleftrightarrow>
     1 \<le> length (fq_source q) \<and> python_name (fq_function_name q) \<and> 0 \<le> fq_parameter_count q \<and> 1 \<le> length (fq_tests q)"

definition FunctionalEvaluationRequest :: "functional_request \<Rightarrow> exn_class + functional_request" where
  "FunctionalEvaluationRequest q = (if functional_request_valid q then Inr q else Inl ValidationErrorC)"

datatype execution_status = XS_PASSED | XS_FAILED | XS_INFRASTRUCTURE_FAILURE

datatype functional_error =
    FE_SYNTAX_ERROR | FE_MISSING_FUNCTION | FE_WRONG_SIGNATURE | FE_RUNTIME_EXCEPTION | FE_TIMEOUT | FE_WRONG_OUTPUT
  | FE_MALFORMED_RETURN | FE_RESTRICTED_BEHAVIOR | FE_OUTPUT_LIMIT | FE_CONTAINER_START_FAILURE
  | FE_DOCKER_UNAVAILABLE | FE_CONTAINER_FAILURE

fun functional_error_value :: "functional_error \<Rightarrow> string" where
  "functional_error_value FE_SYNTAX_ERROR = ''syntax_error''"
| "functional_error_value FE_MISSING_FUNCTION = ''missing_function''"
| "functional_error_value FE_WRONG_SIGNATURE = ''wrong_signature''"
| "functional_error_value FE_RUNTIME_EXCEPTION = ''runtime_exception''"
| "functional_error_value FE_TIMEOUT = ''timeout''"
| "functional_error_value FE_WRONG_OUTPUT = ''wrong_output''"
| "functional_error_value FE_MALFORMED_RETURN = ''malformed_return''"
| "functional_error_value FE_RESTRICTED_BEHAVIOR = ''restricted_behavior''"
| "functional_error_value FE_OUTPUT_LIMIT = ''output_limit''"
| "functional_error_value FE_CONTAINER_START_FAILURE = ''container_start_failure''"
| "functional_error_value FE_DOCKER_UNAVAILABLE = ''docker_unavailable''"
| "functional_error_value FE_CONTAINER_FAILURE = ''container_failure''"

definition FUNCTIONAL_EVALUATOR_VERSION :: string where "FUNCTIONAL_EVALUATOR_VERSION = ''1.0.0''"

record functional_result =
  fr_status :: execution_status
  fr_attempted :: int
  fr_passed :: int
  fr_failed :: int
  fr_total :: int
  fr_quality_score :: "rat option"
  fr_acceptable :: "bool option"
  fr_timed_out :: bool
  fr_category :: "functional_error option"
  fr_version :: string

definition consistent_functional_result :: "functional_result \<Rightarrow> bool" where
  "consistent_functional_result r \<longleftrightarrow>
     (if fr_status r = XS_INFRASTRUCTURE_FAILURE
      then \<not> (fr_quality_score r \<noteq> None \<or> fr_acceptable r \<noteq> None \<or> fr_attempted r \<noteq> 0 \<or> fr_passed r \<noteq> 0
              \<or> fr_failed r \<noteq> 0 \<or> fr_category r = None)
      else \<not> (fr_quality_score r \<noteq> Some (fdiv (of_int (fr_passed r)) (of_int (fr_total r)))
              \<or> fr_failed r \<noteq> fr_total r - fr_passed r
              \<or> fr_attempted r > fr_total r
              \<or> fr_acceptable r \<noteq> Some (fr_passed r = fr_total r)
              \<or> (fr_status r = XS_PASSED) \<noteq> (fr_acceptable r = Some True)))"

definition functional_result_valid :: "functional_result \<Rightarrow> bool" where
  "functional_result_valid r \<longleftrightarrow>
     0 \<le> fr_attempted r \<and> 0 \<le> fr_passed r \<and> 0 \<le> fr_failed r \<and> 0 < fr_total r
   \<and> (case fr_quality_score r of None \<Rightarrow> True | Some q \<Rightarrow> 0 \<le> q \<and> q \<le> 1)
   \<and> consistent_functional_result r"

definition FunctionalEvaluationResult :: "functional_result \<Rightarrow> exn_class + functional_result" where
  "FunctionalEvaluationResult r = (if functional_result_valid r then Inr r else Inl ValidationErrorC)"

subsection \<open>The harness inside the container\<close>

record harness_node =
  hn_class :: string
  hn_attr :: "string option"
  hn_called_name :: "string option"

record harness_function =
  hf_name :: string
  hf_decorated :: bool
  hf_annotated :: bool
  hf_has_defaults :: bool
  hf_args :: nat
  hf_other_args :: bool

text \<open>
  A statement of the module: a docstring-like constant, a function (with a return or parameter
  annotation in \<open>hf_annotated\<close>, a non-empty \<^verbatim>\<open>defaults\<close> or \<^verbatim>\<open>kw_defaults\<close> list in
  \<open>hf_has_defaults\<close>, and any of positional-only, keyword-only, \<^verbatim>\<open>*\<close> and \<^verbatim>\<open>**\<close> parameters in
  \<open>hf_other_args\<close>), or anything else.
\<close>

datatype harness_item = TextItem | FunctionItem harness_function | OtherItem

record harness_tree =
  ht_nodes :: "harness_node list"
  ht_body :: "harness_item list"

definition FORBIDDEN_NODES :: "string list" where
  "FORBIDDEN_NODES = [''Import'', ''ImportFrom'', ''Global'', ''Nonlocal'', ''ClassDef'', ''AsyncFunctionDef'',
     ''With'', ''AsyncWith'', ''Try'', ''Raise'']"

definition FORBIDDEN_CALLS :: "string list" where
  "FORBIDDEN_CALLS = [''__import__'', ''breakpoint'', ''compile'', ''eval'', ''exec'', ''input'', ''open'']"

definition restricted_node :: "harness_node \<Rightarrow> bool" where
  "restricted_node n \<longleftrightarrow>
     hn_class n \<in> set FORBIDDEN_NODES
   \<or> (case hn_attr n of Some a \<Rightarrow> take 1 a = ''_'' | None \<Rightarrow> False)
   \<or> (case hn_called_name n of Some c \<Rightarrow> c \<in> set FORBIDDEN_CALLS | None \<Rightarrow> False)"

fun reject_items :: "harness_item list \<Rightarrow> functional_error option" where
  "reject_items [] = None"
| "reject_items (TextItem # items) = reject_items items"
| "reject_items (OtherItem # items) = Some FE_RESTRICTED_BEHAVIOR"
| "reject_items (FunctionItem f # items) =
     (if hf_decorated f \<or> hf_annotated f then Some FE_RESTRICTED_BEHAVIOR
      else if hf_has_defaults f then Some FE_WRONG_SIGNATURE
      else reject_items items)"

definition named_functions :: "string \<Rightarrow> harness_item list \<Rightarrow> harness_function list" where
  "named_functions name items =
     concat (map (\<lambda>i. case i of FunctionItem f \<Rightarrow> if hf_name f = name then [f] else [] | _ \<Rightarrow> []) items)"

definition reject_category :: "harness_tree \<Rightarrow> string \<Rightarrow> int \<Rightarrow> functional_error option" where
  "reject_category tree function_name parameter_count =
     (if list_ex restricted_node (ht_nodes tree) then Some FE_RESTRICTED_BEHAVIOR
      else case reject_items (ht_body tree) of
        Some c \<Rightarrow> Some c
      | None \<Rightarrow>
          (case named_functions function_name (ht_body tree) of
             [f] \<Rightarrow> if int (hf_args f) \<noteq> parameter_count \<or> hf_other_args f then Some FE_WRONG_SIGNATURE else None
           | _ \<Rightarrow> Some FE_MISSING_FUNCTION))"

text \<open>What one call of the candidate shows the harness.\<close>

datatype call_outcome =
    CallOverflow
  | CallRaised
  | CallReturned (co_mutated: bool) (co_serialisable: bool) (co_same_type: bool) (co_equal: bool)

definition case_error :: "bool \<Rightarrow> call_outcome \<Rightarrow> functional_error option" where
  "case_error preserve_inputs r =
     (case r of
        CallOverflow \<Rightarrow> Some FE_OUTPUT_LIMIT
      | CallRaised \<Rightarrow> Some FE_RUNTIME_EXCEPTION
      | CallReturned mutated serialisable same_type equal \<Rightarrow>
          if preserve_inputs \<and> mutated then Some FE_WRONG_OUTPUT
          else if \<not> serialisable then Some FE_MALFORMED_RETURN
          else if \<not> same_type then Some FE_MALFORMED_RETURN
          else if equal then None else Some FE_WRONG_OUTPUT)"

text \<open>The loop's state: attempted, passed, first error.\<close>

fun run_cases :: "bool \<Rightarrow> call_outcome list \<Rightarrow> int \<times> int \<times> functional_error option \<Rightarrow> int \<times> int \<times> functional_error option" where
  "run_cases preserve [] st = st"
| "run_cases preserve (r # rs) (attempted, passed, first_error) =
     run_cases preserve rs
       (case case_error preserve r of
          None \<Rightarrow> (attempted + 1, passed + 1, first_error)
        | Some c \<Rightarrow> (attempted + 1, passed, (case first_error of None \<Rightarrow> Some c | Some d \<Rightarrow> Some d)))"

definition emit :: "execution_status \<Rightarrow> int \<Rightarrow> int \<Rightarrow> int \<Rightarrow> int \<Rightarrow> functional_error option \<Rightarrow> functional_result" where
  "emit status attempted passed failed tests category =
     \<lparr>fr_status = status, fr_attempted = attempted, fr_passed = passed, fr_failed = failed, fr_total = tests,
      fr_quality_score = Some (fdiv (of_int passed) (of_int tests)), fr_acceptable = Some (passed = tests),
      fr_timed_out = False, fr_category = category, fr_version = ''1.0.0''\<rparr>"

text \<open>
  The program: \<open>None\<close> for a source \<^verbatim>\<open>ast.parse\<close> rejects; \<open>cp_loads\<close> for a module whose
  execution raises nothing; \<open>cp_call\<close> for the candidate on the \<open>i\<close>-th test.
\<close>

record candidate_program =
  cp_tree :: "harness_tree option"
  cp_loads :: bool
  cp_call :: "nat \<Rightarrow> functional_test \<Rightarrow> call_outcome"

definition harness_main :: "candidate_program \<Rightarrow> functional_request \<Rightarrow> functional_result" where
  "harness_main program payload =
     (let tests = int (length (fq_tests payload)) in
      case cp_tree program of
        None \<Rightarrow> emit XS_FAILED 0 0 tests tests (Some FE_SYNTAX_ERROR)
      | Some tree \<Rightarrow>
          (case reject_category tree (fq_function_name payload) (fq_parameter_count payload) of
             Some category \<Rightarrow> emit XS_FAILED 0 0 tests tests (Some category)
           | None \<Rightarrow>
               if \<not> cp_loads program then emit XS_FAILED 0 0 tests tests (Some FE_RUNTIME_EXCEPTION)
               else
                 let (attempted, passed, first_error) =
                       run_cases (fq_preserve_inputs payload)
                         (map (\<lambda>(i, t). cp_call program i t) (enumerate 0 (fq_tests payload))) (0, 0, None);
                     failed = tests - passed in
                 emit (if failed = 0 then XS_PASSED else XS_FAILED) attempted passed failed tests
                   (if failed = 0 then None else first_error)))"

subsection \<open>The host side\<close>

record docker_sandbox =
  dx_image :: string
  dx_timeout_seconds :: rat
  dx_memory :: string
  dx_cpus :: rat
  dx_pids_limit :: int

definition DEFAULT_SANDBOX_IMAGE :: string where
  "DEFAULT_SANDBOX_IMAGE =
     ''python:3.12.12-alpine3.22@sha256:848ba4413eb897e225159b8fc1b02094576cbae4aa73fc13142608ae2c8c0e32''"

definition new_docker_sandbox :: "string \<Rightarrow> rat \<Rightarrow> string \<Rightarrow> rat \<Rightarrow> int \<Rightarrow> exn_class + docker_sandbox" where
  "new_docker_sandbox img timeout_seconds memory cpus pids_limit =
     (if timeout_seconds \<le> 0 \<or> cpus \<le> 0 \<or> pids_limit \<le> 0 then Inl ValueErrorC
      else Inr \<lparr>dx_image = img, dx_timeout_seconds = timeout_seconds, dx_memory = memory, dx_cpus = cpus,
                dx_pids_limit = pids_limit\<rparr>)"

text \<open>\<open>shown\<close> is \<^verbatim>\<open>str\<close> of a float, \<open>harness\<close> the program text.\<close>

definition docker_command :: "(rat \<Rightarrow> string) \<Rightarrow> string \<Rightarrow> docker_sandbox \<Rightarrow> string \<Rightarrow> string list" where
  "docker_command shown harness s name =
     [''docker'', ''run'', ''--rm'', ''--pull=never'', ''--name'', name,
      ''--network=none'', ''--memory='' @ dx_memory s, ''--memory-swap='' @ dx_memory s,
      ''--cpus='' @ shown (dx_cpus s), ''--pids-limit='' @ show_nat (nat (dx_pids_limit s)),
      ''--user=65534:65534'', ''--read-only'', ''--cap-drop=ALL'',
      ''--security-opt=no-new-privileges:true'',
      ''--tmpfs=/tmp:rw,noexec,nosuid,nodev,size=16m'',
      ''--env=PYTHONDONTWRITEBYTECODE=1'', ''--env=PYTHONHASHSEED=0'',
      ''-i'', dx_image s, ''python'', ''-I'', ''-S'', ''-c'', harness]"

text \<open>
  What the host sees of one container run: starting it, the exchange, the exit code once the
  exchange or the kill is over, and whether killing a process that is already gone raises.
\<close>

datatype start_outcome = StartMissing | StartOSError | Started

datatype exchange = ExTimeout | ExCancelled | ExOSError | ExDone string string

record docker_run =
  dr_start :: start_outcome
  dr_exchange :: exchange
  dr_returncode :: "int option"
  dr_kill_raises :: bool

datatype host_action = Start "string list" | Kill | RemoveContainer string

definition infrastructure :: "int \<Rightarrow> functional_error \<Rightarrow> functional_result" where
  "infrastructure tests category =
     \<lparr>fr_status = XS_INFRASTRUCTURE_FAILURE, fr_attempted = 0, fr_passed = 0, fr_failed = 0, fr_total = tests,
      fr_quality_score = None, fr_acceptable = None, fr_timed_out = False, fr_category = Some category,
      fr_version = FUNCTIONAL_EVALUATOR_VERSION\<rparr>"

definition all_failed :: "int \<Rightarrow> bool \<Rightarrow> functional_error \<Rightarrow> functional_result" where
  "all_failed tests timed_out category =
     \<lparr>fr_status = XS_FAILED, fr_attempted = tests, fr_passed = 0, fr_failed = tests, fr_total = tests,
      fr_quality_score = Some 0, fr_acceptable = Some False, fr_timed_out = timed_out, fr_category = Some category,
      fr_version = FUNCTIONAL_EVALUATOR_VERSION\<rparr>"

text \<open>
  \<open>parse\<close> reads the fields of a result from the output, before the model's own checks;
  \<open>decoded\<close> is \<^verbatim>\<open>decode("utf-8", "replace").casefold()\<close>. A \<^verbatim>\<open>ValidationError\<close>
  is a \<^verbatim>\<open>ValueError\<close>.
\<close>

definition read_output ::
  "(string \<Rightarrow> functional_result option) \<Rightarrow> (string \<Rightarrow> string) \<Rightarrow> int \<Rightarrow> int option \<Rightarrow> string \<Rightarrow> string \<Rightarrow>
   exn_class + functional_result" where
  "read_output parse decoded tests returncode out err =
     (if length out > 65536 \<or> length err > 65536
      then FunctionalEvaluationResult (all_failed tests False FE_OUTPUT_LIMIT)
      else if returncode \<noteq> Some 0 then
        if returncode \<in> {Some 137, Some 139}
        then FunctionalEvaluationResult (all_failed tests False FE_RUNTIME_EXCEPTION)
        else
          let lowered = decoded err in
          FunctionalEvaluationResult (infrastructure tests
            (if contains ''cannot connect to the docker daemon'' lowered \<or> contains ''permission denied'' lowered
             then FE_DOCKER_UNAVAILABLE
             else if contains ''unable to find image'' lowered \<or> contains ''no such image'' lowered
             then FE_CONTAINER_START_FAILURE else FE_CONTAINER_FAILURE))
      else case parse out of
        None \<Rightarrow> FunctionalEvaluationResult (infrastructure tests FE_CONTAINER_FAILURE)
      | Some r \<Rightarrow> (case FunctionalEvaluationResult r of
            Inl _ \<Rightarrow> FunctionalEvaluationResult (infrastructure tests FE_CONTAINER_FAILURE)
          | Inr r \<Rightarrow> Inr r))"

text \<open>Killing: the exception of \<^verbatim>\<open>kill\<close> replaces the handler's outcome.\<close>

definition killed :: "docker_run \<Rightarrow> string \<Rightarrow> exn_class + functional_result \<Rightarrow> (exn_class + functional_result) \<times> host_action list" where
  "killed run name outcome =
     (if dr_kill_raises run then (Inl OSErrorC, [Kill]) else (outcome, [Kill, RemoveContainer name]))"

definition run_container ::
  "(string \<Rightarrow> functional_result option) \<Rightarrow> (string \<Rightarrow> string) \<Rightarrow> docker_run \<Rightarrow> string list \<Rightarrow> string \<Rightarrow> functional_request \<Rightarrow>
   (exn_class + functional_result) \<times> host_action list" where
  "run_container parse decoded run command name request =
     (let tests = int (length (fq_tests request)) in
      case dr_start run of
        StartMissing \<Rightarrow> (FunctionalEvaluationResult (infrastructure tests FE_DOCKER_UNAVAILABLE), [Start command])
      | StartOSError \<Rightarrow> (FunctionalEvaluationResult (infrastructure tests FE_CONTAINER_START_FAILURE), [Start command])
      | Started \<Rightarrow>
          let (outcome, actions) =
            (case dr_exchange run of
               ExTimeout \<Rightarrow> killed run name (FunctionalEvaluationResult (all_failed tests True FE_TIMEOUT))
             | ExCancelled \<Rightarrow> killed run name (Inl CancelledErrorC)
             | ExOSError \<Rightarrow> killed run name (FunctionalEvaluationResult (infrastructure tests FE_CONTAINER_FAILURE))
             | ExDone out err \<Rightarrow> (read_output parse decoded tests (dr_returncode run) out err, []));
            finally_actions = (if dr_returncode run \<noteq> None then [RemoveContainer name] else []) in
          (outcome, Start command # actions @ finally_actions))"

subsection \<open>Results are consistent\<close>

lemma run_cases_spec:
  "run_cases preserve rs (attempted, passed, first_error) = (a, p, e) \<Longrightarrow>
   a = attempted + int (length rs)
 \<and> p = passed + int (length (filter (\<lambda>r. case_error preserve r = None) rs))
 \<and> (e = None \<longleftrightarrow> first_error = None \<and> (\<forall>r\<in>set rs. case_error preserve r = None))"
proof (induction rs arbitrary: attempted passed first_error)
  case (Cons r rs)
  then show ?case
    by (cases "case_error preserve r") (fastforce split: option.splits)+
qed auto

lemma all_failed_valid: "0 < n \<Longrightarrow> functional_result_valid (all_failed n timed_out c)"
  by (simp add: all_failed_def functional_result_valid_def consistent_functional_result_def fdiv_def)

lemma infrastructure_valid: "0 < n \<Longrightarrow> functional_result_valid (infrastructure n c)"
  by (simp add: infrastructure_def functional_result_valid_def consistent_functional_result_def)

lemmas sandbox_valid = all_failed_valid infrastructure_valid

lemma emit_valid:
  "0 \<le> attempted \<Longrightarrow> attempted \<le> n \<Longrightarrow> 0 \<le> passed \<Longrightarrow> passed \<le> n \<Longrightarrow> 0 < n \<Longrightarrow> st \<noteq> XS_INFRASTRUCTURE_FAILURE \<Longrightarrow>
   st = XS_PASSED \<longleftrightarrow> passed = n \<Longrightarrow> functional_result_valid (emit st attempted passed (n - passed) n c)"
  using unit_fdiv [of "of_int passed" "of_int n"]
  by (auto simp: emit_def functional_result_valid_def consistent_functional_result_def unit_def)

definition outcomes :: "candidate_program \<Rightarrow> functional_request \<Rightarrow> call_outcome list" where
  "outcomes program q = map (\<lambda>(i, t). cp_call program i t) (enumerate 0 (fq_tests q))"

lemma length_outcomes [simp]: "length (outcomes program q) = length (fq_tests q)"
  by (simp add: outcomes_def)

definition runnable :: "candidate_program \<Rightarrow> functional_request \<Rightarrow> bool" where
  "runnable program q \<longleftrightarrow>
     (\<exists>tree. cp_tree program = Some tree
       \<and> reject_category tree (fq_function_name q) (fq_parameter_count q) = None) \<and> cp_loads program"

lemma filter_all_length: "length (filter P xs) = length xs \<longleftrightarrow> (\<forall>x\<in>set xs. P x)"
proof (cases "\<forall>x\<in>set xs. P x")
  case False
  then obtain x where "x \<in> set xs" "\<not> P x" by blast
  then have "length (filter P xs) < length xs" by (rule length_filter_less)
  then show ?thesis using False by simp
qed simp

definition passed_tests :: "candidate_program \<Rightarrow> functional_request \<Rightarrow> int" where
  "passed_tests program q =
     int (length (filter (\<lambda>r. case_error (fq_preserve_inputs q) r = None) (outcomes program q)))"

lemma passed_tests_bounds: "0 \<le> passed_tests program q" "passed_tests program q \<le> int (length (fq_tests q))"
  using length_filter_le [of _ "outcomes program q"] by (simp_all add: passed_tests_def)

text \<open>The harness's result in terms of the individual tests.\<close>

lemma harness_main_runnable:
  assumes "runnable program q"
  obtains c where "harness_main program q =
      emit (if passed_tests program q = int (length (fq_tests q)) then XS_PASSED else XS_FAILED)
        (int (length (fq_tests q))) (passed_tests program q) (int (length (fq_tests q)) - passed_tests program q)
        (int (length (fq_tests q))) c"
    and "c = None \<longleftrightarrow> passed_tests program q = int (length (fq_tests q))"
proof -
  let ?n = "int (length (fq_tests q))"
  obtain a p e where run: "run_cases (fq_preserve_inputs q) (outcomes program q) (0, 0, None) = (a, p, e)"
    by (cases "run_cases (fq_preserve_inputs q) (outcomes program q) (0, 0, None)") auto
  have a: "a = ?n" and p: "p = passed_tests program q"
    and e: "e = None \<longleftrightarrow> (\<forall>r\<in>set (outcomes program q). case_error (fq_preserve_inputs q) r = None)"
    using run_cases_spec [OF run] by (simp_all add: passed_tests_def)
  have e': "e = None \<longleftrightarrow> passed_tests program q = ?n"
    unfolding e passed_tests_def of_nat_eq_iff using filter_all_length [of _ "outcomes program q"] by simp
  obtain tree where tree: "cp_tree program = Some tree"
      "reject_category tree (fq_function_name q) (fq_parameter_count q) = None" "cp_loads program"
    using assms by (auto simp: runnable_def)
  have "harness_main program q = emit (if ?n - p = 0 then XS_PASSED else XS_FAILED) a p (?n - p) ?n
      (if ?n - p = 0 then None else e)"
    using tree run by (simp add: harness_main_def outcomes_def [symmetric] Let_def)
  then show thesis using e' by (intro that) (auto simp: a p)
qed

lemma harness_main_not_runnable:
  assumes "\<not> runnable program q"
  shows "\<exists>c. harness_main program q = emit XS_FAILED 0 0 (int (length (fq_tests q))) (int (length (fq_tests q))) (Some c)"
  using assms
  by (cases "cp_tree program";
      cases "reject_category (the (cp_tree program)) (fq_function_name q) (fq_parameter_count q)")
    (auto simp: harness_main_def runnable_def Let_def)


subsection \<open>Containers do not stay behind\<close>

text \<open>
  What the process interface guarantees: an exchange that ends normally has reaped the process,
  and only a process that is gone cannot be killed.
\<close>

definition process_laws :: "docker_run \<Rightarrow> bool" where
  "process_laws run \<longleftrightarrow>
     ((\<exists>out err. dr_exchange run = ExDone out err) \<or> dr_kill_raises run \<longrightarrow> dr_returncode run \<noteq> None)"

lemma FunctionalEvaluationResult_valid [simp]:
  "functional_result_valid r \<Longrightarrow> FunctionalEvaluationResult r = Inr r"
  by (simp add: FunctionalEvaluationResult_def)

lemma read_output_valid: "0 < n \<Longrightarrow> \<exists>r. read_output parse decoded n code out err = Inr r \<and> functional_result_valid r"
  by (auto simp: read_output_def Let_def sandbox_valid FunctionalEvaluationResult_def split: option.splits)


end
