(* ===== verification/Propositions.thy ===== *)
theory Propositions
  imports Float_Arith Py_Json
begin

section \<open>Summaries judged proposition by proposition\<close>

text \<open>
  The data of \<^verbatim>\<open>benchmarks/summarization_spec.py\<close> that the hybrid evaluation reads
  (weighted propositions with the equivalences and derivations a judge may use), the weighted
  coverage of a set of verdicts in exact fractions, and the check of a judge's rubric in
  \<^verbatim>\<open>evaluation/hybrid_judge.py\<close>. The review notes of a specification are not read
  here and left out.
\<close>

datatype verdict = ENTAILED | NOT_ENTAILED | AMBIGUOUS

datatype derivation_policy = DP_ALLOWED | DP_NOT_ALLOWED | DP_CONDITIONAL

record rational_weight =
  rw_numerator :: int
  rw_denominator :: int

definition fraction :: "rational_weight \<Rightarrow> rat" where
  "fraction w = of_int (rw_numerator w) / of_int (rw_denominator w)"

record anchor =
  an_kind :: string
  an_value :: string
  an_normalized_value :: string
  an_required_exactly :: bool

record equivalence =
  eq_alternative :: string
  eq_preserves_information :: string

record derivation_rule =
  dr_derivation_id :: string
  dr_policy :: derivation_policy
  dr_expression :: string
  dr_requires :: "string list"
  dr_rationale :: string

definition conditional_rules_declare_dependencies :: "derivation_rule \<Rightarrow> bool" where
  "conditional_rules_declare_dependencies r \<longleftrightarrow>
     \<not> (dr_policy r = DP_CONDITIONAL \<and> dr_requires r = []) \<and> \<not> (dr_policy r \<noteq> DP_CONDITIONAL \<and> dr_requires r \<noteq> [])"

record semantic_proposition =
  sp_proposition_id :: string
  sp_description :: string
  sp_weight :: rational_weight
  sp_source_evidence :: string
  sp_anchors :: "anchor list"
  sp_equivalences :: "equivalence list"
  sp_derivations :: "derivation_rule list"

record task_specification =
  ts_specification_id :: string
  ts_canonical_task_id :: string
  ts_source_text :: string
  ts_legacy_requirements :: "string list"
  ts_propositions :: "semantic_proposition list"

definition weight_positive :: "rational_weight \<Rightarrow> bool" where
  "weight_positive w \<longleftrightarrow> 0 < rw_numerator w \<and> 0 < rw_denominator w"

definition stable_unique_weighted_propositions :: "task_specification \<Rightarrow> bool" where
  "stable_unique_weighted_propositions t \<longleftrightarrow>
     \<not> has_duplicates (map sp_proposition_id (ts_propositions t))
   \<and> sum_list (map (fraction \<circ> sp_weight) (ts_propositions t)) = of_nat (length (ts_legacy_requirements t))"

definition task_specification_valid :: "task_specification \<Rightarrow> bool" where
  "task_specification_valid t \<longleftrightarrow>
     1 \<le> length (ts_source_text t) \<and> 1 \<le> length (ts_legacy_requirements t) \<and> 1 \<le> length (ts_propositions t)
   \<and> list_all (\<lambda>p. 1 \<le> length (sp_description p) \<and> 1 \<le> length (sp_source_evidence p) \<and> weight_positive (sp_weight p)
       \<and> list_all conditional_rules_declare_dependencies (sp_derivations p)) (ts_propositions t)
   \<and> stable_unique_weighted_propositions t"

text \<open>The specification file: tasks with globally unique identifiers, and the error contract.\<close>

record error_contract =
  ec_required_fields :: "string list"
  ec_categories :: "string list"
  ec_interpretive_policy :: string

record proposition_specification =
  ps_tasks :: "task_specification list"
  ps_material_error_contract :: error_contract

definition unique_specification_and_proposition_ids :: "proposition_specification \<Rightarrow> bool" where
  "unique_specification_and_proposition_ids s \<longleftrightarrow>
     \<not> (has_duplicates (map ts_specification_id (ps_tasks s))
        \<or> has_duplicates (concat (map (\<lambda>t. map sp_proposition_id (ts_propositions t)) (ps_tasks s))))"

subsection \<open>Weighted coverage\<close>

record coverage_result =
  cv_complete :: bool
  cv_numerator :: "int option"
  cv_denominator :: "int option"
  cv_ambiguous :: "string list"

text \<open>\<open>verdicts\<close> is a dict, so its keys are distinct.\<close>

definition weighted_coverage :: "task_specification \<Rightarrow> verdict dict \<Rightarrow> exn_class + coverage_result" where
  "weighted_coverage task verdicts =
     (let expected = set (map sp_proposition_id (ts_propositions task)) in
      if set (map fst verdicts) \<noteq> expected then Inl ValueErrorC
      else
        let ambiguous = sort (map fst (filter (\<lambda>(k, v). v = AMBIGUOUS) verdicts)) in
        if ambiguous \<noteq> []
        then Inr \<lparr>cv_complete = False, cv_numerator = None, cv_denominator = None, cv_ambiguous = ambiguous\<rparr>
        else
          let weights = map (\<lambda>p. (sp_proposition_id p, fraction (sp_weight p))) (ts_propositions task);
              earned = sum_list (map (\<lambda>(k, v). the (map_of weights k)) (filter (\<lambda>(k, v). v = ENTAILED) verdicts));
              whole = sum_list (map snd weights);
              coverage = quotient_of (earned / whole) in
          if whole = 0 then Inl ArithmeticErrorC
          else Inr \<lparr>cv_complete = True, cv_numerator = Some (fst coverage), cv_denominator = Some (snd coverage),
                    cv_ambiguous = []\<rparr>)"

subsection \<open>Rubrics and their check\<close>

record judge_proposition =
  jp_proposition_id :: string
  jp_description :: string
  jp_source_evidence :: string
  jp_anchors :: "anchor list"
  jp_equivalences :: "equivalence list"
  jp_derivation_rules :: "derivation_rule list"

record hybrid_request =
  hq_source_material :: string
  hq_candidate_summary :: string
  hq_required_propositions :: "judge_proposition list"
  hq_material_error_contract :: error_contract

definition from_specification :: "error_contract \<Rightarrow> task_specification \<Rightarrow> string \<Rightarrow> hybrid_request" where
  "from_specification contract task candidate_summary =
     \<lparr>hq_source_material = ts_source_text task, hq_candidate_summary = candidate_summary,
      hq_required_propositions = map (\<lambda>p. \<lparr>jp_proposition_id = sp_proposition_id p, jp_description = sp_description p,
          jp_source_evidence = sp_source_evidence p, jp_anchors = sp_anchors p,
          jp_equivalences = sp_equivalences p, jp_derivation_rules = sp_derivations p\<rparr>) (ts_propositions task),
      hq_material_error_contract = contract\<rparr>"

record judgement =
  jd_proposition_id :: string
  jd_verdict :: verdict
  jd_source_evidence_reference :: string
  jd_used :: "string option"
  jd_reason :: string

datatype materiality = MATERIAL | BORDERLINE

record material_finding =
  mf_candidate_claim :: string
  mf_quote :: string
  mf_category :: string
  mf_materiality :: materiality
  mf_reason :: string

record hybrid_rubric =
  hr_judgments :: "judgement list"
  hr_findings :: "material_finding list"

definition judgement_valid :: "judgement \<Rightarrow> bool" where
  "judgement_valid j \<longleftrightarrow> 1 \<le> length (jd_proposition_id j) \<and> 1 \<le> length (jd_source_evidence_reference j)
     \<and> 1 \<le> length (jd_reason j) \<and> length (jd_reason j) \<le> 2000"

definition finding_valid :: "material_finding \<Rightarrow> bool" where
  "finding_valid f \<longleftrightarrow> 1 \<le> length (mf_candidate_claim f) \<and> 1 \<le> length (mf_quote f) \<and> 1 \<le> length (mf_reason f)"

definition reject_duplicate_entries :: "hybrid_rubric \<Rightarrow> bool" where
  "reject_duplicate_entries r \<longleftrightarrow>
     \<not> has_duplicates (map jd_proposition_id (hr_judgments r)) \<and> \<not> has_duplicates (hr_findings r)"

definition hybrid_rubric_valid :: "hybrid_rubric \<Rightarrow> bool" where
  "hybrid_rubric_valid r \<longleftrightarrow>
     1 \<le> length (hr_judgments r) \<and> list_all judgement_valid (hr_judgments r) \<and> list_all finding_valid (hr_findings r)
   \<and> reject_duplicate_entries r"

datatype rubric_error = PROPOSITION_ID_MISMATCH | INVALID_RULE_USE

text \<open>One step of the loop: does this judgment use a rule it may not use? Later dict entries win.\<close>

definition misuses_rule :: "hybrid_request \<Rightarrow> hybrid_rubric \<Rightarrow> judgement \<Rightarrow> bool" where
  "misuses_rule request rubric j =
     (case jd_used j of
        None \<Rightarrow> False
      | Some used \<Rightarrow>
          if jd_verdict j \<noteq> ENTAILED then True
          else case map_of (rev (map (\<lambda>p. (jp_proposition_id p, p)) (hq_required_propositions request))) (jd_proposition_id j) of
            None \<Rightarrow> True
          | Some p \<Rightarrow>
              if used \<in> set (map (\<lambda>e. ''equivalence:'' @ eq_alternative e) (jp_equivalences p)) then False
              else case map_of (rev (map (\<lambda>r. (dr_derivation_id r, r)) (jp_derivation_rules p))) used of
                None \<Rightarrow> True
              | Some r \<Rightarrow>
                  dr_policy r = DP_NOT_ALLOWED
                \<or> dr_policy r = DP_CONDITIONAL
                  \<and> list_ex (\<lambda>required.
                      map_of (rev (map (\<lambda>i. (jd_proposition_id i, jd_verdict i)) (hr_judgments rubric))) required
                        \<noteq> Some ENTAILED) (dr_requires r))"

definition validate_rubric :: "hybrid_request \<Rightarrow> hybrid_rubric \<Rightarrow> rubric_error option" where
  "validate_rubric request rubric =
     (let expected = set (map jp_proposition_id (hq_required_propositions request));
          actual = set (map jd_proposition_id (hr_judgments rubric)) in
      if actual \<noteq> expected \<or> length (hr_judgments rubric) \<noteq> card expected then Some PROPOSITION_ID_MISMATCH
      else if list_ex (misuses_rule request rubric) (hr_judgments rubric) then Some INVALID_RULE_USE
      else None)"

subsection \<open>The contract a rubric must meet\<close>

text \<open>
  What the prompt asks of a judge, written without loops or dicts: every required proposition
  gets exactly one verdict and nothing else does; a rule is named only to entail, and it is a
  listed equivalence or a derivation whose policy permits it, given what is entailed.
\<close>

definition entails :: "hybrid_rubric \<Rightarrow> string \<Rightarrow> bool" where
  "entails rubric i \<longleftrightarrow> (\<exists>j\<in>set (hr_judgments rubric). jd_proposition_id j = i \<and> jd_verdict j = ENTAILED)"

definition permitted :: "hybrid_rubric \<Rightarrow> judge_proposition \<Rightarrow> string \<Rightarrow> bool" where
  "permitted rubric p used \<longleftrightarrow>
     (\<exists>e\<in>set (jp_equivalences p). used = ''equivalence:'' @ eq_alternative e)
   \<or> (\<exists>r\<in>set (jp_derivation_rules p). dr_derivation_id r = used
        \<and> (dr_policy r = DP_ALLOWED \<or> dr_policy r = DP_CONDITIONAL \<and> (\<forall>i\<in>set (dr_requires r). entails rubric i)))"

definition rubric_meets_contract :: "hybrid_request \<Rightarrow> hybrid_rubric \<Rightarrow> bool" where
  "rubric_meets_contract request rubric \<longleftrightarrow>
     (\<forall>p\<in>set (hq_required_propositions request). \<exists>j\<in>set (hr_judgments rubric). jd_proposition_id j = jp_proposition_id p)
   \<and> (\<forall>j\<in>set (hr_judgments rubric). \<exists>p\<in>set (hq_required_propositions request). jp_proposition_id p = jd_proposition_id j
        \<and> (case jd_used j of None \<Rightarrow> True | Some used \<Rightarrow> jd_verdict j = ENTAILED \<and> permitted rubric p used))"

lemma map_of_rev_distinct:
  "distinct (map key xs) \<Longrightarrow> map_of (rev (map (\<lambda>x. (key x, val x)) xs)) k = Some v \<longleftrightarrow> (\<exists>x\<in>set xs. key x = k \<and> val x = v)"
  by (subst map_of_eq_Some_iff) (auto simp: rev_map [symmetric] comp_def)

definition unambiguous_rules :: "hybrid_request \<Rightarrow> bool" where
  "unambiguous_rules request \<longleftrightarrow>
     distinct (map jp_proposition_id (hq_required_propositions request))
   \<and> (\<forall>p\<in>set (hq_required_propositions request). distinct (map dr_derivation_id (jp_derivation_rules p)))"

lemma verdict_lookup:
  assumes "hybrid_rubric_valid rubric"
  shows "map_of (rev (map (\<lambda>i. (jd_proposition_id i, jd_verdict i)) (hr_judgments rubric))) k = Some ENTAILED
    \<longleftrightarrow> entails rubric k"
  using assms
  by (subst map_of_rev_distinct)
    (auto simp: hybrid_rubric_valid_def reject_duplicate_entries_def entails_def)

lemma misuses_rule_iff:
  assumes "hybrid_rubric_valid rubric" "unambiguous_rules request"
    and p: "p \<in> set (hq_required_propositions request)" "jp_proposition_id p = jd_proposition_id j"
  shows "misuses_rule request rubric j \<longleftrightarrow>
    (case jd_used j of None \<Rightarrow> False | Some used \<Rightarrow> \<not> (jd_verdict j = ENTAILED \<and> permitted rubric p used))"
proof -
  have by_id: "map_of (rev (map (\<lambda>p. (jp_proposition_id p, p)) (hq_required_propositions request))) (jd_proposition_id j) = Some p"
    using assms by (subst map_of_rev_distinct) (auto simp: unambiguous_rules_def)
  have rule: "map_of (rev (map (\<lambda>r. (dr_derivation_id r, r)) (jp_derivation_rules p))) u = Some r
      \<longleftrightarrow> r \<in> set (jp_derivation_rules p) \<and> dr_derivation_id r = u" for u r
    using assms by (subst map_of_rev_distinct) (auto simp: unambiguous_rules_def)
  have ents: "list_ex (\<lambda>required. map_of (rev (map (\<lambda>i. (jd_proposition_id i, jd_verdict i)) (hr_judgments rubric))) required
      \<noteq> Some ENTAILED) is \<longleftrightarrow> \<not> (\<forall>i\<in>set is. entails rubric i)" for "is"
    using verdict_lookup [OF assms(1)] by (auto simp: list_ex_iff)
  show ?thesis
  proof (cases "jd_used j")
    case (Some used)
    show ?thesis
    proof (cases "map_of (rev (map (\<lambda>r. (dr_derivation_id r, r)) (jp_derivation_rules p))) used")
      case None
      then have "\<not> (r \<in> set (jp_derivation_rules p) \<and> dr_derivation_id r = used)" for r
        using rule [of used r] by simp
      then show ?thesis using Some None by (auto simp: misuses_rule_def by_id permitted_def)
    next
      case (Some r)
      then have r: "r \<in> set (jp_derivation_rules p)" "dr_derivation_id r = used" using rule by auto
      have only: "r' = r" if "r' \<in> set (jp_derivation_rules p)" "dr_derivation_id r' = used" for r'
        using rule [of used r'] that Some by simp
      have "(\<exists>r\<in>set (jp_derivation_rules p). dr_derivation_id r = used
          \<and> (dr_policy r = DP_ALLOWED \<or> dr_policy r = DP_CONDITIONAL \<and> (\<forall>i\<in>set (dr_requires r). entails rubric i)))
        \<longleftrightarrow> dr_policy r = DP_ALLOWED \<or> dr_policy r = DP_CONDITIONAL \<and> (\<forall>i\<in>set (dr_requires r). entails rubric i)"
        using r only by blast
      then show ?thesis using \<open>jd_used j = Some used\<close> Some
        by (cases "dr_policy r") (auto simp: misuses_rule_def by_id permitted_def ents)
    qed
  qed (simp add: misuses_rule_def)
qed

lemma validate_rubric_iff:
  assumes "hybrid_rubric_valid rubric" "unambiguous_rules request"
  shows "validate_rubric request rubric = None \<longleftrightarrow> rubric_meets_contract request rubric"
proof -
  let ?js = "hr_judgments rubric" and ?ps = "hq_required_propositions request"
  have distinct: "distinct (map jd_proposition_id ?js)"
    using assms(1) by (simp add: hybrid_rubric_valid_def reject_duplicate_entries_def)
  have card: "length ?js = card (set (map jd_proposition_id ?js))"
    using distinct_card [OF distinct] by simp
  have "validate_rubric request rubric = None \<longleftrightarrow>
      set (map jd_proposition_id ?js) = set (map jp_proposition_id ?ps) \<and> (\<forall>j\<in>set ?js. \<not> misuses_rule request rubric j)"
    using card by (auto simp: validate_rubric_def Let_def list_ex_iff)
  also have "\<dots> \<longleftrightarrow> rubric_meets_contract request rubric"
    (is "?ids \<and> ?rules \<longleftrightarrow> _")
  proof
    assume ok: "?ids \<and> ?rules"
    show "rubric_meets_contract request rubric"
      unfolding rubric_meets_contract_def
    proof (intro conjI ballI)
      fix p assume "p \<in> set ?ps"
      then have "jp_proposition_id p \<in> set (map jd_proposition_id ?js)" using ok by (metis image_eqI set_map)
      then show "\<exists>j\<in>set ?js. jd_proposition_id j = jp_proposition_id p" by auto
    next
      fix j assume j: "j \<in> set ?js"
      then have "jd_proposition_id j \<in> set (map jp_proposition_id ?ps)" using ok by (metis image_eqI set_map)
      then obtain p where p: "p \<in> set ?ps" "jp_proposition_id p = jd_proposition_id j" by auto
      then show "\<exists>p\<in>set ?ps. jp_proposition_id p = jd_proposition_id j
          \<and> (case jd_used j of None \<Rightarrow> True | Some used \<Rightarrow> jd_verdict j = ENTAILED \<and> permitted rubric p used)"
        using ok j misuses_rule_iff [OF assms p] by (intro bexI [OF _ p(1)]) (auto split: option.splits)
    qed
  next
    assume ok: "rubric_meets_contract request rubric"
    have ids: "?ids" using ok by (auto simp: rubric_meets_contract_def) (metis image_eqI)+
    moreover have "\<not> misuses_rule request rubric j" if "j \<in> set ?js" for j
    proof -
      obtain p where p: "p \<in> set ?ps" "jp_proposition_id p = jd_proposition_id j"
          "case jd_used j of None \<Rightarrow> True | Some used \<Rightarrow> jd_verdict j = ENTAILED \<and> permitted rubric p used"
        using ok \<open>j \<in> set ?js\<close> by (auto simp: rubric_meets_contract_def)
      then show ?thesis using misuses_rule_iff [OF assms p(1,2)] by (auto split: option.splits)
    qed
    ultimately show "?ids \<and> ?rules" by blast
  qed
  finally show ?thesis .
qed

text \<open>
  Claim C29. The check of a judge's rubric accepts exactly the rubrics that meet
  the contract of the prompt, for a specification whose identifiers are unique.
\<close>

theorem rubric_check_is_the_contract:
  assumes "hybrid_rubric_valid rubric" "unambiguous_rules request"
  shows "validate_rubric request rubric = None \<longleftrightarrow> rubric_meets_contract request rubric"
  by (rule validate_rubric_iff [OF assms])

subsection \<open>Coverage is a fraction of the whole\<close>

definition entailed_weight :: "task_specification \<Rightarrow> verdict dict \<Rightarrow> rat" where
  "entailed_weight task verdicts =
     sum_list (map (\<lambda>p. if map_of verdicts (sp_proposition_id p) = Some ENTAILED then fraction (sp_weight p) else 0)
       (ts_propositions task))"

definition whole_weight :: "task_specification \<Rightarrow> rat" where
  "whole_weight task = sum_list (map (fraction \<circ> sp_weight) (ts_propositions task))"

lemma whole_weight_pos: "task_specification_valid t \<Longrightarrow> 0 < whole_weight t"
proof -
  assume t: "task_specification_valid t"
  then have "whole_weight t = of_nat (length (ts_legacy_requirements t))"
    by (simp add: task_specification_valid_def stable_unique_weighted_propositions_def whole_weight_def)
  moreover have "1 \<le> length (ts_legacy_requirements t)" using t by (simp add: task_specification_valid_def)
  ultimately show ?thesis by auto
qed

lemma fraction_pos: "weight_positive w \<Longrightarrow> 0 < fraction w"
  by (simp add: weight_positive_def fraction_def)

lemma entailed_weight_dict:
  assumes "distinct (map sp_proposition_id (ts_propositions task))" "distinct (map fst verdicts)"
    and "set (map fst verdicts) = set (map sp_proposition_id (ts_propositions task))"
  shows "sum_list (map (\<lambda>(k, v). the (map_of (map (\<lambda>p. (sp_proposition_id p, fraction (sp_weight p))) (ts_propositions task)) k))
      (filter (\<lambda>(k, v). v = ENTAILED) verdicts)) = entailed_weight task verdicts"
proof -
  let ?ps = "ts_propositions task"
  let ?w = "\<lambda>k. the (map_of (map (\<lambda>p. (sp_proposition_id p, fraction (sp_weight p))) ?ps) k)"
  have w: "?w (sp_proposition_id p) = fraction (sp_weight p)" if "p \<in> set ?ps" for p
    using that assms(1) by (subst map_of_is_SomeI [where y = "fraction (sp_weight p)"]) (auto simp: comp_def)
  have "sum_list (map (\<lambda>(k, v). ?w k) (filter (\<lambda>(k, v). v = ENTAILED) verdicts))
      = sum_list (map (\<lambda>(k, v). if v = ENTAILED then ?w k else 0) verdicts)"
    by (subst sum_list_map_filter') (intro arg_cong [where f = sum_list] map_cong, auto)
  also have "\<dots> = sum_list (map (\<lambda>k. if map_of verdicts k = Some ENTAILED then ?w k else 0) (map fst verdicts))"
  proof -
    have "map (\<lambda>(k, v). if v = ENTAILED then ?w k else 0) verdicts
        = map (\<lambda>(k, v). if map_of verdicts k = Some ENTAILED then ?w k else 0) verdicts"
      using assms(2) by (intro map_cong) (auto dest: eq_key_imp_eq_value)
    from arg_cong [OF this, of sum_list] show ?thesis by (simp only: map_map comp_def case_prod_unfold)
  qed
  also have "\<dots> = (\<Sum>k\<in>set (map fst verdicts). if map_of verdicts k = Some ENTAILED then ?w k else 0)"
    using assms(2) by (rule sum_list_distinct_conv_sum_set)
  also have "\<dots> = sum_list (map (\<lambda>k. if map_of verdicts k = Some ENTAILED then ?w k else 0) (map sp_proposition_id ?ps))"
    unfolding assms(3) using assms(1) by (rule sum_list_distinct_conv_sum_set [symmetric])
  also have "\<dots> = entailed_weight task verdicts"
    unfolding entailed_weight_def map_map using w by (intro arg_cong [where f = sum_list] map_cong) simp_all
  finally show ?thesis .
qed

lemma entailed_weight_bounds:
  assumes "task_specification_valid task"
  shows "0 \<le> entailed_weight task verdicts" "entailed_weight task verdicts \<le> whole_weight task"
    and "entailed_weight task verdicts = whole_weight task
      \<longleftrightarrow> (\<forall>p\<in>set (ts_propositions task). map_of verdicts (sp_proposition_id p) = Some ENTAILED)"
proof -
  have pos: "0 < fraction (sp_weight p)" if "p \<in> set (ts_propositions task)" for p
    using assms that by (auto simp: task_specification_valid_def list_all_iff intro: fraction_pos)
  have *: "0 \<le> sum_list (map (\<lambda>p. if P p then f p else 0) ps)
      \<and> sum_list (map (\<lambda>p. if P p then f p else 0) ps) \<le> sum_list (map f ps)
      \<and> (sum_list (map (\<lambda>p. if P p then f p else 0) ps) = sum_list (map f ps) \<longleftrightarrow> (\<forall>p\<in>set ps. P p))"
    if "\<forall>p\<in>set ps. 0 < f p" for f :: "semantic_proposition \<Rightarrow> rat" and P ps
    using that by (induction ps) force+
  show "0 \<le> entailed_weight task verdicts" "entailed_weight task verdicts \<le> whole_weight task"
      "entailed_weight task verdicts = whole_weight task
      \<longleftrightarrow> (\<forall>p\<in>set (ts_propositions task). map_of verdicts (sp_proposition_id p) = Some ENTAILED)"
    using * [of "ts_propositions task" "\<lambda>p. fraction (sp_weight p)"
        "\<lambda>p. map_of verdicts (sp_proposition_id p) = Some ENTAILED"] pos
    by (simp_all add: entailed_weight_def whole_weight_def comp_def)
qed

lemma ambiguous_iff: "distinct (map fst verdicts) \<Longrightarrow>
    sort (map fst (filter (\<lambda>(k, v). v = AMBIGUOUS) verdicts)) = [] \<longleftrightarrow> (\<forall>k. map_of verdicts k \<noteq> Some AMBIGUOUS)"
proof -
  assume "distinct (map fst verdicts)"
  then have "(\<exists>k. map_of verdicts k = Some AMBIGUOUS) \<longleftrightarrow> (\<exists>k. (k, AMBIGUOUS) \<in> set verdicts)" by simp
  then show ?thesis by (auto simp: filter_empty_conv simp flip: set_empty)
qed

lemma weighted_coverage_spec:
  assumes "task_specification_valid task" "distinct (map fst verdicts)"
  shows "case weighted_coverage task verdicts of
      Inl c \<Rightarrow> c = ValueErrorC \<and> set (map fst verdicts) \<noteq> set (map sp_proposition_id (ts_propositions task))
    | Inr r \<Rightarrow> set (map fst verdicts) = set (map sp_proposition_id (ts_propositions task))
        \<and> (cv_complete r \<longleftrightarrow> (\<forall>k. map_of verdicts k \<noteq> Some AMBIGUOUS))
        \<and> (cv_complete r \<longrightarrow> (\<exists>n d. cv_numerator r = Some n \<and> cv_denominator r = Some d
             \<and> 0 \<le> n \<and> n \<le> d \<and> 0 < d \<and> coprime n d
             \<and> of_int n / of_int d = entailed_weight task verdicts / whole_weight task
             \<and> (n = d \<longleftrightarrow> (\<forall>p\<in>set (ts_propositions task). map_of verdicts (sp_proposition_id p) = Some ENTAILED))))"
proof (cases "set (map fst verdicts) = set (map sp_proposition_id (ts_propositions task))")
  case False
  then show ?thesis by (simp add: weighted_coverage_def)
next
  case True
  have ids: "distinct (map sp_proposition_id (ts_propositions task))"
    using assms(1) by (simp add: task_specification_valid_def stable_unique_weighted_propositions_def)
  let ?q = "entailed_weight task verdicts / whole_weight task"
  obtain n d where nd: "quotient_of ?q = (n, d)" by (cases "quotient_of ?q")
  note pos = whole_weight_pos [OF assms(1)] and bounds = entailed_weight_bounds [OF assms(1), of verdicts]
  have d: "0 < d" "coprime n d" "of_int n / of_int d = ?q"
    using quotient_of_denom_pos [OF nd] quotient_of_coprime [OF nd] quotient_of_div [OF nd] by simp_all
  have q: "0 \<le> ?q" "?q \<le> 1" using pos bounds by simp_all
  then have n: "0 \<le> n" "n \<le> d"
    using d(1) unfolding d(3) [symmetric] by (simp_all add: zero_le_divide_iff divide_le_eq_1)
  have one: "n = d \<longleftrightarrow> entailed_weight task verdicts = whole_weight task"
  proof -
    have "n = d \<longleftrightarrow> of_int n / of_int d = (1 :: rat)" using d(1) by auto
    also have "\<dots> \<longleftrightarrow> entailed_weight task verdicts = whole_weight task" using pos unfolding d(3) by auto
    finally show ?thesis .
  qed
  have whole: "sum_list (map (snd \<circ> (\<lambda>p. (sp_proposition_id p, fraction (sp_weight p)))) (ts_propositions task))
      = whole_weight task"
    by (simp add: whole_weight_def comp_def)
  show ?thesis
    using True d n one bounds(3) pos
    by (simp add: weighted_coverage_def Let_def entailed_weight_dict [OF ids assms(2) True] whole
        ambiguous_iff [OF assms(2)] nd)
qed

text \<open>
  The coverage of a valid specification is the weight of the entailed
  propositions over the whole weight, as a fraction in lowest terms between 0 and 1; it is 1
  exactly when every proposition is entailed, and there is none as long as a verdict is
  ambiguous. Verdicts for other propositions are refused.
\<close>

theorem coverage_is_the_entailed_fraction:
  assumes "task_specification_valid task" "distinct (map fst verdicts)"
  shows "case weighted_coverage task verdicts of
      Inl c \<Rightarrow> c = ValueErrorC \<and> set (map fst verdicts) \<noteq> set (map sp_proposition_id (ts_propositions task))
    | Inr r \<Rightarrow> set (map fst verdicts) = set (map sp_proposition_id (ts_propositions task))
        \<and> (cv_complete r \<longleftrightarrow> (\<forall>k. map_of verdicts k \<noteq> Some AMBIGUOUS))
        \<and> (cv_complete r \<longrightarrow> (\<exists>n d. cv_numerator r = Some n \<and> cv_denominator r = Some d
             \<and> 0 \<le> n \<and> n \<le> d \<and> 0 < d \<and> coprime n d
             \<and> of_int n / of_int d = entailed_weight task verdicts / whole_weight task
             \<and> (n = d \<longleftrightarrow> (\<forall>p\<in>set (ts_propositions task). map_of verdicts (sp_proposition_id p) = Some ENTAILED))))"
  by (rule weighted_coverage_spec [OF assms])

end
