(* ===== verification/Eval_Service.thy ===== *)
theory Eval_Service
  imports Aggregation Sandbox Judging
begin

section \<open>Evaluating a stored run\<close>

text \<open>
  \<^verbatim>\<open>evaluation/repository.py\<close> and \<^verbatim>\<open>evaluation/service.py\<close>: a
  benchmark run is loaded and checked, each result is evaluated (and, where the task asks for it
  and a sandbox or judge is configured, evaluated again there), the evaluations are aggregated
  and written. Reading a file gives one of the outcomes of \<open>artifact\<close>; the sandbox and the
  judges are functions of the position in the run, so that they may keep state.
\<close>

subsection \<open>Loading a run\<close>

datatype 'a artifact = Missing | Malformed | Unreadable exn_class | Contents 'a

record stored_run =
  st_manifest :: "benchmark_run artifact"
  st_status :: "pyj artifact"
  st_results :: "benchmark_result artifact list"

definition load_run :: "nat \<Rightarrow> stored_run \<Rightarrow> exn_class + (benchmark_run \<times> benchmark_result list)" where
  "load_run run_id store =
     (case st_manifest store of
        Missing \<Rightarrow> Inl EvaluationNotFoundErrorC
      | Malformed \<Rightarrow> Inl EvaluationArtifactErrorC
      | Unreadable c \<Rightarrow> Inl c
      | Contents run \<Rightarrow>
          (case st_status store of
             Missing \<Rightarrow> Inl EvaluationNotFoundErrorC
           | Malformed \<Rightarrow> Inl EvaluationArtifactErrorC
           | Unreadable c \<Rightarrow> Inl c
           | Contents v \<Rightarrow>
               (case v of
                  PDict status \<Rightarrow>
                    if bn_run_id run \<noteq> run_id then Inl EvaluationArtifactErrorC
                    else if jget status ''status'' \<noteq> PStr ''completed'' then Inl EvaluationArtifactErrorC
                    else
                      (case mapM (\<lambda>a. case a of Contents r \<Rightarrow> Inr r | _ \<Rightarrow> Inl ()) (st_results store) of
                         Inl _ \<Rightarrow> Inl EvaluationArtifactErrorC
                       | Inr results \<Rightarrow>
                           let selected = set (bn_selected_task_ids run);
                               dataset_tasks = set (map bt_task_id (bd_tasks (bn_dataset run)));
                               models = set (map mc_model_id (bn_models run));
                               pairs = map (\<lambda>r. (br_task_id r, br_model_id r)) results in
                           if results = [] then Inl EvaluationArtifactErrorC
                           else if has_duplicates (map br_result_id results) then Inl EvaluationArtifactErrorC
                           else if selected = {} \<or> has_duplicates (bn_selected_task_ids run) \<or> \<not> selected \<subseteq> dataset_tasks
                           then Inl EvaluationArtifactErrorC
                           else if models = {} \<or> has_duplicates (map mc_model_id (bn_models run))
                           then Inl EvaluationArtifactErrorC
                           else if has_duplicates pairs \<or> set pairs \<noteq> selected \<times> models
                           then Inl EvaluationArtifactErrorC
                           else if list_ex (\<lambda>r. br_run_id r \<noteq> run_id) results then Inl EvaluationArtifactErrorC
                           else Inr (run, results))
                | _ \<Rightarrow> Inl EvaluationArtifactErrorC)))"

subsection \<open>Writing\<close>

text \<open>The steps of \<^verbatim>\<open>_write\<close> on the file system; \<open>hex\<close> is the fresh suffix.\<close>

datatype file_step = WriteNew string string | Rename string string | Unlink string

type_synonym files = "string \<Rightarrow> string option"

fun apply_step :: "file_step \<Rightarrow> files \<Rightarrow> files" where
  "apply_step (WriteNew p data) fs = fs(p \<mapsto> data)"
| "apply_step (Rename p q) fs = (fs(q := fs p))(p := None)"
| "apply_step (Unlink p) fs = fs(p := None)"

definition write_steps :: "string \<Rightarrow> string \<Rightarrow> string \<Rightarrow> file_step list" where
  "write_steps path hex data =
     (let temporary = path @ ''.'' @ hex @ ''.tmp'' in [WriteNew temporary data, Rename temporary path, Unlink temporary])"

definition save_steps ::
  "(nat \<Rightarrow> string) \<Rightarrow> string \<Rightarrow> (nat \<Rightarrow> string) \<Rightarrow> (evaluation_result \<Rightarrow> string) \<Rightarrow> (evaluation_summary \<Rightarrow> string) \<Rightarrow>
   evaluation_result list \<Rightarrow> evaluation_summary \<Rightarrow> file_step list" where
  "save_steps uuid directory hex dump dump_summary evaluations summary =
     concat (map (\<lambda>(i, e). write_steps (directory @ ''/evaluations/'' @ uuid (ev_benchmark_result_id e) @ ''.json'') (hex i) (dump e))
       (enumerate 0 evaluations))
     @ write_steps (directory @ ''/evaluation-summary.json'') (hex (length evaluations)) (dump_summary summary)"

definition load_summary :: "nat \<Rightarrow> evaluation_summary artifact \<Rightarrow> exn_class + evaluation_summary" where
  "load_summary run_id stored =
     (case stored of
        Missing \<Rightarrow> Inl EvaluationNotFoundErrorC
      | Malformed \<Rightarrow> Inl EvaluationArtifactErrorC
      | Unreadable c \<Rightarrow> Inl c
      | Contents s \<Rightarrow> if es_run_id s \<noteq> run_id then Inl EvaluationArtifactErrorC else Inr s)"

subsection \<open>The service\<close>

text \<open>
  The \<open>dp\<close> fields are Pydantic's \<^verbatim>\<open>model_dump\<close> of the models that go into the details;
  \<open>sv_fraction x\<close> is \<^verbatim>\<open>Fraction(str(x))\<close> of a float.
\<close>

record dumps =
  dp_evaluation :: "evaluation_result \<Rightarrow> pyj"
  dp_functional :: "functional_result \<Rightarrow> pyj"
  dp_semantic :: "semantic_rubric judge_result \<Rightarrow> pyj"
  dp_hybrid :: "hybrid_rubric judge_result \<Rightarrow> pyj"
  dp_finding :: "material_finding \<Rightarrow> pyj"

record evaluation_service =
  sv_tools :: tools
  sv_decimal :: "string \<Rightarrow> decimal_value option"
  sv_fraction :: "rat \<Rightarrow> rat"
  sv_dumps :: dumps
  sv_sandbox :: "(nat \<Rightarrow> functional_request \<Rightarrow> exn_class + functional_result) option"
  sv_semantic_judge :: "(nat \<Rightarrow> semantic_request \<Rightarrow> exn_class + semantic_rubric judge_result) option"
  sv_hybrid_judge :: "(nat \<Rightarrow> hybrid_request \<Rightarrow> exn_class + hybrid_rubric judge_result) option"
  sv_specification :: "proposition_specification option"
  sv_configuration :: "pyj dict"

definition read_test :: "pyj \<Rightarrow> exn_class + functional_test" where
  "read_test v =
     (case v of
        PDict d \<Rightarrow>
          if set (map fst d) \<noteq> {''args'', ''expected''} then Inl ValidationErrorC
          else (case jget d ''args'' of
                  PList xs \<Rightarrow> Inr \<lparr>ft_args = xs, ft_expected = jget d ''expected''\<rparr>
                | _ \<Rightarrow> Inl ValidationErrorC)
      | _ \<Rightarrow> Inl ValidationErrorC)"

definition metadata_key :: "benchmark_task \<Rightarrow> string \<Rightarrow> exn_class + pyj" where
  "metadata_key task k = (case map_of (bt_evaluation_metadata task) k of None \<Rightarrow> Inl KeyErrorC | Some v \<Rightarrow> Inr v)"

text \<open>The static evaluation has checked that the name is a string and the count an integer.\<close>

definition functional_request_of :: "benchmark_task \<Rightarrow> string \<Rightarrow> exn_class + functional_request" where
  "functional_request_of task response =
     (case jget (bt_evaluation_metadata task) ''functional_tests'' of
        PList tests \<Rightarrow>
          rbind (metadata_key task ''function_name'') (\<lambda>function_name.
          rbind (metadata_key task ''parameters'') (\<lambda>parameters.
          rbind (mapM read_test tests) (\<lambda>cases.
          case (function_name, parameters) of
            (PStr f, PInt n) \<Rightarrow> FunctionalEvaluationRequest
              \<lparr>fq_source = strip_code_fence response, fq_function_name = f, fq_parameter_count = n, fq_tests = cases,
               fq_preserve_inputs = contains ''mutat'' (casefold (rq_prompt task))\<rparr>
          | _ \<Rightarrow> Inl ValidationErrorC)))
      | _ \<Rightarrow> Inl ValueErrorC)"

definition functional_reason :: "functional_result \<Rightarrow> string" where
  "functional_reason outcome =
     (if fr_status outcome = XS_PASSED
      then ''Passed '' @ show_signed (fr_passed outcome) @ '' of '' @ show_signed (fr_total outcome) @ '' hidden functional tests.''
      else ''Functional evaluation failed: ''
        @ (case fr_category outcome of None \<Rightarrow> ''None'' | Some c \<Rightarrow> functional_error_value c) @ ''.'')"

definition evaluate_functionally ::
  "evaluation_service \<Rightarrow> (nat \<Rightarrow> functional_request \<Rightarrow> exn_class + functional_result) \<Rightarrow> nat \<Rightarrow> benchmark_task \<Rightarrow>
   benchmark_result \<Rightarrow> string \<Rightarrow> evaluation_result \<Rightarrow> exn_class + evaluation_result" where
  "evaluate_functionally sv sandbox i task result response static =
     rbind (functional_request_of task response) (\<lambda>request.
     rbind (sandbox i request) (\<lambda>outcome.
     let details = [(''static_validation'', dp_evaluation (sv_dumps sv) static),
                    (''functional_execution'', dp_functional (sv_dumps sv) outcome)] in
     if fr_status outcome = XS_INFRASTRUCTURE_FAILURE
     then Inr (static\<lparr>ev_reason := ''Functional evaluation infrastructure failed; candidate quality was not scored.'',
                      ev_details := details\<rparr>)
     else EvaluationResult ((plain_evaluation task result ''docker_python_functional'' (fr_version outcome) ES_EVALUATED
            (fr_quality_score outcome) 1 (fr_acceptable outcome) (functional_reason outcome)
            [(''functional_tests'', case fr_quality_score outcome of Some q \<Rightarrow> q | None \<Rightarrow> 0)] details))))"

definition with_usage :: "judge_usage option \<Rightarrow> evaluation_result \<Rightarrow> evaluation_result" where
  "with_usage usage e =
     e\<lparr>ev_call_made := True,
       ev_input_tokens := (case usage of Some u \<Rightarrow> ju_input_tokens u | None \<Rightarrow> 0),
       ev_output_tokens := (case usage of Some u \<Rightarrow> ju_output_tokens u | None \<Rightarrow> 0),
       ev_latency_ms := (case usage of Some u \<Rightarrow> ju_latency_ms u | None \<Rightarrow> 0),
       ev_cost_usd := (case usage of Some u \<Rightarrow> ju_estimated_cost_usd u | None \<Rightarrow> zero_cost)\<rparr>"

definition judge_threshold :: "benchmark_task \<Rightarrow> rat" where
  "judge_threshold task = (case bt_acceptable_threshold task of Some t \<Rightarrow> t | None \<Rightarrow> fl (8 / 10))"

definition deterministic_passed :: "evaluation_result \<Rightarrow> bool" where
  "deterministic_passed e \<longleftrightarrow> list_all (\<lambda>(k, x). x = 1) (ev_component_scores e)"

definition deterministic_components :: "evaluation_result \<Rightarrow> rat dict" where
  "deterministic_components e = map (\<lambda>(k, x). (''deterministic_'' @ k, x)) (ev_component_scores e)"

subsection \<open>The rubric judge's evaluation\<close>

definition text_list :: "pyj list \<Rightarrow> exn_class + string list" where
  "text_list xs = (if list_all is_string xs then Inr (map text_of xs) else Inl ValidationErrorC)"

definition semantic_request_of :: "benchmark_task \<Rightarrow> string \<Rightarrow> exn_class + semantic_request" where
  "semantic_request_of task response =
     rbind (metadata_key task ''semantic_requirements'') (\<lambda>requirements.
     rbind (rbind (iterate requirements) text_list) (\<lambda>texts.
     case (case map_of (bt_evaluation_metadata task) ''deterministic_constraints'' of None \<Rightarrow> PDict [] | Some v \<Rightarrow> v) of
       PDict constraints \<Rightarrow>
         let q = \<lparr>sq_source_text = rq_prompt task, sq_candidate_summary = response, sq_semantic_requirements = texts,
                  sq_output_constraints = constraints\<rparr> in
         if semantic_request_valid q then Inr q else Inl ValidationErrorC
     | _ \<Rightarrow> Inl ValidationErrorC))"

definition rubric_quality :: "evaluation_result \<Rightarrow> semantic_rubric \<Rightarrow> rat" where
  "rubric_quality deterministic rubric =
     (if deterministic_passed deterministic \<and> \<not> material_errors rubric
      then min (sr_required_fact_coverage rubric) (sr_instruction_compliance rubric) else 0)"

definition rubric_components :: "evaluation_result \<Rightarrow> semantic_rubric \<Rightarrow> rat dict" where
  "rubric_components deterministic rubric =
     foldl (\<lambda>d (k, x). dict_set d k x) (deterministic_components deterministic)
       [(''required_fact_coverage'', sr_required_fact_coverage rubric),
        (''instruction_compliance'', sr_instruction_compliance rubric),
        (''no_unsupported_claims'', bool_score (sr_unsupported_claims rubric = [])),
        (''no_contradictions'', bool_score (sr_contradictions rubric = [])),
        (''no_causal_claim_errors'', bool_score (sr_causal_claim_errors rubric = [])),
        (''no_attribution_errors'', bool_score (sr_attribution_errors rubric = [])),
        (''no_quantity_or_time_errors'', bool_score (sr_quantity_or_time_errors rubric = [])),
        (''no_certainty_distortions'', bool_score (sr_certainty_distortions rubric = []))]"

definition evaluate_semantically ::
  "evaluation_service \<Rightarrow> (nat \<Rightarrow> semantic_request \<Rightarrow> exn_class + semantic_rubric judge_result) \<Rightarrow> nat \<Rightarrow>
   benchmark_task \<Rightarrow> benchmark_result \<Rightarrow> string \<Rightarrow> evaluation_result \<Rightarrow> exn_class + evaluation_result" where
  "evaluate_semantically sv judge i task result response deterministic =
     rbind (semantic_request_of task response) (\<lambda>request.
     rbind (judge i request) (\<lambda>outcome.
     let details = [(''deterministic'', dp_evaluation (sv_dumps sv) deterministic),
                    (''semantic_judge'', dp_semantic (sv_dumps sv) outcome)] in
     case (jr_evaluated outcome, jr_rubric outcome) of
       (True, Some rubric) \<Rightarrow>
         let quality = rubric_quality deterministic rubric; threshold = judge_threshold task in
         EvaluationResult (with_usage (jr_usage outcome)
           (plain_evaluation task result ''semantic_summary_judge'' SEMANTIC_JUDGE_VERSION ES_EVALUATED (Some quality)
             threshold (Some (threshold \<le> quality)) (sr_reason rubric) (rubric_components deterministic rubric) details))
     | _ \<Rightarrow> Inr (with_usage (jr_usage outcome)
         (deterministic\<lparr>ev_reason := ''Semantic judge infrastructure failed; candidate quality was not scored.'',
                       ev_details := details\<rparr>))))"

subsection \<open>The proposition judge's evaluation\<close>

text \<open>The task's specification: by its identifier, or the only one for the task of that name.\<close>

definition specification_for :: "proposition_specification \<Rightarrow> benchmark_task \<Rightarrow> exn_class + task_specification" where
  "specification_for spec task =
     (let by_id = rev (map (\<lambda>t. (ts_specification_id t, t)) (ps_tasks spec));
          historical = (case filter (\<lambda>t. ts_canonical_task_id t = bt_task_id task) (ps_tasks spec) of
              [t] \<Rightarrow> Inr t | _ \<Rightarrow> Inl ValueErrorC) in
      case jget (bt_evaluation_metadata task) ''semantic_specification_id'' of
        PStr s \<Rightarrow> (case map_of by_id s of Some t \<Rightarrow> Inr t | None \<Rightarrow> historical)
      | _ \<Rightarrow> historical)"

datatype failure_type =
    PROVIDER_FAILURE | MALFORMED_JUDGMENT | AMBIGUOUS_SEMANTIC_RESULT | DETERMINISTIC_TASK_FAILURE
  | MATERIAL_SEMANTIC_FAILURE | COVERAGE_FAILURE | COMPLETE_SEMANTIC_RESULT

fun failure_type_value :: "failure_type \<Rightarrow> string" where
  "failure_type_value PROVIDER_FAILURE = ''PROVIDER_FAILURE''"
| "failure_type_value MALFORMED_JUDGMENT = ''MALFORMED_JUDGMENT''"
| "failure_type_value AMBIGUOUS_SEMANTIC_RESULT = ''AMBIGUOUS_SEMANTIC_RESULT''"
| "failure_type_value DETERMINISTIC_TASK_FAILURE = ''DETERMINISTIC_TASK_FAILURE''"
| "failure_type_value MATERIAL_SEMANTIC_FAILURE = ''MATERIAL_SEMANTIC_FAILURE''"
| "failure_type_value COVERAGE_FAILURE = ''COVERAGE_FAILURE''"
| "failure_type_value COMPLETE_SEMANTIC_RESULT = ''COMPLETE_SEMANTIC_RESULT''"

text \<open>The outcome that is not scored; \<^verbatim>\<open>model_copy\<close> does not validate.\<close>

definition unscored_hybrid ::
  "evaluation_result \<Rightarrow> judge_usage option \<Rightarrow> string \<Rightarrow> pyj dict \<Rightarrow> evaluation_result" where
  "unscored_hybrid deterministic usage reason details =
     with_usage usage (deterministic\<lparr>ev_evaluator_name := ''hybrid_proposition_semantic_summary'',
       ev_evaluator_version := HYBRID_SEMANTIC_EVALUATOR_VERSION, ev_status := ES_PARTIAL,
       ev_quality_score := None, ev_acceptable := None, ev_reason := reason, ev_details := details\<rparr>)"

definition judge_failure_type :: "judge_error option \<Rightarrow> failure_type" where
  "judge_failure_type e = (if e \<in> {Some PROVIDER_ERROR, Some JUDGE_TIMEOUT} then PROVIDER_FAILURE else MALFORMED_JUDGMENT)"

definition hybrid_verdict ::
  "evaluation_service \<Rightarrow> benchmark_task \<Rightarrow> evaluation_result \<Rightarrow> hybrid_rubric \<Rightarrow> int \<Rightarrow> int \<Rightarrow> rat \<times> failure_type" where
  "hybrid_verdict sv task deterministic rubric n d =
     (let coverage_score = fdiv (of_int n) (of_int d) in
      if \<not> deterministic_passed deterministic then (0, DETERMINISTIC_TASK_FAILURE)
      else if list_ex (\<lambda>f. mf_materiality f = MATERIAL) (hr_findings rubric) then (0, MATERIAL_SEMANTIC_FAILURE)
      else if of_int n / of_int d < sv_fraction sv (judge_threshold task) then (coverage_score, COVERAGE_FAILURE)
      else (coverage_score, COMPLETE_SEMANTIC_RESULT))"

definition hybrid_evaluation ::
  "evaluation_service \<Rightarrow> benchmark_task \<Rightarrow> benchmark_result \<Rightarrow> evaluation_result \<Rightarrow> hybrid_rubric \<Rightarrow> judge_usage option \<Rightarrow>
   pyj dict \<Rightarrow> coverage_result \<Rightarrow> exn_class + evaluation_result" where
  "hybrid_evaluation sv task result deterministic rubric usage details coverage =
     (let borderline = filter (\<lambda>f. mf_materiality f = BORDERLINE) (hr_findings rubric);
          material = filter (\<lambda>f. mf_materiality f = MATERIAL) (hr_findings rubric) in
      if \<not> cv_complete coverage \<or> borderline \<noteq> []
      then Inr (unscored_hybrid deterministic usage ''AMBIGUOUS_SEMANTIC_RESULT: human review is required.''
        (dict_set (dict_set (dict_set details
          ''failure_type'' (PStr ''AMBIGUOUS_SEMANTIC_RESULT''))
          ''ambiguous_proposition_ids'' (PList (map PStr (cv_ambiguous coverage))))
          ''borderline_material_findings'' (PList (map (dp_finding (sv_dumps sv)) borderline))))
      else case (cv_numerator coverage, cv_denominator coverage) of
        (Some n, Some d) \<Rightarrow>
          let (quality, failure) = hybrid_verdict sv task deterministic rubric n d; threshold = judge_threshold task in
          EvaluationResult (with_usage usage
            (plain_evaluation task result ''hybrid_proposition_semantic_summary'' HYBRID_SEMANTIC_EVALUATOR_VERSION
              ES_EVALUATED (Some quality) threshold (Some (threshold \<le> quality))
              (failure_type_value failure @ '': weighted semantic coverage is '' @ show_signed n @ ''/'' @ show_signed d @ ''.'')
              (dict_set (dict_set (deterministic_components deterministic)
                 ''weighted_proposition_coverage'' (fdiv (of_int n) (of_int d)))
                 ''no_material_semantic_errors'' (bool_score (material = [])))
              (dict_set (dict_set (dict_set details
                 ''failure_type'' (PStr (failure_type_value failure)))
                 ''coverage_fraction'' (PDict [(''numerator'', PInt n), (''denominator'', PInt d)]))
                 ''material_error_veto_count'' (PInt (int (length material))))))
      | _ \<Rightarrow> Inl AssertionErrorC)"

definition verdicts_of :: "hybrid_rubric \<Rightarrow> verdict dict" where
  "verdicts_of rubric = foldl (\<lambda>d j. dict_set d (jd_proposition_id j) (jd_verdict j)) [] (hr_judgments rubric)"

definition evaluate_hybrid_semantically ::
  "evaluation_service \<Rightarrow> (nat \<Rightarrow> hybrid_request \<Rightarrow> exn_class + hybrid_rubric judge_result) \<Rightarrow> nat \<Rightarrow>
   benchmark_task \<Rightarrow> benchmark_result \<Rightarrow> string \<Rightarrow> evaluation_result \<Rightarrow> exn_class + evaluation_result" where
  "evaluate_hybrid_semantically sv judge i task result response deterministic =
     (case sv_specification sv of
        None \<Rightarrow> Inl ValueErrorC
      | Some spec \<Rightarrow>
          rbind (specification_for spec task) (\<lambda>task_spec.
          rbind (judge i (from_specification (ps_material_error_contract spec) task_spec response)) (\<lambda>outcome.
          let details = [(''failure_type'', PNull), (''deterministic'', dp_evaluation (sv_dumps sv) deterministic),
                         (''semantic_judge'', dp_hybrid (sv_dumps sv) outcome)] in
          case (jr_evaluated outcome, jr_rubric outcome) of
            (True, Some rubric) \<Rightarrow>
              rbind (weighted_coverage task_spec (verdicts_of rubric)) (\<lambda>coverage.
              hybrid_evaluation sv task result deterministic rubric (jr_usage outcome) details coverage)
          | _ \<Rightarrow>
              let failure = failure_type_value (judge_failure_type (jr_error_category outcome)) in
              Inr (unscored_hybrid deterministic (jr_usage outcome) (failure @ '': semantic quality was not scored.'')
                (dict_set details ''failure_type'' (PStr failure))))))"

subsection \<open>A whole run\<close>

definition evaluate_result :: "evaluation_service \<Rightarrow> nat \<Rightarrow> benchmark_task \<Rightarrow> benchmark_result \<Rightarrow> exn_class + evaluation_result" where
  "evaluate_result sv i task result =
     rbind (evaluate (sv_tools sv) task result) (\<lambda>e.
     rbind (case (ev_status e, sv_sandbox sv, br_response result) of
              (ES_REQUIRES_FUNCTIONAL_EXECUTION, Some sandbox, Some response) \<Rightarrow>
                evaluate_functionally sv sandbox i task result (rs_text response) e
            | _ \<Rightarrow> Inr e) (\<lambda>e.
     case (ev_status e, br_response result) of
       (ES_REQUIRES_SEMANTIC_JUDGE, Some response) \<Rightarrow>
         (case sv_hybrid_judge sv of
            Some judge \<Rightarrow> evaluate_hybrid_semantically sv judge i task result (rs_text response) e
          | None \<Rightarrow>
              (case sv_semantic_judge sv of
                 Some judge \<Rightarrow> evaluate_semantically sv judge i task result (rs_text response) e
               | None \<Rightarrow> Inr e))
     | _ \<Rightarrow> Inr e))"

text \<open>\<^verbatim>\<open>except (KeyError, TypeError, ValueError)\<close>.\<close>

definition as_artifact_error :: "exn_class + 'a \<Rightarrow> exn_class + 'a" where
  "as_artifact_error x =
     (case x of
        Inr a \<Rightarrow> Inr a
      | Inl c \<Rightarrow> if issubclass c KeyErrorC \<or> issubclass c TypeErrorC \<or> issubclass c ValueErrorC
                 then Inl EvaluationArtifactErrorC else Inl c)"

definition evaluate_results ::
  "evaluation_service \<Rightarrow> benchmark_run \<Rightarrow> benchmark_result list \<Rightarrow> exn_class + evaluation_result list" where
  "evaluate_results sv run results =
     (let task_by_id = rev (map (\<lambda>t. (bt_task_id t, t)) (bd_tasks (bn_dataset run))) in
      mapM (\<lambda>(i, result).
        case map_of task_by_id (br_task_id result) of
          None \<Rightarrow> Inl EvaluationArtifactErrorC
        | Some task \<Rightarrow> as_artifact_error (evaluate_result sv i task result)) (enumerate 0 results))"

text \<open>The run's summary with the evaluations that are written, in this order.\<close>

definition evaluate_run :: "evaluation_service \<Rightarrow> nat \<Rightarrow> stored_run \<Rightarrow> exn_class + (evaluation_result list \<times> evaluation_summary)" where
  "evaluate_run sv run_id store =
     rbind (load_run run_id store) (\<lambda>(run, results).
     rbind (evaluate_results sv run results) (\<lambda>evaluations.
     rbind (as_artifact_error (aggregate (sv_tools sv) (sv_decimal sv) run results evaluations (sv_configuration sv)))
       (\<lambda>summary. Inr (evaluations, summary))))"

end
