(* ===== verification/Vercel.thy ===== *)
theory Vercel
  imports Portfolio Py_Json
begin

section \<open>The gateway adapter\<close>

text \<open>
  \<^verbatim>\<open>providers/vercel.py\<close>: one HTTP call per request, its answer normalized to an
  \<^verbatim>\<open>InferenceResponse\<close> or to a \<^verbatim>\<open>GatewayError\<close> of a fixed category with
  safe diagnostics. \<^verbatim>\<open>httpx\<close> is outside the sources: a client is a function from the
  moment of the call, the budget of the caller, the payload, the authorization header and the
  timeout to an answer. \<open>Overrun\<close> is the case that the caller's own \<^verbatim>\<open>asyncio.timeout\<close>
  ends first: the adapter is cancelled inside its only \<^verbatim>\<open>await\<close> and the caller sees
  \<^verbatim>\<open>TimeoutError\<close>. The decoded body of an answer is an arbitrary JSON value.
\<close>

subsection \<open>Answers of the HTTP client\<close>

record http_reply =
  hx_status_code :: int
  hx_headers :: "string \<Rightarrow> string option"
  hx_json :: "exn_class + pyj"

datatype post_outcome = Answered http_reply | Raised exn | Overrun

text \<open>\<open>hc_started\<close>, \<open>hc_answered\<close>: \<^verbatim>\<open>perf_counter\<close> around the call.\<close>

record http_client =
  hc_post :: "nat \<Rightarrow> rat \<Rightarrow> pyj \<Rightarrow> string \<Rightarrow> rat \<Rightarrow> post_outcome"
  hc_started :: "nat \<Rightarrow> rat"
  hc_answered :: "nat \<Rightarrow> rat"

definition is_success :: "http_reply \<Rightarrow> bool" where
  "is_success h \<longleftrightarrow> 200 \<le> hx_status_code h \<and> hx_status_code h \<le> 299"

subsection \<open>Safe values and diagnostics\<close>

definition safe_value :: "pyj \<Rightarrow> string option" where
  "safe_value v = (case v of PStr s \<Rightarrow> if safe_label ''._:/-'' 255 s then Some s else None | _ \<Rightarrow> None)"

definition safe_header :: "string option \<Rightarrow> string option" where
  "safe_header v = (case v of None \<Rightarrow> None | Some s \<Rightarrow> safe_value (PStr s))"

definition termination_of :: "pyj \<Rightarrow> termination_reason \<times> string option" where
  "termination_of choice =
     (case choice of
        PDict d \<Rightarrow>
          (case safe_value (py_or (py_or (jget d ''finish_reason'') (jget d ''finishReason'')) (jget d ''stop_reason'')) of
             None \<Rightarrow> (TR_UNKNOWN, None)
           | Some raw \<Rightarrow>
               if length raw > 64 then (TR_UNKNOWN, None)
               else
                 let normalized = lower raw in
                 if normalized \<in> {''stop'', ''end_turn'', ''end'', ''complete'', ''completed''}
                 then (TR_COMPLETE, Some raw)
                 else if normalized \<in> {''length'', ''max_tokens'', ''max_output_tokens'', ''token_limit''}
                 then (TR_LENGTH, Some raw)
                 else if normalized \<in> {''tool_call'', ''tool_calls'', ''function_call''}
                 then (TR_TOOL_CALL, Some raw)
                 else if normalized \<in> {''content_filter'', ''content_filtered'', ''safety'', ''blocked''}
                 then (TR_CONTENT_FILTER, Some raw)
                 else (TR_OTHER, Some raw))
      | _ \<Rightarrow> (TR_UNKNOWN, None))"

definition set_string :: "string \<Rightarrow> string option \<Rightarrow> diag dict \<Rightarrow> diag dict" where
  "set_string field v d = (case v of None \<Rightarrow> d | Some s \<Rightarrow> dict_set d field (DStr s))"

definition response_identifiers :: "http_reply \<Rightarrow> diag dict" where
  "response_identifiers h =
     set_string ''trace_id'' (safe_header (hx_headers h ''traceparent''))
    (set_string ''request_id'' (safe_header (hx_headers h ''x-request-id''))
    (set_string ''vercel_request_id'' (safe_header (hx_headers h ''x-vercel-id''))
       [(''http_status'', DInt (hx_status_code h))]))"

text \<open>The loop over the nested error objects stops at the first one with a safe code.\<close>

fun upstream_code :: "pyj dict \<Rightarrow> string list \<Rightarrow> string option" where
  "upstream_code error [] = None"
| "upstream_code error (key # keys) =
     (case jget error key of
        PDict nested \<Rightarrow>
          (case safe_value (py_or (jget nested ''code'') (jget nested ''type'')) of
             Some v \<Rightarrow> Some v | None \<Rightarrow> upstream_code error keys)
      | _ \<Rightarrow> upstream_code error keys)"

definition error_diagnostics :: "http_reply \<Rightarrow> pyj \<Rightarrow> diag dict" where
  "error_diagnostics h body =
     (let diagnostics = response_identifiers h in
      case body of
        PDict b \<Rightarrow>
          (case jget b ''error'' of
             PDict error \<Rightarrow>
               set_string ''upstream_error_code''
                 (upstream_code error [''provider_error'', ''providerError'', ''cause''])
              (set_string ''gateway_error_type'' (safe_value (jget error ''type''))
              (set_string ''gateway_error_code'' (safe_value (jget error ''code'')) diagnostics))
           | _ \<Rightarrow> diagnostics)
      | _ \<Rightarrow> diagnostics)"

definition set_count :: "string \<Rightarrow> pyj \<Rightarrow> diag dict \<Rightarrow> diag dict" where
  "set_count field v d = (case v of PInt n \<Rightarrow> if 0 \<le> n then dict_set d field (DInt n) else d | _ \<Rightarrow> d)"

text \<open>\<^verbatim>\<open>str(Decimal)\<close>: plain notation for small exponents, scientific otherwise.\<close>

definition dec_str :: "dec \<Rightarrow> string" where
  "dec_str d =
     (let digits = show_nat (coeff d);
          leftdigits = expo d + int (length digits);
          dotplace = (if expo d \<le> 0 \<and> leftdigits > -6 then leftdigits else 1);
          (intpart, fracpart) =
            (if dotplace \<le> 0 then (''0'', ''.'' @ replicate (nat (- dotplace)) CHR ''0'' @ digits)
             else if int (length digits) \<le> dotplace
             then (digits @ replicate (nat (dotplace - int (length digits))) CHR ''0'', '''')
             else (take (nat dotplace) digits, ''.'' @ drop (nat dotplace) digits));
          e = leftdigits - dotplace in
      intpart @ fracpart
        @ (if e = 0 then '''' else ''E'' @ (if e < 0 then ''-'' else ''+'') @ show_nat (nat \<bar>e\<bar>)))"

definition completion_diagnostics ::
  "http_reply \<Rightarrow> pyj \<Rightarrow> pyj \<Rightarrow> pyj dict \<Rightarrow> int \<Rightarrow> int \<Rightarrow> int \<Rightarrow> rat \<Rightarrow> dec \<Rightarrow> bool \<Rightarrow> diag dict" where
  "completion_diagnostics h choice message usage limit inputs outputs latency cost content_empty =
     (let (reason, raw) = termination_of choice;
          d1 = dict_set (response_identifiers h) ''termination_reason'' (DStr (termination_reason_value reason));
          d2 = set_string ''finish_reason'' raw (set_string ''provider_termination_reason'' raw d1);
          d3 = dict_set (dict_set (dict_set (dict_set (dict_set (dict_set d2
                 ''content_empty'' (DBool content_empty)) ''output_token_limit'' (DInt limit))
                 ''input_tokens'' (DInt inputs)) ''output_tokens'' (DInt outputs))
                 ''adapter_latency_ms'' (DNum latency)) ''estimated_cost_usd'' (DStr (dec_str cost));
          d4 = set_count ''completion_tokens'' (jget usage ''completion_tokens'') d3;
          d5 = (case jget usage ''completion_tokens_details'' of
                  PDict details \<Rightarrow> set_count ''reasoning_tokens'' (jget details ''reasoning_tokens'') d4
                | _ \<Rightarrow> d4)
      in (case message of
            PDict m \<Rightarrow> dict_set d5 ''reasoning_field_present''
              (DBool (list_ex (\<lambda>k. truthy (jget m k)) [''reasoning'', ''reasoning_content'', ''reasoning_details'']))
          | _ \<Rightarrow> d5))"

subsection \<open>The request\<close>

definition chat_messages :: "inference_request \<Rightarrow> pyj" where
  "chat_messages request =
     PList ((case rq_system_prompt request of None \<Rightarrow> []
             | Some s \<Rightarrow> [PDict [(''role'', PStr ''system''), (''content'', PStr s)]])
            @ [PDict [(''role'', PStr ''user''), (''content'', PStr (rq_prompt request))]])"

text \<open>
  \<open>None\<close> is the \<^verbatim>\<open>AttributeError\<close> of \<^verbatim>\<open>reasoning_effort.value\<close> for a
  Google-native model without effort, which \<^verbatim>\<open>ModelConfig\<close> does not accept.
\<close>

definition chat_payload :: "model_config \<Rightarrow> string \<Rightarrow> inference_request \<Rightarrow> pyj option" where
  "chat_payload model upstream request =
     (let base = [(''model'', PStr (mc_provider_model_name model)), (''messages'', chat_messages request),
            (''stream'', PBool False), (''max_tokens'', PInt (rq_max_output_tokens request))];
          gateway = [(''gateway'', PDict [(''only'', PList [PStr upstream])])];
          temperature = (if supports_temperature (mc_capabilities model)
            then [(''temperature'', PFlt (rq_temperature request))] else []) in
      if mc_reasoning_control model = GOOGLE_PROVIDER_NATIVE
      then (case mc_reasoning_effort model of
              None \<Rightarrow> None
            | Some effort \<Rightarrow> Some (PDict (base @ [(''providerOptions'', PDict (gateway @
                [(''google'', PDict [(''thinkingConfig'',
                   PDict [(''thinkingLevel'', PStr (reasoning_effort_value effort))])])]))] @ temperature)))
      else Some (PDict (base @ [(''providerOptions'', PDict gateway)] @ temperature
             @ (case mc_reasoning_effort model of None \<Rightarrow> []
                | Some effort \<Rightarrow> [(''reasoning'', PDict [(''effort'', PStr (reasoning_effort_value effort))])]))))"

subsection \<open>Reading the answer\<close>

definition status_category :: "int \<Rightarrow> gateway_error_category" where
  "status_category status =
     (case map_of [(401, AUTHENTICATION), (403, AUTHENTICATION), (404, INVALID_MODEL), (429, RATE_LIMIT),
                   (408, TIMEOUT), (504, TIMEOUT)] status of
        None \<Rightarrow> UPSTREAM | Some c \<Rightarrow> c)"

definition failed_status :: "http_reply \<Rightarrow> exn" where
  "failed_status h =
     (case hx_json h of
        Inl c \<Rightarrow>
          if issubclass c ValueErrorC
          then GatewayErr (if hx_status_code h \<in> {400, 422} then INVALID_REQUEST else status_category (hx_status_code h))
                 (error_diagnostics h PNull)
          else Exn c
      | Inr body \<Rightarrow>
          let diagnostics = error_diagnostics h body;
              code = map_of diagnostics ''gateway_error_code'' in
          GatewayErr
            (if hx_status_code h \<in> {400, 422}
             then (if code \<in> {Some (DStr ''model_not_found''), Some (DStr ''invalid_model'')} then INVALID_MODEL
                   else if code \<in> {Some (DStr ''context_length_exceeded''), Some (DStr ''context_window_exceeded'')}
                   then CONTEXT_LIMIT else INVALID_REQUEST)
             else status_category (hx_status_code h)) diagnostics)"

definition lift_exn :: "exn_class + 'a \<Rightarrow> exn + 'a" where
  "lift_exn r = (case r of Inl c \<Rightarrow> Inl (Exn c) | Inr a \<Rightarrow> Inr a)"

definition usage_counts :: "pyj dict \<Rightarrow> exn_class + (int \<times> int)" where
  "usage_counts usage =
     (case (jget usage ''prompt_tokens'', jget usage ''completion_tokens'') of
        (PInt i, PInt j) \<Rightarrow> if 0 \<le> i \<and> 0 \<le> j then Inr (i, j) else Inl ValueErrorC
      | _ \<Rightarrow> Inl ValueErrorC)"

text \<open>The construction of the response; the field constraints raise \<^verbatim>\<open>ValidationError\<close>.\<close>

definition completion_of ::
  "model_config \<Rightarrow> string \<Rightarrow> int \<Rightarrow> int \<Rightarrow> rat \<Rightarrow> dec \<Rightarrow> termination_reason \<times> string option \<Rightarrow> exn_class + inference_response" where
  "completion_of model body_text inputs outputs latency cost reason =
     (let r = \<lparr>rs_text = body_text, rs_model_id = mc_model_id model, rs_provider = mc_provider model,
            rs_input_tokens = inputs, rs_output_tokens = outputs, rs_latency_ms = latency,
            rs_estimated_cost_usd = cost, rs_termination_reason = fst reason,
            rs_provider_termination_reason = snd reason\<rparr>
      in if inference_response_valid r then Inr r else Inl ValidationErrorC)"

definition accept_completion ::
  "http_reply \<Rightarrow> pyj \<Rightarrow> pyj \<Rightarrow> pyj dict \<Rightarrow> int \<Rightarrow> inference_response \<Rightarrow> exn + inference_response" where
  "accept_completion h choice message usage limit completion =
     (let diagnostics = completion_diagnostics h choice message usage limit (rs_input_tokens completion)
            (rs_output_tokens completion) (rs_latency_ms completion) (rs_estimated_cost_usd completion) in
      if strip (rs_text completion) = []
      then Inl (completion_rejected_error EMPTY_RESPONSE completion (diagnostics True))
      else if rs_termination_reason completion = TR_LENGTH
      then Inl (completion_rejected_error OUTPUT_BUDGET_EXHAUSTION completion (diagnostics False))
      else Inr completion)"

text \<open>\<^verbatim>\<open>body["choices"][0]["message"]["content"]\<close>, which must be a string.\<close>

definition read_choice :: "pyj \<Rightarrow> exn_class + (pyj \<times> pyj \<times> string)" where
  "read_choice body =
     rbind (jkey body ''choices'') (\<lambda>choices.
     rbind (jfirst choices) (\<lambda>choice.
     rbind (jkey choice ''message'') (\<lambda>message.
     rbind (jkey message ''content'') (\<lambda>content.
     case content of PStr body_text \<Rightarrow> Inr (choice, message, body_text) | _ \<Rightarrow> Inl ValueErrorC))))"

definition read_usage :: "http_reply \<Rightarrow> pyj \<Rightarrow> exn + (pyj dict \<times> int \<times> int)" where
  "read_usage h body =
     (case (case body of PDict b \<Rightarrow> jget b ''usage'' | _ \<Rightarrow> PNull) of
        PDict usage \<Rightarrow>
          if map_of usage ''prompt_tokens'' = None \<or> map_of usage ''completion_tokens'' = None
          then Inl (GatewayErr MISSING_USAGE (response_identifiers h))
          else rbind (lift_exn (usage_counts usage)) (\<lambda>(inputs, outputs). Inr (usage, inputs, outputs))
      | _ \<Rightarrow> Inl (GatewayErr MISSING_USAGE (response_identifiers h)))"

definition read_body :: "model_config \<Rightarrow> int \<Rightarrow> rat \<Rightarrow> http_reply \<Rightarrow> pyj \<Rightarrow> exn + inference_response" where
  "read_body model limit latency h body =
     rbind (lift_exn (read_choice body)) (\<lambda>(choice, message, body_text).
     rbind (read_usage h body) (\<lambda>(usage, inputs, outputs).
     rbind (lift_exn (calculate_cost inputs outputs model)) (\<lambda>cost.
     rbind (lift_exn (completion_of model body_text inputs outputs latency cost (termination_of choice)))
       (accept_completion h choice message usage limit))))"

definition malformed :: "exn_class \<Rightarrow> bool" where
  "malformed c \<longleftrightarrow> issubclass c KeyErrorC \<or> issubclass c IndexErrorC \<or> issubclass c TypeErrorC
     \<or> issubclass c ValueErrorC \<or> issubclass c ValidationErrorC"

text \<open>The two \<^verbatim>\<open>except\<close> clauses around the reading, in their order.\<close>

definition read_answer :: "model_config \<Rightarrow> int \<Rightarrow> rat \<Rightarrow> http_reply \<Rightarrow> exn + inference_response" where
  "read_answer model limit latency h =
     (case rbind (lift_exn (hx_json h)) (read_body model limit latency h) of
        Inr r \<Rightarrow> Inr r
      | Inl e \<Rightarrow>
          if isinstance e GatewayErrorC then Inl e
          else if malformed (class_of e) then Inl (GatewayErr MALFORMED_RESPONSE (response_identifiers h))
          else Inl e)"

subsection \<open>The adapter\<close>

definition post_failure :: "exn \<Rightarrow> exn" where
  "post_failure e =
     (if isinstance e HttpxTimeoutExceptionC \<or> isinstance e TimeoutErrorC then GatewayErr TIMEOUT []
      else if isinstance e HttpxRequestErrorC then GatewayErr UPSTREAM []
      else e)"

definition vercel_generate ::
  "model_config \<Rightarrow> gateway_settings \<Rightarrow> http_client \<Rightarrow> nat \<Rightarrow> rat \<Rightarrow> inference_request \<Rightarrow> rat \<Rightarrow> exn + provider_reply" where
  "vercel_generate model settings client i budget request timeout_seconds =
     (if \<not> mc_enabled model then Inl (Exn ModelDisabledErrorC)
      else case gs_api_key settings of
        None \<Rightarrow> Inl (GatewayErr NOT_CONFIGURED [])
      | Some key \<Rightarrow>
          if strip key = [] then Inl (GatewayErr NOT_CONFIGURED [])
          else case map_of UPSTREAM_PROVIDERS (mc_provider_model_name model) of
            None \<Rightarrow> Inl (Exn KeyErrorC)
          | Some upstream \<Rightarrow>
              (case chat_payload model upstream request of
                 None \<Rightarrow> Inl (Exn ExceptionC)
               | Some payload \<Rightarrow>
                   let effective_timeout = min (gs_timeout_seconds settings) timeout_seconds in
                   (case hc_post client i budget payload (''Bearer '' @ key) effective_timeout of
                      Overrun \<Rightarrow> Inl (Exn TimeoutErrorC)
                    | Raised e \<Rightarrow> Inl (post_failure e)
                    | Answered h \<Rightarrow>
                        if \<not> is_success h then Inl (failed_status h)
                        else rbind (read_answer model (rq_max_output_tokens request)
                               ((hc_answered client i - hc_started client i) * 1000) h) (\<lambda>r. Inr (Reply r)))))"

text \<open>
  The constructor. \<open>create\<close> is \<^verbatim>\<open>create_http_client\<close>: without a shared client it builds
  one on the given transport.
\<close>

definition new_vercel_provider ::
  "('t option \<Rightarrow> http_client) \<Rightarrow> gateway_settings \<Rightarrow> http_client option \<Rightarrow> 't option \<Rightarrow> model_config \<Rightarrow> exn + provider" where
  "new_vercel_provider create settings client transport model =
     (if mc_provider model \<noteq> ''vercel'' \<or> map_of UPSTREAM_PROVIDERS (mc_provider_model_name model) = None
      then Inl (GatewayErr INVALID_MODEL [])
      else if client \<noteq> None \<and> transport \<noteq> None then Inl (Exn ValueErrorC)
      else
        let c = (case client of Some c \<Rightarrow> c | None \<Rightarrow> create transport) in
        Inr \<lparr>pv_generate = (\<lambda>i budget request.
               vercel_generate model settings c i budget request (gs_timeout_seconds settings)),
             pv_generate_with_timeout = Some (\<lambda>i budget request timeout_seconds.
               vercel_generate model settings c i budget request timeout_seconds)\<rparr>)"

definition vercel_factory ::
  "('t option \<Rightarrow> http_client) \<Rightarrow> http_client option \<Rightarrow> gateway_settings \<Rightarrow> provider provider_factory" where
  "vercel_factory create client settings = new_vercel_provider create settings client None"

subsection \<open>What an accepted answer says\<close>

lemma lift_exn_Inr [simp]: "lift_exn x = Inr a \<longleftrightarrow> x = Inr a"
  by (simp add: lift_exn_def split: sum.splits)

lemma lift_exn_Inl: "lift_exn x = Inl e \<longleftrightarrow> (\<exists>c. x = Inl c \<and> e = Exn c)"
  by (auto simp: lift_exn_def split: sum.splits)

lemma usage_counts_Inr:
  "usage_counts u = Inr (i, j) \<longleftrightarrow>
     jget u ''prompt_tokens'' = PInt i \<and> jget u ''completion_tokens'' = PInt j \<and> 0 \<le> i \<and> 0 \<le> j"
  by (auto simp: usage_counts_def split: pyj.splits if_splits)

text \<open>
  The completion a body describes: the first choice's message, the usage counts, and the price
  of exactly these counts.
\<close>

definition describes :: "model_config \<Rightarrow> http_reply \<Rightarrow> inference_response \<Rightarrow> bool" where
  "describes m h r \<longleftrightarrow>
     (\<exists>b ch more d u. hx_json h = Inr (PDict b) \<and> map_of b ''choices'' = Some (PList (PDict ch # more))
        \<and> map_of ch ''message'' = Some (PDict d) \<and> map_of d ''content'' = Some (PStr (rs_text r))
        \<and> jget b ''usage'' = PDict u
        \<and> jget u ''prompt_tokens'' = PInt (rs_input_tokens r)
        \<and> jget u ''completion_tokens'' = PInt (rs_output_tokens r)
        \<and> calculate_cost (rs_input_tokens r) (rs_output_tokens r) m = Inr (rs_estimated_cost_usd r)
        \<and> (rs_termination_reason r, rs_provider_termination_reason r) = termination_of (PDict ch)
        \<and> rs_model_id r = mc_model_id m \<and> rs_provider r = mc_provider m \<and> inference_response_valid r)"

lemma completion_of_Inr:
  "completion_of m s i j ms cost reason = Inr r \<Longrightarrow>
     rs_text r = s \<and> rs_input_tokens r = i \<and> rs_output_tokens r = j \<and> rs_estimated_cost_usd r = cost
   \<and> rs_latency_ms r = ms \<and> (rs_termination_reason r, rs_provider_termination_reason r) = reason
   \<and> rs_model_id r = mc_model_id m \<and> rs_provider r = mc_provider m \<and> inference_response_valid r"
  by (auto simp: completion_of_def Let_def split: if_splits)

lemma malformed_classes [simp]:
  "malformed KeyErrorC" "malformed IndexErrorC" "malformed TypeErrorC" "malformed ValueErrorC"
  "malformed ValidationErrorC"
  by (simp_all add: malformed_def)

lemma read_choice_cases:
  "(\<exists>c. read_choice body = Inl c \<and> malformed c)
   \<or> (\<exists>b ch more d s. body = PDict b \<and> map_of b ''choices'' = Some (PList (PDict ch # more))
        \<and> map_of ch ''message'' = Some (PDict d)
        \<and> map_of d ''content'' = Some (PStr s) \<and> read_choice body = Inr (PDict ch, PDict d, s))"
  unfolding read_choice_def jkey_def jfirst_def
  by (auto split: pyj.splits option.splits list.splits)

lemma read_usage_cases:
  "read_usage h (PDict b) = Inl (Exn ValueErrorC)
   \<or> read_usage h (PDict b) = Inl (GatewayErr MISSING_USAGE (response_identifiers h))
   \<or> (\<exists>u i j. jget b ''usage'' = PDict u \<and> jget u ''prompt_tokens'' = PInt i
        \<and> jget u ''completion_tokens'' = PInt j \<and> 0 \<le> i \<and> 0 \<le> j \<and> read_usage h (PDict b) = Inr (u, i, j))"
  unfolding read_usage_def usage_counts_def lift_exn_def
  by (auto split: pyj.splits)

text \<open>
  The reading fails with a malformed answer, without usage, on a price that cannot be computed,
  or it reaches the acceptance test with a completion the body describes.
\<close>

definition unpriced :: "model_config \<Rightarrow> pyj \<Rightarrow> exn_class \<Rightarrow> bool" where
  "unpriced m body c \<longleftrightarrow>
     (\<exists>b u i j. body = PDict b \<and> jget b ''usage'' = PDict u \<and> jget u ''prompt_tokens'' = PInt i
        \<and> jget u ''completion_tokens'' = PInt j \<and> 0 \<le> i \<and> 0 \<le> j \<and> calculate_cost i j m = Inl c)"

lemma read_body_cases:
  assumes json: "hx_json h = Inr body"
  obtains c where "read_body m limit ms h body = Inl (Exn c)" "malformed c \<or> unpriced m body c"
    | "read_body m limit ms h body = Inl (GatewayErr MISSING_USAGE (response_identifiers h))"
    | r choice message usage where "describes m h r" "rs_latency_ms r = ms"
        "read_body m limit ms h body = accept_completion h choice message usage limit r"
proof (cases "\<exists>c. read_choice body = Inl c \<and> malformed c")
  case True
  then show ?thesis using that(1) by (auto simp: read_body_def lift_exn_def)
next
  case False
  then obtain b ch more d s where parts: "body = PDict b" "map_of b ''choices'' = Some (PList (PDict ch # more))"
      "map_of ch ''message'' = Some (PDict d)"
      "map_of d ''content'' = Some (PStr s)" and choice: "read_choice body = Inr (PDict ch, PDict d, s)"
    using read_choice_cases [of body] by blast
  show ?thesis
  proof (cases "read_usage h body")
    case (Inl e)
    then show ?thesis using that(1,2) read_usage_cases [of h b] parts(1) choice
      by (auto simp: read_body_def lift_exn_def)
  next
    case (Inr v)
    then obtain u i j where u: "jget b ''usage'' = PDict u" "jget u ''prompt_tokens'' = PInt i"
        "jget u ''completion_tokens'' = PInt j" "0 \<le> i" "0 \<le> j" and usage: "read_usage h body = Inr (u, i, j)"
      using read_usage_cases [of h b] parts(1) by auto
    show ?thesis
    proof (cases "calculate_cost i j m")
      case (Inl c)
      then show ?thesis using that(1) [of c] u parts(1) choice usage
        by (auto simp: read_body_def lift_exn_def unpriced_def)
    next
      case cost: (Inr cost)
      show ?thesis
      proof (cases "completion_of m s i j ms cost (termination_of (PDict ch))")
        case (Inl c)
        then have "c = ValidationErrorC" by (auto simp: completion_of_def Let_def split: if_splits)
        then show ?thesis using that(1) [of c] choice usage cost Inl by (auto simp: read_body_def lift_exn_def)
      next
        case (Inr r)
        note r = completion_of_Inr [OF Inr]
        have "describes m h r"
          unfolding describes_def using r json parts u cost by auto
        moreover have "read_body m limit ms h body = accept_completion h (PDict ch) (PDict d) u limit r"
          using choice usage cost Inr by (simp add: read_body_def lift_exn_def)
        ultimately show ?thesis using that(3) r by blast
      qed
    qed
  qed
qed

lemma accept_completion_cases:
  assumes "describes m h r"
  shows "accept_completion h choice message usage limit r =
     (if strip (rs_text r) = []
      then Inl (CompletionRejected EMPTY_RESPONSE r
             (completion_diagnostics h choice message usage limit (rs_input_tokens r) (rs_output_tokens r)
                (rs_latency_ms r) (rs_estimated_cost_usd r) True))
      else if rs_termination_reason r = TR_LENGTH
      then Inl (CompletionRejected OUTPUT_BUDGET_EXHAUSTION r
             (completion_diagnostics h choice message usage limit (rs_input_tokens r) (rs_output_tokens r)
                (rs_latency_ms r) (rs_estimated_cost_usd r) False))
      else Inr r)"
  by (simp add: accept_completion_def completion_rejected_error_def)

text \<open>
  Claim C17. What the adapter accepts is what the gateway answered: a success status
  with a JSON body whose first choice carries exactly this text, the usage counts of the body,
  the price of exactly these counts and the identity of the configured model. The text is not
  blank and the answer was not cut off at the token limit, and the check of the inference
  service that the response names the requested model and provider never refuses it.
\<close>

theorem vercel_completions_are_faithful:
  assumes "vercel_generate m settings client i budget rq t = Inr reply"
  shows "\<exists>r h key upstream payload. reply = Reply r \<and> check_reply m reply = Inr r
     \<and> mc_enabled m \<and> gs_api_key settings = Some key
     \<and> map_of UPSTREAM_PROVIDERS (mc_provider_model_name m) = Some upstream
     \<and> chat_payload m upstream rq = Some payload
     \<and> hc_post client i budget payload (''Bearer '' @ key) (min (gs_timeout_seconds settings) t) = Answered h
     \<and> is_success h \<and> describes m h r
     \<and> rs_latency_ms r = (hc_answered client i - hc_started client i) * 1000
     \<and> strip (rs_text r) \<noteq> [] \<and> rs_termination_reason r \<noteq> TR_LENGTH"
proof -
  let ?ms = "(hc_answered client i - hc_started client i) * 1000"
  obtain key upstream payload h r where config: "mc_enabled m" "gs_api_key settings = Some key"
      "map_of UPSTREAM_PROVIDERS (mc_provider_model_name m) = Some upstream"
      "chat_payload m upstream rq = Some payload"
      "hc_post client i budget payload (''Bearer '' @ key) (min (gs_timeout_seconds settings) t) = Answered h"
      "is_success h" and reply: "reply = Reply r"
      and read: "read_answer m (rq_max_output_tokens rq) ?ms h = Inr r"
    using assms by (auto simp: vercel_generate_def Let_def rbind_eq_Inr
        split: if_splits option.splits post_outcome.splits)
  then obtain body where body: "hx_json h = Inr body"
      "read_body m (rq_max_output_tokens rq) ?ms h body = Inr r"
    by (auto simp: read_answer_def rbind_eq_Inr split: sum.splits if_splits)
  then show ?thesis
  proof (cases rule: read_body_cases [OF body(1), of m "rq_max_output_tokens rq" ?ms])
    case (3 r' choice message usage)
    then have "r' = r" "strip (rs_text r) \<noteq> []" "rs_termination_reason r \<noteq> TR_LENGTH"
      using body(2) by (auto simp: accept_completion_cases split: if_splits)
    moreover have "check_reply m reply = Inr r"
      using 3 reply \<open>r' = r\<close> by (auto simp: check_reply_def describes_def)
    ultimately show ?thesis using config reply 3 by blast
  qed simp_all
qed

subsection \<open>What a failure is\<close>

text \<open>
  What \<^verbatim>\<open>httpx\<close>, \<^verbatim>\<open>asyncio\<close> and \<^verbatim>\<open>json\<close> document: a call raises an
  \<^verbatim>\<open>httpx.RequestError\<close>, \<^verbatim>\<open>TimeoutError\<close> or is cancelled; a body that is
  not JSON raises a \<^verbatim>\<open>ValueError\<close>; a decoded integer has at most 4300 digits.
\<close>

definition max_json_int :: int where
  "max_json_int = 10 ^ 4300"

definition client_documented :: "http_client \<Rightarrow> bool" where
  "client_documented client \<longleftrightarrow>
     (\<forall>i budget payload auth t. case hc_post client i budget payload auth t of
        Overrun \<Rightarrow> True
      | Raised e \<Rightarrow> \<exists>c. e = Exn c \<and> (issubclass c HttpxRequestErrorC \<or> issubclass c TimeoutErrorC \<or> c = CancelledErrorC)
      | Answered h \<Rightarrow>
          (case hx_json h of
             Inl c \<Rightarrow> issubclass c ValueErrorC
           | Inr body \<Rightarrow> \<forall>b u k n. body = PDict b \<and> jget b ''usage'' = PDict u \<and> jget u k = PInt n
               \<longrightarrow> n < max_json_int))"

text \<open>The portfolio's prices can be computed for every count a body can carry.\<close>

definition priced :: "model_config \<Rightarrow> bool" where
  "priced m \<longleftrightarrow> prices_in_range max_json_int max_json_int m"

lemma priced_total: "priced m \<Longrightarrow> 0 \<le> i \<Longrightarrow> 0 \<le> j \<Longrightarrow> i < max_json_int \<Longrightarrow> j < max_json_int
    \<Longrightarrow> \<exists>d. calculate_cost i j m = Inr d"
proof -
  assume "priced m" "0 \<le> i" "0 \<le> j" "i < max_json_int" "j < max_json_int"
  then have "prices_in_range i j m" by (auto simp: priced_def intro: prices_in_range_mono)
  then show ?thesis using cost_exact_core [of i j m] \<open>0 \<le> i\<close> \<open>0 \<le> j\<close> by blast
qed

definition rejected_completion :: "model_config \<Rightarrow> http_reply \<Rightarrow> exn \<Rightarrow> bool" where
  "rejected_completion m h e \<longleftrightarrow>
     (\<exists>r choice message usage limit.
        let d = completion_diagnostics h choice message usage limit (rs_input_tokens r) (rs_output_tokens r)
              (rs_latency_ms r) (rs_estimated_cost_usd r) in
        describes m h r
        \<and> (e = CompletionRejected EMPTY_RESPONSE r (d True) \<and> strip (rs_text r) = []
         \<or> e = CompletionRejected OUTPUT_BUDGET_EXHAUSTION r (d False) \<and> rs_termination_reason r = TR_LENGTH))"

lemma read_answer_failures:
  assumes json: "case hx_json h of Inl c \<Rightarrow> issubclass c ValueErrorC
      | Inr body \<Rightarrow> \<forall>b u k n. body = PDict b \<and> jget b ''usage'' = PDict u \<and> jget u k = PInt n \<longrightarrow> n < max_json_int"
    and rates: "priced m" and failure: "read_answer m limit ms h = Inl e"
  shows "e = GatewayErr MALFORMED_RESPONSE (response_identifiers h)
     \<or> e = GatewayErr MISSING_USAGE (response_identifiers h) \<or> rejected_completion m h e"
proof (cases "hx_json h")
  case (Inl c)
  then have "malformed c" using json by (simp add: malformed_def)
  moreover have "\<not> isinstance (Exn c) GatewayErrorC"
    using json Inl by (cases c) (simp_all add: isinstance_def issubclass_eval)
  ultimately show ?thesis using failure Inl by (simp add: read_answer_def lift_exn_def)
next
  case (Inr body)
  have run: "read_answer m limit ms h = (case read_body m limit ms h body of
        Inr r \<Rightarrow> Inr r
      | Inl e \<Rightarrow> if isinstance e GatewayErrorC then Inl e
          else if malformed (class_of e) then Inl (GatewayErr MALFORMED_RESPONSE (response_identifiers h)) else Inl e)"
    by (simp add: read_answer_def Inr lift_exn_def)
  show ?thesis
  proof (cases rule: read_body_cases [OF Inr, of m limit ms])
    case (1 c)
    have "\<not> unpriced m body c"
      using json Inr priced_total [OF rates] unfolding unpriced_def by fastforce
    then have mal: "malformed c" using 1 by blast
    have "\<not> isinstance (Exn c) GatewayErrorC"
      using mal by (cases c) (simp_all add: malformed_def isinstance_def issubclass_eval)
    then show ?thesis using failure 1 mal unfolding run by simp
  next
    case 2
    then show ?thesis using failure unfolding run by (simp add: isinstance_def issubclass_eval)
  next
    case (3 r choice message usage)
    then have "rejected_completion m h e"
      using failure unfolding run rejected_completion_def Let_def
      by (simp add: accept_completion_cases [OF 3(1)] isinstance_def issubclass_eval split: if_splits) blast+
    then show ?thesis by blast
  qed
qed

definition normalized_failure :: "model_config \<Rightarrow> exn \<Rightarrow> bool" where
  "normalized_failure m e \<longleftrightarrow>
     e \<in> {Exn ModelDisabledErrorC, Exn TimeoutErrorC, Exn CancelledErrorC}
   \<or> (\<exists>c d. e = GatewayErr c d \<and> c \<notin> {EMPTY_RESPONSE, OUTPUT_BUDGET_EXHAUSTION})
   \<or> (\<exists>h. rejected_completion m h e)"

lemma failed_status_normalized:
  assumes "case hx_json h of Inl c \<Rightarrow> issubclass c ValueErrorC | Inr body \<Rightarrow> P body"
  shows "\<exists>c. failed_status h = GatewayErr c (error_diagnostics h (case hx_json h of Inl _ \<Rightarrow> PNull | Inr body \<Rightarrow> body))
    \<and> c \<notin> {EMPTY_RESPONSE, OUTPUT_BUDGET_EXHAUSTION}"
  using assms
  by (auto simp: failed_status_def status_category_def Let_def split: sum.splits)

lemma post_failure_normalized:
  assumes "issubclass c HttpxRequestErrorC \<or> issubclass c TimeoutErrorC \<or> c = CancelledErrorC"
  shows "post_failure (Exn c) \<in> {GatewayErr TIMEOUT [], GatewayErr UPSTREAM [], Exn CancelledErrorC}"
  using assms by (auto simp: post_failure_def isinstance_def)

lemma chat_payload_defined:
  assumes "model_config_valid m" shows "\<exists>payload. chat_payload m upstream rq = Some payload"
proof (cases "mc_reasoning_control m = GOOGLE_PROVIDER_NATIVE")
  case True
  then obtain effort where "mc_reasoning_effort m = Some effort"
    using assms by (auto simp: model_config_valid_def reject_unsupported_reasoning_effort_def)
  then show ?thesis by (simp add: chat_payload_def True)
next
  case False
  then show ?thesis by (simp add: chat_payload_def Let_def)
qed

lemma vercel_generate_failures:
  assumes documented: "client_documented client" and rates: "priced m" and valid: "model_config_valid m"
    and upstream: "map_of UPSTREAM_PROVIDERS (mc_provider_model_name m) \<noteq> None"
    and run: "vercel_generate m settings client i budget rq t = Inl e"
  obtains "e = Exn ModelDisabledErrorC" | "e = GatewayErr NOT_CONFIGURED []" | "e = Exn TimeoutErrorC"
    | "e \<in> {GatewayErr TIMEOUT [], GatewayErr UPSTREAM [], Exn CancelledErrorC}"
    | h c body where "e = GatewayErr c (error_diagnostics h body)" "c \<notin> {EMPTY_RESPONSE, OUTPUT_BUDGET_EXHAUSTION}"
    | h c where "e = GatewayErr c (response_identifiers h)" "c \<in> {MALFORMED_RESPONSE, MISSING_USAGE}"
    | h where "rejected_completion m h e"
proof -
  obtain u where u: "map_of UPSTREAM_PROVIDERS (mc_provider_model_name m) = Some u" using upstream by blast
  obtain payload where payload: "chat_payload m u rq = Some payload"
    using chat_payload_defined [OF valid] by blast
  let ?post = "\<lambda>key. hc_post client i budget payload (''Bearer '' @ key) (min (gs_timeout_seconds settings) t)"
  have doc: "case ?post key of
        Overrun \<Rightarrow> True
      | Raised e \<Rightarrow> \<exists>c. e = Exn c \<and> (issubclass c HttpxRequestErrorC \<or> issubclass c TimeoutErrorC \<or> c = CancelledErrorC)
      | Answered h \<Rightarrow>
          (case hx_json h of
             Inl c \<Rightarrow> issubclass c ValueErrorC
           | Inr body \<Rightarrow> \<forall>b u k n. body = PDict b \<and> jget b ''usage'' = PDict u \<and> jget u k = PInt n
               \<longrightarrow> n < max_json_int)" for key
    using documented unfolding client_documented_def by blast
  show thesis
  proof (cases "gs_api_key settings")
    case None
    then show thesis using run that(1,2) by (auto simp: vercel_generate_def split: if_splits)
  next
    case (Some key)
    show thesis
    proof (cases "mc_enabled m \<and> strip key \<noteq> []")
      case False
      then show thesis using run Some that(1,2) by (auto simp: vercel_generate_def split: if_splits)
    next
      case True
      show thesis
      proof (cases "?post key")
        case Overrun
        then show thesis using run Some True u payload that(3) by (simp add: vercel_generate_def)
      next
        case (Raised x)
        then have "e = post_failure x" using run Some True u payload by (simp add: vercel_generate_def)
        then show thesis using that(4) doc [of key] Raised post_failure_normalized by auto
      next
        case (Answered h)
        note json = doc [of key, unfolded Answered post_outcome.case]
        show thesis
        proof (cases "is_success h")
          case False
          then have "e = failed_status h" using run Some True u payload Answered by (simp add: vercel_generate_def)
          then show thesis using that(5) failed_status_normalized [OF json] by blast
        next
          case success: True
          then have "read_answer m (rq_max_output_tokens rq)
              ((hc_answered client i - hc_started client i) * 1000) h = Inl e"
            using run Some True u payload Answered by (simp add: vercel_generate_def rbind_eq_Inl)
          from read_answer_failures [OF json rates this] show thesis using that(6,7) by blast
        qed
      qed
    qed
  qed
qed

lemma describes_response:
  "describes m h r \<Longrightarrow> inference_response_valid r \<and> rs_model_id r = mc_model_id m \<and> rs_provider r = mc_provider m"
  by (auto simp: describes_def)

lemma rejected_response:
  "rejected_completion m h e \<Longrightarrow> exn_wf e \<and> (\<forall>r. exn_completion e = Some r \<longrightarrow> inference_response_valid r
        \<and> rs_model_id r = mc_model_id m \<and> rs_provider r = mc_provider m)"
  by (auto simp: rejected_completion_def Let_def exn_wf_def dest: describes_response)

lemma plain_failure: "e \<in> {Exn ModelDisabledErrorC, Exn TimeoutErrorC, Exn CancelledErrorC} \<or> (\<exists>c d. e = GatewayErr c d)
    \<Longrightarrow> exn_wf e \<and> exn_completion e = None"
  by (auto simp: exn_wf_def)

lemma failures_normalized:
  assumes "client_documented client" and "priced m" and "model_config_valid m"
    and "map_of UPSTREAM_PROVIDERS (mc_provider_model_name m) \<noteq> None"
    and "vercel_generate m settings client i budget rq t = Inl e"
  shows "normalized_failure m e"
  using vercel_generate_failures [OF assms] by cases (auto simp: normalized_failure_def)

lemma normalized_response:
  "normalized_failure m e \<Longrightarrow> exn_wf e \<and> (\<forall>r. exn_completion e = Some r \<longrightarrow> inference_response_valid r
        \<and> rs_model_id r = mc_model_id m \<and> rs_provider r = mc_provider m)"
  unfolding normalized_failure_def using plain_failure [of e] rejected_response by auto


subsection \<open>Diagnostics carry no text\<close>

definition safe_char :: "char \<Rightarrow> bool" where
  "safe_char c \<longleftrightarrow> ascii_alnum c \<or> c \<in> set ''._:/-+''"

definition safe_diagnostics :: "diag dict \<Rightarrow> bool" where
  "safe_diagnostics d \<longleftrightarrow> (\<forall>k s. (k, DStr s) \<in> set d \<longrightarrow> list_all safe_char s)"

lemma safe_Nil [simp]: "safe_diagnostics []"
  by (simp add: safe_diagnostics_def)

lemma dict_set_items: "set (dict_set d k v) \<subseteq> insert (k, v) (set d)"
  by (induction d k v rule: dict_set.induct) auto

lemma safe_dict_set:
  "safe_diagnostics d \<Longrightarrow> (\<And>s. v = DStr s \<Longrightarrow> list_all safe_char s) \<Longrightarrow> safe_diagnostics (dict_set d k v)"
  unfolding safe_diagnostics_def using dict_set_items [of d k v] by blast

lemma safe_value_chars: "safe_value v = Some s \<Longrightarrow> list_all safe_char s"
  by (auto simp: safe_value_def safe_label_def safe_char_def list_all_iff split: pyj.splits if_splits list.splits)

lemma safe_header_chars: "safe_header v = Some s \<Longrightarrow> list_all safe_char s"
  by (auto simp: safe_header_def dest: safe_value_chars split: option.splits)

lemma safe_set_string:
  "safe_diagnostics d \<Longrightarrow> (\<And>s. v = Some s \<Longrightarrow> list_all safe_char s) \<Longrightarrow> safe_diagnostics (set_string k v d)"
  by (auto simp: set_string_def intro!: safe_dict_set split: option.split)

lemma safe_set_count: "safe_diagnostics d \<Longrightarrow> safe_diagnostics (set_count k v d)"
  by (auto simp: set_count_def intro!: safe_dict_set split: pyj.split)

lemma safe_identifiers: "safe_diagnostics (response_identifiers h)"
  unfolding response_identifiers_def
  by (intro safe_set_string safe_header_chars) (simp_all add: safe_diagnostics_def)

lemma upstream_code_chars: "upstream_code error keys = Some s \<Longrightarrow> list_all safe_char s"
  by (induction keys) (auto dest: safe_value_chars split: pyj.splits option.splits)

lemma safe_error_fields:
  "safe_diagnostics d \<Longrightarrow> safe_diagnostics (set_string k3 (upstream_code e keys)
     (set_string k2 (safe_value v2) (set_string k1 (safe_value v1) d)))"
  by (intro safe_set_string) (blast intro: upstream_code_chars safe_value_chars)+

lemma safe_error_diagnostics: "safe_diagnostics (error_diagnostics h body)"
  unfolding error_diagnostics_def Let_def
  by (simp add: safe_identifiers safe_error_fields del: upstream_code.simps split: pyj.split)

lemma show_nat_chars: "list_all ascii_alnum (show_nat n)"
proof (induction n rule: show_nat.induct)
  case (1 n)
  have digit: "ascii_alnum (char_of (48 + k))" if "k < 10" for k :: nat
    using that by (simp add: ascii_alnum_def Let_def)
  show ?case
  proof (cases "n < 10")
    case True
    then show ?thesis using digit by (subst show_nat.simps) simp
  next
    case False
    then show ?thesis using "1.IH" digit [of "n mod 10"] by (subst show_nat.simps) simp
  qed
qed

lemma digits_safe: "list_all safe_char (show_nat n)"
  using show_nat_chars [of n] by (auto simp: safe_char_def list_all_iff)

lemma dec_str_chars: "list_all safe_char (dec_str d)"
proof -
  have sub: "list_all safe_char (take k (show_nat n))" "list_all safe_char (drop k (show_nat n))" for k n
    using digits_safe [of n] by (auto simp: list_all_iff dest: in_set_takeD in_set_dropD)
  have zeros: "list_all safe_char (replicate n CHR ''0'')" for n
    by (induction n) (simp_all add: safe_char_def ascii_alnum_def)
  have marks: "safe_char CHR ''.''" "safe_char CHR ''-''" "safe_char CHR ''+''" "safe_char CHR ''0''" "safe_char CHR ''E''"
    by (simp_all add: safe_char_def ascii_alnum_def)
  show ?thesis
    unfolding dec_str_def Let_def by (simp add: sub digits_safe zeros marks split: prod.split)
qed

lemma termination_chars: "termination_of choice = (reason, Some raw) \<Longrightarrow> list_all safe_char raw"
  by (auto simp: termination_of_def Let_def dest: safe_value_chars split: pyj.splits option.splits if_splits)

lemma safe_completion_diagnostics:
  "safe_diagnostics (completion_diagnostics h choice message usage limit i j ms cost content_empty)"
proof -
  have value_chars: "list_all safe_char (termination_reason_value reason)" for reason
    by (cases reason) (simp_all add: safe_char_def ascii_alnum_def)
  obtain reason raw where reason: "termination_of choice = (reason, raw)" by (cases "termination_of choice")
  have raw: "raw = Some s \<Longrightarrow> list_all safe_char s" for s using reason termination_chars by simp
  show ?thesis
    unfolding completion_diagnostics_def reason Let_def prod.case
    by (auto split: pyj.split intro!: safe_dict_set safe_set_count safe_set_string safe_identifiers
        simp: raw value_chars dec_str_chars)
qed


text \<open>
  Claim C38. The diagnostics attached to a failure, which are logged, never contain text
  of the prompt or of the model: every string in them consists of characters that identifiers,
  status words and numbers are made of, without blanks or quotes, whatever the gateway sent.
\<close>

theorem vercel_diagnostics_are_safe:
  assumes "client_documented client" and "priced m" and "model_config_valid m"
    and "map_of UPSTREAM_PROVIDERS (mc_provider_model_name m) \<noteq> None"
    and "vercel_generate m settings client i budget rq t = Inl e"
    and "e = GatewayErr c d \<or> e = CompletionRejected c r d"
  shows "safe_diagnostics d"
  using vercel_generate_failures [OF assms(1-5)] assms(6)
  by cases (auto simp: rejected_completion_def Let_def safe_error_diagnostics safe_identifiers
      safe_completion_diagnostics)

text \<open>
  The request the adapter sends for a valid model: the configured upstream
  model, pinned to its single upstream provider so that the gateway cannot fall back to another;
  no streaming; the caller's token limit; the caller's prompt as the last message, unchanged; a
  temperature exactly when the model supports one; and the reasoning effort where the model's
  control mechanism puts it.
\<close>

theorem payload_is_pinned:
  assumes "model_config_valid m"
  shows "\<exists>fields options. chat_payload m upstream rq = Some (PDict fields)
     \<and> map_of fields ''model'' = Some (PStr (mc_provider_model_name m))
     \<and> map_of fields ''stream'' = Some (PBool False)
     \<and> map_of fields ''max_tokens'' = Some (PInt (rq_max_output_tokens rq))
     \<and> (\<exists>before. map_of fields ''messages''
          = Some (PList (before @ [PDict [(''role'', PStr ''user''), (''content'', PStr (rq_prompt rq))]]))
          \<and> length before = (case rq_system_prompt rq of None \<Rightarrow> 0 | Some _ \<Rightarrow> 1))
     \<and> map_of fields ''temperature''
          = (if supports_temperature (mc_capabilities m) then Some (PFlt (rq_temperature rq)) else None)
     \<and> map_of fields ''providerOptions'' = Some (PDict options)
     \<and> map_of options ''gateway'' = Some (PDict [(''only'', PList [PStr upstream])])
     \<and> (map_of options ''google'' \<noteq> None \<longleftrightarrow> mc_reasoning_control m = GOOGLE_PROVIDER_NATIVE)
     \<and> (map_of fields ''reasoning'' \<noteq> None
          \<longleftrightarrow> mc_reasoning_control m = GATEWAY_SHARED \<and> mc_reasoning_effort m \<noteq> None)"
proof (cases "mc_reasoning_control m")
  case GATEWAY_SHARED
  then show ?thesis
    by (auto simp: chat_payload_def chat_messages_def split: option.splits)
next
  case GOOGLE_PROVIDER_NATIVE
  then obtain effort where "mc_reasoning_effort m = Some effort"
    using assms by (auto simp: model_config_valid_def reject_unsupported_reasoning_effort_def)
  then show ?thesis using GOOGLE_PROVIDER_NATIVE
    by (auto simp: chat_payload_def chat_messages_def split: option.splits)
qed

definition serves :: "gateway_settings \<Rightarrow> http_client \<Rightarrow> model_config \<Rightarrow> provider \<Rightarrow> bool" where
  "serves settings client m p \<longleftrightarrow>
     pv_generate p = (\<lambda>i budget rq. vercel_generate m settings client i budget rq (gs_timeout_seconds settings))
   \<and> pv_generate_with_timeout p = Some (vercel_generate m settings client)"

lemma portfolio_vercel:
  "list_all (\<lambda>m. mc_provider m = ''vercel''
     \<and> map_of UPSTREAM_PROVIDERS (mc_provider_model_name m) \<noteq> None) SEMANTIC_JUDGE_MODELS"
  by code_simp

lemma rate_in_range_portfolio: "c < 10 ^ 30 \<Longrightarrow> n \<le> 900000 \<Longrightarrow> rate_in_range n (cents c)"
  using ndigits_le_iff [of 30 c] by (simp add: rate_in_range_def cents_def)

lemma ndigits_max_json_int: "ndigits (nat max_json_int) \<le> 900000"
proof -
  have "nat max_json_int = 10 ^ 4300"
    unfolding max_json_int_def by (simp only: nat_power_eq zero_le_numeral nat_numeral)
  also have "(10::nat) ^ 4300 < 10 ^ 4301" by (rule power_strict_increasing) simp_all
  finally have "ndigits (nat max_json_int) \<le> 4301" by (simp only: ndigits_le_iff zero_less_numeral)
  then show ?thesis by simp
qed

lemma priced_cents:
  "mc_input_cost_per_1m_tokens m = cents a \<Longrightarrow> mc_output_cost_per_1m_tokens m = cents b
    \<Longrightarrow> a < 10 ^ 30 \<Longrightarrow> b < 10 ^ 30 \<Longrightarrow> priced m"
  using ndigits_max_json_int
  by (simp add: priced_def prices_in_range_def Let_def rate_in_range_portfolio del: rate_in_range_cents)

lemma portfolio_cents:
  "list_all (\<lambda>m. expo (mc_input_cost_per_1m_tokens m) = - 2 \<and> coeff (mc_input_cost_per_1m_tokens m) < 10 ^ 30
     \<and> expo (mc_output_cost_per_1m_tokens m) = - 2 \<and> coeff (mc_output_cost_per_1m_tokens m) < 10 ^ 30)
     SEMANTIC_JUDGE_MODELS"
  by (simp add: portfolio_defs cents_def)

lemma portfolio_priced: "list_all priced SEMANTIC_JUDGE_MODELS"
  unfolding list_all_iff
proof
  fix m assume "m \<in> set SEMANTIC_JUDGE_MODELS"
  note rates = portfolio_cents [unfolded list_all_iff, THEN bspec, OF this]
  show "priced m"
    by (rule priced_cents [of m "coeff (mc_input_cost_per_1m_tokens m)" "coeff (mc_output_cost_per_1m_tokens m)"])
      (use rates in \<open>simp_all add: cents_def\<close>)
qed

text \<open>
  Once a key is configured every model of the portfolio is served: the
  resolver hands out an adapter for it, both of whose entry points are the generation above,
  with the timeout of the settings or of the caller; the model is registered under its id; and
  its price can be computed for every count an answer can carry, so that no failure other than
  a normalized one ever leaves its adapter.
\<close>

theorem configured_gateway_serves_the_portfolio:
  assumes run: "configure_gateway (vercel_factory create (Some client)) sv settings = Inr sv'"
    and key: "gs_api_key settings \<noteq> None"
    and inv: "registry_inv (sv_registry sv)" "resolver_inv (sv_resolver sv)"
    and model: "m \<in> set REAL_MODELS"
  shows "\<exists>p. resolver_resolve (sv_resolver sv') m = Inr p \<and> serves settings client m p
     \<and> registry_get (sv_registry sv') (mc_model_id m) = Inr m
     \<and> (client_documented client \<longrightarrow> (\<forall>i budget rq t e.
          vercel_generate m settings client i budget rq t = Inl e \<longrightarrow> normalized_failure m e))"
proof -
  obtain reg res where reg: "registry_register_all (sv_registry sv) REAL_MODELS = Inr reg"
    and res: "resolver_register (sv_resolver sv) ''vercel'' (vercel_factory create (Some client) settings) = Inr res"
    and sv': "sv' = sv\<lparr>sv_registry := reg, sv_resolver := res\<rparr>"
    using run key by (auto simp: configure_gateway_def rbind_eq_Inr)
  have member: "m \<in> set SEMANTIC_JUDGE_MODELS" using model by (simp add: SEMANTIC_JUDGE_MODELS_def)
  have vercel: "mc_provider m = ''vercel''" "map_of UPSTREAM_PROVIDERS (mc_provider_model_name m) \<noteq> None"
    using portfolio_vercel member by (auto simp: list_all_iff)
  have valid: "model_config_valid m" using portfolio_valid member by (auto simp: list_all_iff)
  have rates: "priced m" using portfolio_priced member by (simp add: list_all_iff)
  let ?kvs = "map (\<lambda>m. (mc_model_id m, m)) REAL_MODELS"
  have acc: "k = mc_model_id v" if "(k, v) \<in> set ?kvs" for k v
    using that by auto
  have "\<forall>(k, v)\<in>set ?kvs. map_of reg k = Some v"
    using models.insert_all_spec [OF inv(1) acc reg [unfolded registry_register_all_models]] by blast
  moreover have "(mc_model_id m, m) \<in> set ?kvs" using model by (simp only: set_map image_eqI)
  ultimately have found: "registry_get reg (mc_model_id m) = Inr m"
    by (auto simp: registry_get_def)
  have "is_identifier ''vercel''" by code_simp
  then have "map_of res = (map_of (sv_resolver sv))(''vercel'' \<mapsto> vercel_factory create (Some client) settings)"
    using adapters.insert_cases(4) [OF inv(2) _ res] by blast
  then have "resolver_resolve res m = vercel_factory create (Some client) settings m"
    by (simp add: resolver_resolve_def vercel(1))
  also have "\<dots> = Inr \<lparr>pv_generate = (\<lambda>i budget request.
               vercel_generate m settings client i budget request (gs_timeout_seconds settings)),
             pv_generate_with_timeout = Some (\<lambda>i budget request timeout_seconds.
               vercel_generate m settings client i budget request timeout_seconds)\<rparr>"
    using vercel by (simp add: vercel_factory_def new_vercel_provider_def)
  finally show ?thesis
    using found sv' failures_normalized [OF _ rates valid vercel(2)]
    by (auto simp: serves_def)
qed

end
