(* ===== verification/Benchmark_Runner.thy ===== *)
theory Benchmark_Runner
  imports Eval_Service Vercel "HOL-Library.Sublist" "HOL-Library.Multiset"
begin

section \<open>Running a benchmark\<close>

text \<open>
  \<^verbatim>\<open>benchmarks/runner.py\<close>, \<^verbatim>\<open>benchmarks/repository.py\<close> and the budget
  heuristic of \<^verbatim>\<open>benchmarks/protocol_audit.py\<close>: every selected task is sent to every
  selected model, one call after the other, through an inference service of its own that has no
  telemetry. The manifest is stored before the first call and each result after its call.

  The store is one directory: the manifest, the status and the results by identifier. Every
  operation on it may raise, and a write that raises may have been published all the same (the
  thread goes on when the task is cancelled). The recorded configuration, which nothing here
  reads again, is left out; with it the request features, whose extraction succeeds on valid
  tasks.
\<close>

subsection \<open>The store\<close>

datatype op_outcome = OpDone | OpRaised exn bool

record bench_store =
  bs_ops :: nat
  bs_manifest :: "benchmark_run option"
  bs_status :: "string option"
  bs_results :: "benchmark_result list"

definition empty_store :: bench_store where
  "empty_store = \<lparr>bs_ops = 0, bs_manifest = None, bs_status = None, bs_results = []\<rparr>"

type_synonym 'a bact = "world \<times> bench_store \<Rightarrow> (exn + 'a) \<times> world \<times> bench_store"

definition breturn :: "'a \<Rightarrow> 'a bact" where
  "breturn a s = (Inr a, s)"

definition braise :: "exn \<Rightarrow> 'a bact" where
  "braise e s = (Inl e, s)"

definition bbind :: "'a bact \<Rightarrow> ('a \<Rightarrow> 'b bact) \<Rightarrow> 'b bact" where
  "bbind m f s = (case m s of (Inl e, s1) \<Rightarrow> (Inl e, s1) | (Inr a, s1) \<Rightarrow> f a s1)"

definition bcatch :: "'a bact \<Rightarrow> (exn \<Rightarrow> 'a bact) \<Rightarrow> 'a bact" where
  "bcatch m h s = (case m s of (Inl e, s1) \<Rightarrow> h e s1 | (Inr a, s1) \<Rightarrow> (Inr a, s1))"

definition blift :: "'a act \<Rightarrow> 'a bact" where
  "blift m = (\<lambda>(w, b). case m w of (x, w1) \<Rightarrow> (x, w1, b))"

definition store_op :: "(nat \<Rightarrow> op_outcome) \<Rightarrow> (bench_store \<Rightarrow> bench_store) \<Rightarrow> unit bact" where
  "store_op S f = (\<lambda>(w, b).
     case S (bs_ops b) of
       OpDone \<Rightarrow> (Inr (), w, (f b)\<lparr>bs_ops := Suc (bs_ops b)\<rparr>)
     | OpRaised e published \<Rightarrow> (Inl e, w, (if published then f b else b)\<lparr>bs_ops := Suc (bs_ops b)\<rparr>))"

definition repository_start :: "(nat \<Rightarrow> op_outcome) \<Rightarrow> benchmark_run \<Rightarrow> unit bact" where
  "repository_start S run =
     bbind (store_op S id) (\<lambda>_.
     bbind (store_op S (\<lambda>b. b\<lparr>bs_manifest := Some run\<rparr>)) (\<lambda>_.
     store_op S (\<lambda>b. b\<lparr>bs_status := Some ''running''\<rparr>)))"

definition put_result :: "benchmark_result \<Rightarrow> bench_store \<Rightarrow> bench_store" where
  "put_result r b = b\<lparr>bs_results := filter (\<lambda>x. br_result_id x \<noteq> br_result_id r) (bs_results b) @ [r]\<rparr>"

definition repository_record :: "(nat \<Rightarrow> op_outcome) \<Rightarrow> benchmark_result \<Rightarrow> unit bact" where
  "repository_record S r = store_op S (put_result r)"

definition repository_finish :: "(nat \<Rightarrow> op_outcome) \<Rightarrow> string \<Rightarrow> unit bact" where
  "repository_finish S status = store_op S (\<lambda>b. b\<lparr>bs_status := Some status\<rparr>)"

subsection \<open>Answers that ran out of budget\<close>

definition ends_with :: "string \<Rightarrow> string \<Rightarrow> bool" where
  "ends_with t s \<longleftrightarrow> drop (length t - length s) t = s"

text \<open>\<^verbatim>\<open>value.count\<close> of three backticks.\<close>

fun count_fences :: "string \<Rightarrow> nat" where
  "count_fences [] = 0"
| "count_fences (c # s) = (if take 3 (c # s) = fence then Suc (count_fences (drop 2 s)) else count_fences s)"

definition visible_response_appears_truncated :: "string \<Rightarrow> bool" where
  "visible_response_appears_truncated s =
     (let v = rstrip s in
      if v = [] then True
      else if odd (count_fences v) then True
      else if list_ex (ends_with v) [''len'', ''cl'', ''14:0''] then True
      else if last v \<in> set (''([{,:=+-*/'' @ [CHR 0x5C]) then True
      else CHR 0x0A \<in> set v \<and> last v \<notin> set (''.!?])}'' @ [CHR 0x27, CHR 0x22]))"

definition response_output_budget_exhaustion :: "inference_response \<Rightarrow> int \<Rightarrow> bool" where
  "response_output_budget_exhaustion r limit =
     (if rs_termination_reason r = TR_LENGTH then True
      else if rs_termination_reason r \<noteq> TR_UNKNOWN then False
      else max 1 (limit - 8) \<le> rs_output_tokens r \<and> visible_response_appears_truncated (rs_text r))"

subsection \<open>The runner\<close>

record benchmark_runner =
  rn_configurations :: "model_config dict"
  rn_base_registry :: model_registry
  rn_service :: inference_service
  rn_overrides :: "int dict dict"

definition configured :: "model_config dict \<Rightarrow> model_config \<Rightarrow> model_config" where
  "configured configurations m = (case map_of configurations (mc_model_id m) of Some c \<Rightarrow> c | None \<Rightarrow> m)"

definition new_benchmark_runner ::
  "inference_service \<Rightarrow> model_config dict \<Rightarrow> int dict dict \<Rightarrow> exn_class + benchmark_runner" where
  "new_benchmark_runner service configurations overrides =
     rbind (registry_register_all empty_registry
              (map (configured configurations) (registry_list_models (sv_registry service)))) (\<lambda>registry.
     rbind (new_inference_service registry (sv_resolver service) None 2 60) (\<lambda>execution.
     if list_ex (\<lambda>(model_id, limits). model_id = [] \<or> limits = []
          \<or> list_ex (\<lambda>(task_id, limit). task_id = [] \<or> limit \<le> 0) limits) overrides
     then Inl ValueErrorC
     else Inr \<lparr>rn_configurations = configurations, rn_base_registry = sv_registry service,
            rn_service = execution, rn_overrides = overrides\<rparr>))"

definition selectable :: "benchmark_runner \<Rightarrow> model_config \<Rightarrow> exn_class + model_config" where
  "selectable runner registered =
     (let m = configured (rn_configurations runner) registered in
      if (mc_model_id m, mc_provider m, mc_provider_model_name m, dval (mc_input_cost_per_1m_tokens m),
          dval (mc_output_cost_per_1m_tokens m))
         \<noteq> (mc_model_id registered, mc_provider registered, mc_provider_model_name registered,
          dval (mc_input_cost_per_1m_tokens registered), dval (mc_output_cost_per_1m_tokens registered))
      then Inl ValueErrorC
      else if \<not> mc_enabled m then Inl ModelDisabledErrorC
      else if \<not> resolver_supports (sv_resolver (rn_service runner)) (mc_provider m) then Inl ProviderUnavailableErrorC
      else Inr m)"

text \<open>The checks of \<^verbatim>\<open>run\<close>, in their order; \<^verbatim>\<open>dataset.tasks[:limit]\<close>.\<close>

definition selection ::
  "benchmark_runner \<Rightarrow> benchmark_dataset \<Rightarrow> string list \<Rightarrow> int option \<Rightarrow> exn_class + (model_config list \<times> benchmark_task list)" where
  "selection runner dataset model_ids limit =
     (if model_ids = [] \<or> has_duplicates model_ids then Inl ValueErrorC
      else if (case limit of Some n \<Rightarrow> n \<le> 0 | None \<Rightarrow> False) then Inl ValueErrorC
      else
        rbind (mapM (registry_get (rn_base_registry runner)) model_ids) (\<lambda>registered.
        if list_ex (\<lambda>(k, m). k \<notin> set model_ids) (rn_configurations runner) then Inl ValueErrorC
        else
          rbind (mapM (selectable runner) registered) (\<lambda>models.
          let tasks = (case limit of None \<Rightarrow> bd_tasks dataset | Some n \<Rightarrow> take (nat n) (bd_tasks dataset)) in
          if list_ex (\<lambda>(k, limits). k \<notin> set (map mc_model_id (registry_list_models (sv_registry (rn_service runner)))))
               (rn_overrides runner)
           \<or> list_ex (\<lambda>(k, limits). list_ex (\<lambda>(t, n). t \<notin> set (map bt_task_id (bd_tasks dataset))) limits)
               (rn_overrides runner)
          then Inl ValueErrorC
          else Inr (models, tasks))))"

type_synonym output_limits = "int dict dict"

definition requested_limit :: "benchmark_runner \<Rightarrow> benchmark_task \<Rightarrow> model_config \<Rightarrow> int" where
  "requested_limit runner task m =
     (case map_of (rn_overrides runner) (mc_model_id m) of
        None \<Rightarrow> rq_max_output_tokens task
      | Some limits \<Rightarrow> (case map_of limits (bt_task_id task) of None \<Rightarrow> rq_max_output_tokens task | Some n \<Rightarrow> n))"

definition effective_output_limits ::
  "benchmark_runner \<Rightarrow> model_config list \<Rightarrow> benchmark_task list \<Rightarrow> exn_class + output_limits" where
  "effective_output_limits runner models tasks =
     mapM (\<lambda>task. rbind (mapM (\<lambda>m.
         rbind (provider_output_allowance m (requested_limit runner task m) (benchmark_category_value (bt_category task)))
           (\<lambda>n. Inr (mc_model_id m, n))) models) (\<lambda>row. Inr (bt_task_id task, row))) tasks"

definition limit_for :: "output_limits \<Rightarrow> benchmark_task \<Rightarrow> model_config \<Rightarrow> exn_class + int" where
  "limit_for limits task m =
     (case map_of limits (bt_task_id task) of
        None \<Rightarrow> Inl KeyErrorC
      | Some row \<Rightarrow> (case map_of row (mc_model_id m) of None \<Rightarrow> Inl KeyErrorC | Some n \<Rightarrow> Inr n))"

definition BenchmarkResult :: "benchmark_result \<Rightarrow> exn_class + benchmark_result" where
  "BenchmarkResult r = (if consistent_outcome r then Inr r else Inl ValidationErrorC)"

fun diag_value :: "diag \<Rightarrow> pyj" where
  "diag_value (DStr s) = PStr s"
| "diag_value (DInt n) = PInt n"
| "diag_value (DBool b) = PBool b"
| "diag_value (DNum x) = PFlt x"

fun exn_diagnostics :: "exn \<Rightarrow> diag dict" where
  "exn_diagnostics (GatewayErr c d) = d"
| "exn_diagnostics (CompletionRejected c r d) = d"
| "exn_diagnostics _ = []"

definition runner_categories :: "(exn_class \<times> string) list" where
  "runner_categories =
     [(ContextLimitErrorC, ''context_limit_exceeded''), (ModelDisabledErrorC, ''model_disabled''),
      (ProviderUnavailableErrorC, ''provider_unavailable''), (ProviderFailureErrorC, ''provider_failure'')]"

definition recorded_failure :: "exn \<Rightarrow> bool" where
  "recorded_failure e \<longleftrightarrow> list_ex (\<lambda>(kind, name). isinstance e kind) runner_categories"

definition failure_name :: "exn \<Rightarrow> string option" where
  "failure_name e =
     (case exn_category e of
        Some c \<Rightarrow> Some (category_value c)
      | None \<Rightarrow> map_option snd (find (\<lambda>(kind, name). isinstance e kind) runner_categories))"

definition exhausted_details :: "inference_response \<Rightarrow> int \<Rightarrow> pyj dict" where
  "exhausted_details r limit =
     [(''termination_reason'', PStr (termination_reason_value (rs_termination_reason r))),
      (''provider_termination_reason'', case rs_provider_termination_reason r of None \<Rightarrow> PNull | Some s \<Rightarrow> PStr s),
      (''output_token_limit'', PInt limit), (''output_tokens'', PInt (rs_output_tokens r)),
      (''estimated_cost_usd'', PStr (dec_str (rs_estimated_cost_usd r))), (''fallback_heuristic'', PBool True)]"

subsection \<open>The run\<close>

text \<open>
  What a run takes from outside: the environment of the service, the outcomes of the storage
  operations, and the identifier that is drawn for the result stored by each of them.
\<close>

record runner_env =
  re_env :: env
  re_storage :: "nat \<Rightarrow> op_outcome"
  re_result_id :: "nat \<Rightarrow> nat"

definition plain_result :: "nat \<Rightarrow> nat \<Rightarrow> benchmark_task \<Rightarrow> model_config \<Rightarrow> benchmark_result" where
  "plain_result result_id run_id task m =
     \<lparr>br_result_id = result_id, br_run_id = run_id, br_task_id = bt_task_id task, br_model_id = mc_model_id m,
      br_success = False, br_response = None, br_error_category = None, br_error_details = [], br_latency_ms = 0\<rparr>"

definition answered :: "benchmark_result \<Rightarrow> inference_response \<Rightarrow> int \<Rightarrow> benchmark_result" where
  "answered r response limit =
     (if response_output_budget_exhaustion response limit
      then r\<lparr>br_error_category := Some ''output_budget_exhaustion'', br_error_details := exhausted_details response limit,
             br_latency_ms := rs_latency_ms response\<rparr>
      else r\<lparr>br_success := True, br_response := Some response, br_latency_ms := rs_latency_ms response\<rparr>)"

definition failed :: "benchmark_result \<Rightarrow> exn \<Rightarrow> rat \<Rightarrow> benchmark_result" where
  "failed r e latency =
     r\<lparr>br_error_category := failure_name e,
       br_error_details := map (\<lambda>(k, v). (k, diag_value v)) (exn_diagnostics e), br_latency_ms := latency\<rparr>"

definition benchmark_request :: "benchmark_task \<Rightarrow> int \<Rightarrow> inference_request" where
  "benchmark_request task limit = (inference_request.truncate task)\<lparr>rq_max_output_tokens := limit\<rparr>"

definition call_model ::
  "runner_env \<Rightarrow> benchmark_runner \<Rightarrow> output_limits \<Rightarrow> benchmark_task \<Rightarrow> model_config \<Rightarrow> string \<Rightarrow> benchmark_result \<Rightarrow>
   benchmark_result act" where
  "call_model R runner limits task m request_id r =
     abind (lift_result (limit_for limits task m)) (\<lambda>limit.
     abind (service_generate (re_env R) (rn_service runner) (mc_model_id m) (benchmark_request task limit)
              (Some request_id) None ''explicit'') (\<lambda>response.
     lift_result (BenchmarkResult (answered r response limit))))"

definition result_of_call ::
  "runner_env \<Rightarrow> benchmark_runner \<Rightarrow> output_limits \<Rightarrow> nat \<Rightarrow> nat \<Rightarrow> benchmark_task \<Rightarrow> model_config \<Rightarrow> benchmark_result act" where
  "result_of_call R runner limits result_id run_id task m =
     abind (perf_counter (re_env R)) (\<lambda>started.
     abind (uuid4 (re_env R)) (\<lambda>request_id.
     let r = plain_result result_id run_id task m in
     acatch (call_model R runner limits task m request_id r) (\<lambda>e.
       if recorded_failure e
       then abind (perf_counter (re_env R)) (\<lambda>t. lift_result (BenchmarkResult (failed r e ((t - started) * 1000))))
       else araise e)))"

definition run_pair ::
  "runner_env \<Rightarrow> benchmark_runner \<Rightarrow> output_limits \<Rightarrow> nat \<Rightarrow> benchmark_task \<times> model_config \<Rightarrow> unit bact" where
  "run_pair R runner limits run_id = (\<lambda>(task, m) (w, b).
     bbind (blift (result_of_call R runner limits (re_result_id R (bs_ops b)) run_id task m))
       (repository_record (re_storage R)) (w, b))"

fun run_pairs ::
  "runner_env \<Rightarrow> benchmark_runner \<Rightarrow> output_limits \<Rightarrow> nat \<Rightarrow> (benchmark_task \<times> model_config) list \<Rightarrow> unit bact" where
  "run_pairs R runner limits run_id [] = breturn ()"
| "run_pairs R runner limits run_id (p # ps) =
     bbind (run_pair R runner limits run_id p) (\<lambda>_. run_pairs R runner limits run_id ps)"

definition task_model_pairs :: "benchmark_task list \<Rightarrow> model_config list \<Rightarrow> (benchmark_task \<times> model_config) list" where
  "task_model_pairs tasks models = concat (map (\<lambda>t. map (Pair t) models) tasks)"

definition execute_run ::
  "runner_env \<Rightarrow> benchmark_runner \<Rightarrow> output_limits \<Rightarrow> benchmark_run \<Rightarrow> (benchmark_task \<times> model_config) list \<Rightarrow>
   benchmark_run bact" where
  "execute_run R runner limits run ps =
     bbind (repository_start (re_storage R) run) (\<lambda>_.
     bcatch (bbind (run_pairs R runner limits (bn_run_id run) ps) (\<lambda>_.
             bbind (repository_finish (re_storage R) ''completed'') (\<lambda>_. breturn run)))
       (\<lambda>e. bbind (repository_finish (re_storage R) ''aborted'') (\<lambda>_. braise e)))"

definition run_benchmark ::
  "runner_env \<Rightarrow> benchmark_runner \<Rightarrow> nat \<Rightarrow> string \<Rightarrow> benchmark_dataset \<Rightarrow> string list \<Rightarrow> int option \<Rightarrow> benchmark_run bact" where
  "run_benchmark R runner run_id sha dataset model_ids limit =
     bbind (blift (lift_result (selection runner dataset model_ids limit))) (\<lambda>(models, tasks).
     bbind (blift (lift_result (effective_output_limits runner models tasks))) (\<lambda>limits.
     execute_run R runner limits
       \<lparr>bn_run_id = run_id, bn_dataset = dataset, bn_dataset_sha256 = sha,
        bn_selected_task_ids = map bt_task_id tasks, bn_models = models\<rparr>
       (task_model_pairs tasks models)))"

subsection \<open>One call\<close>

lemma bbind_cases:
  assumes "bbind m f s = (x, s')"
  obtains (failed) e where "m s = (Inl e, s')" "x = Inl e"
  | (went_on) a s1 where "m s = (Inr a, s1)" "f a s1 = (x, s')"
proof -
  obtain y s1 where "m s = (y, s1)" by (rule prod.exhaust)
  then show thesis using assms that by (cases y) (auto simp: bbind_def)
qed

lemma registry_register_inv: "registry_register reg m = Inr reg' \<Longrightarrow> registry_inv reg \<Longrightarrow> registry_inv reg'"
  by (auto simp: registry_register_def registry_inv_def dict_set_new split: if_splits)

lemma registry_inv_all: "registry_register_all reg ms = Inr reg' \<Longrightarrow> registry_inv reg \<Longrightarrow> registry_inv reg'"
proof (induction ms arbitrary: reg)
  case (Cons m ms)
  then obtain reg1 where "registry_register reg m = Inr reg1" "registry_register_all reg1 ms = Inr reg'"
    by (auto simp: rbind_eq_Inr)
  then show ?case using Cons.IH Cons.prems(2) registry_register_inv by blast
qed simp

lemma new_benchmark_runner_service:
  "new_benchmark_runner service configurations overrides = Inr runner \<Longrightarrow>
   registry_inv (sv_registry (rn_service runner)) \<and> sv_telemetry (rn_service runner) = None
 \<and> rn_base_registry runner = sv_registry service \<and> sv_inference_deadline_seconds (rn_service runner) = 60"
  using registry_inv_all [OF _ registry_inv_empty]
  by (auto simp: new_benchmark_runner_def new_inference_service_def rbind_eq_Inr split: if_splits)

definition at_most_one_call :: "string \<Rightarrow> world \<Rightarrow> world \<Rightarrow> bool" where
  "at_most_one_call mid w w' \<longleftrightarrow> w_calls w' = w_calls w \<or> w_calls w' = w_calls w @ [mid]"

lemma service_generate_calls:
  assumes "service_generate E sv mid rq rid dl mode w = (x, w')" "registry_inv (sv_registry sv)" "sv_telemetry sv = None" "clock_ok E"
  shows "at_most_one_call mid w w'"
proof -
  have quiet: "quiet_service sv" using assms(3) by (simp add: quiet_service_def)
  from service_generate_run [OF assms(1)] show ?thesis
  proof (elim disjE exE conjE)
    fix m d cid k
    assume m: "registry_get (sv_registry sv) mid = Inr m"
      and g: "generate_and_record E sv m rq d cid mode (w\<lparr>w_ix := w_ix w + k\<rparr>) = (x, w')"
    obtain w1 where "service_generate_model E sv m rq d cid mode (w\<lparr>w_ix := Suc (w_ix w + k)\<rparr>) = (x, w1)"
      "w_calls w' = w_calls w1"
      by (rule generate_and_record_run [OF g quiet assms(4)]) auto
    then show ?thesis
      using service_generate_model_step registry_get_id [OF assms(2) m] by (fastforce simp: attempt_step_def at_most_one_call_def)
  qed (auto simp: at_most_one_call_def)
qed

lemma result_of_call_frame:
  assumes "result_of_call R runner limits result_id run_id task m w = (x, w')" "registry_inv (sv_registry (rn_service runner))"
    and "sv_telemetry (rn_service runner) = None" "clock_ok (re_env R)"
  shows "at_most_one_call (mc_model_id m) w w'
    \<and> (\<forall>r. x = Inr r \<longrightarrow> consistent_outcome r \<and> br_result_id r = result_id \<and> br_run_id r = run_id
         \<and> br_task_id r = bt_task_id task \<and> br_model_id r = mc_model_id m)"
proof -
  note calls = service_generate_calls [OF _ assms(2,3,4)]
  show ?thesis
    using assms(1) 
    by (auto simp: result_of_call_def call_model_def Let_def acatch_def abind_def lift_result_def uuid4_def ask_def
        perf_counter_def BenchmarkResult_def plain_result_def answered_def failed_def at_most_one_call_def
        split: prod.splits sum.splits if_splits dest!: calls)
qed

subsection \<open>What is in the store\<close>

text \<open>Every stored result has an identifier drawn before.\<close>

definition drawn_before :: "runner_env \<Rightarrow> bench_store \<Rightarrow> bool" where
  "drawn_before R b \<longleftrightarrow> distinct (map br_result_id (bs_results b))
     \<and> br_result_id ` set (bs_results b) \<subseteq> re_result_id R ` {..<bs_ops b}"

definition result_for :: "nat \<Rightarrow> benchmark_task \<times> model_config \<Rightarrow> benchmark_result \<Rightarrow> bool" where
  "result_for run_id p r \<longleftrightarrow> consistent_outcome r \<and> br_run_id r = run_id
     \<and> br_task_id r = bt_task_id (fst p) \<and> br_model_id r = mc_model_id (snd p)"

text \<open>Identifiers are not drawn twice; the runner is as its constructor leaves it.\<close>

definition runner_ok :: "runner_env \<Rightarrow> benchmark_runner \<Rightarrow> bool" where
  "runner_ok R runner \<longleftrightarrow> inj (re_result_id R) \<and> clock_ok (re_env R)
     \<and> registry_inv (sv_registry (rn_service runner)) \<and> sv_telemetry (rn_service runner) = None"

lemma put_result_fresh:
  assumes "drawn_before R b" "br_result_id r = re_result_id R (bs_ops b)" "inj (re_result_id R)"
  shows "bs_results (put_result r b) = bs_results b @ [r]" "drawn_before R ((put_result r b)\<lparr>bs_ops := Suc (bs_ops b)\<rparr>)"
proof -
  have "br_result_id r \<notin> br_result_id ` set (bs_results b)"
    using assms by (force simp: drawn_before_def inj_def)
  then have "\<forall>x\<in>set (bs_results b). br_result_id x \<noteq> br_result_id r" by (auto simp: image_iff)
  then show "bs_results (put_result r b) = bs_results b @ [r]" by (simp add: put_result_def)
  then show "drawn_before R ((put_result r b)\<lparr>bs_ops := Suc (bs_ops b)\<rparr>)"
    using assms \<open>br_result_id r \<notin> _\<close> by (auto simp: drawn_before_def lessThan_Suc)
qed

lemma drawn_before_ops: "drawn_before R b \<Longrightarrow> bs_ops b \<le> n \<Longrightarrow> drawn_before R (b\<lparr>bs_ops := n\<rparr>)"
  by (fastforce simp: drawn_before_def)

definition stored_step :: "runner_env \<Rightarrow> nat \<Rightarrow> benchmark_task \<times> model_config \<Rightarrow> bool \<Rightarrow> bench_store \<Rightarrow> bench_store \<Rightarrow> bool" where
  "stored_step R run_id p ok b b' \<longleftrightarrow> bs_manifest b' = bs_manifest b \<and> bs_status b' = bs_status b \<and> drawn_before R b'
     \<and> (bs_results b' = bs_results b \<and> \<not> ok \<or> (\<exists>r. bs_results b' = bs_results b @ [r] \<and> result_for run_id p r))"

lemma run_pair_step:
  assumes "run_pair R runner limits run_id (task, m) (w, b) = (x, w', b')" "drawn_before R b" "runner_ok R runner"
  shows "at_most_one_call (mc_model_id m) w w' \<and> stored_step R run_id (task, m) (x = Inr ()) b b'"
proof -
  let ?call = "result_of_call R runner limits (re_result_id R (bs_ops b)) run_id task m"
  obtain y w1 where call: "?call w = (y, w1)" by (rule prod.exhaust)
  have ok: "registry_inv (sv_registry (rn_service runner))" "sv_telemetry (rn_service runner) = None" "clock_ok (re_env R)"
      "inj (re_result_id R)"
    using assms(3) by (simp_all add: runner_ok_def)
  note frame = result_of_call_frame [OF call ok(1-3)]
  show ?thesis
  proof (cases y)
    case (Inl e)
    then show ?thesis
      using assms call frame by (auto simp: run_pair_def bbind_def blift_def stored_step_def)
  next
    case (Inr r)
    have r: "result_for run_id (task, m) r" "br_result_id r = re_result_id R (bs_ops b)"
      using frame Inr by (auto simp: result_for_def)
    have run: "repository_record (re_storage R) r (w1, b) = (x, w', b')"
      using assms(1) call Inr by (simp add: run_pair_def bbind_def blift_def)
    have w': "w' = w1" using run by (auto simp: repository_record_def store_op_def split: op_outcome.splits)
    have b': "b' = (put_result r b)\<lparr>bs_ops := Suc (bs_ops b)\<rparr> \<or> x \<noteq> Inr () \<and> b' = b\<lparr>bs_ops := Suc (bs_ops b)\<rparr>"
      using run by (auto simp: repository_record_def store_op_def split: op_outcome.splits)
    then show ?thesis
    proof
      assume b': "b' = (put_result r b)\<lparr>bs_ops := Suc (bs_ops b)\<rparr>"
      then have "bs_results b' = bs_results b @ [r]" using put_result_fresh(1) [OF assms(2) r(2) ok(4)] by simp
      moreover have "drawn_before R b'" unfolding b' by (rule put_result_fresh(2) [OF assms(2) r(2) ok(4)])
      moreover have "bs_manifest b' = bs_manifest b" "bs_status b' = bs_status b" by (simp_all add: b' put_result_def)
      ultimately show ?thesis using frame r(1) w' by (auto simp: stored_step_def)
    next
      assume b': "x \<noteq> Inr () \<and> b' = b\<lparr>bs_ops := Suc (bs_ops b)\<rparr>"
      then have "drawn_before R b'" using drawn_before_ops [OF assms(2)] by simp
      then show ?thesis using frame b' w' by (auto simp: stored_step_def)
    qed
  qed
qed

text \<open>The calls of a list of pairs: a subsequence, at most one more than there are new results.\<close>

lemma run_pairs_spec:
  assumes "run_pairs R runner limits run_id ps (w, b) = (x, w', b')" "drawn_before R b" "runner_ok R runner"
  shows "\<exists>calls rs. w_calls w' = w_calls w @ calls \<and> subseq calls (map (\<lambda>p. mc_model_id (snd p)) ps)
    \<and> length calls \<le> Suc (length rs) \<and> bs_results b' = bs_results b @ rs \<and> length rs \<le> length ps
    \<and> list_all2 (result_for run_id) (take (length rs) ps) rs
    \<and> (x = Inr () \<longrightarrow> length rs = length ps \<and> length calls \<le> length rs)
    \<and> bs_manifest b' = bs_manifest b \<and> bs_status b' = bs_status b \<and> drawn_before R b'"
  using assms
proof (induction ps arbitrary: w b)
  case Nil
  then show ?case by (auto simp: breturn_def)
next
  case (Cons p ps)
  obtain task m where p: "p = (task, m)" by (rule prod.exhaust)
  obtain y w1 b1 where step: "run_pair R runner limits run_id (task, m) (w, b) = (y, w1, b1)" by (rule prod_cases3)
  note S = run_pair_step [OF step Cons.prems(2,3)]
  obtain c where c: "w_calls w1 = w_calls w @ c" "c = [] \<or> c = [mc_model_id m]"
    using S by (auto simp: at_most_one_call_def)
  show ?case
  proof (cases y)
    case (Inl e)
    then have end': "x = Inl e" "w' = w1" "b' = b1" using Cons.prems(1) step by (simp_all add: p bbind_def)
    obtain rs where rs: "bs_results b' = bs_results b @ rs" "rs = [] \<or> (\<exists>r. rs = [r] \<and> result_for run_id p r)"
      using S by (auto simp: stored_step_def end' p)
    have "subseq c (map (\<lambda>p. mc_model_id (snd p)) (p # ps))" using c(2) by (auto simp: p)
    then show ?thesis
      using c rs S by (intro exI [of _ c] exI [of _ rs]) (auto simp: end' stored_step_def p)
  next
    case (Inr u)
    then have rest: "run_pairs R runner limits run_id ps (w1, b1) = (x, w', b')"
      using Cons.prems(1) step by (simp add: p bbind_def)
    obtain r where r: "bs_results b1 = bs_results b @ [r]" "result_for run_id p r"
      using S Inr by (auto simp: stored_step_def p)
    have "drawn_before R b1" using S by (simp add: stored_step_def)
    from Cons.IH [OF rest this Cons.prems(3)] obtain calls rs where IH:
      "w_calls w' = w_calls w1 @ calls" "subseq calls (map (\<lambda>p. mc_model_id (snd p)) ps)"
      "length calls \<le> Suc (length rs)" "bs_results b' = bs_results b1 @ rs" "length rs \<le> length ps"
      "list_all2 (result_for run_id) (take (length rs) ps) rs"
      "x = Inr () \<longrightarrow> length rs = length ps \<and> length calls \<le> length rs"
      "bs_manifest b' = bs_manifest b1" "bs_status b' = bs_status b1" "drawn_before R b'" by blast
    have "subseq (c @ calls) (map (\<lambda>p. mc_model_id (snd p)) (p # ps))" using c(2) IH(2) by (auto simp: p)
    then show ?thesis
      using c IH r S by (intro exI [of _ "c @ calls"] exI [of _ "r # rs"]) (auto simp: stored_step_def)
  qed
qed

subsection \<open>Whole runs\<close>

lemma repository_start_run:
  assumes "repository_start S run (w, empty_store) = (y, w1, b1)"
  shows "w1 = w \<and> bs_results b1 = [] \<and> (y = Inr () \<longrightarrow> bs_manifest b1 = Some run)"
  using assms by (auto simp: repository_start_def bbind_def store_op_def empty_store_def split: op_outcome.splits if_splits)

lemma repository_finish_run:
  assumes "repository_finish S status (w, b) = (y, w1, b1)"
  shows "w1 = w \<and> bs_results b1 = bs_results b \<and> bs_manifest b1 = bs_manifest b
    \<and> (y = Inr () \<longrightarrow> bs_status b1 = Some status) \<and> (S (bs_ops b) = OpDone \<longrightarrow> y = Inr ())"
  using assms by (auto simp: repository_finish_def store_op_def split: op_outcome.splits if_splits)

definition planned_pairs ::
  "benchmark_runner \<Rightarrow> benchmark_dataset \<Rightarrow> string list \<Rightarrow> int option \<Rightarrow> (benchmark_task \<times> model_config) list" where
  "planned_pairs runner dataset model_ids limit =
     (case selection runner dataset model_ids limit of Inl _ \<Rightarrow> [] | Inr (models, tasks) \<Rightarrow> task_model_pairs tasks models)"

text \<open>What a run, however it ends, leaves for the pairs it was to go through.\<close>

definition run_outcome ::
  "runner_env \<Rightarrow> nat \<Rightarrow> (benchmark_task \<times> model_config) list \<Rightarrow> bool \<Rightarrow> string list \<Rightarrow> bench_store \<Rightarrow> bool" where
  "run_outcome R run_id ps ok calls b \<longleftrightarrow>
     subseq calls (map (\<lambda>p. mc_model_id (snd p)) ps) \<and> length calls \<le> Suc (length (bs_results b))
   \<and> length (bs_results b) \<le> length ps
   \<and> list_all2 (result_for run_id) (take (length (bs_results b)) ps) (bs_results b)
   \<and> (calls \<noteq> [] \<longrightarrow> bs_manifest b \<noteq> None)
   \<and> (ok \<longrightarrow> length (bs_results b) = length ps \<and> bs_status b = Some ''completed'')
   \<and> (\<not> ok \<and> range (re_storage R) = {OpDone} \<and> bs_manifest b \<noteq> None \<longrightarrow> bs_status b = Some ''aborted'')"

lemma finishing:
  assumes "bcatch (bbind (\<lambda>s. (z, w2, b2)) (\<lambda>_. bbind (repository_finish S ''completed'') (\<lambda>_. breturn run)))
      (\<lambda>e. bbind (repository_finish S ''aborted'') (\<lambda>_. braise e)) s = (x, w', b')"
  shows "w' = w2 \<and> bs_results b' = bs_results b2 \<and> bs_manifest b' = bs_manifest b2
    \<and> (\<forall>r. x = Inr r \<longrightarrow> r = run \<and> z = Inr () \<and> bs_status b' = Some ''completed'')
    \<and> ((\<nexists>r. x = Inr r) \<and> range S = {OpDone} \<longrightarrow> bs_status b' = Some ''aborted'')"
proof -
  have "S i = OpDone" if "range S = {OpDone}" for i using that by blast
  then show ?thesis
    using assms
    by (auto simp: bcatch_def bbind_def repository_finish_def store_op_def breturn_def braise_def
        split: sum.splits op_outcome.splits if_splits prod.splits)
qed

lemma execute_run_spec:
  assumes "execute_run R runner limits run ps (w, empty_store) = (x, w', b')" "runner_ok R runner"
  shows "\<exists>calls. w_calls w' = w_calls w @ calls \<and> run_outcome R (bn_run_id run) ps (\<exists>r. x = Inr r) calls b'
    \<and> (\<forall>r. x = Inr r \<longrightarrow> r = run \<and> bs_manifest b' = Some run \<and> distinct (map br_result_id (bs_results b')))"
proof -
  obtain y w1 b1 where start: "repository_start (re_storage R) run (w, empty_store) = (y, w1, b1)" by (rule prod_cases3)
  note S = repository_start_run [OF start]
  show ?thesis
  proof (cases y)
    case (Inl e)
    have done_: "y = Inr ()" if "range (re_storage R) = {OpDone}"
    proof -
      have "re_storage R i = OpDone" for i using that by blast
      then show ?thesis using start by (simp add: repository_start_def bbind_def store_op_def)
    qed
    have "x = Inl e" "w' = w" "b' = b1" using assms(1) start S Inl by (auto simp: execute_run_def bbind_def)
    then show ?thesis using S Inl done_ by (intro exI [of _ "[]"]) (auto simp: run_outcome_def)
  next
    case (Inr u)
    have fresh: "drawn_before R b1" using S by (simp add: drawn_before_def)
    obtain z w2 b2 where pairs: "run_pairs R runner limits (bn_run_id run) ps (w1, b1) = (z, w2, b2)" by (rule prod_cases3)
    from run_pairs_spec [OF pairs fresh assms(2)] obtain calls where P:
      "w_calls w2 = w_calls w @ calls" "subseq calls (map (\<lambda>p. mc_model_id (snd p)) ps)"
      "length calls \<le> Suc (length (bs_results b2))" "length (bs_results b2) \<le> length ps"
      "list_all2 (result_for (bn_run_id run)) (take (length (bs_results b2)) ps) (bs_results b2)"
      "z = Inr () \<longrightarrow> length (bs_results b2) = length ps" "bs_manifest b2 = Some run" "drawn_before R b2"
      using S Inr by auto
    have rest: "bcatch (bbind (\<lambda>s. (z, w2, b2)) (\<lambda>_. bbind (repository_finish (re_storage R) ''completed'') (\<lambda>_. breturn run)))
        (\<lambda>e. bbind (repository_finish (re_storage R) ''aborted'') (\<lambda>_. braise e)) (w1, b1) = (x, w', b')"
      using assms(1) start Inr pairs by (simp add: execute_run_def bbind_def bcatch_def)
    note F = finishing [OF rest]
    show ?thesis
      using F P by (intro exI [of _ calls]) (auto simp: run_outcome_def drawn_before_def)
  qed
qed

lemma run_benchmark_cases:
  assumes "run_benchmark R runner run_id sha dataset model_ids limit (w, empty_store) = (x, w', b')"
  obtains (refused) e where "x = Inl e" "w' = w" "b' = empty_store"
  | (executed) models tasks limits where "selection runner dataset model_ids limit = Inr (models, tasks)"
      "execute_run R runner limits
         \<lparr>bn_run_id = run_id, bn_dataset = dataset, bn_dataset_sha256 = sha,
          bn_selected_task_ids = map bt_task_id tasks, bn_models = models\<rparr> (task_model_pairs tasks models) (w, empty_store)
       = (x, w', b')"
proof (cases "selection runner dataset model_ids limit")
  case (Inl c)
  then show ?thesis using assms refused by (auto simp: run_benchmark_def bbind_def blift_def lift_result_def)
next
  case (Inr s)
  obtain models tasks where s: "s = (models, tasks)" by (rule prod.exhaust)
  show ?thesis
  proof (cases "effective_output_limits runner models tasks")
    case (Inl c)
    then show ?thesis using assms refused Inr s by (auto simp: run_benchmark_def bbind_def blift_def lift_result_def)
  next
    case (Inr limits)
    then show ?thesis
      using assms \<open>selection runner dataset model_ids limit = Inr s\<close> s
      by (intro executed [of models tasks limits]) (simp_all add: run_benchmark_def bbind_def blift_def lift_result_def)
  qed
qed

text \<open>
  Claim C15. However a run ends and whatever its storage does, the results that are stored are those of
  the first planned pairs, in order, and at most one call was made for which no result is
  stored; nothing is called before the manifest is stored. A run that returns has all results
  and is marked completed; when the storage works, a started run that fails is marked aborted.
\<close>

theorem paid_calls_are_not_lost:
  assumes "run_benchmark R runner run_id sha dataset model_ids limit (w, empty_store) = (x, w', b')" "runner_ok R runner"
  shows "\<exists>calls. w_calls w' = w_calls w @ calls
    \<and> run_outcome R run_id (planned_pairs runner dataset model_ids limit) (\<exists>r. x = Inr r) calls b'"
  using assms(1)
proof (cases rule: run_benchmark_cases)
  case (refused e)
  then show ?thesis by (intro exI [of _ "[]"]) (simp add: run_outcome_def empty_store_def)
next
  case (executed models tasks limits)
  then show ?thesis using execute_run_spec [OF executed(2) assms(2)] by (auto simp: planned_pairs_def)
qed

subsection \<open>Completed runs can be evaluated\<close>

lemma selectable_id:
  "selectable runner r = Inr m \<Longrightarrow> mc_model_id m = mc_model_id r"
  by (auto simp: selectable_def Let_def split: if_splits)

lemma selected_models:
  assumes "selection runner dataset model_ids limit = Inr (models, tasks)" "registry_inv (rn_base_registry runner)"
  shows "map mc_model_id models = model_ids \<and> model_ids \<noteq> [] \<and> distinct model_ids
    \<and> (\<exists>n. tasks = take n (bd_tasks dataset) \<and> 0 < n)"
proof -
  obtain registered where s: "model_ids \<noteq> []" "distinct model_ids"
    "list_all2 (\<lambda>k m. registry_get (rn_base_registry runner) k = Inr m) model_ids registered"
    "list_all2 (\<lambda>r m. selectable runner r = Inr m) registered models"
    and t: "tasks = (case limit of None \<Rightarrow> bd_tasks dataset | Some n \<Rightarrow> take (nat n) (bd_tasks dataset))"
      "\<not> (case limit of Some n \<Rightarrow> n \<le> 0 | None \<Rightarrow> False)"
    using assms(1) by (auto simp: selection_def rbind_eq_Inr mapM_Inr_iff Let_def split: if_splits)
  have "map mc_model_id registered = model_ids"
    using s(3) registry_get_id [OF assms(2)] by (induction rule: list_all2_induct) auto
  moreover have "map mc_model_id models = map mc_model_id registered"
    using s(4) selectable_id by (induction rule: list_all2_induct) auto
  moreover have "\<exists>n. tasks = take n (bd_tasks dataset) \<and> 0 < n"
  proof (cases limit)
    case None
    then show ?thesis using t by (intro exI [of _ "Suc (length (bd_tasks dataset))"]) simp
  next
    case (Some n)
    then show ?thesis using t by (intro exI [of _ "nat n"]) simp
  qed
  ultimately show ?thesis using s by simp
qed

lemma planned_keys:
  "map (\<lambda>p. (bt_task_id (fst p), mc_model_id (snd p))) (task_model_pairs tasks models)
   = List.product (map bt_task_id tasks) (map mc_model_id models)"
  by (induction tasks) (simp_all add: task_model_pairs_def comp_def)

text \<open>The directory as the evaluation reads it, the results in any order; the time stamp is left out.\<close>

definition as_stored :: "bench_store \<Rightarrow> benchmark_result list \<Rightarrow> stored_run" where
  "as_stored b rs =
     \<lparr>st_manifest = (case bs_manifest b of None \<Rightarrow> Missing | Some run \<Rightarrow> Contents run),
      st_status = (case bs_status b of None \<Rightarrow> Missing | Some s \<Rightarrow> Contents (PDict [(''status'', PStr s)])),
      st_results = map Contents rs\<rparr>"

lemma load_run_complete:
  assumes "bs_manifest b = Some run" "bs_status b = Some ''completed''" "bn_run_id run = run_id"
    and "rs \<noteq> []" "distinct (map br_result_id rs)"
    and "bn_selected_task_ids run \<noteq> []" "distinct (bn_selected_task_ids run)"
      "set (bn_selected_task_ids run) \<subseteq> set (map bt_task_id (bd_tasks (bn_dataset run)))"
    and "bn_models run \<noteq> []" "distinct (map mc_model_id (bn_models run))"
    and "distinct (map (\<lambda>r. (br_task_id r, br_model_id r)) rs)"
      "set (map (\<lambda>r. (br_task_id r, br_model_id r)) rs) = set (bn_selected_task_ids run) \<times> set (map mc_model_id (bn_models run))"
    and "\<forall>r\<in>set rs. br_run_id r = run_id"
  shows "load_run run_id (as_stored b rs) = Inr (run, rs)"
proof -
  have read: "mapM (\<lambda>a. case a of Contents r \<Rightarrow> Inr r | _ \<Rightarrow> Inl ()) (map Contents rs) = Inr rs"
    by (simp add: mapM_Inr_iff list_all2_map1 list_all2_same)
  show ?thesis
    using assms(3-13)
    by (simp add: load_run_def as_stored_def assms(1,2) jget_def read list_ex_iff Let_def del: set_map)
qed

text \<open>
  Claim C14. A run that returns can be evaluated: the evaluation loads the manifest that the runner
  stored and accepts exactly the stored results, in whatever order it finds the files.
\<close>

theorem completed_runs_can_be_evaluated:
  assumes "run_benchmark R runner run_id sha dataset model_ids limit (w, empty_store) = (Inr run, w', b')"
    and "runner_ok R runner" "registry_inv (rn_base_registry runner)" "unique_ids dataset"
    and "mset rs = mset (bs_results b')"
  shows "load_run run_id (as_stored b' rs) = Inr (run, rs)"
  using assms(1)
proof (cases rule: run_benchmark_cases)
  case (executed models tasks limits)
  let ?ps = "task_model_pairs tasks models" and ?key = "\<lambda>r. (br_task_id r, br_model_id r)"
  note M = selected_models [OF executed(1) assms(3)]
  obtain n where n: "tasks = take n (bd_tasks dataset)" "0 < n" using M by blast
  have D: "distinct (map bt_task_id (bd_tasks dataset))" "bd_tasks dataset \<noteq> []"
    using assms(4) by (simp_all add: unique_ids_def)
  have tasks: "distinct (map bt_task_id tasks)" "set tasks \<subseteq> set (bd_tasks dataset)" "tasks \<noteq> []"
    using D n by (auto simp: take_map [symmetric] set_take_subset)
  obtain calls where E: "run_outcome R run_id ?ps True calls b'" "bs_manifest b' = Some run" "distinct (map br_result_id (bs_results b'))"
    and run: "run = \<lparr>bn_run_id = run_id, bn_dataset = dataset, bn_dataset_sha256 = sha,
        bn_selected_task_ids = map bt_task_id tasks, bn_models = models\<rparr>"
    using execute_run_spec [OF executed(2) assms(2)] by auto
  have all: "list_all2 (result_for run_id) ?ps (bs_results b')" and status: "bs_status b' = Some ''completed''"
    using E(1) by (auto simp: run_outcome_def)
  have keys: "map ?key (bs_results b') = List.product (map bt_task_id tasks) (map mc_model_id models)"
    unfolding planned_keys [symmetric] using all by (induction rule: list_all2_induct) (auto simp: result_for_def)
  have runs: "\<forall>r\<in>set (bs_results b'). br_run_id r = run_id"
    using all by (induction rule: list_all2_induct) (auto simp: result_for_def)
  have same: "mset (map f rs) = mset (map f (bs_results b'))" for f :: "benchmark_result \<Rightarrow> 'b"
    using assms(5) by simp
  have sets: "set (map f rs) = set (map f (bs_results b'))" for f :: "benchmark_result \<Rightarrow> 'b"
    using same by (rule mset_eq_setD)
  have dist: "distinct (map f rs) \<longleftrightarrow> distinct (map f (bs_results b'))" for f :: "benchmark_result \<Rightarrow> 'b"
    using same by (rule mset_eq_imp_distinct_iff)
  have pairs: "distinct (map ?key rs)" "set (map ?key rs) = set (map bt_task_id tasks) \<times> set (map mc_model_id models)"
    unfolding dist sets keys using tasks(1) M by (simp_all add: distinct_product)
  have models: "models \<noteq> []" using M by auto
  then have "set (map bt_task_id tasks) \<times> set (map mc_model_id models) \<noteq> {}" using tasks(3) by (simp add: Times_empty)
  then have "rs \<noteq> []" unfolding pairs(2) [symmetric] by simp
  moreover have "\<forall>r\<in>set rs. br_run_id r = run_id" using runs mset_eq_setD [OF assms(5)] by simp
  ultimately show ?thesis
    using E status pairs tasks M models dist [of br_result_id] by (intro load_run_complete) (auto simp: run)
qed simp

subsection \<open>One slow call ends a run\<close>


end
