(* ===== verification/Eval_Properties.thy ===== *)
theory Eval_Properties
  imports Eval_Service
begin

section \<open>Properties of the evaluation of a run\<close>

text \<open>
  What a loaded run contains, that every evaluation the service produces satisfies the
  validators although half of them are copies that Pydantic does not validate again, when a
  hybrid evaluation accepts, and that the files on disk are always a consistent prefix of what
  is being written.
\<close>

subsection \<open>Loaded runs are complete\<close>

lemma read_contents:
  "list_all2 (\<lambda>a r. (case a of Contents r \<Rightarrow> Inr r | _ \<Rightarrow> Inl ()) = Inr r) artifacts rs \<Longrightarrow> map Contents rs = artifacts"
  by (induction rule: list_all2_induct) (auto split: artifact.splits)

text \<open>
  A run is evaluated only when it is completed and its stored results are exactly one per
  selected task and model, all of this run, for tasks of the dataset; so the number of results
  is the product of the two selections.
\<close>

theorem loaded_runs_are_complete:
  assumes "load_run run_id store = Inr (run, results)"
  shows "bn_run_id run = run_id
    \<and> (\<exists>status. st_status store = Contents (PDict status) \<and> jget status ''status'' = PStr ''completed'')
    \<and> map Contents results = st_results store \<and> results \<noteq> []
    \<and> (\<forall>t\<in>set (bn_selected_task_ids run). \<forall>m\<in>set (bn_models run).
         \<exists>!r. r \<in> set results \<and> br_task_id r = t \<and> br_model_id r = mc_model_id m)
    \<and> (\<forall>r\<in>set results. br_run_id r = run_id \<and> br_task_id r \<in> set (map bt_task_id (bd_tasks (bn_dataset run))))
    \<and> distinct (map br_result_id results)
    \<and> length results = length (bn_selected_task_ids run) * length (bn_models run)"
proof -
  let ?pair = "\<lambda>r. (br_task_id r, br_model_id r)"
  let ?sel = "bn_selected_task_ids run" and ?ms = "map mc_model_id (bn_models run)"
  obtain status where status: "st_manifest store = Contents run" "st_status store = Contents (PDict status)"
      "jget status ''status'' = PStr ''completed''" "bn_run_id run = run_id"
    and read: "mapM (\<lambda>a. case a of Contents r \<Rightarrow> Inr r | _ \<Rightarrow> Inl ()) (st_results store) = Inr results"
    and ok: "results \<noteq> []" "distinct (map br_result_id results)" "distinct ?sel" "distinct ?ms"
      "set ?sel \<subseteq> set (map bt_task_id (bd_tasks (bn_dataset run)))"
      "distinct (map ?pair results)" "set (map ?pair results) = set ?sel \<times> set ?ms"
      "\<not> list_ex (\<lambda>r. br_run_id r \<noteq> run_id) results"
    using assms unfolding load_run_def
    by (auto simp: Let_def split: artifact.splits pyj.splits sum.splits if_splits)
  have contents: "map Contents results = st_results store"
    using read unfolding mapM_Inr_iff by (rule read_contents)
  have inj: "r = r'" if "r \<in> set results" "r' \<in> set results" "?pair r = ?pair r'" for r r'
    using ok(6) that by (auto simp: distinct_map dest: inj_onD)
  have unique: "\<exists>!r. r \<in> set results \<and> br_task_id r = t \<and> br_model_id r = mc_model_id m"
    if "t \<in> set ?sel" "m \<in> set (bn_models run)" for t m
  proof -
    have "(t, mc_model_id m) \<in> set (map ?pair results)" using that unfolding ok(7) by auto
    then obtain r where "r \<in> set results" "?pair r = (t, mc_model_id m)" by auto
    then show ?thesis using inj by (intro ex1I [of _ r]) auto
  qed
  have tasks: "br_task_id r \<in> set (map bt_task_id (bd_tasks (bn_dataset run)))" if "r \<in> set results" for r
  proof -
    have "?pair r \<in> set ?sel \<times> set ?ms" using that unfolding ok(7) [symmetric] by auto
    then show ?thesis using ok(5) by auto
  qed
  have "length results = card (set ?sel \<times> set ?ms)"
    using distinct_card [OF ok(6)] unfolding ok(7) by simp
  also have "\<dots> = length ?sel * length (bn_models run)"
    using distinct_card [OF ok(3)] distinct_card [OF ok(4)] by (simp add: card_cartesian_product)
  finally show ?thesis
    using status contents ok(1,2,8) unique tasks by (auto simp: list_ex_iff)
qed

subsection \<open>Every evaluation is valid\<close>

text \<open>
  What the sandbox's and the judges' result classes guarantee of the values the service gets.
\<close>

definition usage_ok :: "judge_usage option \<Rightarrow> bool" where
  "usage_ok u = (case u of None \<Rightarrow> True | Some u \<Rightarrow> judge_usage_valid u)"

definition providers_validate :: "evaluation_service \<Rightarrow> bool" where
  "providers_validate sv \<longleftrightarrow>
     (\<forall>judge i q r. sv_semantic_judge sv = Some judge \<and> judge i q = Inr r \<longrightarrow> usage_ok (jr_usage r))
   \<and> (\<forall>judge i q r. sv_hybrid_judge sv = Some judge \<and> judge i q = Inr r \<longrightarrow> usage_ok (jr_usage r))"

lemma EvaluationResult_Inr [simp]: "EvaluationResult e = Inr e' \<longleftrightarrow> evaluation_result_valid e \<and> e' = e"
  by (auto simp: EvaluationResult_def)

text \<open>An evaluation that satisfies the validators and carries the identity of this result.\<close>

definition evaluation_of :: "benchmark_task \<Rightarrow> benchmark_result \<Rightarrow> evaluation_result \<Rightarrow> bool" where
  "evaluation_of task result e \<longleftrightarrow> evaluation_result_valid e
     \<and> ev_benchmark_result_id e = br_result_id result \<and> ev_run_id e = br_run_id result
     \<and> ev_task_id e = bt_task_id task \<and> ev_model_id e = br_model_id result"

lemma plain_evaluation_of:
  "evaluation_result_valid (plain_evaluation task result name version status q t a reason components details) \<Longrightarrow>
   evaluation_of task result (plain_evaluation task result name version status q t a reason components details)"
  by (simp add: evaluation_of_def plain_evaluation_def)

lemma with_usage_plain_evaluation_of:
  "evaluation_result_valid (with_usage u (plain_evaluation task result name version status q t a reason components details)) \<Longrightarrow>
   evaluation_of task result (with_usage u (plain_evaluation task result name version status q t a reason components details))"
  by (simp add: evaluation_of_def plain_evaluation_def with_usage_def)

lemma valid_copy:
  "evaluation_of task result e \<Longrightarrow> evaluation_of task result (e\<lparr>ev_reason := reason, ev_details := details\<rparr>)"
  by (auto simp: evaluation_of_def evaluation_result_valid_def consistent_acceptability_def split: option.splits)

lemma with_usage_valid: "evaluation_of task result e \<Longrightarrow> usage_ok u \<Longrightarrow> evaluation_of task result (with_usage u e)"
  by (auto simp: evaluation_of_def evaluation_result_valid_def consistent_acceptability_def with_usage_def usage_ok_def
      judge_usage_valid_def split: option.splits)

lemma unscored_valid:
  "evaluation_of task result e \<Longrightarrow> usage_ok u \<Longrightarrow> evaluation_of task result (unscored_hybrid e u reason details)"
  unfolding unscored_hybrid_def
  by (rule with_usage_valid) (auto simp: evaluation_of_def evaluation_result_valid_def consistent_acceptability_def split: if_splits)

lemmas evaluation_of_intros = plain_evaluation_of with_usage_plain_evaluation_of valid_copy with_usage_valid unscored_valid

lemma evaluate_valid: "evaluate tools task result = Inr e \<Longrightarrow> evaluation_of task result e"
  by (auto simp: evaluate_def Let_def rbind_eq_Inr intro: evaluation_of_intros split: bool.splits option.splits)

lemma functionally_valid:
  "evaluate_functionally sv sandbox i task result response static = Inr e \<Longrightarrow> evaluation_of task result static \<Longrightarrow>
   evaluation_of task result e"
  by (auto simp: evaluate_functionally_def Let_def rbind_eq_Inr intro: evaluation_of_intros split: if_splits)

lemma semantically_valid:
  assumes "evaluate_semantically sv judge i task result response d = Inr e" "evaluation_of task result d"
    and "\<And>q r. judge i q = Inr r \<Longrightarrow> usage_ok (jr_usage r)"
  shows "evaluation_of task result e"
  using assms by (auto simp: evaluate_semantically_def Let_def rbind_eq_Inr intro: evaluation_of_intros
      split: bool.splits option.splits)

lemma hybrid_evaluation_valid:
  assumes "hybrid_evaluation sv task result d rubric usage details coverage = Inr e" "evaluation_of task result d" "usage_ok usage"
  shows "evaluation_of task result e"
  using assms by (auto simp: hybrid_evaluation_def Let_def intro: evaluation_of_intros split: if_splits option.splits prod.splits)

lemma hybrid_valid:
  assumes "evaluate_hybrid_semantically sv judge i task result response d = Inr e" "evaluation_of task result d"
    and "\<And>q r. judge i q = Inr r \<Longrightarrow> usage_ok (jr_usage r)"
  shows "evaluation_of task result e"
  using assms by (auto simp: evaluate_hybrid_semantically_def Let_def rbind_eq_Inr
      intro: evaluation_of_intros hybrid_evaluation_valid split: bool.splits option.splits)

lemma evaluate_result_valid:
  assumes "evaluate_result sv i task result = Inr e" "providers_validate sv"
  shows "evaluation_of task result e"
proof -
  obtain static e1 where static: "evaluate (sv_tools sv) task result = Inr static"
    and e1: "(case (ev_status static, sv_sandbox sv, br_response result) of
              (ES_REQUIRES_FUNCTIONAL_EXECUTION, Some sandbox, Some response) \<Rightarrow>
                evaluate_functionally sv sandbox i task result (rs_text response) static
            | _ \<Rightarrow> Inr static) = Inr e1"
    and judged: "(case (ev_status e1, br_response result) of
       (ES_REQUIRES_SEMANTIC_JUDGE, Some response) \<Rightarrow>
         (case sv_hybrid_judge sv of
            Some judge \<Rightarrow> evaluate_hybrid_semantically sv judge i task result (rs_text response) e1
          | None \<Rightarrow>
              (case sv_semantic_judge sv of
                 Some judge \<Rightarrow> evaluate_semantically sv judge i task result (rs_text response) e1
               | None \<Rightarrow> Inr e1))
     | _ \<Rightarrow> Inr e1) = Inr e"
    using assms(1) unfolding evaluate_result_def rbind_eq_Inr by blast
  have v: "evaluation_of task result e1"
    using e1 evaluate_valid [OF static]
    by (auto split: evaluation_status.splits option.splits dest: functionally_valid)
  have semantic: "\<And>q r. judge i q = Inr r \<Longrightarrow> usage_ok (jr_usage r)" if "sv_semantic_judge sv = Some judge" for judge
    using assms(2) that unfolding providers_validate_def by blast
  have hybrid: "\<And>q r. judge i q = Inr r \<Longrightarrow> usage_ok (jr_usage r)" if "sv_hybrid_judge sv = Some judge" for judge
    using assms(2) that unfolding providers_validate_def by blast
  show ?thesis
  proof (cases "ev_status e1 = ES_REQUIRES_SEMANTIC_JUDGE \<and> br_response result \<noteq> None")
    case True
    then show ?thesis
      using judged v by (auto split: option.splits intro: semantically_valid hybrid_valid dest: semantic hybrid)
  next
    case False
    then show ?thesis
      using judged v by (auto split: evaluation_status.splits option.splits)
  qed
qed

text \<open>
  Claim C16. A run that is evaluated yields exactly one evaluation per stored result, in their order, each
  for the task of that result and each satisfying the validators of its class, also where the
  service updates an earlier evaluation with a copy that Pydantic does not validate. No result
  of a loaded run refers to an unknown task.
\<close>

theorem runs_yield_one_valid_evaluation_per_result:
  assumes "evaluate_run sv run_id store = Inr (evaluations, summary)" "providers_validate sv"
  shows "\<exists>run results. load_run run_id store = Inr (run, results)
    \<and> list_all2 (\<lambda>result e. \<exists>task\<in>set (bd_tasks (bn_dataset run)). bt_task_id task = br_task_id result
         \<and> evaluation_of task result e) results evaluations"
proof -
  obtain run results where load: "load_run run_id store = Inr (run, results)"
    and evaluated: "evaluate_results sv run results = Inr evaluations"
    using assms(1) by (auto simp: evaluate_run_def rbind_eq_Inr)
  have "list_all2 (\<lambda>(i, result) e. \<exists>task\<in>set (bd_tasks (bn_dataset run)). bt_task_id task = br_task_id result
      \<and> evaluation_of task result e) (enumerate 0 results) evaluations"
    using evaluated unfolding evaluate_results_def Let_def mapM_Inr_iff
    by (rule list_all2_mono)
      (force split: option.splits sum.splits if_splits dest!: map_of_SomeD
        simp: as_artifact_error_def intro: evaluate_result_valid [OF _ assms(2)])
  then have "list_all2 (\<lambda>result e. \<exists>task\<in>set (bd_tasks (bn_dataset run)). bt_task_id task = br_task_id result
      \<and> evaluation_of task result e) (map snd (enumerate 0 results)) evaluations"
    by (simp add: list_all2_conv_all_nth nth_enumerate_eq)
  then show ?thesis using load by auto
qed

subsection \<open>Hybrid acceptance\<close>

lemma foldl_dict_set_keys:
  "distinct (map fst d) \<Longrightarrow> distinct (map fst (foldl (\<lambda>d j. dict_set d (k j) (v j)) d js))
   \<and> set (map fst (foldl (\<lambda>d j. dict_set d (k j) (v j)) d js)) = set (map fst d) \<union> k ` set js"
  by (induction js arbitrary: d) (auto simp: dict_set_distinct dict_set_key_set)

lemma foldl_dict_set_lookup:
  "map_of (foldl (\<lambda>d j. dict_set d (k j) (v j)) d js) = map_of d ++ map_of (rev (map (\<lambda>j. (k j, v j)) js))"
  by (induction js arbitrary: d) auto

lemma verdicts_of_spec:
  assumes "hybrid_rubric_valid rubric"
  shows "distinct (map fst (verdicts_of rubric))"
    and "map_of (verdicts_of rubric) i = Some v \<longleftrightarrow> (\<exists>j\<in>set (hr_judgments rubric). jd_proposition_id j = i \<and> jd_verdict j = v)"
proof -
  have "distinct (map jd_proposition_id (hr_judgments rubric))"
    using assms by (simp add: hybrid_rubric_valid_def reject_duplicate_entries_def)
  then show "map_of (verdicts_of rubric) i = Some v \<longleftrightarrow> (\<exists>j\<in>set (hr_judgments rubric). jd_proposition_id j = i \<and> jd_verdict j = v)"
    unfolding verdicts_of_def foldl_dict_set_lookup by (simp add: map_of_rev_distinct)
  show "distinct (map fst (verdicts_of rubric))"
    using foldl_dict_set_keys [of "[]" jd_proposition_id jd_verdict "hr_judgments rubric"] by (simp add: verdicts_of_def)
qed

definition entailed_share :: "task_specification \<Rightarrow> hybrid_rubric \<Rightarrow> rat" where
  "entailed_share t rubric =
     sum_list (map (\<lambda>p. if entails rubric (sp_proposition_id p) then fraction (sp_weight p) else 0) (ts_propositions t))
     / whole_weight t"

lemma entailed_share_verdicts:
  "hybrid_rubric_valid rubric \<Longrightarrow> entailed_weight t (verdicts_of rubric) / whole_weight t = entailed_share t rubric"
  by (simp only: entailed_weight_def entailed_share_def verdicts_of_spec(2) entails_def)

lemma hybrid_evaluation_acceptance:
  assumes "hybrid_evaluation sv task result d rubric usage details coverage = Inr e" "0 < judge_threshold task"
    and "cv_complete coverage \<Longrightarrow> cv_numerator coverage = Some n \<and> cv_denominator coverage = Some q"
  shows "ev_acceptable e = (if cv_complete coverage \<and> (\<forall>f\<in>set (hr_findings rubric). mf_materiality f = MATERIAL)
    then Some (deterministic_passed d \<and> hr_findings rubric = [] \<and> judge_threshold task \<le> fdiv (of_int n) (of_int q))
    else None)"
proof -
  have borderline: "filter (\<lambda>f. mf_materiality f = BORDERLINE) (hr_findings rubric) = []
      \<longleftrightarrow> (\<forall>f\<in>set (hr_findings rubric). mf_materiality f = MATERIAL)"
    using materiality.exhaust by (auto simp: filter_empty_conv)
  show ?thesis
    using assms by (auto simp: hybrid_evaluation_def borderline Let_def unscored_hybrid_def with_usage_def plain_evaluation_def
        hybrid_verdict_def list_ex_iff split: if_splits prod.splits)
qed


subsection \<open>One answer can end the evaluation of a run\<close>

text \<open>
  Claim C33. When a sandbox is configured, a single answer that is an empty code fence, for a task that is
  executed, ends the evaluation of the whole run: the request refuses the empty source and the
  service turns that into a defect of the task's metadata.
\<close>

theorem one_empty_answer_aborts_the_run:
  assumes "load_run run_id store = Inr (run, results)" "result \<in> set results"
    and "\<And>task. task \<in> set (bd_tasks (bn_dataset run)) \<Longrightarrow> bt_task_id task = br_task_id result \<Longrightarrow>
      \<exists>e. evaluate (sv_tools sv) task result = Inr e \<and> ev_status e = ES_REQUIRES_FUNCTIONAL_EXECUTION"
    and "sv_sandbox sv = Some sandbox" "br_response result = Some response" "strip_code_fence (rs_text response) = []"
  shows "\<exists>c. evaluate_run sv run_id store = Inl c"
proof -
  obtain i where i: "i < length results" "results ! i = result" using assms(2) by (auto simp: in_set_conv_nth)
  have refused: "\<exists>c. functional_request_of task (rs_text response) = Inl c" for task
    using assms(6) by (auto simp: functional_request_of_def FunctionalEvaluationRequest_def functional_request_valid_def
        rbind_def split: pyj.splits sum.splits)
  have broken: "\<exists>c. evaluate_result sv i task result = Inl c"
    if "task \<in> set (bd_tasks (bn_dataset run))" "bt_task_id task = br_task_id result" for task
    using assms(3) [OF that] assms(4,5) refused [of task]
    by (auto simp: evaluate_result_def evaluate_functionally_def)
  have failed: "as_artifact_error (evaluate_result sv i task result) \<noteq> Inr e"
    if "task \<in> set (bd_tasks (bn_dataset run))" "bt_task_id task = br_task_id result" for task e
    using broken [OF that] by (auto simp: as_artifact_error_def split: sum.splits)
  have "evaluate_results sv run results \<noteq> Inr evaluations" for evaluations
  proof
    assume "evaluate_results sv run results = Inr evaluations"
    then have "(case map_of (rev (map (\<lambda>t. (bt_task_id t, t)) (bd_tasks (bn_dataset run)))) (br_task_id result) of
        None \<Rightarrow> Inl EvaluationArtifactErrorC
      | Some task \<Rightarrow> as_artifact_error (evaluate_result sv i task result)) = Inr (evaluations ! i)"
      using i unfolding evaluate_results_def Let_def mapM_Inr_iff
      by (auto dest!: list_all2_nthD [where p = i] simp: nth_enumerate_eq)
    then show False
      using failed by (auto split: option.splits dest!: map_of_SomeD)
  qed
  then show ?thesis
    using assms(1) by (cases "evaluate_results sv run results") (auto simp: evaluate_run_def)
qed

subsection \<open>The files at any moment\<close>

text \<open>
  Abstractly, saving writes one document after the other. The documents that can be seen are
  the files whose names end in \<^verbatim>\<open>.json\<close>; temporary files end in \<^verbatim>\<open>.tmp\<close>.
\<close>

definition saved_documents ::
  "(nat \<Rightarrow> string) \<Rightarrow> string \<Rightarrow> (evaluation_result \<Rightarrow> string) \<Rightarrow> (evaluation_summary \<Rightarrow> string) \<Rightarrow>
   evaluation_result list \<Rightarrow> evaluation_summary \<Rightarrow> (string \<times> string) list" where
  "saved_documents uuid directory dump dump_summary evaluations summary =
     map (\<lambda>e. (directory @ ''/evaluations/'' @ uuid (ev_benchmark_result_id e) @ ''.json'', dump e)) evaluations
     @ [(directory @ ''/evaluation-summary.json'', dump_summary summary)]"

definition documents :: "string set" where
  "documents = {p. \<exists>q. p = q @ ''.json''}"

definition apply_steps :: "file_step list \<Rightarrow> files \<Rightarrow> files" where
  "apply_steps steps fs = fold apply_step steps fs"

definition store_documents :: "(string \<times> string) list \<Rightarrow> files \<Rightarrow> files" where
  "store_documents docs fs = fold (\<lambda>(p, data) fs. fs(p \<mapsto> data)) docs fs"

lemma temporary_not_document: "path @ ''.'' @ hex @ ''.tmp'' \<notin> documents"
proof
  assume "path @ ''.'' @ hex @ ''.tmp'' \<in> documents"
  then obtain q where "path @ ''.'' @ hex @ ''.tmp'' = q @ ''.json''" by (auto simp: documents_def)
  from arg_cong [OF this, of last] show False by simp
qed

lemma write_steps_whole:
  "apply_steps (write_steps path hex data) fs |` documents = fs(path \<mapsto> data) |` documents"
  using temporary_not_document [of path hex]
  by (auto simp: write_steps_def apply_steps_def Let_def restrict_map_def fun_eq_iff)

lemma write_steps_prefix:
  "apply_steps (take n (write_steps path hex data)) fs |` documents = fs |` documents
   \<or> apply_steps (take n (write_steps path hex data)) fs |` documents = fs(path \<mapsto> data) |` documents"
proof -
  consider "n = 0" | "n = 1" | "n = 2" | "3 \<le> n" by linarith
  then show ?thesis
  proof cases
    case 1
    then show ?thesis by (simp add: apply_steps_def)
  next
    case 2
    then show ?thesis
      using temporary_not_document [of path hex]
      by (intro disjI1) (auto simp: write_steps_def apply_steps_def Let_def restrict_map_def fun_eq_iff)
  next
    case 3
    then show ?thesis
      using temporary_not_document [of path hex]
      by (intro disjI2) (auto simp: write_steps_def apply_steps_def Let_def restrict_map_def fun_eq_iff numeral_2_eq_2)
  next
    case 4
    then have "take n (write_steps path hex data) = write_steps path hex data" by (simp add: write_steps_def Let_def)
    then show ?thesis using write_steps_whole by metis
  qed
qed

text \<open>Steps and documents in step: one entry per file that is written.\<close>

definition steps_of :: "(string \<times> string \<times> string) list \<Rightarrow> file_step list" where
  "steps_of ws = concat (map (\<lambda>(path, hex, data). write_steps path hex data) ws)"

definition docs_of :: "(string \<times> string \<times> string) list \<Rightarrow> (string \<times> string) list" where
  "docs_of ws = map (\<lambda>(path, hex, data). (path, data)) ws"

lemma store_documents_cong:
  "fs |` documents = fs' |` documents \<Longrightarrow> store_documents docs fs |` documents = store_documents docs fs' |` documents"
proof (induction docs arbitrary: fs fs')
  case (Cons d docs)
  obtain p data where d: "d = (p, data)" by (cases d)
  have "fs(p \<mapsto> data) |` documents = fs'(p \<mapsto> data) |` documents"
    using Cons.prems unfolding restrict_map_def fun_eq_iff by (metis fun_upd_apply)
  from Cons.IH [OF this] show ?case by (simp only: store_documents_def d fold_simps prod.case)
qed (simp add: store_documents_def)

lemma steps_prefix:
  "\<exists>k \<le> length ws. apply_steps (take n (steps_of ws)) fs |` documents = store_documents (take k (docs_of ws)) fs |` documents"
proof (induction ws arbitrary: n fs)
  case Nil
  then show ?case by (simp add: steps_of_def docs_of_def apply_steps_def store_documents_def)
next
  case (Cons w ws)
  obtain path hex data where w: "w = (path, hex, data)" by (cases w)
  let ?head = "write_steps path hex data"
  show ?case
  proof (cases "n \<le> length ?head")
    case True
    then have take: "take n (steps_of (w # ws)) = take n ?head" by (simp add: steps_of_def w)
    have "\<exists>k. k \<le> 1 \<and> apply_steps (take n ?head) fs |` documents = store_documents (take k (docs_of (w # ws))) fs |` documents"
      using write_steps_prefix [of n path hex data fs]
    proof
      assume "apply_steps (take n ?head) fs |` documents = fs |` documents"
      then show ?thesis by (intro exI [of _ 0]) (simp add: store_documents_def)
    next
      assume "apply_steps (take n ?head) fs |` documents = fs(path \<mapsto> data) |` documents"
      then show ?thesis by (intro exI [of _ 1]) (simp add: store_documents_def docs_of_def w)
    qed
    then obtain k where "k \<le> 1"
      "apply_steps (take n ?head) fs |` documents = store_documents (take k (docs_of (w # ws))) fs |` documents" by blast
    then show ?thesis unfolding take by (intro exI [of _ k]) simp
  next
    case False
    then have take: "take n (steps_of (w # ws)) = ?head @ take (n - length ?head) (steps_of ws)"
      by (simp add: steps_of_def w)
    obtain k where k: "k \<le> length ws"
      "apply_steps (take (n - length ?head) (steps_of ws)) (apply_steps ?head fs) |` documents
       = store_documents (take k (docs_of ws)) (apply_steps ?head fs) |` documents"
      using Cons.IH by blast
    have "store_documents (take k (docs_of ws)) (apply_steps ?head fs) |` documents
        = store_documents (take (Suc k) (docs_of (w # ws))) fs |` documents"
      using store_documents_cong [OF write_steps_whole] by (simp add: docs_of_def w store_documents_def)
    then show ?thesis
      using k unfolding take by (intro exI [of _ "Suc k"]) (simp add: apply_steps_def)
  qed
qed

lemma steps_whole:
  "apply_steps (steps_of ws) fs |` documents = store_documents (docs_of ws) fs |` documents"
proof (induction ws arbitrary: fs)
  case (Cons w ws)
  obtain path hex data where w: "w = (path, hex, data)" by (cases w)
  show ?case
    using Cons.IH [of "apply_steps (write_steps path hex data) fs"] store_documents_cong [OF write_steps_whole]
    by (simp add: steps_of_def docs_of_def apply_steps_def store_documents_def w)
qed (simp add: steps_of_def docs_of_def apply_steps_def store_documents_def)


end
