(* ===== verification/Evaluation_Examples.thy ===== *)
theory Evaluation_Examples
  imports Eval_Properties Service_Examples
begin

section \<open>Concrete evaluations\<close>

text \<open>
  One task of each kind that matters, one answer of the model of \<open>Service_Examples\<close>, a
  specification of two propositions, a candidate function that works and a container that does
  not end: the general theorems of the evaluation theories are applied here, so their
  hypotheses hold together.
\<close>

definition example_task :: "benchmark_category \<Rightarrow> pyj dict \<Rightarrow> benchmark_task" where
  "example_task c metadata =
     \<lparr>rq_prompt = ''two words'', rq_system_prompt = None, rq_max_output_tokens = 16, rq_temperature = 0,
      bt_task_id = ''t'', bt_category = c, bt_evaluation_metadata = metadata, bt_acceptable_threshold = Some 1\<rparr>"

definition example_result :: "string option \<Rightarrow> benchmark_result" where
  "example_result answer =
     \<lparr>br_result_id = 1, br_run_id = 7, br_task_id = ''t'', br_model_id = ''m'', br_success = (answer \<noteq> None),
      br_response = (case answer of None \<Rightarrow> None | Some s \<Rightarrow> Some (sample_reply\<lparr>rs_text := s\<rparr>)),
      br_error_category = (if answer = None then Some ''timeout'' else None), br_error_details = [], br_latency_ms = 0\<rparr>"

definition example_tools :: tools where
  "example_tools =
     \<lparr>tl_loads = (\<lambda>_. Inr (PDict [(''a.b'', PInt 1)])), tl_parse = (\<lambda>_. Parsed \<lparr>md_functions = [], md_nodes = []\<rparr>),
      tl_ast = (\<lambda>_. NoAttribute), tl_repr = (\<lambda>_. [])\<rparr>"

definition nested_task :: benchmark_task where
  "nested_task = example_task BC_EXTRACTION [(''expected'', PDict [(''a'', PDict [(''b'', PInt 1)])])]"

lemmas example_defs = example_task_def example_result_def example_tools_def nested_task_def

subsection \<open>Scores\<close>

theorem evaluations_are_consistent_witness:
  "\<exists>e. evaluate example_tools nested_task (example_result (Some ''answer'')) = Inr e \<and> evaluation_result_valid e"
proof -
  have "\<exists>r. score_answer example_tools nested_task ''answer'' = Inr r"
    by (simp add: score_answer_def extraction_score_def parse_json_response_def example_defs Let_def)
  then show ?thesis
    using evaluations_are_consistent [of nested_task "example_result (Some ''answer'')" example_tools]
    by (auto simp: nested_task_def example_task_def example_result_def unit_def split: sum.splits)
qed

theorem equal_leaves_get_full_marks_witness:
  "\<exists>e. evaluate example_tools nested_task (example_result (Some ''answer'')) = Inr e
     \<and> ev_quality_score e = Some 1 \<and> ev_acceptable e = Some True"
proof (rule equal_leaves_get_full_marks)
  show "bt_category nested_task = BC_EXTRACTION" "br_success (example_result (Some ''answer''))"
    "br_response (example_result (Some ''answer'')) = Some (sample_reply\<lparr>rs_text := ''answer''\<rparr>)"
    "case bt_acceptable_threshold nested_task of None \<Rightarrow> True | Some t \<Rightarrow> unit t"
    by (simp_all add: example_defs unit_def)
  show "parse_json_response example_tools (rs_text (sample_reply\<lparr>rs_text := ''answer''\<rparr>)) = Inr (PDict [(''a.b'', PInt 1)])"
    by (simp add: parse_json_response_def example_tools_def)
  show "flatten_json ''$'' (PDict [(''a.b'', PInt 1)])
      = flatten_json ''$'' (jget_or (bt_evaluation_metadata nested_task) ''expected'' ''reference'')"
    "comparable (flatten_json ''$'' (PDict [(''a.b'', PInt 1)]))"
    by (simp_all add: example_defs jget_or_def dict_update_def comparable_def)
qed

subsection \<open>The sandbox\<close>

definition example_program :: candidate_program where
  "example_program =
     \<lparr>cp_tree = Some \<lparr>ht_nodes = [], ht_body = [FunctionItem \<lparr>hf_name = ''f'', hf_decorated = False, hf_annotated = False,
        hf_has_defaults = False, hf_args = 1, hf_other_args = False\<rparr>]\<rparr>, cp_loads = True,
      cp_call = (\<lambda>_ _. CallReturned False True True True)\<rparr>"

definition example_request :: functional_request where
  "example_request =
     \<lparr>fq_source = ''def f(x): return x'', fq_function_name = ''f'', fq_parameter_count = 1,
      fq_tests = [\<lparr>ft_args = [PInt 1], ft_expected = PInt 1\<rparr>], fq_preserve_inputs = False\<rparr>"

lemma example_request_valid: "functional_request_valid example_request"
  by (simp add: example_request_def functional_request_valid_def python_name_def ascii_word_def)


definition stuck_run :: docker_run where
  "stuck_run = \<lparr>dr_start = Started, dr_exchange = ExTimeout, dr_returncode = None, dr_kill_raises = False\<rparr>"


subsection \<open>Propositions\<close>

definition example_proposition :: "string \<Rightarrow> semantic_proposition" where
  "example_proposition i =
     \<lparr>sp_proposition_id = i, sp_description = ''d'', sp_weight = \<lparr>rw_numerator = 1, rw_denominator = 1\<rparr>,
      sp_source_evidence = ''e'', sp_anchors = [], sp_equivalences = [], sp_derivations = []\<rparr>"

definition example_specification :: task_specification where
  "example_specification =
     \<lparr>ts_specification_id = ''s'', ts_canonical_task_id = ''t'', ts_source_text = ''source'',
      ts_legacy_requirements = [''r1'', ''r2''], ts_propositions = [example_proposition ''p1'', example_proposition ''p2'']\<rparr>"

definition example_contract :: error_contract where
  "example_contract = \<lparr>ec_required_fields = [], ec_categories = [], ec_interpretive_policy = ''p''\<rparr>"

definition example_hybrid_request :: hybrid_request where
  "example_hybrid_request = from_specification example_contract example_specification ''summary''"

lemmas proposition_defs = example_proposition_def example_specification_def example_hybrid_request_def from_specification_def

lemma example_specification_valid: "task_specification_valid example_specification"
  by (simp add: proposition_defs task_specification_valid_def weight_positive_def
      stable_unique_weighted_propositions_def fraction_def)

lemma example_unambiguous: "unambiguous_rules example_hybrid_request"
  by (simp add: proposition_defs unambiguous_rules_def)

lemma example_rubric_valid: "hybrid_rubric_valid (fake_rubric_for example_hybrid_request)"
  by (simp add: proposition_defs fake_rubric_for_def hybrid_rubric_valid_def judgement_valid_def reject_duplicate_entries_def)

lemma example_rubric_accepted: "validate_rubric example_hybrid_request (fake_rubric_for example_hybrid_request) = None"
  by (simp add: proposition_defs fake_rubric_for_def validate_rubric_def misuses_rule_def)

theorem rubric_check_is_the_contract_witness:
  "rubric_meets_contract example_hybrid_request (fake_rubric_for example_hybrid_request)"
  using rubric_check_is_the_contract [OF example_rubric_valid example_unambiguous] example_rubric_accepted by blast

definition half_verdicts :: "verdict dict" where
  "half_verdicts = [(''p1'', ENTAILED), (''p2'', NOT_ENTAILED)]"

theorem coverage_is_the_entailed_fraction_witness:
  "\<exists>r n d. weighted_coverage example_specification half_verdicts = Inr r \<and> cv_numerator r = Some n
     \<and> cv_denominator r = Some d \<and> of_int n / of_int d = (1 / 2 :: rat)"
proof -
  have "entailed_weight example_specification half_verdicts / whole_weight example_specification = 1 / 2"
    by (simp add: entailed_weight_def whole_weight_def half_verdicts_def proposition_defs fraction_def)
  moreover have "map_of half_verdicts k \<noteq> Some AMBIGUOUS" for k by (simp add: half_verdicts_def)
  moreover have "distinct (map fst half_verdicts)"
    "set (map fst half_verdicts) = set (map sp_proposition_id (ts_propositions example_specification))"
    by (simp_all add: half_verdicts_def proposition_defs)
  ultimately show ?thesis
    using coverage_is_the_entailed_fraction [OF example_specification_valid, of half_verdicts]
    by (fastforce split: sum.splits)
qed

subsection \<open>A judge\<close>

definition example_judge :: gateway_judge where
  "example_judge = \<lparr>gj_provider_name = ''vercel'', gj_model_id = ''j'', gj_max_output_tokens = 100\<rparr>"

definition example_judge_tools :: "hybrid_rubric judge_tools" where
  "example_judge_tools =
     \<lparr>jt_loads = (\<lambda>_. JsonValue PNull), jt_read = (\<lambda>_. Some (fake_rubric_for example_hybrid_request)),
      jt_dumps = (\<lambda>_. ''json''), jt_message = (\<lambda>_. [])\<rparr>"

lemma strip_visible: "\<not> isspace c \<Longrightarrow> strip (c # s) \<noteq> []"
  by (simp add: strip_eq_Nil_iff)

theorem hybrid_verdicts_meet_the_contract_witness:
  "\<exists>r. hybrid_judge example_judge_tools example_judge (\<lambda>_. Inr (Reply sample_reply)) example_hybrid_request = Inr r
     \<and> (\<exists>rubric. jr_rubric r = Some rubric \<and> rubric_meets_contract example_hybrid_request rubric)"
proof -
  have strip: "strip (''Evaluate this JSON data:'' @ s) \<noteq> []" "strip HYBRID_JUDGE_SYSTEM_PROMPT \<noteq> []" for s
    by (simp_all only: HYBRID_JUDGE_SYSTEM_PROMPT_def append_Cons) (rule strip_visible, simp add: isspace_def)+
  have "inference_request_valid \<lparr>rq_prompt = hybrid_prompt example_judge_tools example_hybrid_request,
      rq_system_prompt = Some HYBRID_JUDGE_SYSTEM_PROMPT, rq_max_output_tokens = 100, rq_temperature = 0\<rparr>"
    using strip by (simp add: inference_request_valid_def hybrid_prompt_def positive_token_count_def)
  then have run: "hybrid_judge example_judge_tools example_judge (\<lambda>_. Inr (Reply sample_reply)) example_hybrid_request
      = JudgeResult True (Some (fake_rubric_for example_hybrid_request))
          (Some \<lparr>ju_provider = ''vercel'', ju_model_id = ''j'', ju_prompt_version = HYBRID_JUDGE_PROMPT_VERSION,
             ju_input_tokens = 3, ju_output_tokens = 1, ju_latency_ms = 5,
             ju_estimated_cost_usd = \<lparr>coeff = 1, expo = -6\<rparr>\<rparr>) None"
    using example_rubric_valid example_rubric_accepted
    by (simp add: hybrid_judge_def gateway_judgement_def judge_inference_def example_judge_def usage_of_def
        judge_usage_valid_def read_rubric_def example_judge_tools_def sample_reply_def)
  then obtain r where r: "hybrid_judge example_judge_tools example_judge (\<lambda>_. Inr (Reply sample_reply)) example_hybrid_request = Inr r"
    "jr_evaluated r" by simp
  then show ?thesis using hybrid_verdicts_meet_the_contract [OF example_unambiguous r(1)] by blast
qed

subsection \<open>Runs\<close>

definition example_run :: "benchmark_task \<Rightarrow> benchmark_run" where
  "example_run task =
     \<lparr>bn_run_id = 7, bn_dataset = \<lparr>bd_name = ''d'', bd_version = ''1'', bd_tasks = [task]\<rparr>, bn_dataset_sha256 = ''sha'',
      bn_selected_task_ids = [''t''], bn_models = [sample_priced_model]\<rparr>"

definition example_store :: "benchmark_task \<Rightarrow> benchmark_result \<Rightarrow> stored_run" where
  "example_store task result =
     \<lparr>st_manifest = Contents (example_run task), st_status = Contents (PDict [(''status'', PStr ''completed'')]),
      st_results = [Contents result]\<rparr>"

lemma example_loads:
  "load_run 7 (example_store (example_task c metadata) (example_result answer))
   = Inr (example_run (example_task c metadata), [example_result answer])"
  by (simp add: load_run_def example_store_def example_run_def example_task_def example_result_def jget_def mapM_Inr_iff
      sample_priced_model_def Let_def)

theorem loaded_runs_are_complete_witness:
  "length [example_result None] = length (bn_selected_task_ids (example_run nested_task)) * length (bn_models (example_run nested_task))"
  using loaded_runs_are_complete [OF example_loads] unfolding nested_task_def by blast

definition example_judge_function :: "nat \<Rightarrow> hybrid_request \<Rightarrow> exn_class + hybrid_rubric judge_result" where
  "example_judge_function i q = fst (fake_hybrid_judge None None [] q)"

definition example_service :: evaluation_service where
  "example_service =
     \<lparr>sv_tools = example_tools, sv_decimal = (\<lambda>_. None), sv_fraction = id,
      sv_dumps = \<lparr>dp_evaluation = (\<lambda>_. PNull), dp_functional = (\<lambda>_. PNull), dp_semantic = (\<lambda>_. PNull),
        dp_hybrid = (\<lambda>_. PNull), dp_finding = (\<lambda>_. PNull)\<rparr>,
      sv_sandbox = Some (\<lambda>_ q. Inr (harness_main example_program q)), sv_semantic_judge = None,
      sv_hybrid_judge = Some example_judge_function,
      sv_specification = Some \<lparr>ps_tasks = [example_specification], ps_material_error_contract = example_contract\<rparr>,
      sv_configuration = []\<rparr>"

lemma example_providers: "providers_validate example_service"
  by (auto simp: providers_validate_def example_service_def example_judge_function_def fake_hybrid_judge_def usage_ok_def
      judge_usage_valid_def free_usage_def Let_def split: if_splits option.splits)

definition example_evaluation :: evaluation_result where
  "example_evaluation = plain_evaluation nested_task (example_result None) ''call_failure'' EVALUATION_VERSION ES_PARTIAL None 1
     None ''Provider infrastructure failed; no candidate response was available to score.'' []
     [(''error_category'', PStr ''timeout'')]"

lemma example_evaluates: "evaluate_results example_service (example_run nested_task) [example_result None] = Inr [example_evaluation]"
  by (simp add: evaluate_results_def example_run_def example_defs evaluate_result_def evaluate_def threshold_of_def
      example_service_def EvaluationResult_def evaluation_result_valid_def plain_evaluation_def consistent_acceptability_def
      example_evaluation_def as_artifact_error_def Let_def)

lemma example_zero_costs:
  "dec_add 28 zero_cost zero_cost = Inr zero_cost" "dec_div 50 zero_cost (dec_of_int (Suc 0)) = Inr zero_cost"
  by code_simp+

lemma example_metrics:
  "\<exists>g. metric_group_of example_tools (\<lambda>_. None) [(example_result None, example_evaluation)] model category = Inr g"
proof -
  have cost: "known_candidate_cost example_tools (\<lambda>_. None) (example_result None) = zero_cost"
    by (simp add: known_candidate_cost_def example_result_def)
  have "fully [(example_result None, example_evaluation)] = []" "\<not> br_success (example_result None)"
      "br_latency_ms (example_result None) = 0"
    by (simp_all add: fully_def example_evaluation_def plain_evaluation_def example_result_def)
  then show ?thesis
    by (simp add: metric_group_of_def cost example_zero_costs MetricGroup_def metric_fields_valid_def
        unit_option_def fsum_def fdiv_def consistent_evaluation_counts_def Let_def)
qed

lemma example_aggregates:
  "\<exists>s. aggregate example_tools (\<lambda>_. None) (example_run nested_task) [example_result None] [example_evaluation] [] = Inr s"
proof -
  have paired: "paired_with [example_evaluation] [example_result None] = [(example_result None, example_evaluation)]"
    by (simp add: paired_with_def example_evaluation_def plain_evaluation_def example_result_def)
  have ids: "ev_benchmark_result_id example_evaluation = br_result_id (example_result None)"
    "\<not> ev_call_made example_evaluation" "br_model_id (example_result None) = ''m''" "br_task_id (example_result None) = ''t''"
    by (simp_all add: example_evaluation_def plain_evaluation_def example_result_def)
  have tasks: "bd_tasks (bn_dataset (example_run nested_task)) = [nested_task]" "bt_task_id nested_task = ''t''"
    "bt_category nested_task = BC_EXTRACTION"
    by (simp_all add: example_run_def nested_task_def example_task_def)
  obtain g1 where "metric_group_of example_tools (\<lambda>_. None) [(example_result None, example_evaluation)] (Some ''m'') None = Inr g1"
    using example_metrics by blast
  moreover obtain g2 where "metric_group_of example_tools (\<lambda>_. None) [(example_result None, example_evaluation)]
      (Some ''m'') (Some BC_EXTRACTION) = Inr g2"
    using example_metrics by blast
  moreover obtain g3 where "metric_group_of example_tools (\<lambda>_. None) [(example_result None, example_evaluation)] None None = Inr g3"
    using example_metrics by blast
  ultimately show ?thesis
    by (simp add: aggregate_def paired ids tasks category_of_def sorted_keys_def model_of_def of_model_def of_category_def
        group_keys_def all_categories_def Let_def)
qed

theorem summaries_count_every_result_once_witness:
  "\<exists>s. aggregate example_tools (\<lambda>_. None) (example_run nested_task) [example_result None] [example_evaluation] [] = Inr s
     \<and> mg_evaluated_tasks (es_overall s) = 1
     \<and> sum_list (map (\<lambda>g. reported g ! 0) (es_by_model s)) = reported (es_overall s) ! 0"
proof -
  obtain s where s: "aggregate example_tools (\<lambda>_. None) (example_run nested_task) [example_result None] [example_evaluation] [] = Inr s"
    using example_aggregates by blast
  note facts = summaries_count_every_result_once [OF s, of 0] summaries_count_every_result_once [OF s, of 1]
  show ?thesis using s facts by simp
qed

theorem runs_yield_one_valid_evaluation_per_result_witness:
  "\<exists>summary. evaluate_run example_service 7 (example_store nested_task (example_result None)) = Inr ([example_evaluation], summary)
     \<and> evaluation_of nested_task (example_result None) example_evaluation"
proof -
  have load: "load_run 7 (example_store nested_task (example_result None)) = Inr (example_run nested_task, [example_result None])"
    unfolding nested_task_def by (rule example_loads)
  obtain summary where "aggregate example_tools (\<lambda>_. None) (example_run nested_task) [example_result None] [example_evaluation] []
      = Inr summary"
    using example_aggregates by blast
  then have run: "evaluate_run example_service 7 (example_store nested_task (example_result None)) = Inr ([example_evaluation], summary)"
    using example_evaluates by (simp add: evaluate_run_def load as_artifact_error_def example_service_def)
  have "bd_tasks (bn_dataset (example_run nested_task)) = [nested_task]" by (simp add: example_run_def)
  then show ?thesis
    using run runs_yield_one_valid_evaluation_per_result [OF run example_providers] load by auto
qed

subsection \<open>A summary that is accepted\<close>

definition summary_task :: benchmark_task where
  "summary_task = example_task BC_SUMMARIZATION
     [(''semantic_requirements'', PList [PStr ''r1'', PStr ''r2'']), (''semantic_specification_id'', PStr ''s'')]"

definition example_outcome :: "hybrid_rubric judge_result" where
  "example_outcome = \<lparr>jr_evaluated = True, jr_rubric = Some (fake_rubric_for example_hybrid_request),
     jr_usage = Some (free_usage ''fake-hybrid-judge'' HYBRID_JUDGE_PROMPT_VERSION), jr_error_category = None\<rparr>"

lemma example_judgement:
  "example_judge_function i (from_specification example_contract example_specification ''summary'') = Inr example_outcome"
  using example_rubric_valid example_rubric_accepted
  by (simp add: example_hybrid_request_def [symmetric] example_judge_function_def fake_hybrid_judge_def example_outcome_def)

lemma example_coverage:
  "weighted_coverage example_specification (verdicts_of (fake_rubric_for example_hybrid_request))
   = Inr \<lparr>cv_complete = True, cv_numerator = Some 1, cv_denominator = Some 1, cv_ambiguous = []\<rparr>"
  by (simp add: weighted_coverage_def verdicts_of_def fake_rubric_for_def proposition_defs fraction_def Let_def)


subsection \<open>An empty answer\<close>

definition coding_task :: benchmark_task where
  "coding_task = example_task BC_CODING
     [(''evaluation_mode'', PStr ''static_pending_functional''), (''function_name'', PStr ''f''), (''parameters'', PInt 1),
      (''functional_tests'', PList [PDict [(''args'', PList [PInt 1]), (''expected'', PInt 1)]])]"

theorem one_empty_answer_aborts_the_run_witness:
  "\<exists>c. evaluate_run example_service 7 (example_store coding_task (example_result (Some (fence @ fence)))) = Inl c"
proof (rule one_empty_answer_aborts_the_run)
  let ?result = "example_result (Some (fence @ fence))"
  show "load_run 7 (example_store coding_task ?result) = Inr (example_run coding_task, [?result])"
    unfolding coding_task_def by (rule example_loads)
  show "?result \<in> set [?result]" by simp
  show "sv_sandbox example_service = Some (\<lambda>_ q. Inr (harness_main example_program q))" by (simp add: example_service_def)
  show "br_response ?result = Some (sample_reply\<lparr>rs_text := fence @ fence\<rparr>)" by (simp add: example_result_def)
  show "strip_code_fence (rs_text (sample_reply\<lparr>rs_text := fence @ fence\<rparr>)) = []" by code_simp
  show "\<exists>e. evaluate (sv_tools example_service) task ?result = Inr e \<and> ev_status e = ES_REQUIRES_FUNCTIONAL_EXECUTION"
    if "task \<in> set (bd_tasks (bn_dataset (example_run coding_task)))" for task
  proof -
    have task: "task = coding_task" using that by (simp add: example_run_def)
    have "\<exists>r. score_answer example_tools coding_task (fence @ fence) = Inr r"
      by (simp add: score_answer_def coding_score_def coding_metadata_def coding_task_def example_task_def example_tools_def
          coding_result_def required_present_def mapM_Inr_iff Let_def)
    moreover have "unit (threshold_of coding_task)" by (simp add: threshold_of_def coding_task_def example_task_def unit_def)
    moreover have "status_for coding_task = Some ES_REQUIRES_FUNCTIONAL_EXECUTION"
      by (simp add: status_for_def coding_task_def example_task_def)
    ultimately show ?thesis
      using evaluate_answer [of coding_task ?result "sample_reply\<lparr>rs_text := fence @ fence\<rparr>" example_tools]
      by (auto simp: task example_result_def example_service_def scored_evaluation_def plain_evaluation_def)
  qed
qed

end
