(* ===== verification/Benchmark_Examples.thy ===== *)
theory Benchmark_Examples
  imports Benchmark_Runner Evaluation_Examples
begin

section \<open>A concrete benchmark run\<close>

text \<open>
  One task, one model, the adapter that always answers and a store that works: the run returns
  and can be evaluated. On a clock that moves a hundred seconds between two readings, the same
  run ends with the deadline of its first call.
\<close>

definition moving_env :: env where
  "moving_env = \<lparr>env_clock = (\<lambda>i. 100 * of_nat i), env_perf = (\<lambda>_. 0), env_uuid = (\<lambda>_. ''uuid'')\<rparr>"

definition example_runner_env :: "env \<Rightarrow> runner_env" where
  "example_runner_env E = \<lparr>re_env = E, re_storage = (\<lambda>_. OpDone), re_result_id = id\<rparr>"

definition example_execution :: inference_service where
  "example_execution =
     \<lparr>sv_registry = [(''m'', sample_priced_model)], sv_resolver = [(''fake'', \<lambda>_. Inr steady_adapter)],
      sv_telemetry = None, sv_telemetry_timeout = 2, sv_inference_deadline_seconds = 60\<rparr>"

definition example_runner :: benchmark_runner where
  "example_runner =
     \<lparr>rn_configurations = [], rn_base_registry = [(''m'', sample_priced_model)], rn_service = example_execution,
      rn_overrides = []\<rparr>"

definition example_dataset :: benchmark_dataset where
  "example_dataset = \<lparr>bd_name = ''d'', bd_version = ''1'', bd_tasks = [nested_task]\<rparr>"

lemmas runner_defs = example_runner_env_def example_execution_def example_runner_def example_dataset_def

lemma example_runner_built: "new_benchmark_runner (sample_service steady_adapter None) [] [] = Inr example_runner"
  by (simp add: new_benchmark_runner_def new_inference_service_def registry_list_models_def sample_service_def
      configured_def registry_register_def empty_registry_def runner_defs sample_priced_model_def)

lemma example_runner_ok: "clock_ok E \<Longrightarrow> runner_ok (example_runner_env E) example_runner"
  using new_benchmark_runner_service [OF example_runner_built] by (simp add: runner_ok_def example_runner_env_def)

lemma example_selection:
  "selection example_runner example_dataset [''m''] None = Inr ([sample_priced_model], [nested_task])"
  by (simp add: selection_def runner_defs registry_get_def selectable_def configured_def sample_priced_model_def
      resolver_supports_def mapM_Inr_iff Let_def)

lemma example_limits:
  "effective_output_limits example_runner [sample_priced_model] [nested_task] = Inr [(''t'', [(''m'', 16)])]"
  by (simp add: effective_output_limits_def provider_output_allowance_def requested_limit_def runner_defs
      sample_priced_model_def default_output_token_policy_def default_capabilities_def nested_task_def example_task_def
      mapM_Inr_iff Let_def)

lemma example_pairs: "task_model_pairs [nested_task] [sample_priced_model] = [(nested_task, sample_priced_model)]"
  by (simp add: task_model_pairs_def)

lemma example_limit: "limit_for [(''t'', [(''m'', 16)])] nested_task sample_priced_model = Inr 16"
  by (simp add: limit_for_def nested_task_def example_task_def sample_priced_model_def)

lemma example_call:
  "fst (service_generate still_env example_execution ''m'' (benchmark_request nested_task 16) (Some ''uuid'') None ''explicit''
     (initial_world\<lparr>w_ix := 2\<rparr>)) = Inr sample_reply"
  by (simp add: run_defs sample_defs example_execution_def)

lemma example_result_of_call:
  "\<exists>r w'. result_of_call (example_runner_env still_env) example_runner [(''t'', [(''m'', 16)])] i 7 nested_task sample_priced_model
     initial_world = (Inr r, w')"
proof -
  obtain w' where call: "service_generate still_env example_execution ''m'' (benchmark_request nested_task 16) (Some ''uuid'') None
      ''explicit'' (initial_world\<lparr>w_ix := 2\<rparr>) = (Inr sample_reply, w')"
    using fst_eqD [OF example_call] by blast
  let ?r = "answered (plain_result i 7 nested_task sample_priced_model) sample_reply 16"
  have parts: "re_env (example_runner_env still_env) = still_env" "rn_service example_runner = example_execution"
    "mc_model_id sample_priced_model = ''m''" "env_uuid still_env (Suc 0) = ''uuid''" "w_ix initial_world = 0"
    by (simp_all add: example_runner_env_def example_runner_def sample_priced_model_def still_env_def initial_world_def)
  have made: "BenchmarkResult ?r = Inr ?r"
    by (simp add: BenchmarkResult_def answered_def response_output_budget_exhaustion_def sample_reply_def plain_result_def
        consistent_outcome_def sample_priced_model_def)
  show ?thesis
    using call made
    by (simp add: result_of_call_def call_model_def Let_def numeral_2_eq_2 acatch_def abind_def uuid4_def ask_def
        perf_counter_def example_limit parts lift_result_def)
qed

lemma example_completes:
  "\<exists>run w' b'. run_benchmark (example_runner_env still_env) example_runner 7 ''sha'' example_dataset [''m''] None
     (initial_world, empty_store) = (Inr run, w', b')"
proof -
  obtain r w' where call: "result_of_call (example_runner_env still_env) example_runner [(''t'', [(''m'', 16)])] 3 7 nested_task
      sample_priced_model initial_world = (Inr r, w')"
    using example_result_of_call by blast
  have store: "re_storage (example_runner_env still_env) = (\<lambda>_. OpDone)" "re_result_id (example_runner_env still_env) = id"
    by (simp_all add: example_runner_env_def)
  show ?thesis
    using call
    by (simp add: run_benchmark_def bbind_def blift_def lift_result_def example_selection example_limits example_pairs
        execute_run_def repository_start_def store_op_def store bcatch_def run_pair_def repository_record_def
        repository_finish_def breturn_def empty_store_def put_result_def numeral_3_eq_3)
qed

theorem completed_runs_can_be_evaluated_witness:
  "\<exists>run b. bs_results b \<noteq> [] \<and> load_run 7 (as_stored b (bs_results b)) = Inr (run, bs_results b)"
proof -
  obtain run w' b' where run: "run_benchmark (example_runner_env still_env) example_runner 7 ''sha'' example_dataset [''m''] None
      (initial_world, empty_store) = (Inr run, w', b')"
    using example_completes by blast
  have "registry_inv (rn_base_registry example_runner)" "unique_ids example_dataset"
    by (simp_all add: registry_inv_def unique_ids_def runner_defs sample_priced_model_def)
  then have "load_run 7 (as_stored b' (bs_results b')) = Inr (run, bs_results b')"
    using completed_runs_can_be_evaluated [OF run example_runner_ok [OF still_clock]] by simp
  moreover from this have "bs_results b' \<noteq> []"
    by (auto simp: load_run_def Let_def split: artifact.splits pyj.splits sum.splits if_splits)
  ultimately show ?thesis by blast
qed

theorem paid_calls_are_not_lost_witness:
  "\<exists>run w' b' calls. run_benchmark (example_runner_env still_env) example_runner 7 ''sha'' example_dataset [''m''] None
     (initial_world, empty_store) = (Inr run, w', b') \<and> w_calls w' = w_calls initial_world @ calls
     \<and> run_outcome (example_runner_env still_env) 7 (planned_pairs example_runner example_dataset [''m''] None) True calls b'"
proof -
  obtain run w' b' where run: "run_benchmark (example_runner_env still_env) example_runner 7 ''sha'' example_dataset [''m''] None
      (initial_world, empty_store) = (Inr run, w', b')"
    using example_completes by blast
  then show ?thesis using paid_calls_are_not_lost [OF run example_runner_ok [OF still_clock]] by auto
qed

lemma example_slow_call:
  "fst (service_generate moving_env example_execution ''m'' (benchmark_request nested_task 16) (Some ''uuid'') None ''explicit''
     (initial_world\<lparr>w_ix := 2\<rparr>)) = Inl (Exn InferenceDeadlineExceededErrorC)"
  by (simp add: run_defs generate_within_def example_execution_def moving_env_def)


end
