(* ===== verification/Json_Depth.thy ===== *)
theory Json_Depth
  imports Validation
begin

section \<open>The bracket scan bounds the depth of what is parsed\<close>

text \<open>
  \<^verbatim>\<open>_too_deep\<close> runs on the raw text before \<^verbatim>\<open>json.loads\<close>, so that a hostile
  response cannot drive the recursive parser arbitrarily deep. The scan knows nothing of the
  grammar; the lemmas follow the parser and show that on every text the parser accepts the
  scan counts exactly the nesting of the value that comes out.
\<close>

fun jdepth :: "json \<Rightarrow> nat" where
  "jdepth (JArr vs) = Suc (foldr max (map jdepth vs) 0)"
| "jdepth (JObj ms) = Suc (foldr max (map (\<lambda>p. jdepth (snd p)) ms) 0)"
| "jdepth _ = 0"

abbreviation scan :: "int \<Rightarrow> string \<Rightarrow> bool" where
  "scan k s \<equiv> too_deep_from k False False s"

definition plain :: "char \<Rightarrow> bool" where
  "plain c \<longleftrightarrow> c \<notin> {CHR 0x22, CHR ''['', CHR ''{'', CHR '']'', CHR ''}''}"

lemma scan_plain: "\<forall>c\<in>set p. plain c \<Longrightarrow> scan k (p @ s) = scan k s"
  by (induction p) (auto simp: plain_def)

lemma scan_skip_ws: "scan k (skip_ws s) = scan k s"
proof -
  have "s = takeWhile json_ws s @ skip_ws s" by (simp add: skip_ws_def)
  moreover have "\<forall>c\<in>set (takeWhile json_ws s). plain c"
    by (auto dest!: set_takeWhileD simp: json_ws_def plain_def)
  ultimately show ?thesis by (metis scan_plain)
qed

lemma scan_skip_ws_Cons: "skip_ws s = c # r \<Longrightarrow> scan k s = scan k (c # r)"
  using scan_skip_ws [of k s] by simp

subsection \<open>Strings\<close>

lemma hex_char_quoted:
  "hex_val c = Some n \<Longrightarrow> too_deep_from k True False (c # s) = too_deep_from k True False s"
  by (auto simp: hex_val_def Let_def split: if_splits)

lemma hex4_quoted:
  "hex4 a b c d = Some n \<Longrightarrow>
     too_deep_from k True False (a # b # c # d # s) = too_deep_from k True False s"
  by (auto simp: hex4_def hex_char_quoted simp del: too_deep_from.simps split: option.splits)

lemma escape_quoted:
  "too_deep_from k True False (CHR 0x5C # c # s) = too_deep_from k True False s"
  by simp

lemma low_surrogate_quoted:
  assumes "low_surrogate s = Some n"
  shows "too_deep_from k True False s = too_deep_from k True False (drop 6 s)"
proof -
  obtain a b c d r where "s = CHR 0x5C # CHR ''u'' # a # b # c # d # r" "hex4 a b c d = Some n"
    using assms by (cases s rule: low_surrogate.cases) (auto split: if_splits option.splits)
  then show ?thesis using hex4_quoted [of a b c d n k r] escape_quoted [of k "CHR ''u''"]
    by (simp del: too_deep_from.simps)
qed

lemma scanstring_quoted:
  "scanstring s = Some (t, r) \<Longrightarrow> too_deep_from k True False s = scan k r"
proof (induction "length s" arbitrary: s t r rule: less_induct)
  case less
  have IH: "scanstring u = Some (t', r') \<Longrightarrow> length u < length s \<longrightarrow>
      too_deep_from k True False u = scan k r'" for u t' r'
    using less.hyps by blast
  obtain c q where s: "s = c # q" using less.prems by (cases s) auto
  consider (close) "c = CHR 0x22" | (char) "c \<noteq> CHR 0x22" "c \<noteq> CHR 0x5C" | (esc) "c = CHR 0x5C"
    by blast
  then show ?case
  proof cases
    case close
    then show ?thesis using less.prems s by simp
  next
    case char
    then have "\<exists>t'. scanstring q = Some (t', r)"
      using less.prems s by (auto simp: push_Some split: if_splits)
    then show ?thesis using IH s char by auto
  next
    case esc
    then obtain e r1 where q: "q = e # r1" using less.prems s by (cases q) (auto split: if_splits)
    have step: "too_deep_from k True False s = too_deep_from k True False r1"
      using s esc q escape_quoted by simp
    show ?thesis
    proof (cases "e = CHR ''u''")
      case False
      then have "\<exists>t'. scanstring r1 = Some (t', r)"
        using less.prems s esc q by (auto simp: push_Some split: option.splits)
      then show ?thesis using IH s q step by auto
    next
      case True
      then obtain a b c' d r2 n where u: "r1 = a # b # c' # d # r2" "hex4 a b c' d = Some n"
        using less.prems s esc q by (auto split: list.splits option.splits)
      have step2: "too_deep_from k True False r1 = too_deep_from k True False r2"
        using hex4_quoted u by simp
      show ?thesis
      proof (cases "55296 \<le> n \<and> n \<le> 56319 \<and> low_surrogate r2 \<noteq> None")
        case True
        then obtain n2 where n2: "low_surrogate r2 = Some n2" by blast
        then have "\<exists>t'. scanstring (drop 6 r2) = Some (t', r)"
          using less.prems s esc q \<open>e = CHR ''u''\<close> u True by (auto simp: push_Some)
        then show ?thesis
          using IH [of "drop 6 r2"] s q u step step2 low_surrogate_quoted [OF n2] by auto
      next
        case False
        then have "\<exists>t'. scanstring r2 = Some (t', r)"
          using less.prems s esc q \<open>e = CHR ''u''\<close> u
          by (auto simp: push_Some split: if_splits option.splits)
        then show ?thesis using IH s q u step step2 by auto
      qed
    qed
  qed
qed

subsection \<open>Numbers and keywords\<close>

lemma digits_plain: "\<forall>c\<in>set (takeWhile is_digit s). plain c"
  by (auto dest!: set_takeWhileD simp: is_digit_def plain_def)

lemma scan_digits: "scan k (dropWhile is_digit s) = scan k s"
  using scan_plain [OF digits_plain, of k s "dropWhile is_digit s"] by simp

lemma scan_plain_Cons: "plain c \<Longrightarrow> scan k (c # s) = scan k s"
  using scan_plain [of "[c]"] by simp

lemma scan_digit_Cons: "is_digit c \<Longrightarrow> scan k (c # s) = scan k s"
  by (rule scan_plain_Cons) (auto simp: is_digit_def plain_def)

lemma int_part_scan: "int_part s = Some (ip, r) \<Longrightarrow> scan k r = scan k s"
  by (auto simp: int_part_def split_digits_def scan_digits simp del: too_deep_from.simps dropWhile.simps
      intro!: scan_plain_Cons [symmetric] split: list.splits if_splits) (simp add: plain_def)

lemma frac_part_scan: "frac_part s = (fp, r) \<Longrightarrow> scan k r = scan k s"
  by (auto simp: frac_part_def split_digits_def scan_digits scan_plain_Cons plain_def
      simp del: too_deep_from.simps split: list.splits if_splits)

lemma exp_part_scan: "exp_part s = (e, h, r) \<Longrightarrow> scan k r = scan k s"
  by (auto simp: exp_part_def split_digits_def scan_digits scan_digit_Cons scan_plain_Cons plain_def Let_def
      simp del: too_deep_from.simps split: list.splits if_splits)

lemma scan_number_scan:
  assumes "scan_number s = Good v r"
  shows "scan k r = scan k s" and "jdepth v = 0"
proof -
  define s0 where "s0 = (if (case s of [] \<Rightarrow> False | c # _ \<Rightarrow> c = CHR ''-'') then tl s else s)"
  obtain ip s1 fp s2 e h where parts: "int_part s0 = Some (ip, s1)" "frac_part s1 = (fp, s2)"
      "exp_part s2 = (e, h, r)" and v: "case v of JNum _ _ _ \<Rightarrow> True | _ \<Rightarrow> False"
    using assms by (auto simp: scan_number_def s0_def Let_def split: option.splits prod.splits if_splits)
  have "scan k s0 = scan k s"
    by (auto simp: s0_def scan_plain_Cons plain_def simp del: too_deep_from.simps split: list.splits)
  then show "scan k r = scan k s"
    using int_part_scan [OF parts(1)] frac_part_scan [OF parts(2)] exp_part_scan [OF parts(3)] by simp
  show "jdepth v = 0" using v by (auto split: json.splits)
qed

lemma keyword_scan:
  assumes "keyword w v s = Good v' r" "\<forall>c\<in>set w. plain c"
  shows "scan k r = scan k s" and "v' = v"
proof -
  have s: "s = w @ r" and "v' = v"
    using assms(1) by (auto simp: keyword_def split: if_splits) (metis append_take_drop_id)
  then show "scan k r = scan k s" "v' = v" using scan_plain [OF assms(2)] by auto
qed

subsection \<open>Values\<close>

text \<open>
  \<open>D\<close> is the greatest depth of the elements of a list. An element list that ends with its
  closing bracket leaves the scan one level further out.
\<close>

abbreviation elements_depth :: "json list \<Rightarrow> nat" where
  "elements_depth vs \<equiv> foldr max (map jdepth vs) 0"

abbreviation members_depth :: "(nat list \<times> json) list \<Rightarrow> nat" where
  "members_depth ms \<equiv> foldr max (map (\<lambda>p. jdepth (snd p)) ms) 0"

definition value_scan :: "nat \<Rightarrow> bool" where
  "value_scan f \<longleftrightarrow> (\<forall>s v r k. parse_value f s = Good v r \<longrightarrow> k \<le> 32 \<longrightarrow>
     scan k s = (k + int (jdepth v) > 32 \<or> scan k r))"

definition elements_scan :: "nat \<Rightarrow> bool" where
  "elements_scan f \<longleftrightarrow> (\<forall>s vs r k. parse_elements f s = Good vs r \<longrightarrow> k \<le> 32 \<longrightarrow>
     scan k s = (k + int (elements_depth vs) > 32 \<or> scan (k - 1) r))"

definition members_scan :: "nat \<Rightarrow> bool" where
  "members_scan f \<longleftrightarrow> (\<forall>s ms r k. parse_members f s = Good ms r \<longrightarrow> k \<le> 32 \<longrightarrow>
     too_deep_from k True False s = (k + int (members_depth ms) > 32 \<or> scan (k - 1) r))"

lemma value_scanD:
  "value_scan f \<Longrightarrow> parse_value f s = Good v r \<Longrightarrow> k \<le> 32 \<Longrightarrow>
     scan k s = (k + int (jdepth v) > 32 \<or> scan k r)"
  unfolding value_scan_def by blast

lemma elements_scanD:
  "elements_scan f \<Longrightarrow> parse_elements f s = Good vs r \<Longrightarrow> k + 1 \<le> 32 \<Longrightarrow>
     scan (k + 1) s = (k + 1 + int (elements_depth vs) > 32 \<or> scan k r)"
  unfolding elements_scan_def by (metis add_diff_cancel_right')

lemma members_scanD:
  "members_scan f \<Longrightarrow> parse_members f s = Good ms r \<Longrightarrow> k + 1 \<le> 32 \<Longrightarrow>
     too_deep_from (k + 1) True False s = (k + 1 + int (members_depth ms) > 32 \<or> scan k r)"
  unfolding members_scan_def by (metis add_diff_cancel_right')

lemma value_scan_step:
  assumes M: "members_scan f" and E: "elements_scan f"
  shows "value_scan (Suc f)"
  unfolding value_scan_def
proof (intro allI impI)
  fix s v r and k :: int
  assume G: "parse_value (Suc f) s = Good v r" and k: "k \<le> 32"
  obtain c q where s: "s = c # q" using G by (cases s) auto
  consider (str) "c = CHR 0x22" | (obj) "c = CHR ''{''" | (arr) "c = CHR ''[''"
    | (kw) "c \<in> {CHR ''n'', CHR ''t'', CHR ''f''}"
    | (num) "c \<notin> {CHR 0x22, CHR ''{'', CHR ''['', CHR ''n'', CHR ''t'', CHR ''f''}"
    by blast
  then show "scan k s = (k + int (jdepth v) > 32 \<or> scan k r)"
  proof cases
    case str
    then obtain t where "scanstring q = Some (t, r)" "v = JStr t"
      using G s by (auto split: option.splits)
    then show ?thesis using scanstring_quoted [of q t r k] s str k by simp
  next
    case obj
    then obtain d r' where d: "skip_ws q = d # r'" using G s by (auto split: list.splits)
    have open_obj: "scan k s = (k + 1 > 32 \<or> scan (k + 1) (d # r'))"
      using s obj scan_skip_ws_Cons [OF d, of "k + 1"] by (simp add: MAX_JSON_DEPTH_def)
    show ?thesis
    proof (cases "d = CHR 0x22")
      case True
      then obtain ms where ms: "parse_members f r' = Good ms r" "v = JObj ms"
        using G s obj d by (auto simp: pairs_hook_Good split: parse.splits)
      have "too_deep_from (k + 1) True False r' = (k + 1 + int (members_depth ms) > 32 \<or> scan k r)"
        if "k + 1 \<le> 32" by (rule members_scanD [OF M ms(1) that])
      then show ?thesis using open_obj True ms(2) by (cases "k + 1 \<le> 32") auto
    next
      case False
      then have "d = CHR ''}''" "v = JObj []" "r' = r"
        using G s obj d by (auto simp: pairs_hook_Good split: if_splits)
      then show ?thesis using open_obj by auto
    qed
  next
    case arr
    then obtain d r' where d: "skip_ws q = d # r'" using G s by (auto split: list.splits)
    have open_arr: "scan k s = (k + 1 > 32 \<or> scan (k + 1) (d # r'))"
      using s arr scan_skip_ws_Cons [OF d, of "k + 1"] by (simp add: MAX_JSON_DEPTH_def)
    show ?thesis
    proof (cases "d = CHR '']''")
      case True
      then have "v = JArr []" "r' = r" using G s arr d by auto
      then show ?thesis using open_arr True by auto
    next
      case False
      then obtain vs where vs: "parse_elements f (d # r') = Good vs r" "v = JArr vs"
        using G s arr d by (auto split: parse.splits)
      have "scan (k + 1) (d # r') = (k + 1 + int (elements_depth vs) > 32 \<or> scan k r)"
        if "k + 1 \<le> 32" by (rule elements_scanD [OF E vs(1) that])
      then show ?thesis using open_arr vs(2) by (cases "k + 1 \<le> 32") auto
    qed
  next
    case kw
    from kw have "\<exists>w u. keyword w u s = Good v r \<and> list_all plain w \<and> jdepth u = 0"
    proof (elim insertE emptyE)
      assume "c = CHR ''n''"
      with G s have "keyword ''null'' JNull s = Good v r" by simp
      then show ?thesis by (intro exI [of _ "''null''"] exI [of _ JNull]) (simp add: plain_def)
    next
      assume "c = CHR ''t''"
      with G s have "keyword ''true'' (JBool True) s = Good v r" by simp
      then show ?thesis by (intro exI [of _ "''true''"] exI [of _ "JBool True"]) (simp add: plain_def)
    next
      assume "c = CHR ''f''"
      with G s have "keyword ''false'' (JBool False) s = Good v r" by simp
      then show ?thesis by (intro exI [of _ "''false''"] exI [of _ "JBool False"]) (simp add: plain_def)
    qed
    then obtain w u where w: "keyword w u s = Good v r" "\<forall>c\<in>set w. plain c" "jdepth u = 0"
      by (auto simp: list_all_iff)
    show ?thesis using keyword_scan(1) [OF w(1,2), of k] keyword_scan(2) [OF w(1,2)] w(3) k by simp
  next
    case num
    then show ?thesis using G s scan_number_scan(1) [of s v r k] scan_number_scan(2) [of s v r] k by simp
  qed
qed

lemma members_scan_step:
  assumes V: "value_scan f" and M: "members_scan f"
  shows "members_scan (Suc f)"
  unfolding members_scan_def
proof (intro allI impI)
  fix s ms r and k :: int
  assume G: "parse_members (Suc f) s = Good ms r" and k: "k \<le> 32"
  obtain key r1 r2 w r3 d r4 where steps:
    "scanstring s = Some (key, r1)" "skip_ws r1 = CHR '':'' # r2"
    "parse_value f (skip_ws r2) = Good w r3" "skip_ws r3 = d # r4"
    using G by (auto split: option.splits list.splits parse.splits if_splits)
  have val: "too_deep_from k True False s = (k + int (jdepth w) > 32 \<or> scan k (d # r4))"
    using scanstring_quoted [OF steps(1), of k] scan_skip_ws_Cons [OF steps(2), of k]
      scan_skip_ws [of k r2] value_scanD [OF V steps(3) k] scan_skip_ws_Cons [OF steps(4), of k]
    by (simp add: scan_plain_Cons plain_def del: too_deep_from.simps)
  show "too_deep_from k True False s = (k + int (members_depth ms) > 32 \<or> scan (k - 1) r)"
  proof (cases "d = CHR ''}''")
    case True
    then have "ms = [(key, w)]" "r4 = r" using G steps by auto
    then show ?thesis using val True by simp
  next
    case False
    then obtain r5 ms' where tail: "d = CHR '',''" "skip_ws r4 = CHR 0x22 # r5"
        "parse_members f r5 = Good ms' r" "ms = (key, w) # ms'"
      using G steps by (auto split: list.splits parse.splits if_splits)
    have "scan k (d # r4) = too_deep_from k True False r5"
      using tail(1) scan_skip_ws_Cons [OF tail(2), of k] by simp
    also have "\<dots> = (k + int (members_depth ms') > 32 \<or> scan (k - 1) r)"
      using M tail(3) k unfolding members_scan_def by blast
    finally show ?thesis using val tail(4) by auto
  qed
qed

lemma elements_scan_step:
  assumes V: "value_scan f" and E: "elements_scan f"
  shows "elements_scan (Suc f)"
  unfolding elements_scan_def
proof (intro allI impI)
  fix s vs r and k :: int
  assume G: "parse_elements (Suc f) s = Good vs r" and k: "k \<le> 32"
  obtain w r1 d r2 where steps: "parse_value f s = Good w r1" "skip_ws r1 = d # r2"
    using G by (auto split: list.splits parse.splits if_splits)
  have val: "scan k s = (k + int (jdepth w) > 32 \<or> scan k (d # r2))"
    using value_scanD [OF V steps(1) k] scan_skip_ws_Cons [OF steps(2), of k] by simp
  show "scan k s = (k + int (elements_depth vs) > 32 \<or> scan (k - 1) r)"
  proof (cases "d = CHR '']''")
    case True
    then have "vs = [w]" "r2 = r" using G steps by auto
    then show ?thesis using val True by simp
  next
    case False
    then obtain vs' where tail: "d = CHR '',''" "parse_elements f (skip_ws r2) = Good vs' r" "vs = w # vs'"
      using G steps by (auto split: parse.splits if_splits)
    have "scan k (d # r2) = scan k (skip_ws r2)" using tail(1) scan_skip_ws [of k r2] by simp
    also have "\<dots> = (k + int (elements_depth vs') > 32 \<or> scan (k - 1) r)"
      using E tail(2) k unfolding elements_scan_def by blast
    finally show ?thesis using val tail(3) by auto
  qed
qed

lemma parse_scan: "value_scan f \<and> members_scan f \<and> elements_scan f"
proof (induction f)
  case 0
  then show ?case by (simp add: value_scan_def members_scan_def elements_scan_def)
next
  case (Suc f)
  then show ?case using value_scan_step members_scan_step elements_scan_step by blast
qed

lemma too_deep_blank: "\<forall>c\<in>set w. isspace c \<Longrightarrow> \<not> too_deep_from k q e w"
proof (induction w arbitrary: k q e)
  case (Cons c w)
  then have "c \<noteq> CHR ''['' \<and> c \<noteq> CHR ''{''" by (auto simp: isspace_def)
  then show ?case using Cons by simp
qed simp

lemma too_deep_trailing:
  "\<forall>c\<in>set w. isspace c \<Longrightarrow> too_deep_from k q e (s @ w) = too_deep_from k q e s"
  by (induction s arbitrary: k q e) (simp_all add: too_deep_blank)

lemma too_deep_strip: "too_deep (strip s) = too_deep s"
proof -
  let ?l = "takeWhile isspace s" and ?m = "dropWhile isspace s"
  let ?t = "rev (takeWhile isspace (rev ?m))"
  have "?m = rev (takeWhile isspace (rev ?m) @ dropWhile isspace (rev ?m))"
    by (simp only: takeWhile_dropWhile_id rev_rev_ident)
  then have m: "?m = strip s @ ?t" by (simp only: rev_append strip_def)
  have lead: "scan 0 (w @ u) = scan 0 u" if "\<forall>c\<in>set w. isspace c" for w u
    using that by (intro scan_plain) (auto simp: plain_def isspace_def)
  have blank: "\<forall>c\<in>set (takeWhile isspace u). isspace c" for u by (auto dest: set_takeWhileD)
  have "scan 0 s = scan 0 ?m"
    using lead [OF blank, of s ?m] by (simp only: takeWhile_dropWhile_id)
  moreover have "scan 0 (strip s @ ?t) = scan 0 (strip s)"
    by (rule too_deep_trailing) (unfold set_rev, rule blank)
  ultimately show ?thesis by (simp only: too_deep_def m [symmetric])
qed

text \<open>
  Claim C7. A response text that passed the bracket scan parses, if it parses at
  all, to a value nested at most \<open>MAX_JSON_DEPTH = 32\<close> levels deep, and the scan rejects
  every parsable text nested deeper. The scan sees the stripped text, the parser the original.
\<close>

theorem scan_bounds_json_depth:
  assumes "json_loads doc = Some v"
  shows "too_deep (strip doc) \<longleftrightarrow> int (jdepth v) > MAX_JSON_DEPTH"
proof -
  let ?f = "2 * length doc + 2"
  obtain r where p: "parse_value ?f (skip_ws doc) = Good v r" "skip_ws r = []"
    using assms by (auto simp: json_loads_def json_decode_def split: parse.splits if_splits)
  have "\<not> scan 0 r" using scan_skip_ws [of 0 r] p(2) by simp
  moreover have "scan 0 (skip_ws doc) = (0 + int (jdepth v) > 32 \<or> scan 0 r)"
    by (rule value_scanD [OF _ p(1)]) (simp_all add: parse_scan)
  ultimately show ?thesis
    using too_deep_strip [of doc] scan_skip_ws [of 0 doc]
    by (simp add: too_deep_def MAX_JSON_DEPTH_def)
qed

theorem scan_bounds_json_depth_witness:
  "json_loads ''[1, {}]'' = Some (JArr [JNum False 1 0, JObj []])
   \<and> (too_deep (strip ''[1, {}]'') \<longleftrightarrow>
        int (jdepth (JArr [JNum False 1 0, JObj []])) > MAX_JSON_DEPTH)"
proof -
  have h: "json_loads ''[1, {}]'' = Some (JArr [JNum False 1 0, JObj []])"
    by code_simp
  show ?thesis using h scan_bounds_json_depth [OF h] by blast
qed

end
