(* ===== verification/Startup.thy ===== *)
theory Startup
  imports Vercel Api
begin

section \<open>Starting and stopping the application\<close>

text \<open>
  \<^verbatim>\<open>runtime.py\<close>, \<^verbatim>\<open>persistence/config.py\<close>,
  \<^verbatim>\<open>persistence/database.py\<close>, the \<^verbatim>\<open>from_environment\<close> constructors and the
  lifespan of \<^verbatim>\<open>api/app.py\<close>. A process is its environment variables and the
  libraries the start-up calls. A run of an \<^verbatim>\<open>asynccontextmanager\<close> gives its result,
  the world after it, the resources it opened and those it closed, in order.
\<close>

record db_url =
  du_drivername :: string
  du_host :: "string option"
  du_database :: "string option"
  du_username :: "string option"
  du_port :: "int option"

record database_settings =
  ds_url :: "string option"
  ds_telemetry_timeout_seconds :: rat

text \<open>
  \<open>pr_float\<close>, \<open>pr_int\<close>, \<open>pr_bool\<close>: Pydantic's reading of a string; \<open>pr_database\<close>: the
  engine with its repository; \<open>pr_close_\<dots>\<close>: an exception of the release.
\<close>

record process =
  pr_environ :: "string \<Rightarrow> string option"
  pr_float :: "string \<Rightarrow> rat option"
  pr_int :: "string \<Rightarrow> int option"
  pr_bool :: "string \<Rightarrow> bool option"
  pr_make_url :: "string \<Rightarrow> exn_class + db_url"
  pr_urlsplit :: "string \<Rightarrow> string \<times> string option"
  pr_http_client :: "gateway_settings \<Rightarrow> http_client"
  pr_database :: "string \<Rightarrow> rat \<Rightarrow> exn_class + (telemetry_repository \<times> query_repository)"
  pr_compressed :: "string \<Rightarrow> string option"
  pr_hmac :: "string \<Rightarrow> string \<Rightarrow> string"
  pr_redis_eval :: "nat \<Rightarrow> rat \<Rightarrow> string \<Rightarrow> string \<Rightarrow> window_limits \<Rightarrow> exn + redis_reply"
  pr_redis_ping :: "nat \<Rightarrow> exn + bool"
  pr_close_http :: "exn option"
  pr_close_database :: "exn option"
  pr_close_redis :: "exn option"

definition getenv :: "process \<Rightarrow> string \<Rightarrow> string \<Rightarrow> string" where
  "getenv P name fallback = (case pr_environ P name of None \<Rightarrow> fallback | Some v \<Rightarrow> v)"

text \<open>\<^verbatim>\<open>os.environ.get(name) or None\<close>.\<close>

definition getenv_nonempty :: "process \<Rightarrow> string \<Rightarrow> string option" where
  "getenv_nonempty P name =
     (case pr_environ P name of None \<Rightarrow> None | Some v \<Rightarrow> if v = [] then None else Some v)"

definition parsed :: "'a option \<Rightarrow> exn_class + 'a" where
  "parsed v = (case v of None \<Rightarrow> Inl ValidationErrorC | Some x \<Rightarrow> Inr x)"

definition accepted :: "('a \<Rightarrow> bool) \<Rightarrow> 'a \<Rightarrow> exn_class + 'a" where
  "accepted ok v = (if ok v then Inr v else Inl ValidationErrorC)"

subsection \<open>Settings from the environment\<close>

definition absent :: "string option \<Rightarrow> bool" where
  "absent v \<longleftrightarrow> v = None \<or> v = Some []"

definition url_ok :: "db_url \<Rightarrow> bool" where
  "url_ok u \<longleftrightarrow>
     \<not> (du_drivername u \<noteq> ''postgresql+asyncpg'' \<or> absent (du_host u) \<or> absent (du_database u)
        \<or> absent (du_username u))
   \<and> (case du_port u of None \<Rightarrow> True | Some p \<Rightarrow> 1 \<le> p \<and> p \<le> 65535)"

text \<open>The field validator turns every \<^verbatim>\<open>Exception\<close> of the parser into its own error.\<close>

definition validate_url :: "process \<Rightarrow> string option \<Rightarrow> exn_class + string option" where
  "validate_url P v =
     (case v of
        None \<Rightarrow> Inr None
      | Some s \<Rightarrow>
          (case pr_make_url P s of
             Inl c \<Rightarrow> Inl (if issubclass c ExceptionC then ValidationErrorC else c)
           | Inr u \<Rightarrow> if url_ok u then Inr (Some s) else Inl ValidationErrorC))"

definition database_settings_from_environment :: "process \<Rightarrow> exn_class + database_settings" where
  "database_settings_from_environment P =
     rbind (validate_url P (pr_environ P ''DATABASE_URL'')) (\<lambda>url.
     rbind (parsed (pr_float P (getenv P ''TELEMETRY_TIMEOUT_SECONDS'' ''2''))) (\<lambda>t.
     accepted (\<lambda>s. 0 < ds_telemetry_timeout_seconds s \<and> ds_telemetry_timeout_seconds s \<le> 30)
       \<lparr>ds_url = url, ds_telemetry_timeout_seconds = t\<rparr>))"

definition gateway_settings_from_environment :: "process \<Rightarrow> exn_class + gateway_settings" where
  "gateway_settings_from_environment P =
     (let key = strip (getenv P ''AI_GATEWAY_API_KEY'' '''') in
      rbind (parsed (pr_float P (getenv P ''AI_GATEWAY_TIMEOUT_SECONDS'' ''60''))) (\<lambda>t.
      accepted gateway_settings_valid \<lparr>gs_api_key = (if key = [] then None else Some key), gs_timeout_seconds = t\<rparr>))"

definition deadline_settings_from_environment :: "process \<Rightarrow> exn_class + rat" where
  "deadline_settings_from_environment P =
     rbind (parsed (pr_float P (getenv P ''INFERENCE_DEADLINE_SECONDS'' ''60''))) (accepted deadline_settings_valid)"

definition request_limits_from_environment :: "process \<Rightarrow> exn_class + request_limits" where
  "request_limits_from_environment P =
     rbind (parsed (pr_int P (getenv P ''ROUTELLM_MAX_PROMPT_CHARACTERS'' ''100000''))) (\<lambda>p.
     rbind (parsed (pr_int P (getenv P ''ROUTELLM_MAX_OUTPUT_TOKENS'' ''8192''))) (\<lambda>t.
     accepted request_limits_valid \<lparr>li_max_prompt_characters = p, li_max_output_tokens = t\<rparr>))"

definition observability_settings_from_environment :: "process \<Rightarrow> exn_class + observability_settings" where
  "observability_settings_from_environment P =
     rbind (parsed (pr_bool P (getenv P ''METRICS_ENABLED'' ''false''))) (\<lambda>enabled.
     let token = getenv_nonempty P ''METRICS_BEARER_TOKEN'' in
     if (case token of None \<Rightarrow> False | Some t \<Rightarrow> length t < 32) then Inl ValidationErrorC
     else require_token_when_enabled \<lparr>metrics_enabled = enabled, metrics_bearer_token = token\<rparr>)"

definition rate_limit_settings_from_environment :: "process \<Rightarrow> exn_class + rate_limit_settings" where
  "rate_limit_settings_from_environment P =
     rbind (parsed (pr_bool P (getenv P ''RATE_LIMIT_REQUIRED'' ''false''))) (\<lambda>required.
     rbind (parsed (pr_float P (getenv P ''REDIS_TIMEOUT_SECONDS'' ''0.25''))) (\<lambda>timeout.
     rbind (parsed (pr_int P (getenv P ''RATE_LIMIT_CLIENT_CAPACITY'' ''10''))) (\<lambda>cc.
     rbind (parsed (pr_int P (getenv P ''RATE_LIMIT_CLIENT_WINDOW_SECONDS'' ''60''))) (\<lambda>cw.
     rbind (parsed (pr_int P (getenv P ''RATE_LIMIT_GLOBAL_CAPACITY'' ''100''))) (\<lambda>gc.
     rbind (parsed (pr_int P (getenv P ''RATE_LIMIT_GLOBAL_WINDOW_SECONDS'' ''60''))) (\<lambda>gw.
     rbind (parsed (pr_int P (getenv P ''RATE_LIMIT_EXPLICIT_WEIGHT'' ''1''))) (\<lambda>ew.
     rbind (parsed (pr_int P (getenv P ''RATE_LIMIT_ADAPTIVE_WEIGHT'' ''2''))) (\<lambda>aw.
     RateLimitSettings (pr_urlsplit P)
       \<lparr>rl_required = required, rl_redis_url = getenv_nonempty P ''REDIS_URL'',
        rl_hmac_secret = getenv_nonempty P ''RATE_LIMIT_HMAC_SECRET'', rl_redis_timeout_seconds = timeout,
        rl_client_capacity = cc, rl_client_window_seconds = cw, rl_global_capacity = gc,
        rl_global_window_seconds = gw, rl_explicit_weight = ew, rl_adaptive_weight = aw\<rparr>))))))))"

subsection \<open>Resources\<close>

datatype resource = HttpClient | DatabaseEngine | RedisClient

type_synonym 'a lifecycle = "world \<Rightarrow> (exn + 'a) \<times> world \<times> resource list \<times> resource list"

definition without_resources :: "'a act \<Rightarrow> 'a lifecycle" where
  "without_resources m w = (case m w of (r, w1) \<Rightarrow> (r, w1, [], []))"

text \<open>\<^verbatim>\<open>try: m finally: await r.close()\<close>; an exception of the release wins.\<close>

definition releasing :: "resource \<Rightarrow> exn option \<Rightarrow> 'a lifecycle \<Rightarrow> 'a lifecycle" where
  "releasing r outcome m w =
     (case m w of (x, w1, opened, released) \<Rightarrow>
        ((case outcome of None \<Rightarrow> x | Some e \<Rightarrow> Inl e), w1, r # opened, released @ [r]))"

text \<open>A statement before the body: if it raises, the body does not run.\<close>

definition first_then :: "'b act \<Rightarrow> ('b \<Rightarrow> 'a lifecycle) \<Rightarrow> 'a lifecycle" where
  "first_then m f w = (case m w of (Inl e, w1) \<Rightarrow> (Inl e, w1, [], []) | (Inr b, w1) \<Rightarrow> f b w1)"

subsection \<open>The two services of the lifespan\<close>

definition startup_probe :: "query_repository \<Rightarrow> unit act" where
  "startup_probe queries =
     acatch (abind (answer_of (qr_summary queries)) (\<lambda>_. areturn ()))
       (\<lambda>e. if isinstance e ExceptionC
            then observe_with (emit ''telemetry_startup_probe_failed'' LEVEL_WARNING
              [(''dependency'', Some (LStr ''postgresql'')), (''outcome'', Some (LStr ''unavailable''))])
            else araise e)"

text \<open>The body of the \<^verbatim>\<open>try\<close> of \<^verbatim>\<open>application_service\<close>.\<close>

definition with_telemetry ::
  "process \<Rightarrow> database_settings \<Rightarrow> inference_service \<Rightarrow>
   (inference_service \<Rightarrow> query_repository option \<Rightarrow> 'a lifecycle) \<Rightarrow> 'a lifecycle" where
  "with_telemetry P dbs service body =
     (case ds_url dbs of
        None \<Rightarrow>
          first_then (observe_with (emit ''telemetry_disabled'' LEVEL_WARNING
            [(''dependency'', Some (LStr ''postgresql'')), (''outcome'', Some (LStr ''disabled''))]))
            (\<lambda>_. body service None)
      | Some url \<Rightarrow>
          first_then (lift_result (pr_database P url (ds_telemetry_timeout_seconds dbs))) (\<lambda>(repository, queries).
          releasing DatabaseEngine (pr_close_database P)
            (first_then (startup_probe queries) (\<lambda>_.
             body (service\<lparr>sv_telemetry := Some repository,
                     sv_telemetry_timeout := ds_telemetry_timeout_seconds dbs\<rparr>) (Some queries)))))"

definition application_service ::
  "process \<Rightarrow> (inference_service \<Rightarrow> query_repository option \<Rightarrow> 'a lifecycle) \<Rightarrow> 'a lifecycle" where
  "application_service P body =
     first_then (lift_result
       (rbind (database_settings_from_environment P) (\<lambda>dbs.
        rbind (gateway_settings_from_environment P) (\<lambda>gws.
        rbind (deadline_settings_from_environment P) (\<lambda>seconds. Inr (dbs, gws, seconds))))))
     (\<lambda>(dbs, gws, seconds).
        let client = pr_http_client P gws in
        (\<lambda>w. case rbind (create_development_service seconds)
                   (\<lambda>sv. configure_gateway (vercel_factory (\<lambda>_ :: unit option. client) (Some client)) sv gws) of
                Inl c \<Rightarrow> (Inl (Exn c), w, [HttpClient], [])
              | Inr service \<Rightarrow> releasing HttpClient (pr_close_http P) (with_telemetry P dbs service body) w))"

definition with_rate_limiter :: "process \<Rightarrow> (limiter \<Rightarrow> 'a lifecycle) \<Rightarrow> 'a lifecycle" where
  "with_rate_limiter P body =
     first_then (lift_result (rate_limit_settings_from_environment P)) (\<lambda>s.
       if \<not> rl_required s then body DisabledLimiter
       else if rl_redis_url s = None then without_resources (araise (Exn ValueErrorC))
       else releasing RedisClient (pr_close_redis P)
         (first_then (lift_result (rate_limiter_service s (pr_compressed P) (pr_hmac P) (pr_redis_eval P) (pr_redis_ping P)))
           body))"

definition lifespan ::
  "process \<Rightarrow> env \<Rightarrow> runtime_versions \<Rightarrow> artifact_tools \<Rightarrow> (string \<Rightarrow> artifact_directory) \<Rightarrow>
   app_state \<Rightarrow> (app_state \<Rightarrow> 'a act) \<Rightarrow> 'a lifecycle" where
  "lifespan P E rv tools file_system app serving =
     application_service P (\<lambda>service queries.
     with_rate_limiter P (\<lambda>limiter.
     without_resources (abind (lift_result
       (start_application E rv tools file_system service queries limiter
          (pr_environ P ''ROUTELLM_ADAPTIVE_ARTIFACT_PATH'') (pr_environ P ''ROUTELLM_ADAPTIVE_CANDIDATES'')
          (pr_environ P ''ROUTELLM_DEFAULT_MODEL_ID'') app)) serving)))"

subsection \<open>Nothing stays open\<close>

text \<open>The resources a lifecycle opens are among \<open>R\<close>, each once, and it closes them in reverse.\<close>

definition balanced :: "resource set \<Rightarrow> 'a lifecycle \<Rightarrow> bool" where
  "balanced R m \<longleftrightarrow> (\<forall>w. case m w of (x, w1, opened, released) \<Rightarrow>
     released = rev opened \<and> distinct opened \<and> set opened \<subseteq> R)"

named_theorems balancing \<open>lifecycles that close what they open\<close>

lemma balancedI:
  "(\<And>w x w1 opened released. m w = (x, w1, opened, released)
      \<Longrightarrow> released = rev opened \<and> distinct opened \<and> set opened \<subseteq> R) \<Longrightarrow> balanced R m"
  by (auto simp: balanced_def split: prod.splits)

lemma balancedD: "balanced R m \<Longrightarrow> m w = (x, w1, opened, released)
    \<Longrightarrow> released = rev opened \<and> distinct opened \<and> set opened \<subseteq> R"
  by (auto simp: balanced_def dest!: spec [of _ w])

lemma balanced_without [balancing]: "balanced R (without_resources m)"
  by (rule balancedI) (auto simp: without_resources_def split: prod.splits)

lemma balanced_releasing: "balanced R m \<Longrightarrow> r \<notin> R \<Longrightarrow> balanced (insert r R) (releasing r outcome m)"
  by (rule balancedI) (auto simp: releasing_def split: prod.splits dest: balancedD)

lemma balanced_first [balancing]: "(\<And>b. balanced R (f b)) \<Longrightarrow> balanced R (first_then m f)"
  by (rule balancedI) (auto simp: first_then_def split: prod.splits sum.splits dest: balancedD)

lemma balanced_mono: "balanced R m \<Longrightarrow> R \<subseteq> S \<Longrightarrow> balanced S m"
  by (rule balancedI) (auto dest: balancedD)

lemma balanced_rate_limiter:
  assumes "\<And>l. balanced {} (body l)"
  shows "balanced {RedisClient} (with_rate_limiter P body)"
proof -
  have "balanced {RedisClient} (body l)" for l using assms by (rule balanced_mono) simp
  moreover have "balanced {RedisClient} (releasing RedisClient out (first_then m body))" for out m
    by (rule balanced_releasing) (simp_all add: balanced_first assms)
  ultimately show ?thesis
    unfolding with_rate_limiter_def by (intro balanced_first) (simp add: balanced_without)
qed

lemma balanced_telemetry:
  assumes "\<And>sv q. balanced {RedisClient} (body sv q)"
  shows "balanced {DatabaseEngine, RedisClient} (with_telemetry P dbs service body)"
proof -
  have "balanced {DatabaseEngine, RedisClient} (body sv q)" for sv q using assms by (rule balanced_mono) simp
  moreover have "balanced {DatabaseEngine, RedisClient} (releasing DatabaseEngine out (first_then m (\<lambda>_. body sv q)))"
    for out sv q and m :: "unit act"
    by (rule balanced_releasing) (simp_all add: balanced_first assms)
  ultimately show ?thesis
    unfolding with_telemetry_def by (auto split: option.split intro!: balanced_first)
qed

text \<open>
  The two statements between opening the HTTP client and the \<^verbatim>\<open>try\<close> cannot fail: the
  deadline was validated, and the registry of the offline bootstrap has none of the gateway's
  models.
\<close>

lemma development_service:
  assumes "0 < seconds"
  obtains sv where "create_development_service seconds = Inr sv" "registry_inv (sv_registry sv)"
    "resolver_inv (sv_resolver sv)" "map fst (sv_registry sv) = [''fake-small'', ''fake-large'']"
    "map fst (sv_resolver sv) = [''fake'']" "sv_telemetry sv = None" "sv_inference_deadline_seconds sv = seconds"
proof -
  have fake: "strip ''fake'' = ''fake''" by code_simp
  have "create_development_service seconds = Inr \<lparr>sv_registry = map (\<lambda>m. (mc_model_id m, m)) development_models,
      sv_resolver = [(''fake'', fake_provider)], sv_telemetry = None, sv_telemetry_timeout = 2,
      sv_inference_deadline_seconds = seconds\<rparr>"
    using assms by (simp add: create_development_service_def development_models_def configured_model_def
        registry_register_def empty_registry_def resolver_register_def fake new_inference_service_def)
  then show thesis
    by (rule that) (simp_all add: registry_inv_def resolver_inv_def development_models_def configured_model_def
        is_identifier_def fake)
qed

lemma configured_development_service:
  assumes "0 < seconds"
  shows "\<exists>sv. rbind (create_development_service seconds) (\<lambda>sv. configure_gateway factory sv gws) = Inr sv"
proof -
  obtain sv where sv: "create_development_service seconds = Inr sv" "registry_inv (sv_registry sv)"
      "resolver_inv (sv_resolver sv)" "map fst (sv_registry sv) = [''fake-small'', ''fake-large'']"
      "map fst (sv_resolver sv) = [''fake'']" "sv_telemetry sv = None" "sv_inference_deadline_seconds sv = seconds"
    by (rule development_service [OF assms])
  have keys: "fst ` set (sv_registry sv) = {''fake-small'', ''fake-large''}" "fst ` set (sv_resolver sv) = {''fake''}"
    using arg_cong [OF sv(4), of set] arg_cong [OF sv(5), of set] by simp_all
  have "\<forall>m\<in>set REAL_MODELS. map_of (sv_registry sv) (mc_model_id m) = None"
    by (simp add: map_of_None_keys keys portfolio_defs)
  moreover have "\<not> resolver_supports (sv_resolver sv) ''vercel''" by (simp add: resolver_supports_def keys)
  ultimately show ?thesis using configure_gateway_spec [OF sv(2,3), of factory gws] sv(1) by auto
qed

lemma deadline_from_environment_positive: "deadline_settings_from_environment P = Inr s \<Longrightarrow> 0 < s"
  by (auto simp: deadline_settings_from_environment_def accepted_def deadline_settings_valid_def rbind_eq_Inr
      split: if_splits)

lemma application_service_run:
  assumes "database_settings_from_environment P = Inr dbs" "gateway_settings_from_environment P = Inr gws"
    and "deadline_settings_from_environment P = Inr seconds"
  shows "\<exists>service. rbind (create_development_service seconds) (\<lambda>sv. configure_gateway
      (vercel_factory (\<lambda>_ :: unit option. pr_http_client P gws) (Some (pr_http_client P gws))) sv gws) = Inr service
     \<and> application_service P body = releasing HttpClient (pr_close_http P) (with_telemetry P dbs service body)"
proof -
  obtain service where service: "rbind (create_development_service seconds) (\<lambda>sv. configure_gateway
      (vercel_factory (\<lambda>_ :: unit option. pr_http_client P gws) (Some (pr_http_client P gws))) sv gws) = Inr service"
    using configured_development_service [OF deadline_from_environment_positive [OF assms(3)]] by blast
  then show ?thesis
    by (intro exI [of _ service]) (simp add: application_service_def first_then_def lift_result_def assms Let_def fun_eq_iff)
qed

lemma balanced_application:
  assumes "\<And>sv q. balanced {RedisClient} (body sv q)"
  shows "balanced UNIV (application_service P body)"
proof (cases "\<exists>dbs gws seconds. database_settings_from_environment P = Inr dbs
      \<and> gateway_settings_from_environment P = Inr gws \<and> deadline_settings_from_environment P = Inr seconds")
  case True
  then obtain dbs service where run: "application_service P body
      = releasing HttpClient (pr_close_http P) (with_telemetry P dbs service body)"
    using application_service_run [of P _ _ _ body] by blast
  have "balanced (insert HttpClient {DatabaseEngine, RedisClient}) (application_service P body)"
    unfolding run by (intro balanced_releasing balanced_telemetry assms) simp
  then show ?thesis by (rule balanced_mono) simp
next
  case False
  then have "\<exists>c. application_service P body = (\<lambda>w. (Inl (Exn c), w, [], []))"
    by (auto simp: application_service_def first_then_def lift_result_def rbind_def fun_eq_iff split: sum.splits)
  then show ?thesis by (auto simp: balanced_def)
qed

text \<open>
  Claim C35. Whatever happens between start and stop (invalid settings, an engine that
  cannot be built, an unreachable database, a failing start-up of routing, an exception while
  serving, a failing release), every resource that was opened is closed, in reverse order,
  exactly once.
\<close>

theorem resources_are_released:
  "case lifespan P E rv tools file_system app serving w of (x, w', opened, released) \<Rightarrow>
     released = rev opened \<and> distinct opened"
proof -
  have "balanced UNIV (lifespan P E rv tools file_system app serving)"
    unfolding lifespan_def by (intro balanced_application balanced_rate_limiter balanced_without)
  then show ?thesis by (auto simp: balanced_def split: prod.splits)
qed

text \<open>
  A start with valid settings serves even when telemetry is absent or
  its database does not answer: the body runs with the offline service, or with the service
  that writes to the database under the configured timeout, and has the validated deadline; a
  probe that fails with an ordinary exception changes only the log.
\<close>

theorem telemetry_is_optional:
  assumes config: "database_settings_from_environment P = Inr dbs" "gateway_settings_from_environment P = Inr gws"
      "deadline_settings_from_environment P = Inr seconds"
    and engine: "case ds_url dbs of None \<Rightarrow> True
      | Some url \<Rightarrow> pr_database P url (ds_telemetry_timeout_seconds dbs) = Inr (repository, queries)
          \<and> (case qr_summary queries (w_ix w) of Inl e \<Rightarrow> isinstance e ExceptionC | Inr _ \<Rightarrow> True)"
    and release: "pr_close_http P = None" "pr_close_database P = None"
  shows "\<exists>service w1. sv_telemetry service = (if ds_url dbs = None then None else Some repository)
     \<and> sv_inference_deadline_seconds service = seconds
     \<and> (ds_url dbs \<noteq> None \<longrightarrow> sv_telemetry_timeout service = ds_telemetry_timeout_seconds dbs)
     \<and> w_calls w1 = w_calls w \<and> w_rows w1 = w_rows w
     \<and> fst (application_service P body w) = fst (body service (if ds_url dbs = None then None else Some queries) w1)"
proof -
  obtain service where service: "rbind (create_development_service seconds) (\<lambda>sv. configure_gateway
      (vercel_factory (\<lambda>_ :: unit option. pr_http_client P gws) (Some (pr_http_client P gws))) sv gws) = Inr service"
    and run: "application_service P body = releasing HttpClient (pr_close_http P) (with_telemetry P dbs service body)"
    using application_service_run [OF config, of body] by blast
  obtain sv where "create_development_service seconds = Inr sv" "registry_inv (sv_registry sv)"
      "resolver_inv (sv_resolver sv)" "map fst (sv_registry sv) = [''fake-small'', ''fake-large'']"
      "map fst (sv_resolver sv) = [''fake'']" "sv_telemetry sv = None" "sv_inference_deadline_seconds sv = seconds"
    by (rule development_service [OF deadline_from_environment_positive [OF config(3)]])
  with service have plain: "sv_telemetry service = None" "sv_inference_deadline_seconds service = seconds"
    by (auto simp: configure_gateway_def rbind_eq_Inr split: if_splits)
  have fst_releasing: "fst (releasing r None m w) = fst (m w)" for r and m :: "'a lifecycle"
    by (simp add: releasing_def split: prod.split)
  show ?thesis
  proof (cases "ds_url dbs")
    case None
    then show ?thesis using plain
      by (intro exI [of _ service] exI [of _ "snd (observe_with (emit ''telemetry_disabled'' LEVEL_WARNING
            [(''dependency'', Some (LStr ''postgresql'')), (''outcome'', Some (LStr ''disabled''))]) w)"])
        (simp add: run release fst_releasing with_telemetry_def first_then_def)
  next
    case (Some url)
    define w1 where "w1 = snd (startup_probe queries w)"
    have probe: "startup_probe queries w = (Inr (), w1)" "w_calls w1 = w_calls w" "w_rows w1 = w_rows w"
      using engine Some unfolding w1_def startup_probe_def
      by (auto simp: acatch_def abind_def answer_of_def split: sum.splits)
    then show ?thesis using plain engine Some
      by (intro exI [of _ "service\<lparr>sv_telemetry := Some repository,
            sv_telemetry_timeout := ds_telemetry_timeout_seconds dbs\<rparr>"] exI [of _ w1])
        (simp add: run release fst_releasing with_telemetry_def first_then_def lift_result_def)
  qed
qed

end
