(* ===== verification/Startup_Examples.thy ===== *)
theory Startup_Examples
  imports Startup
begin

section \<open>A start with an unreachable database\<close>

text \<open>
  A process whose only variable is the database URL, with an engine whose probe fails: the
  hypotheses of the start-up theorem hold, and the body runs with the database's repository.
\<close>

definition silent_repository :: telemetry_repository where
  "silent_repository = \<lparr>repo_record = (\<lambda>_ _. None), repo_record_adaptive = None, repo_record_chat = None\<rparr>"

definition broken_queries :: query_repository where
  "broken_queries = \<lparr>qr_summary = (\<lambda>_. Inl (Exn OSErrorC)), qr_list = None\<rparr>"

definition example_process :: process where
  "example_process =
     \<lparr>pr_environ = (\<lambda>name. if name = ''DATABASE_URL'' then Some ''db'' else None),
      pr_float = (\<lambda>s. if s = ''60'' then Some 60 else Some 2), pr_int = (\<lambda>_. Some 1), pr_bool = (\<lambda>_. Some False),
      pr_make_url = (\<lambda>_. Inr \<lparr>du_drivername = ''postgresql+asyncpg'', du_host = Some ''h'', du_database = Some ''d'',
        du_username = Some ''u'', du_port = Some 5432\<rparr>),
      pr_urlsplit = (\<lambda>_. (''redis'', Some ''h'')),
      pr_http_client = (\<lambda>_. \<lparr>hc_post = (\<lambda>_ _ _ _ _. Overrun), hc_started = (\<lambda>_. 0), hc_answered = (\<lambda>_. 0)\<rparr>),
      pr_database = (\<lambda>_ _. Inr (silent_repository, broken_queries)), pr_compressed = (\<lambda>_. None),
      pr_hmac = (\<lambda>_ s. s), pr_redis_eval = (\<lambda>_ _ _ _ _. Inr ReplyOther), pr_redis_ping = (\<lambda>_. Inr True),
      pr_close_http = None, pr_close_database = None, pr_close_redis = None\<rparr>"

lemma example_settings_read:
  "database_settings_from_environment example_process = Inr \<lparr>ds_url = Some ''db'', ds_telemetry_timeout_seconds = 2\<rparr>"
  "gateway_settings_from_environment example_process = Inr \<lparr>gs_api_key = None, gs_timeout_seconds = 60\<rparr>"
  "deadline_settings_from_environment example_process = Inr 60"
  by (simp_all add: database_settings_from_environment_def gateway_settings_from_environment_def
      deadline_settings_from_environment_def example_process_def validate_url_def url_ok_def absent_def parsed_def
      getenv_def accepted_def gateway_settings_valid_def deadline_settings_valid_def)

theorem telemetry_is_optional_witness:
  "fst (application_service example_process (\<lambda>sv q. without_resources (areturn (sv_telemetry_timeout sv))) initial_world)
     = Inr 2"
proof -
  have engine: "case ds_url \<lparr>ds_url = Some ''db'', ds_telemetry_timeout_seconds = 2\<rparr> of None \<Rightarrow> True
      | Some url \<Rightarrow> pr_database example_process url
            (ds_telemetry_timeout_seconds \<lparr>ds_url = Some ''db'', ds_telemetry_timeout_seconds = 2\<rparr>)
          = Inr (silent_repository, broken_queries)
        \<and> (case qr_summary broken_queries (w_ix initial_world) of Inl e \<Rightarrow> isinstance e ExceptionC | Inr _ \<Rightarrow> True)"
    by (simp add: example_process_def broken_queries_def isinstance_def issubclass_eval)
  have release: "pr_close_http example_process = None" "pr_close_database example_process = None"
    by (simp_all add: example_process_def)
  show ?thesis
    using telemetry_is_optional [OF example_settings_read engine release,
        of "\<lambda>sv q. without_resources (areturn (sv_telemetry_timeout sv))"]
    by (auto simp: without_resources_def)
qed

end
