(* ===== verification/Vercel_Examples.thy ===== *)
theory Vercel_Examples
  imports Vercel Service_Examples
begin

section \<open>The gateway adapter on concrete answers\<close>

text \<open>
  A client that always gives one answer, and the answers of a completion, of a completion cut
  off at the token limit, and of a refused request. The lemmas show that the hypotheses of the
  adapter's theorems hold together.
\<close>

definition example_settings :: gateway_settings where
  "example_settings = \<lparr>gs_api_key = Some ''key'', gs_timeout_seconds = 60\<rparr>"

definition example_model :: model_config where
  "example_model = configured_model ''gateway-mini'' ''vercel'' ''openai/gpt-4.1-mini'' (cents 40) (cents 160) 1047576
     (capabilities_with True True RB_UNSUPPORTED) None"

definition example_request :: inference_request where
  "example_request = \<lparr>rq_prompt = ''hi'', rq_system_prompt = None, rq_max_output_tokens = 5, rq_temperature = 0\<rparr>"

definition answering :: "post_outcome \<Rightarrow> http_client" where
  "answering outcome = \<lparr>hc_post = (\<lambda>_ _ _ _ _. outcome), hc_started = (\<lambda>_. 1), hc_answered = (\<lambda>_. 2)\<rparr>"

definition completion_body :: "string \<Rightarrow> string \<Rightarrow> pyj" where
  "completion_body content finish =
     PDict [(''choices'', PList [PDict [(''finish_reason'', PStr finish),
              (''message'', PDict [(''content'', PStr content)])]]),
            (''usage'', PDict [(''prompt_tokens'', PInt 3), (''completion_tokens'', PInt 2)])]"

definition answer :: "int \<Rightarrow> pyj \<Rightarrow> http_client" where
  "answer status body = answering (Answered \<lparr>hx_status_code = status,
     hx_headers = (\<lambda>k. if k = ''x-request-id'' then Some ''req-1'' else None), hx_json = Inr body\<rparr>)"

lemmas example_defs = example_settings_def example_model_def example_request_def answering_def answer_def
  completion_body_def configured_model_def capabilities_with_def

lemma example_member: "example_model \<in> set REAL_MODELS"
  by (simp add: example_model_def REAL_MODELS_def LEGACY_MODELS_def)

lemma example_model_ok: "model_config_valid example_model" "priced example_model"
    "map_of UPSTREAM_PROVIDERS (mc_provider_model_name example_model) = Some ''openai''"
proof -
  have member: "example_model \<in> set SEMANTIC_JUDGE_MODELS" using example_member by (simp add: SEMANTIC_JUDGE_MODELS_def)
  show "model_config_valid example_model" "priced example_model"
    using member portfolio_valid portfolio_priced by (simp_all add: list_all_iff)
  show "map_of UPSTREAM_PROVIDERS (mc_provider_model_name example_model) = Some ''openai''"
    by (simp add: UPSTREAM_PROVIDERS_def example_defs)
qed

lemma small_json_int: "n \<le> 10 \<Longrightarrow> n \<le> max_json_int"
proof -
  have "(10::int) ^ 1 \<le> max_json_int"
    unfolding max_json_int_def by (rule power_increasing) simp_all
  then show "n \<le> 10 \<Longrightarrow> n \<le> max_json_int" by simp
qed

lemma small_json_int_less: "n < 10 \<Longrightarrow> n < max_json_int"
  using small_json_int [of "n + 1"] by simp

lemma example_cost: "\<exists>d. calculate_cost 3 2 example_model = Inr d"
  by (rule priced_total [OF example_model_ok(2)]) (simp_all add: small_json_int_less)

lemma example_documented: "client_documented (answer status (completion_body content finish))"
  by (simp add: client_documented_def answer_def answering_def completion_body_def jget_def small_json_int_less)

lemma example_identity: "mc_model_id example_model = ''gateway-mini''" "mc_provider example_model = ''vercel''"
  by (simp_all add: example_model_def configured_model_def)

lemma example_post:
  "mc_enabled example_model" "gs_api_key example_settings = Some ''key''" "strip ''key'' \<noteq> []"
  "\<exists>payload. chat_payload example_model ''openai'' example_request = Some payload"
  "rq_max_output_tokens example_request = 5"
  using chat_payload_defined [OF example_model_ok(1)]
  by (simp_all add: example_defs strip_def isspace_def)

lemma example_generate:
  "vercel_generate example_model example_settings (answer 200 body) i budget example_request t =
     rbind (read_answer example_model 5 1000 \<lparr>hx_status_code = 200,
       hx_headers = (\<lambda>k. if k = ''x-request-id'' then Some ''req-1'' else None), hx_json = Inr body\<rparr>) (\<lambda>r. Inr (Reply r))"
proof -
  obtain payload where "chat_payload example_model ''openai'' example_request = Some payload" using example_post(4) by blast
  then show ?thesis
    using example_post example_model_ok
    by (simp add: vercel_generate_def answer_def answering_def is_success_def)
qed

lemma example_accepted:
  "\<exists>r. vercel_generate example_model example_settings (answer 200 (completion_body ''Hello'' ''stop''))
       i budget example_request t = Inr (Reply r) \<and> rs_text r = ''Hello''"
proof -
  obtain d where "calculate_cost 3 2 example_model = Inr d" using example_cost by blast
  then show ?thesis
    by (simp add: example_generate read_answer_def lift_exn_def read_body_def read_choice_def jkey_def jfirst_def
        completion_body_def read_usage_def jget_def usage_counts_def completion_of_def Let_def termination_of_def
        safe_value_def safe_label_def ascii_alnum_def py_or_def lower_def lower_char_def
        inference_response_valid_def is_identifier_def token_count_def example_identity
        strip_def isspace_def accept_completion_def)
qed

lemma example_cut_off:
  "\<exists>r d. vercel_generate example_model example_settings (answer 200 (completion_body ''Hello'' ''length''))
       i budget example_request t = Inl (CompletionRejected OUTPUT_BUDGET_EXHAUSTION r d) \<and> rs_text r = ''Hello''"
proof -
  obtain d where "calculate_cost 3 2 example_model = Inr d" using example_cost by blast
  then show ?thesis
    by (simp add: example_generate read_answer_def lift_exn_def read_body_def read_choice_def jkey_def jfirst_def
        completion_body_def read_usage_def jget_def usage_counts_def completion_of_def Let_def termination_of_def
        safe_value_def safe_label_def ascii_alnum_def py_or_def lower_def lower_char_def
        inference_response_valid_def is_identifier_def token_count_def example_identity
        strip_def isspace_def accept_completion_def completion_rejected_error_def isinstance_def issubclass_eval)
qed

theorem vercel_completions_are_faithful_witness:
  "\<exists>r h. vercel_generate example_model example_settings (answer 200 (completion_body ''Hello'' ''stop''))
       0 10 example_request 5 = Inr (Reply r) \<and> is_success h \<and> describes example_model h r \<and> rs_text r = ''Hello''"
proof -
  obtain r where r: "vercel_generate example_model example_settings (answer 200 (completion_body ''Hello'' ''stop''))
       0 10 example_request 5 = Inr (Reply r)" "rs_text r = ''Hello''"
    using example_accepted by blast
  then show ?thesis using vercel_completions_are_faithful [OF r(1)] by auto
qed


theorem vercel_diagnostics_are_safe_witness:
  "\<exists>r d. vercel_generate example_model example_settings (answer 200 (completion_body ''Hello'' ''length''))
       0 10 example_request 5 = Inl (CompletionRejected OUTPUT_BUDGET_EXHAUSTION r d) \<and> safe_diagnostics d"
proof -
  obtain r d where run: "vercel_generate example_model example_settings (answer 200 (completion_body ''Hello'' ''length''))
       0 10 example_request 5 = Inl (CompletionRejected OUTPUT_BUDGET_EXHAUSTION r d)"
    using example_cut_off by blast
  show ?thesis
    using vercel_diagnostics_are_safe [OF example_documented example_model_ok(2,1) _ run disjI2 [OF refl]]
      example_model_ok(3) run
    by auto
qed

theorem payload_is_pinned_witness:
  "\<exists>fields. chat_payload example_model ''openai'' example_request = Some (PDict fields)
     \<and> map_of fields ''model'' = Some (PStr ''openai/gpt-4.1-mini'')"
  using payload_is_pinned [OF example_model_ok(1), of "''openai''" example_request]
  by (auto simp: example_model_def configured_model_def)

theorem configured_gateway_serves_the_portfolio_witness:
  "\<exists>sv' p. configure_gateway (vercel_factory (\<lambda>_::unit option. answer 200 PNull) (Some (answer 200 PNull)))
      (sample_service steady_adapter None) example_settings = Inr sv'
     \<and> resolver_resolve (sv_resolver sv') example_model = Inr p
     \<and> serves example_settings (answer 200 PNull) example_model p"
proof -
  let ?sv = "sample_service steady_adapter None" and ?client = "answer 200 PNull"
  let ?factory = "vercel_factory (\<lambda>_::unit option. ?client) (Some ?client)"
  have inv: "resolver_inv (sv_resolver ?sv)"
    using Identifier_idem [of "''fake''"]
    by (simp add: resolver_inv_def sample_service_def) code_simp
  have "\<forall>m\<in>set REAL_MODELS. map_of (sv_registry ?sv) (mc_model_id m) = None"
    by (simp add: sample_service_def portfolio_defs)
  moreover have "\<not> resolver_supports (sv_resolver ?sv) ''vercel''"
    by (simp add: resolver_supports_def sample_service_def)
  ultimately obtain sv' where run: "configure_gateway ?factory ?sv example_settings = Inr sv'"
    using configure_gateway_spec [OF sample_registry_inv inv] by blast
  have key: "gs_api_key example_settings \<noteq> None" by (simp add: example_settings_def)
  show ?thesis
    using configured_gateway_serves_the_portfolio [OF run key sample_registry_inv inv example_member] run by blast
qed

end
