(* ===== verification/Spec2Isabelle.thy ===== *)
theory Spec2Isabelle
  imports Api_Examples Benchmark_Examples Json_Depth Startup_Examples Vercel_Examples
begin

text \<open>
  A verification development of the adaptive LLM gateway, the Python package
  \<^verbatim>\<open>src/src/adaptive_llm_gateway\<close>. File names below are relative to it. The
  definitions are translations of the code; the theorems state what makes each part correct.

  \<^bold>\<open>The program.\<close> The gateway answers prompts with one of several configured models. An HTTP
  interface (\<^verbatim>\<open>api/\<close>) checks a request's limits, asks a rate limiter for admission
  (\<^verbatim>\<open>rate_limit.py\<close>) and hands the request to one of three services:
  \<^verbatim>\<open>application/service.py\<close> calls the one model the caller names,
  \<^verbatim>\<open>application/adaptive.py\<close> lets a routing decision choose
  (\<^verbatim>\<open>routing/\<close>: features, a trusted predictor, a cost-aware policy), validates the
  answer (\<^verbatim>\<open>validation/\<close>) and escalates to other models, and
  \<^verbatim>\<open>application/chat.py\<close> offers both behind one chat operation. A model is reached
  through a provider adapter (\<^verbatim>\<open>providers/vercel.py\<close>); its use is priced exactly
  (\<^verbatim>\<open>pricing/\<close>). Every outcome leaves telemetry rows (\<^verbatim>\<open>telemetry/\<close>,
  \<^verbatim>\<open>persistence/\<close>) and metrics (\<^verbatim>\<open>observability.py\<close>), all within one deadline
  per request (\<^verbatim>\<open>request_deadline.py\<close>). \<^verbatim>\<open>runtime.py\<close> and \<^verbatim>\<open>bootstrap.py\<close>
  build and take down the application. Offline, \<^verbatim>\<open>benchmarks/\<close> runs every task of a
  data set on every selected model and \<^verbatim>\<open>evaluation/\<close> scores the stored runs:
  deterministic evaluators, a container for generated code, model judges for summaries, an
  aggregation and a repository of files.

  \<^bold>\<open>Foundations.\<close>
  \<^item> \<open>Prelude\<close>: results as sums (\<open>rbind\<close>, \<open>mapM\<close>), dicts as association lists, string
    functions. \<open>Errors\<close>: the exception classes with their bases (\<^verbatim>\<open>errors.py\<close>).
  \<^item> \<open>Decimal_Arith\<close>, \<open>Py_Float\<close>, \<open>Float_Arith\<close>: Python's \<^verbatim>\<open>decimal\<close> contexts, the
    conversion to doubles, the double operations and the compensated \<^verbatim>\<open>sum\<close> of floats;
    \<open>Py_Json\<close>, \<open>Py_Regex\<close>: JSON values, the regular expressions the code uses.
  \<^item> \<open>Schemas\<close> (\<^verbatim>\<open>models/schemas.py\<close>), \<open>Telemetry\<close>
    (\<^verbatim>\<open>telemetry/contracts.py\<close>), \<open>Runtime\<close> (\<^verbatim>\<open>request_deadline.py\<close>): records,
    validators, the deadline. A request runs in a \<open>world\<close>: clock ticks, rows, metrics, events
    and the calls made so far; an action maps a world to a result or exception and a world.
    \<open>Frames\<close>, \<open>Call_Trace\<close>, \<open>Adaptive_Frames\<close>, \<open>Api_Frames\<close>: locales for what an action
    leaves alone, interpreted for rows, metrics and calls.

  \<^bold>\<open>Serving.\<close>
  \<^item> \<open>Registry\<close> (\<^verbatim>\<open>registry/\<close>, \<^verbatim>\<open>providers/resolver.py\<close>): both catalogs, as two
    interpretations of one locale. \<open>Pricing\<close>, \<open>Portfolio\<close> (\<^verbatim>\<open>providers/gateway_config.py\<close>,
    \<^verbatim>\<open>providers/fake.py\<close>, \<^verbatim>\<open>bootstrap.py\<close>).
  \<^item> \<open>Vercel\<close> (\<^verbatim>\<open>providers/vercel.py\<close>): payload, time limits, status table, reading of
    answers, diagnostics; completions are faithful, failures normalized, diagnostics harmless.
  \<^item> \<open>Observability\<close>, \<open>Telemetry_Sink\<close>, \<open>Inference_Service\<close>: one explicit model call; a returned
    response comes from one call of the enabled model it names, every failure is an announced
    one, each leaves its row.
  \<^item> \<open>Json\<close>, \<open>Json_Depth\<close>, \<open>Validation\<close> (\<^verbatim>\<open>validation/\<close>): the JSON decoder with its hooks,
    the bracket scan that bounds its depth, contracts and the validator, which is equivalent to
    a declarative contract.
  \<^item> \<open>Features\<close>, \<open>Governance\<close>, \<open>Quality_Features\<close>, \<open>Predictor\<close>, \<open>Policy\<close>, \<open>Routing_Service\<close>
    (\<^verbatim>\<open>routing/\<close>): extraction, training and serving features agree, only a checked
    artifact becomes a predictor, the policy implements the specification ``cheapest qualifying
    candidate, else the fallback'' whatever the order of candidates.
  \<^item> \<open>Adaptive\<close>, \<open>Adaptive_Accounting\<close> (\<^verbatim>\<open>application/adaptive.py\<close>): the validated loop calls
    at most three models, each once; what it returns passed the validator; how every end is
    accounted for. \<open>Chat\<close> (\<^verbatim>\<open>application/chat.py\<close>): one activity row per request, with the
    exceptions stated.
  \<^item> \<open>Rate_Limit\<close> (\<^verbatim>\<open>rate_limit.py\<close>): the admission script over the Redis commands it uses
    (locale \<open>redis\<close>, interpreted on a store); reachable stores never overdraw a window, the
    script refines a specification of sliding windows, waiting as told is enough.
  \<^item> \<open>Cursor\<close>, \<open>Cursor_Texts\<close>, \<open>Activity\<close>, \<open>Persistence\<close> (\<^verbatim>\<open>telemetry/query.py\<close>,
    \<^verbatim>\<open>persistence/\<close>): table constraints, the cursor round trip, pagination terminates and
    yields every row once.
  \<^item> \<open>Api_Errors\<close>, \<open>Api\<close>, \<open>Api_Properties\<close> (\<^verbatim>\<open>api/\<close>): middleware, error table,
    endpoints; every request is counted once, answers are documented, paid calls are admitted,
    the metrics need the token. \<open>Startup\<close> (\<^verbatim>\<open>runtime.py\<close>, settings): what is opened is
    released in reverse order, however the application ends.

  \<^bold>\<open>Evaluation.\<close>
  \<^item> \<open>Benchmark_Runner\<close> (\<^verbatim>\<open>benchmarks/runner.py\<close>, \<^verbatim>\<open>benchmarks/repository.py\<close>): the
    run over an inference service of its own and a store whose operations may fail; at most one
    paid call is without its stored result, and what a completed run stores is what the
    evaluation loads.
  \<^item> \<open>Eval_Text\<close> (\<^verbatim>\<open>evaluation/normalization.py\<close>), \<open>Evaluation_Data\<close>
    (\<^verbatim>\<open>benchmarks/models.py\<close>, \<^verbatim>\<open>evaluation/models.py\<close>), \<open>Evaluators\<close>,
    \<open>Evaluator_Scores\<close> (\<^verbatim>\<open>evaluation/evaluators.py\<close>): every score, rounded as the code
    rounds it, lies between 0 and 1, so the clipping and the validators change nothing.
  \<^item> \<open>Sandbox\<close> (\<^verbatim>\<open>evaluation/sandbox.py\<close>): the program inside the container and the
    process handling outside; the verdict is exact, containers are removed.
  \<^item> \<open>Propositions\<close>, \<open>Judging\<close> (\<^verbatim>\<open>benchmarks/summarization_spec.py\<close>,
    \<^verbatim>\<open>evaluation/hybrid_judge.py\<close>, \<^verbatim>\<open>evaluation/judge.py\<close>): coverage in exact
    fractions, the check of a rubric as a declarative contract, what a judge's result says.
  \<^item> \<open>Aggregation\<close>, \<open>Eval_Service\<close>, \<open>Eval_Properties\<close> (\<^verbatim>\<open>evaluation/aggregation.py\<close>,
    \<^verbatim>\<open>service.py\<close>, \<^verbatim>\<open>repository.py\<close>): loaded runs are complete, a run yields one
    valid evaluation per result, when a summary is accepted, which answer ends a whole run,
    counts add up, and saving refines writing whole documents one after the other.

  The theories named \<open>_Examples\<close> apply the theorems to concrete states.

  \<^bold>\<open>Bounds.\<close> The JSON decoder carries fuel; \<open>2 * length text + 2\<close> units are proved to be enough,
  so running out is never a result. Other recursions are structural or have a measure (the
  pagination, over the rows still ahead). Python integers are \<open>int\<close>; decimals keep the context's
  precision and exponent range; floats are rationals rounded to doubles where the code computes
  with them, for results in the range of normal numbers.

  \<^bold>\<open>Parameters.\<close> Code that is not in the repository is an argument: model providers, the HTTP
  client, Redis commands, the database, Docker and processes, \<^verbatim>\<open>ast\<close>, \<^verbatim>\<open>pickle\<close>,
  \<^verbatim>\<open>sha256\<close>, scikit-learn, \<^verbatim>\<open>json.dumps\<close>, Pydantic's coercions, clocks and
  identifiers. What the code relies on of them is a named hypothesis, with an instance for which it
  holds.

  \<^bold>\<open>Not modelled.\<close> Texts range over the 256 characters of \<open>char\<close>, so Unicode beyond Latin-1 is
  out of reach. Also left out are FastAPI's route matching and body parsing, the OpenAPI
  metadata, the rendering of Prometheus texts, engine creation, migrations, the descriptive
  configuration dicts of the evaluation and time stamps nobody reads; the offline tools: benchmark
  command line and audits, data sets and exports, reports over stored evaluations, the
  category detector, and the analysis, calibration and training scripts, whose content is numerical library code; and
  concurrency between requests, except for the rate limiter, where admissions are sequences of
  atomic script runs.
\<close>

end
